(* ===== verification/Prelude.thy ===== *)
theory Prelude
  imports Main
begin

text \<open>
  Shared vocabulary of the development: the Python exceptions the modelled code raises or lets
  escape, the result type \<open>'a res\<close> of a call that may raise, sequencing of such calls, and
  generic list lemmas.

  A call that raises is \<open>Inl e\<close>; a call that returns is \<open>Inr v\<close>. The human-readable message of
  an exception is not part of the model; the exception class is, and the position where the source
  stores one. Two outcomes are the model's own: \<open>UnmodelledCodePoint\<close> where a string escape
  denotes a character above code point 255, and \<open>OutOfFuel\<close> where a parser runs out of the fuel it
  is given (which the parsers' theories show never to happen).
\<close>

section \<open>Collections of facts\<close>

named_theorems res_simps \<open>rewriting of sequenced calls that may raise\<close>
named_theorems wf_intros \<open>introduction rules of the well-formedness invariants\<close>

section \<open>Exceptions and results\<close>

datatype exn =
    PredicateSyntaxError nat
  | PredicateSemanticError
  | TraceRuleError
  | EvaluationError
  | ConditionError nat
  | UnsupportedSelectorError
  | JudgmentError
  | IllegalTransition
  | TypeError
  | ValueError
  | KeyError
  | AttributeError
  | ZeroDivisionError
  | IndexError
  | OverflowError
  | AssertionError
  | WorkflowError string
  | EngineError
  | ProjectNotEvaluableError
  | TierViolationError
  | RunAlreadyTerminalError
  | IntegrityError
  | WorkerStopping
  | UnmodelledCodePoint
  | OutOfFuel

type_synonym 'a res = "exn + 'a"

text \<open>The workflow errors (\<open>contracts.py\<close>) carry their code, which names the subclass.\<close>

abbreviation NotFound :: exn where
  "NotFound \<equiv> WorkflowError ''not_found''"

text \<open>The classes an \<open>except\<close> clause names, with their subclasses.\<close>

fun is_predicate_error :: "exn \<Rightarrow> bool" where
  "is_predicate_error (PredicateSyntaxError _) = True"
| "is_predicate_error PredicateSemanticError = True"
| "is_predicate_error _ = False"

fun is_evaluation_error :: "exn \<Rightarrow> bool" where
  "is_evaluation_error EvaluationError = True"
| "is_evaluation_error (ConditionError _) = True"
| "is_evaluation_error UnsupportedSelectorError = True"
| "is_evaluation_error _ = False"

definition bind_res :: "'a res \<Rightarrow> ('a \<Rightarrow> 'b res) \<Rightarrow> 'b res" where
  "bind_res m f = (case m of Inl e \<Rightarrow> Inl e | Inr x \<Rightarrow> f x)"

lemma bind_res_simps [simp, res_simps]:
  "bind_res (Inl e) f = Inl e"
  "bind_res (Inr x) f = f x"
  by (simp_all add: bind_res_def)

lemma bind_res_cong [fundef_cong]:
  "m = m' \<Longrightarrow> (\<And>x. m' = Inr x \<Longrightarrow> f x = g x) \<Longrightarrow> bind_res m f = bind_res m' g"
  by (cases m') simp_all

lemma bind_res_Inr_iff [res_simps]:
  "bind_res m f = Inr y \<longleftrightarrow> (\<exists>x. m = Inr x \<and> f x = Inr y)"
  by (cases m) simp_all

lemma bind_res_Inl_iff:
  "bind_res m f = Inl e \<longleftrightarrow> m = Inl e \<or> (\<exists>x. m = Inr x \<and> f x = Inl e)"
  by (cases m) simp_all

lemma bind_res_InrE:
  assumes "bind_res m f = Inr y"
  obtains x where "m = Inr x" "f x = Inr y"
  using assms by (auto simp: bind_res_Inr_iff)

text \<open>A guard: raise unless the condition holds.\<close>

definition ensure :: "bool \<Rightarrow> exn \<Rightarrow> unit res" where
  "ensure b e = (if b then Inr () else Inl e)"

lemma ensure_simps [simp]:
  "ensure True e = Inr ()"
  "ensure False e = Inl e"
  by (simp_all add: ensure_def)

lemma ensure_Inr_iff [res_simps]: "ensure b e = Inr u \<longleftrightarrow> b"
  by (simp add: ensure_def)

lemma ensure_Inl_iff: "ensure b e = Inl e' \<longleftrightarrow> \<not> b \<and> e' = e"
  by (auto simp: ensure_def)

text \<open>Existence of a result, decided by evaluation.\<close>

definition returns :: "'a res \<Rightarrow> bool" where
  "returns r = (case r of Inl e \<Rightarrow> False | Inr x \<Rightarrow> True)"

lemma returnsE:
  assumes "returns r"
  obtains x where "r = Inr x"
  using assms by (cases r) (auto simp: returns_def)

text \<open>Stateful calls: the outcome and the state they leave, which an exception does not undo.\<close>

definition bind_w :: "'a res \<times> 's \<Rightarrow> ('a \<Rightarrow> 's \<Rightarrow> 'b res \<times> 's) \<Rightarrow> 'b res \<times> 's" where
  "bind_w m f = (case m of (Inl e, s) \<Rightarrow> (Inl e, s) | (Inr x, s) \<Rightarrow> f x s)"

lemma bind_w_simps [simp]:
  "bind_w (Inl e, s) f = (Inl e, s)"
  "bind_w (Inr x, s) f = f x s"
  by (simp_all add: bind_w_def)

lemma bind_w_Inl:
  assumes "bind_w m f = (Inl e, s')"
  obtains "m = (Inl e, s')" | x s where "m = (Inr x, s)" "f x s = (Inl e, s')"
  using assms by (cases m; cases "fst m") auto

lemma bind_w_Inr:
  assumes "bind_w m f = (Inr y, s')"
  obtains x s where "m = (Inr x, s)" "f x s = (Inr y, s')"
  using assms by (cases m; cases "fst m") auto

fun each_w :: "('a \<Rightarrow> 's \<Rightarrow> unit res \<times> 's) \<Rightarrow> 'a list \<Rightarrow> 's \<Rightarrow> unit res \<times> 's" where
  "each_w f [] s = (Inr (), s)"
| "each_w f (x # xs) s = bind_w (f x s) (\<lambda>_. each_w f xs)"

fun map_w :: "('a \<Rightarrow> 's \<Rightarrow> 'b res \<times> 's) \<Rightarrow> 'a list \<Rightarrow> 's \<Rightarrow> 'b list res \<times> 's" where
  "map_w f [] s = (Inr [], s)"
| "map_w f (x # xs) s = bind_w (f x s) (\<lambda>y s. bind_w (map_w f xs s) (\<lambda>ys s. (Inr (y # ys), s)))"

text \<open>What a stateful call may do to the state, as a preorder, also when it raises.\<close>

locale state_order =
  fixes evo :: "'s \<Rightarrow> 's \<Rightarrow> bool"
  assumes evo_refl: "evo s s"
    and evo_trans: "evo s t \<Longrightarrow> evo t u \<Longrightarrow> evo s u"
begin

lemma bind:
  assumes "evo s (snd m)" and "\<And>x t. m = (Inr x, t) \<Longrightarrow> evo s t \<Longrightarrow> evo t (snd (f x t))"
  shows "evo s (snd (bind_w m f))"
  using assms evo_trans by (cases m; cases "fst m") fastforce+

lemma each: "(\<And>x t. x \<in> set xs \<Longrightarrow> evo t (snd (f x t))) \<Longrightarrow> evo s (snd (each_w f xs s))"
proof (induction xs arbitrary: s)
  case (Cons x xs)
  have IH: "evo t (snd (each_w f xs t))" for t
    by (rule Cons.IH) (simp add: Cons.prems)
  show ?case unfolding each_w.simps by (rule bind) (simp_all add: Cons.prems IH)
qed (simp add: evo_refl)

lemma map: "(\<And>x t. x \<in> set xs \<Longrightarrow> evo t (snd (f x t))) \<Longrightarrow> evo s (snd (map_w f xs s))"
proof (induction xs arbitrary: s)
  case (Cons x xs)
  have IH: "evo t (snd (map_w f xs t))" for t
    by (rule Cons.IH) (simp add: Cons.prems)
  show ?case unfolding map_w.simps
    by (rule bind, simp add: Cons.prems, rule bind) (simp_all add: IH evo_refl)
qed (simp add: evo_refl)

end

section \<open>Loops over lists of calls\<close>

text \<open>A list comprehension whose element expression may raise stops at the first exception.\<close>

fun traverse :: "('a \<Rightarrow> 'b res) \<Rightarrow> 'a list \<Rightarrow> 'b list res" where
  "traverse f [] = Inr []"
| "traverse f (x # xs) = bind_res (f x) (\<lambda>y. bind_res (traverse f xs) (\<lambda>ys. Inr (y # ys)))"

lemma traverse_cong [fundef_cong]:
  "xs = ys \<Longrightarrow> (\<And>x. x \<in> set ys \<Longrightarrow> f x = g x) \<Longrightarrow> traverse f xs = traverse g ys"
  by (induction ys arbitrary: xs) auto

lemma traverse_Inr_iff: "traverse f xs = Inr ys \<longleftrightarrow> list_all2 (\<lambda>x y. f x = Inr y) xs ys"
  by (induction xs arbitrary: ys) (auto simp: bind_res_Inr_iff list_all2_Cons1)

lemma traverse_length: "traverse f xs = Inr ys \<Longrightarrow> length ys = length xs"
  by (auto simp: traverse_Inr_iff dest: list_all2_lengthD)

lemma traverse_set: "traverse f xs = Inr ys \<Longrightarrow> y \<in> set ys \<Longrightarrow> \<exists>x\<in>set xs. f x = Inr y"
  by (fastforce simp: traverse_Inr_iff list_all2_conv_all_nth in_set_conv_nth)

lemma traverse_Inl: "traverse f xs = Inl e \<Longrightarrow> \<exists>x\<in>set xs. f x = Inl e"
  by (induction xs) (auto simp: bind_res_Inl_iff)

lemma traverse_total: "(\<And>x. x \<in> set xs \<Longrightarrow> f x = Inr (g x)) \<Longrightarrow> traverse f xs = Inr (map g xs)"
  by (induction xs) auto

lemma traverse_ex: "(\<And>x. x \<in> set xs \<Longrightarrow> \<exists>y. f x = Inr y) \<Longrightarrow> \<exists>ys. traverse f xs = Inr ys"
  by (induction xs) (auto simp: bind_res_Inr_iff)

text \<open>
  \<open>all(p(x) for x in xs)\<close> and \<open>any(p(x) for x in xs)\<close> stop at the first deciding element, so a
  later element cannot raise; a filtering loop evaluates its condition on every element.
\<close>

fun all_res :: "('a \<Rightarrow> bool res) \<Rightarrow> 'a list \<Rightarrow> bool res" where
  "all_res p [] = Inr True"
| "all_res p (x # xs) = bind_res (p x) (\<lambda>b. if b then all_res p xs else Inr False)"

fun any_res :: "('a \<Rightarrow> bool res) \<Rightarrow> 'a list \<Rightarrow> bool res" where
  "any_res p [] = Inr False"
| "any_res p (x # xs) = bind_res (p x) (\<lambda>b. if b then Inr True else any_res p xs)"

fun filter_res :: "('a \<Rightarrow> bool res) \<Rightarrow> 'a list \<Rightarrow> 'a list res" where
  "filter_res p [] = Inr []"
| "filter_res p (x # xs) =
     bind_res (p x) (\<lambda>b. bind_res (filter_res p xs) (\<lambda>ys. Inr (if b then x # ys else ys)))"

lemma all_res_cong [fundef_cong]:
  "xs = ys \<Longrightarrow> (\<And>x. x \<in> set ys \<Longrightarrow> f x = g x) \<Longrightarrow> all_res f xs = all_res g ys"
  by (induction ys arbitrary: xs) (auto intro: bind_res_cong)

lemma any_res_cong [fundef_cong]:
  "xs = ys \<Longrightarrow> (\<And>x. x \<in> set ys \<Longrightarrow> f x = g x) \<Longrightarrow> any_res f xs = any_res g ys"
  by (induction ys arbitrary: xs) (auto intro: bind_res_cong)

lemma all_res_pure [simp]: "all_res (\<lambda>x. Inr (p x)) xs = Inr (list_all p xs)"
  by (induction xs) auto

lemma any_res_pure [simp]: "any_res (\<lambda>x. Inr (p x)) xs = Inr (list_ex p xs)"
  by (induction xs) auto

lemma all_res_InrTrue: "all_res p xs = Inr True \<longleftrightarrow> (\<forall>x\<in>set xs. p x = Inr True)"
  by (induction xs) (auto simp: bind_res_Inr_iff split: if_splits)

lemma all_res_Inl: "all_res p xs = Inl e \<Longrightarrow> \<exists>x\<in>set xs. p x = Inl e"
  by (induction xs) (auto simp: bind_res_Inl_iff split: if_splits)

lemma any_res_Inl: "any_res p xs = Inl e \<Longrightarrow> \<exists>x\<in>set xs. p x = Inl e"
  by (induction xs) (auto simp: bind_res_Inl_iff split: if_splits)

lemma filter_res_Inr: "filter_res p xs = Inr ys \<Longrightarrow> ys = filter (\<lambda>x. p x = Inr True) xs"
  by (induction xs arbitrary: ys) (auto simp: bind_res_Inr_iff)

lemma filter_res_Inr_all: "filter_res p xs = Inr ys \<Longrightarrow> x \<in> set xs \<Longrightarrow> \<exists>b. p x = Inr b"
  by (induction xs arbitrary: ys) (auto simp: bind_res_Inr_iff)

lemma filter_res_Inl: "filter_res p xs = Inl e \<Longrightarrow> \<exists>x\<in>set xs. p x = Inl e"
  by (induction xs) (auto simp: bind_res_Inl_iff)

lemma filter_res_total:
  "(\<And>x. x \<in> set xs \<Longrightarrow> p x = Inr (q x)) \<Longrightarrow> filter_res p xs = Inr (filter q xs)"
  by (induction xs) auto

lemma filter_res_ex: "(\<And>x. x \<in> set xs \<Longrightarrow> \<exists>b. p x = Inr b) \<Longrightarrow> \<exists>ys. filter_res p xs = Inr ys"
proof (induction xs)
  case (Cons x xs)
  then obtain b ys where "p x = Inr b" "filter_res p xs = Inr ys" by fastforce
  then show ?case by simp
qed simp

section \<open>Order-preserving removal of duplicates\<close>

text \<open>\<open>dedupe_from seen xs\<close>: the loop of \<open>_dedupe\<close> with the set of ids already emitted.\<close>

fun dedupe_from :: "'a list \<Rightarrow> 'a list \<Rightarrow> 'a list" where
  "dedupe_from seen [] = []"
| "dedupe_from seen (x # xs) =
     (if x \<in> set seen then dedupe_from seen xs else x # dedupe_from (x # seen) xs)"

lemma set_dedupe_from: "set (dedupe_from seen xs) = set xs - set seen"
  by (induction xs arbitrary: seen) auto

lemma distinct_dedupe_from: "distinct (dedupe_from seen xs)"
  by (induction xs arbitrary: seen) (auto simp: set_dedupe_from)

section \<open>The first largest element\<close>

text \<open>A scan that replaces its best element only by a strictly larger one finds the first largest.\<close>

definition first_max :: "('a \<Rightarrow> bool) \<Rightarrow> ('a \<Rightarrow> 'b::linorder) \<Rightarrow> 'a list \<Rightarrow> 'a option" where
  "first_max p f xs = find (\<lambda>b. p b \<and> (\<forall>c\<in>set xs. p c \<longrightarrow> f c \<le> f b)) xs"

lemma first_max_Some:
  "first_max p f xs = Some b \<Longrightarrow> b \<in> set xs \<and> p b \<and> (\<forall>c\<in>set xs. p c \<longrightarrow> f c \<le> f b)"
  by (auto simp: first_max_def find_Some_iff)

lemma first_max_None: "first_max p f xs = None \<longleftrightarrow> (\<forall>c\<in>set xs. \<not> p c)"
proof
  assume none: "first_max p f xs = None"
  show "\<forall>c\<in>set xs. \<not> p c"
  proof (rule ccontr)
    assume "\<not> (\<forall>c\<in>set xs. \<not> p c)"
    then have ne: "f ` {c \<in> set xs. p c} \<noteq> {}" by auto
    have "Max (f ` {c \<in> set xs. p c}) \<in> f ` {c \<in> set xs. p c}" using ne by (intro Max_in) auto
    then obtain b where "b \<in> set xs" "p b" "f b = Max (f ` {c \<in> set xs. p c})" by auto
    moreover from this have "\<forall>c\<in>set xs. p c \<longrightarrow> f c \<le> f b" by auto
    ultimately show False using none by (auto simp: first_max_def find_None_iff)
  qed
qed (auto simp: first_max_def find_None_iff)

lemma find_append: "find p (xs @ ys) = (case find p xs of None \<Rightarrow> find p ys | Some x \<Rightarrow> Some x)"
  by (induction xs) auto

lemma first_max_snoc:
  "first_max p f (xs @ [x]) =
     (if p x then (case first_max p f xs of None \<Rightarrow> Some x | Some b \<Rightarrow> if f b < f x then Some x else Some b)
      else first_max p f xs)"
proof (cases "p x")
  case False
  then show ?thesis by (auto simp: first_max_def find_append split: option.splits)
next
  case True
  show ?thesis
  proof (cases "first_max p f xs")
    case None
    then have none: "\<forall>c\<in>set xs. \<not> p c" by (simp add: first_max_None)
    then have "find (\<lambda>c. p c \<and> (\<forall>d\<in>set (xs @ [x]). p d \<longrightarrow> f d \<le> f c)) xs = None"
      by (auto simp: find_None_iff)
    then have "first_max p f (xs @ [x]) = Some x"
      using none True by (simp add: first_max_def find_append)
    then show ?thesis using None True by simp
  next
    case (Some b)
    note b = first_max_Some [OF Some]
    show ?thesis
    proof (cases "f b < f x")
      case True
      then have "find (\<lambda>c. p c \<and> (\<forall>d\<in>set (xs @ [x]). p d \<longrightarrow> f d \<le> f c)) xs = None"
        using b \<open>p x\<close> by (force simp: find_None_iff)
      then show ?thesis using b True \<open>p x\<close> Some by (auto simp: first_max_def find_append)
    next
      case False
      then have "find (\<lambda>c. p c \<and> (\<forall>d\<in>set (xs @ [x]). p d \<longrightarrow> f d \<le> f c)) xs = first_max p f xs"
        using b unfolding first_max_def by (intro find_cong) (auto intro: order_trans)
      then show ?thesis using False \<open>p x\<close> Some by (simp add: first_max_def find_append)
    qed
  qed
qed

lemma fold_first_max:
  assumes "\<And>x b. step x b =
    (if p x then (case b of None \<Rightarrow> Some x | Some c \<Rightarrow> if f c < f x then Some x else b) else b)"
  shows "fold step xs None = first_max p f xs"
proof (induction xs rule: rev_induct)
  case (snoc x xs)
  then show ?case by (auto simp: first_max_snoc assms split: option.split)
qed (simp add: first_max_def)

section \<open>Finite walks\<close>

text \<open>
  A walk of \<open>n + 1\<close> steps inside a set of at most \<open>n\<close> places visits one of them twice; the bound on
  the ancestor loop rests on it.
\<close>

lemma pigeonhole_walk:
  assumes "finite A" and "card A \<le> n" and "\<And>i. i \<le> n \<Longrightarrow> w i \<in> A"
  obtains i j where "i < j" "j \<le> n" "w i = (w j :: 'a)"
proof -
  have "\<not> inj_on w {..n}"
  proof
    assume "inj_on w {..n}"
    then have "card (w ` {..n}) = Suc n" by (simp add: card_image)
    moreover have "card (w ` {..n}) \<le> card A"
      using assms(1,3) by (intro card_mono) auto
    ultimately show False using assms(2) by simp
  qed
  then obtain i j where "i \<le> n" "j \<le> n" "i \<noteq> j" "w i = w j"
    by (auto simp: inj_on_def)
  then show thesis using that [of i j] that [of j i] by (cases "i < j") auto
qed

end
