(* ===== verification/Lifecycle.thy ===== *)
theory Lifecycle
  imports Prelude "HOL-Library.Sublist"
begin

text \<open>
  The status machines of \<open>lifecycle.py\<close>: runs, run cases, attempts and the smoke gate, their transition
  tables, and \<open>transition\<close>. A table is an association list from a status to the statuses allowed next,
  in the order of the source's dict. The status enums are \<open>str\<close> enums, so \<open>transition\<close> sees every
  argument as a string and \<open>_coerce\<close> looks it up by value among the table's keys.

  The locale \<open>status_machine\<close> is the contract between a table and \<open>transition\<close>; the four tables
  interpret it.
\<close>

section \<open>Statuses\<close>

datatype run_status =
    Run_DRAFT | Run_QUEUED | Run_PROVISIONING | Run_RUNNING | Run_AGGREGATING | Run_COMPLETE
  | Run_FAILED | Run_CANCELLED | Run_INCOMPLETE

fun run_status_value :: "run_status \<Rightarrow> string" where
  "run_status_value Run_DRAFT = ''draft''"
| "run_status_value Run_QUEUED = ''queued''"
| "run_status_value Run_PROVISIONING = ''provisioning''"
| "run_status_value Run_RUNNING = ''running''"
| "run_status_value Run_AGGREGATING = ''aggregating''"
| "run_status_value Run_COMPLETE = ''complete''"
| "run_status_value Run_FAILED = ''failed''"
| "run_status_value Run_CANCELLED = ''cancelled''"
| "run_status_value Run_INCOMPLETE = ''incomplete''"

datatype run_case_status =
    Case_QUEUED | Case_RUNNING | Case_COMPLETED | Case_FAILED | Case_CANCELLED | Case_SKIPPED

fun run_case_status_value :: "run_case_status \<Rightarrow> string" where
  "run_case_status_value Case_QUEUED = ''queued''"
| "run_case_status_value Case_RUNNING = ''running''"
| "run_case_status_value Case_COMPLETED = ''completed''"
| "run_case_status_value Case_FAILED = ''failed''"
| "run_case_status_value Case_CANCELLED = ''cancelled''"
| "run_case_status_value Case_SKIPPED = ''skipped''"

datatype attempt_status =
    Attempt_QUEUED | Attempt_RUNNING | Attempt_COMPLETED | Attempt_TIMED_OUT | Attempt_BUDGET_EXCEEDED
  | Attempt_CANCELLED | Attempt_ORPHANED | Attempt_ERRORED

fun attempt_status_value :: "attempt_status \<Rightarrow> string" where
  "attempt_status_value Attempt_QUEUED = ''queued''"
| "attempt_status_value Attempt_RUNNING = ''running''"
| "attempt_status_value Attempt_COMPLETED = ''completed''"
| "attempt_status_value Attempt_TIMED_OUT = ''timed_out''"
| "attempt_status_value Attempt_BUDGET_EXCEEDED = ''budget_exceeded''"
| "attempt_status_value Attempt_CANCELLED = ''cancelled''"
| "attempt_status_value Attempt_ORPHANED = ''orphaned''"
| "attempt_status_value Attempt_ERRORED = ''errored''"

datatype smoke_state =
    Smoke_INGESTED | Smoke_ANALYZED | Smoke_RUNTIME_PREPARED | Smoke_SMOKE_PASSED | Smoke_EVALUABLE
  | Smoke_ENTRYPOINT_MISSING | Smoke_INSTALL_FAILED | Smoke_INVOCATION_FAILED
  | Smoke_PROVIDER_UNREACHABLE | Smoke_NO_TRACE | Smoke_TIMEOUT

fun smoke_state_value :: "smoke_state \<Rightarrow> string" where
  "smoke_state_value Smoke_INGESTED = ''INGESTED''"
| "smoke_state_value Smoke_ANALYZED = ''ANALYZED''"
| "smoke_state_value Smoke_RUNTIME_PREPARED = ''RUNTIME_PREPARED''"
| "smoke_state_value Smoke_SMOKE_PASSED = ''SMOKE_PASSED''"
| "smoke_state_value Smoke_EVALUABLE = ''EVALUABLE''"
| "smoke_state_value Smoke_ENTRYPOINT_MISSING = ''entrypoint_missing''"
| "smoke_state_value Smoke_INSTALL_FAILED = ''install_failed''"
| "smoke_state_value Smoke_INVOCATION_FAILED = ''invocation_failed''"
| "smoke_state_value Smoke_PROVIDER_UNREACHABLE = ''provider_unreachable''"
| "smoke_state_value Smoke_NO_TRACE = ''no_trace''"
| "smoke_state_value Smoke_TIMEOUT = ''timeout''"

definition SMOKE_FAILURE_STATES :: "smoke_state list" where
  "SMOKE_FAILURE_STATES =
     [Smoke_ENTRYPOINT_MISSING, Smoke_INSTALL_FAILED, Smoke_INVOCATION_FAILED,
      Smoke_PROVIDER_UNREACHABLE, Smoke_NO_TRACE, Smoke_TIMEOUT]"

definition is_run_terminal :: "run_status \<Rightarrow> bool" where
  "is_run_terminal s = (s \<in> {Run_COMPLETE, Run_FAILED, Run_CANCELLED})"

definition is_attempt_terminal :: "attempt_status \<Rightarrow> bool" where
  "is_attempt_terminal s =
     (s \<in> {Attempt_COMPLETED, Attempt_TIMED_OUT, Attempt_BUDGET_EXCEEDED, Attempt_CANCELLED,
           Attempt_ORPHANED, Attempt_ERRORED})"

definition is_smoke_failure :: "smoke_state \<Rightarrow> bool" where
  "is_smoke_failure s = (s \<in> set SMOKE_FAILURE_STATES)"

section \<open>Transition tables\<close>

type_synonym 's transition_table = "('s \<times> 's list) list"

definition RUN_TRANSITIONS :: "run_status transition_table" where
  "RUN_TRANSITIONS =
     [(Run_DRAFT, [Run_QUEUED, Run_CANCELLED]),
      (Run_QUEUED, [Run_PROVISIONING, Run_CANCELLED]),
      (Run_PROVISIONING, [Run_RUNNING, Run_FAILED, Run_CANCELLED]),
      (Run_RUNNING, [Run_AGGREGATING, Run_FAILED, Run_CANCELLED, Run_INCOMPLETE]),
      (Run_AGGREGATING, [Run_COMPLETE, Run_FAILED, Run_INCOMPLETE]),
      (Run_COMPLETE, []),
      (Run_FAILED, []),
      (Run_CANCELLED, [Run_QUEUED]),
      (Run_INCOMPLETE, [Run_QUEUED, Run_CANCELLED])]"

definition RUN_CASE_TRANSITIONS :: "run_case_status transition_table" where
  "RUN_CASE_TRANSITIONS =
     [(Case_QUEUED, [Case_RUNNING, Case_CANCELLED, Case_SKIPPED]),
      (Case_RUNNING, [Case_COMPLETED, Case_FAILED, Case_CANCELLED]),
      (Case_COMPLETED, []),
      (Case_FAILED, [Case_QUEUED]),
      (Case_CANCELLED, [Case_QUEUED]),
      (Case_SKIPPED, [])]"

definition ATTEMPT_TRANSITIONS :: "attempt_status transition_table" where
  "ATTEMPT_TRANSITIONS =
     [(Attempt_QUEUED, [Attempt_RUNNING, Attempt_CANCELLED, Attempt_ORPHANED]),
      (Attempt_RUNNING,
        [Attempt_COMPLETED, Attempt_TIMED_OUT, Attempt_BUDGET_EXCEEDED, Attempt_CANCELLED,
         Attempt_ORPHANED, Attempt_ERRORED]),
      (Attempt_COMPLETED, []),
      (Attempt_TIMED_OUT, []),
      (Attempt_BUDGET_EXCEEDED, []),
      (Attempt_CANCELLED, []),
      (Attempt_ORPHANED, []),
      (Attempt_ERRORED, [])]"

definition SMOKE_TRANSITIONS :: "smoke_state transition_table" where
  "SMOKE_TRANSITIONS =
     [(Smoke_INGESTED, [Smoke_ANALYZED]),
      (Smoke_ANALYZED, Smoke_RUNTIME_PREPARED # SMOKE_FAILURE_STATES),
      (Smoke_RUNTIME_PREPARED, Smoke_SMOKE_PASSED # SMOKE_FAILURE_STATES),
      (Smoke_SMOKE_PASSED, [Smoke_EVALUABLE]),
      (Smoke_EVALUABLE, []),
      (Smoke_ENTRYPOINT_MISSING, Smoke_RUNTIME_PREPARED # Smoke_SMOKE_PASSED # SMOKE_FAILURE_STATES),
      (Smoke_INSTALL_FAILED, Smoke_RUNTIME_PREPARED # Smoke_SMOKE_PASSED # SMOKE_FAILURE_STATES),
      (Smoke_INVOCATION_FAILED, Smoke_RUNTIME_PREPARED # Smoke_SMOKE_PASSED # SMOKE_FAILURE_STATES),
      (Smoke_PROVIDER_UNREACHABLE, Smoke_RUNTIME_PREPARED # Smoke_SMOKE_PASSED # SMOKE_FAILURE_STATES),
      (Smoke_NO_TRACE, Smoke_RUNTIME_PREPARED # Smoke_SMOKE_PASSED # SMOKE_FAILURE_STATES),
      (Smoke_TIMEOUT, Smoke_RUNTIME_PREPARED # Smoke_SMOKE_PASSED # SMOKE_FAILURE_STATES)]"

section \<open>\<open>transition\<close>\<close>

definition coerce :: "('s \<Rightarrow> string) \<Rightarrow> string \<Rightarrow> 's transition_table \<Rightarrow> 's res" where
  "coerce value_of v table =
     (case find (\<lambda>m. value_of m = v) (map fst table) of
        Some m \<Rightarrow> Inr m
      | None \<Rightarrow> Inl IllegalTransition)"

definition transition ::
  "('s \<Rightarrow> string) \<Rightarrow> string \<Rightarrow> string \<Rightarrow> 's transition_table \<Rightarrow> 's res" where
  "transition value_of current target table =
     (if table = [] then Inl TypeError
      else bind_res (coerce value_of current table) (\<lambda>c.
           bind_res (coerce value_of target table) (\<lambda>t.
             if c = t then Inr t
             else case map_of table c of
                    None \<Rightarrow> Inl KeyError
                  | Some allowed \<Rightarrow> if t \<notin> set allowed then Inl IllegalTransition else Inr t)))"

section \<open>The contract of a table\<close>

text \<open>
  What \<open>transition\<close> relies on: distinct statuses have distinct values and every status is a key.
\<close>

locale status_machine =
  fixes value_of :: "'s \<Rightarrow> string" and table :: "'s transition_table"
  assumes value_inj: "value_of s = value_of t \<Longrightarrow> s = t"
    and total: "s \<in> fst ` set table"
begin

lemma coerce_value: "coerce value_of (value_of s) table = Inr s"
proof -
  have "find (\<lambda>m. value_of m = value_of s) (map fst table) \<noteq> None"
    using total [of s] by (auto simp: find_None_iff)
  then obtain m where m: "find (\<lambda>m. value_of m = value_of s) (map fst table) = Some m" by auto
  then have "value_of m = value_of s" by (auto simp: find_Some_iff)
  with m show ?thesis by (simp add: coerce_def value_inj)
qed

lemma table_nonempty: "table \<noteq> []"
  using total by auto

lemma allowed_defined: "\<exists>allowed. map_of table s = Some allowed"
  using total [of s] by (metis not_None_eq map_of_eq_None_iff)

lemma transition_iff:
  "transition value_of (value_of s) (value_of t) table = Inr u \<longleftrightarrow>
     u = t \<and> (s = t \<or> (\<exists>allowed. map_of table s = Some allowed \<and> t \<in> set allowed))"
  using allowed_defined [of s]
  by (auto simp: transition_def table_nonempty coerce_value split: if_splits)

lemma transition_refused:
  "transition value_of (value_of s) (value_of t) table = Inl e \<Longrightarrow> e = IllegalTransition"
  using allowed_defined [of s]
  by (auto simp: transition_def table_nonempty coerce_value split: if_splits)

lemma transition_unknown_target:
  "v \<notin> range value_of \<Longrightarrow> transition value_of (value_of s) v table = Inl IllegalTransition"
  by (auto simp: transition_def table_nonempty coerce_value coerce_def find_Some_iff split: option.splits)

end

section \<open>The four machines\<close>

lemma run_status_value_inj: "run_status_value s = run_status_value t \<Longrightarrow> s = t"
  by (cases s; cases t) simp_all

lemma run_case_status_value_inj: "run_case_status_value s = run_case_status_value t \<Longrightarrow> s = t"
  by (cases s; cases t) simp_all

lemma attempt_status_value_inj: "attempt_status_value s = attempt_status_value t \<Longrightarrow> s = t"
  by (cases s; cases t) simp_all

lemma smoke_state_value_inj: "smoke_state_value s = smoke_state_value t \<Longrightarrow> s = t"
  by (cases s; cases t) simp_all

lemma RUN_TRANSITIONS_total: "s \<in> fst ` set RUN_TRANSITIONS"
  by (cases s) (simp_all add: RUN_TRANSITIONS_def)

lemma RUN_CASE_TRANSITIONS_total: "s \<in> fst ` set RUN_CASE_TRANSITIONS"
  by (cases s) (simp_all add: RUN_CASE_TRANSITIONS_def)

lemma ATTEMPT_TRANSITIONS_total: "s \<in> fst ` set ATTEMPT_TRANSITIONS"
  by (cases s) (simp_all add: ATTEMPT_TRANSITIONS_def)

lemma SMOKE_TRANSITIONS_total: "s \<in> fst ` set SMOKE_TRANSITIONS"
  by (cases s) (simp_all add: SMOKE_TRANSITIONS_def)

interpretation runs: status_machine run_status_value RUN_TRANSITIONS
  by unfold_locales (auto intro: run_status_value_inj RUN_TRANSITIONS_total)

interpretation run_cases: status_machine run_case_status_value RUN_CASE_TRANSITIONS
  by unfold_locales (auto intro: run_case_status_value_inj RUN_CASE_TRANSITIONS_total)

interpretation attempts: status_machine attempt_status_value ATTEMPT_TRANSITIONS
  by unfold_locales (auto intro: attempt_status_value_inj ATTEMPT_TRANSITIONS_total)

interpretation smoke: status_machine smoke_state_value SMOKE_TRANSITIONS
  by unfold_locales (auto intro: smoke_state_value_inj SMOKE_TRANSITIONS_total)

section \<open>Histories\<close>

text \<open>A history accepted by \<open>transition\<close>, newest status last.\<close>

inductive history :: "('s \<Rightarrow> string) \<Rightarrow> 's transition_table \<Rightarrow> 's list \<Rightarrow> bool"
  for value_of :: "'s \<Rightarrow> string" and table :: "'s transition_table" where
  start: "history value_of table [s]"
| step: "history value_of table (xs @ [s]) \<Longrightarrow>
     transition value_of (value_of s) (value_of t) table = Inr t \<Longrightarrow>
     history value_of table (xs @ [s, t])"

context status_machine begin

text \<open>
  Milestones: \<open>m s\<close> lists statuses a history has gone through when it reaches \<open>s\<close>, provided each allowed
  step extends what its source guarantees by at most the new status.
\<close>

lemma history_milestones:
  assumes step: "\<And>s t allowed. map_of table s = Some allowed \<Longrightarrow> t \<in> set allowed \<Longrightarrow>
      \<exists>ys. m t = ys @ [t] \<and> subseq ys (m s)"
    and "m s0 = [s0]"
  shows "history value_of table xs \<Longrightarrow> hd xs = s0 \<Longrightarrow> subseq (m (last xs)) xs"
proof (induction rule: history.induct)
  case (start s)
  then show ?case using assms(2) by simp
next
  case (step xs s t)
  have "hd (xs @ [s]) = s0" using step.prems by (cases xs) auto
  then have IH: "subseq (m s) (xs @ [s])" using step.IH by simp
  consider "t = s" | allowed where "map_of table s = Some allowed" "t \<in> set allowed"
    using step.hyps(2) by (auto simp: transition_iff)
  then show ?case
  proof cases
    case 1
    have "subseq (m s @ []) ((xs @ [s]) @ [t])" using IH by (rule list_emb_append_mono) simp
    then show ?thesis using 1 by simp
  next
    case 2
    then obtain ys where ys: "m t = ys @ [t]" "subseq ys (m s)" using assms(1) by blast
    have "subseq ys (xs @ [s])" using ys(2) IH by (rule subseq_order.trans)
    then have "subseq (ys @ [t]) ((xs @ [s]) @ [t])" by (rule list_emb_append_mono) simp
    then show ?thesis using ys(1) by simp
  qed
qed

text \<open>A status with no successor is kept for the rest of a history.\<close>

lemma history_terminal:
  assumes "history value_of table xs" and "i \<le> j" and "j < length xs" and "map_of table (xs ! i) = Some []"
  shows "xs ! j = xs ! i"
  using assms
proof (induction arbitrary: i j rule: history.induct)
  case (step xs s t)
  show ?case
  proof (cases "j = Suc (length xs)")
    case False
    then have "(xs @ [s]) ! j = (xs @ [s]) ! i"
      using step.prems step.IH [of i j] by (auto simp: nth_append split: if_splits)
    then show ?thesis using step.prems False by (auto simp: nth_append split: if_splits)
  next
    case True
    show ?thesis
    proof (cases "i = j")
      case False
      then have i: "i \<le> length xs" using step.prems True by simp
      then have "(xs @ [s]) ! length xs = (xs @ [s]) ! i"
        using step.prems(3) step.IH [of i "length xs"] by (auto simp: nth_append split: if_splits)
      then have s: "(xs @ [s, t]) ! i = s" using i by (auto simp: nth_append split: if_splits)
      then have "t = s" using step.prems(3) step.hyps(2) by (auto simp: transition_iff)
      then show ?thesis using s True by (simp add: nth_append)
    qed simp
  qed
qed simp

end

section \<open>Runs, attempts and the smoke gate\<close>

text \<open>The milestones of a run, and of the smoke gate.\<close>

fun run_milestones :: "run_status \<Rightarrow> run_status list" where
  "run_milestones Run_DRAFT = [Run_DRAFT]"
| "run_milestones Run_QUEUED = [Run_DRAFT, Run_QUEUED]"
| "run_milestones Run_PROVISIONING = [Run_DRAFT, Run_QUEUED, Run_PROVISIONING]"
| "run_milestones Run_RUNNING = [Run_DRAFT, Run_QUEUED, Run_PROVISIONING, Run_RUNNING]"
| "run_milestones Run_AGGREGATING =
     [Run_DRAFT, Run_QUEUED, Run_PROVISIONING, Run_RUNNING, Run_AGGREGATING]"
| "run_milestones Run_COMPLETE =
     [Run_DRAFT, Run_QUEUED, Run_PROVISIONING, Run_RUNNING, Run_AGGREGATING, Run_COMPLETE]"
| "run_milestones s = [Run_DRAFT, s]"

definition smoke_milestones :: "smoke_state \<Rightarrow> smoke_state list" where
  "smoke_milestones s =
     (if s = Smoke_INGESTED then [s]
      else if s = Smoke_ANALYZED then [Smoke_INGESTED, s]
      else if s = Smoke_EVALUABLE then [Smoke_INGESTED, Smoke_ANALYZED, Smoke_SMOKE_PASSED, s]
      else [Smoke_INGESTED, Smoke_ANALYZED, s])"

lemma run_milestones_step:
  assumes "map_of RUN_TRANSITIONS s = Some allowed" and "t \<in> set allowed"
  shows "\<exists>ys. run_milestones t = ys @ [t] \<and> subseq ys (run_milestones s)"
proof (rule exI [of _ "butlast (run_milestones t)"])
  show "run_milestones t = butlast (run_milestones t) @ [t] \<and> subseq (butlast (run_milestones t)) (run_milestones s)"
    using assms by (cases s) (auto simp: RUN_TRANSITIONS_def)
qed

lemma smoke_milestones_step:
  assumes "map_of SMOKE_TRANSITIONS s = Some allowed" and "t \<in> set allowed"
  shows "\<exists>ys. smoke_milestones t = ys @ [t] \<and> subseq ys (smoke_milestones s)"
proof (rule exI [of _ "butlast (smoke_milestones t)"])
  show "smoke_milestones t = butlast (smoke_milestones t) @ [t] \<and>
      subseq (butlast (smoke_milestones t)) (smoke_milestones s)"
    using assms by (cases s) (auto simp: SMOKE_TRANSITIONS_def SMOKE_FAILURE_STATES_def smoke_milestones_def)
qed

text \<open>
  A complete run has been through the whole lifecycle: every history of legal transitions from
  DRAFT to COMPLETE contains QUEUED, PROVISIONING, RUNNING and AGGREGATING in this order, also after
  cancellations and resumptions.
\<close>

theorem complete_run_milestones:
  assumes "history run_status_value RUN_TRANSITIONS xs" and "hd xs = Run_DRAFT" and "last xs = Run_COMPLETE"
  shows "subseq [Run_DRAFT, Run_QUEUED, Run_PROVISIONING, Run_RUNNING, Run_AGGREGATING, Run_COMPLETE] xs"
  using runs.history_milestones [of run_milestones, OF run_milestones_step _ assms(1,2)] assms(3) by simp

theorem complete_run_milestones_witness:
  "subseq [Run_DRAFT, Run_QUEUED, Run_PROVISIONING, Run_RUNNING, Run_AGGREGATING, Run_COMPLETE]
     [Run_DRAFT, Run_QUEUED, Run_CANCELLED, Run_QUEUED, Run_PROVISIONING, Run_RUNNING, Run_INCOMPLETE,
      Run_QUEUED, Run_PROVISIONING, Run_RUNNING, Run_AGGREGATING, Run_COMPLETE]"
proof (rule complete_run_milestones)
  note step = history.step [of run_status_value RUN_TRANSITIONS, unfolded runs.transition_iff]
  show "history run_status_value RUN_TRANSITIONS
     [Run_DRAFT, Run_QUEUED, Run_CANCELLED, Run_QUEUED, Run_PROVISIONING, Run_RUNNING, Run_INCOMPLETE,
      Run_QUEUED, Run_PROVISIONING, Run_RUNNING, Run_AGGREGATING, Run_COMPLETE]"
    by (rule step [of "[_, _, _, _, _, _, _, _, _, _]", simplified], rule step [of "[_, _, _, _, _, _, _, _, _]", simplified],
        rule step [of "[_, _, _, _, _, _, _, _]", simplified], rule step [of "[_, _, _, _, _, _, _]", simplified],
        rule step [of "[_, _, _, _, _, _]", simplified], rule step [of "[_, _, _, _, _]", simplified],
        rule step [of "[_, _, _, _]", simplified], rule step [of "[_, _, _]", simplified],
        rule step [of "[_, _]", simplified], rule step [of "[_]", simplified], rule step [of "[]", simplified])
      (auto intro: history.start simp: RUN_TRANSITIONS_def)
qed simp_all

text \<open>
  An attempt's outcome is final: once a history of an attempt reaches one of the six terminal
  statuses, every later status is the same.
\<close>

theorem attempt_outcome_final:
  assumes "history attempt_status_value ATTEMPT_TRANSITIONS xs" and "i \<le> j" and "j < length xs"
    and "is_attempt_terminal (xs ! i)"
  shows "xs ! j = xs ! i"
proof (rule attempts.history_terminal [OF assms(1-3)])
  show "map_of ATTEMPT_TRANSITIONS (xs ! i) = Some []"
    using assms(4) by (auto simp: is_attempt_terminal_def ATTEMPT_TRANSITIONS_def)
qed

theorem attempt_outcome_final_witness:
  "[Attempt_QUEUED, Attempt_RUNNING, Attempt_TIMED_OUT, Attempt_TIMED_OUT] ! 3 = Attempt_TIMED_OUT"
proof -
  note step = history.step [of attempt_status_value ATTEMPT_TRANSITIONS, unfolded attempts.transition_iff]
  have "history attempt_status_value ATTEMPT_TRANSITIONS
      [Attempt_QUEUED, Attempt_RUNNING, Attempt_TIMED_OUT, Attempt_TIMED_OUT]"
    by (rule step [of "[_, _]", simplified], rule step [of "[_]", simplified], rule step [of "[]", simplified])
      (auto intro: history.start simp: ATTEMPT_TRANSITIONS_def)
  from attempt_outcome_final [OF this, of 2 3] show ?thesis by (simp add: is_attempt_terminal_def)
qed

text \<open>
  The smoke gate: a project becomes evaluable only after it was ingested, analysed and passed the
  smoke run. Being prepared is not among these: the witness reaches EVALUABLE through a failure of the
  analysed state, without RUNTIME_PREPARED, which the table's comment rules out.
\<close>

theorem smoke_gate_milestones:
  assumes "history smoke_state_value SMOKE_TRANSITIONS xs" and "hd xs = Smoke_INGESTED"
    and "last xs = Smoke_EVALUABLE"
  shows "subseq [Smoke_INGESTED, Smoke_ANALYZED, Smoke_SMOKE_PASSED, Smoke_EVALUABLE] xs"
proof -
  have "subseq (smoke_milestones (last xs)) xs"
  proof (rule smoke.history_milestones)
    fix s t allowed
    assume "map_of SMOKE_TRANSITIONS s = Some allowed" and "t \<in> set allowed"
    then show "\<exists>ys. smoke_milestones t = ys @ [t] \<and> subseq ys (smoke_milestones s)"
      by (rule smoke_milestones_step)
  qed (use assms in \<open>simp_all add: smoke_milestones_def\<close>)
  then show ?thesis using assms(3) by (simp add: smoke_milestones_def)
qed

theorem smoke_gate_milestones_witness:
  "\<exists>xs. history smoke_state_value SMOKE_TRANSITIONS xs
     \<and> subseq [Smoke_INGESTED, Smoke_ANALYZED, Smoke_SMOKE_PASSED, Smoke_EVALUABLE] xs
     \<and> Smoke_RUNTIME_PREPARED \<notin> set xs"
proof -
  note step = history.step [of smoke_state_value SMOKE_TRANSITIONS, unfolded smoke.transition_iff]
  let ?xs = "[Smoke_INGESTED, Smoke_ANALYZED, Smoke_TIMEOUT, Smoke_SMOKE_PASSED, Smoke_EVALUABLE]"
  have h: "history smoke_state_value SMOKE_TRANSITIONS ?xs"
    by (rule step [of "[_, _, _]", simplified], rule step [of "[_, _]", simplified],
        rule step [of "[_]", simplified], rule step [of "[]", simplified])
      (auto intro: history.start simp: SMOKE_TRANSITIONS_def SMOKE_FAILURE_STATES_def)
  have "subseq [Smoke_INGESTED, Smoke_ANALYZED, Smoke_SMOKE_PASSED, Smoke_EVALUABLE] ?xs"
    using smoke_gate_milestones [OF h] by simp
  with h show ?thesis by (intro exI [of _ ?xs] conjI) simp_all
qed

end
