(* ===== verification/Floats.thy ===== *)
theory Floats
  imports Prelude Complex_Main
begin

text \<open>
  Python floats: IEEE binary64 numbers as rationals, with the infinities and NaN. Comparisons are exact
  in Python, also between int and float, so they are comparisons of rationals here; the result of
  each arithmetic operation, of \<open>float(i)\<close>, of \<open>i / j\<close> and of a decimal literal is the nearest float,
  ties to even (\<open>round64\<close>, with gradual underflow), or an infinity above the largest float. The sign of
  zero is not represented: only the JSON text of a calibration label would read it.

  The lemmas bound the rounding error, which the window tests on timestamps and the rates of the
  metrics rest on.
\<close>

section \<open>Rounding to the nearest float\<close>

definition pow2 :: "int \<Rightarrow> rat" where
  "pow2 e = (if 0 \<le> e then of_int (2 ^ nat e) else 1 / of_int (2 ^ nat (- e)))"

text \<open>The number of binary digits of an integer, and the binary exponent of a positive rational.\<close>

function bits :: "int \<Rightarrow> nat" where
  "bits n = (if n \<le> 0 then 0 else Suc (bits (n div 2)))"
  by pat_completeness auto
termination by (relation "measure nat") auto

declare bits.simps [simp del]

definition log2_floor :: "rat \<Rightarrow> int" where
  "log2_floor q =
     (case quotient_of q of (n, d) \<Rightarrow>
        let e = int (bits n) - int (bits d) in
        if pow2 e \<le> q then e else e - 1)"

definition round_even :: "rat \<Rightarrow> int" where
  "round_even x =
     (let f = \<lfloor>x\<rfloor>; r = x - of_int f in
      if r < 1 / 2 then f else if 1 / 2 < r then f + 1 else if even f then f else f + 1)"

definition ulp :: "rat \<Rightarrow> rat" where
  "ulp q = pow2 (max (log2_floor \<bar>q\<bar> - 52) (- 1074))"

definition round64 :: "rat \<Rightarrow> rat" where
  "round64 q = (if q = 0 then 0 else let u = ulp q in of_int (round_even (q / u)) * u)"

lemma pow2_pos [simp]: "0 < pow2 e"
  by (simp add: pow2_def)

lemma pow2_nonzero [simp]: "pow2 e \<noteq> 0"
  using pow2_pos [of e] by linarith

lemma pow2_powi: "pow2 e = 2 powi e"
  by (cases "0 \<le> e") (auto simp: pow2_def power_int_def field_simps)

lemma pow2_add: "pow2 (a + b) = pow2 a * pow2 b"
  by (simp add: pow2_powi power_int_add)

lemma pow2_less: "a < b \<Longrightarrow> pow2 a < pow2 b"
  by (simp add: pow2_powi power_int_strict_increasing)

lemma pow2_less_iff [simp]: "pow2 a < pow2 b \<longleftrightarrow> a < b"
  using pow2_less [of a b] pow2_less [of b a] by (cases a b rule: linorder_cases) auto

lemma pow2_le_iff [simp]: "pow2 a \<le> pow2 b \<longleftrightarrow> a \<le> b"
  by (simp flip: not_less)

lemma pow2_1: "pow2 (e + 1) = 2 * pow2 e"
  by (simp add: pow2_add) (simp add: pow2_def)

lemma pow2_of_nat: "pow2 (int k) = of_int (2 ^ k)"
  by (simp add: pow2_def)

lemma bits_bounds: "0 < n \<Longrightarrow> 2 ^ bits n \<le> 2 * n \<and> n < 2 ^ bits n"
proof (induction n rule: bits.induct)
  case (1 n)
  have n: "bits n = Suc (bits (n div 2))" using 1(2) by (simp add: bits.simps)
  show ?case
  proof (cases "n = 1")
    case True
    then show ?thesis using n by (simp add: bits.simps [of 0])
  next
    case False
    then have "2 ^ bits (n div 2) \<le> 2 * (n div 2)" "n div 2 < 2 ^ bits (n div 2)" using 1 by auto
    then show ?thesis unfolding n power_Suc by linarith
  qed
qed

lemma bits_pow2:
  assumes "0 < n"
  shows "pow2 (int (bits n) - 1) \<le> of_int n" and "of_int n < pow2 (int (bits n))"
proof -
  have "pow2 (int (bits n)) \<le> of_int (2 * n)" "of_int n < pow2 (int (bits n))"
    unfolding pow2_of_nat of_int_le_iff of_int_less_iff using bits_bounds [OF assms] by blast+
  moreover have "pow2 (int (bits n)) = 2 * pow2 (int (bits n) - 1)" using pow2_1 [of "int (bits n) - 1"] by simp
  ultimately show "pow2 (int (bits n) - 1) \<le> of_int n" "of_int n < pow2 (int (bits n))" by simp_all
qed

lemma log2_floor_bounds:
  assumes "0 < q"
  shows "pow2 (log2_floor q) \<le> q" and "q < pow2 (log2_floor q + 1)"
proof -
  obtain n d where nd: "quotient_of q = (n, d)" by (cases "quotient_of q") auto
  have d: "0 < d" using nd by (rule quotient_of_denom_pos)
  have q: "q = of_int n / of_int d" using nd by (rule quotient_of_div)
  have n: "0 < n" using assms d by (simp add: q zero_less_divide_iff)
  let ?a = "int (bits n)" and ?b = "int (bits d)"
  have "q * pow2 (?b - 1) \<le> of_int n" using bits_pow2(1) [OF d] assms d
    by (simp add: q field_simps)
  also have "\<dots> < pow2 ?a" by (rule bits_pow2(2) [OF n])
  also have "pow2 ?a = pow2 (?a - ?b + 1) * pow2 (?b - 1)" by (simp flip: pow2_add)
  finally have hi: "q < pow2 (?a - ?b + 1)" by simp
  have "pow2 (?a - ?b - 1) * of_int d \<le> pow2 (?a - ?b - 1) * pow2 ?b"
    using bits_pow2(2) [OF d] by simp
  also have "\<dots> = pow2 (?a - 1)" by (simp flip: pow2_add)
  also have "\<dots> \<le> of_int n" by (rule bits_pow2(1) [OF n])
  finally have lo: "pow2 (?a - ?b - 1) \<le> q" using d by (simp add: q field_simps)
  show "pow2 (log2_floor q) \<le> q" "q < pow2 (log2_floor q + 1)"
    using hi lo by (auto simp: log2_floor_def nd Let_def not_le)
qed

lemma round_even_error: "\<bar>of_int (round_even x) - x\<bar> \<le> 1 / 2"
proof -
  have "of_int \<lfloor>x\<rfloor> \<le> x" "x < of_int \<lfloor>x\<rfloor> + 1" by linarith+
  then show ?thesis unfolding round_even_def Let_def abs_if
    by (simp split: if_splits) linarith
qed

lemma round_even_of_int [simp]: "round_even (of_int i) = i"
  by (simp add: round_even_def Let_def)

lemma round_even_mono: "x \<le> of_int k \<Longrightarrow> round_even x \<le> k"
proof -
  assume x: "x \<le> of_int k"
  show ?thesis
  proof (cases "x = of_int k")
    case False
    then have "\<lfloor>x\<rfloor> < k" using x by (simp add: floor_less_iff)
    then show ?thesis by (auto simp: round_even_def Let_def)
  qed simp
qed

lemma round_even_nonneg: "0 \<le> x \<Longrightarrow> 0 \<le> round_even x"
  by (auto simp: round_even_def Let_def)

lemma ulp_pos [simp]: "0 < ulp q"
  by (simp add: ulp_def)

lemma ulp_nonzero [simp]: "ulp q \<noteq> 0"
  using ulp_pos [of q] by linarith

lemma round64_error: "\<bar>round64 q - q\<bar> \<le> ulp q / 2"
proof (cases "q = 0")
  case False
  have "round64 q - q = (of_int (round_even (q / ulp q)) - q / ulp q) * ulp q"
    using False by (simp add: round64_def Let_def algebra_simps)
  then have "\<bar>round64 q - q\<bar> = \<bar>of_int (round_even (q / ulp q)) - q / ulp q\<bar> * ulp q"
    using ulp_pos [of q] by (simp add: abs_mult del: ulp_pos)
  also have "\<dots> \<le> 1 / 2 * ulp q"
    by (rule mult_right_mono [OF round_even_error]) (simp add: less_imp_le)
  finally show ?thesis by simp
qed (simp add: round64_def Let_def less_imp_le)

text \<open>In the normal range the relative error is at most \<open>2 ^ -53\<close>.\<close>

lemma round64_relative:
  assumes "pow2 (- 1022) \<le> \<bar>q\<bar>"
  shows "\<bar>round64 q - q\<bar> \<le> \<bar>q\<bar> * pow2 (- 53)"
proof -
  have q: "0 < \<bar>q\<bar>" using assms pow2_pos [of "- 1022"] by linarith
  let ?e = "log2_floor \<bar>q\<bar>"
  have "pow2 (- 1022) < pow2 (?e + 1)" using assms log2_floor_bounds(2) [OF q] by linarith
  then have "- 1022 \<le> ?e" by simp
  then have "max (?e - 52) (- 1074) = ?e + - 52" by simp
  then have "ulp q = pow2 (?e + - 52)" by (simp only: ulp_def)
  also have "\<dots> = pow2 ?e * pow2 (- 52)" by (rule pow2_add)
  also have "\<dots> \<le> \<bar>q\<bar> * pow2 (- 52)"
    by (rule mult_right_mono [OF log2_floor_bounds(1) [OF q]]) (simp add: less_imp_le)
  finally have "ulp q / 2 \<le> \<bar>q\<bar> * pow2 (- 53)"
    by (simp add: pow2_def)
  then show ?thesis using round64_error [of q] by linarith
qed

lemma round64_nonneg: "0 \<le> q \<Longrightarrow> 0 \<le> round64 q"
  by (simp add: round64_def Let_def mult_nonneg_nonneg round_even_nonneg less_imp_le)

lemma round64_le_pow2:
  assumes "q \<le> pow2 k" and "- 1074 \<le> k"
  shows "round64 q \<le> pow2 k"
proof (cases "0 < q")
  case True
  let ?u = "max (log2_floor \<bar>q\<bar> - 52) (- 1074)"
  have "pow2 (log2_floor \<bar>q\<bar>) \<le> pow2 k" using log2_floor_bounds(1) [of "\<bar>q\<bar>"] True assms(1) by linarith
  then have k: "?u \<le> k" using assms(2) by simp
  then have eq: "pow2 k = of_int (2 ^ nat (k - ?u)) * pow2 ?u"
    using pow2_add [of "k - ?u" ?u] by (simp add: pow2_def)
  then have "q / pow2 ?u \<le> of_int (2 ^ nat (k - ?u))" using assms(1) by (simp add: field_simps)
  then have "round_even (q / pow2 ?u) \<le> 2 ^ nat (k - ?u)" by (rule round_even_mono)
  then have "(of_int (round_even (q / pow2 ?u)) :: rat) \<le> of_int (2 ^ nat (k - ?u))" by (simp only: of_int_le_iff)
  then have "of_int (round_even (q / pow2 ?u)) * pow2 ?u \<le> of_int (2 ^ nat (k - ?u)) * pow2 ?u"
    by (rule mult_right_mono) (simp add: less_imp_le)
  then show ?thesis unfolding eq using True by (simp add: round64_def Let_def ulp_def)
next
  case False
  then have "round_even (q / ulp q) \<le> 0"
    by (intro round_even_mono) (simp add: divide_nonpos_pos)
  then have "of_int (round_even (q / ulp q)) * ulp q \<le> 0"
    by (simp add: mult_nonpos_nonneg less_imp_le)
  then show ?thesis using less_imp_le [OF pow2_pos [of k]] unfolding round64_def Let_def
    by (simp only: split: if_split) (meson order_trans)
qed

lemma round64_unit: "0 \<le> q \<Longrightarrow> q \<le> 1 \<Longrightarrow> 0 \<le> round64 q \<and> round64 q \<le> 1"
  using round64_le_pow2 [of q 0] by (simp add: round64_nonneg pow2_def)

section \<open>Floats and their comparisons\<close>

datatype flt = Fin rat | PInf | NInf | NaN

fun flt_lt :: "flt \<Rightarrow> flt \<Rightarrow> bool" where
  "flt_lt (Fin a) (Fin b) = (a < b)"
| "flt_lt NInf (Fin _) = True"
| "flt_lt NInf PInf = True"
| "flt_lt (Fin _) PInf = True"
| "flt_lt _ _ = False"

fun flt_eq :: "flt \<Rightarrow> flt \<Rightarrow> bool" where
  "flt_eq (Fin a) (Fin b) = (a = b)"
| "flt_eq PInf PInf = True"
| "flt_eq NInf NInf = True"
| "flt_eq _ _ = False"

definition flt_le :: "flt \<Rightarrow> flt \<Rightarrow> bool" where
  "flt_le a b = (flt_lt a b \<or> flt_eq a b)"

text \<open>The largest finite float rounds from below this bound: a result at or above it becomes an
  infinity (float arithmetic, \<open>float(text)\<close>) or raises \<open>OverflowError\<close> (\<open>float(i)\<close>, \<open>i / j\<close>).\<close>

definition float_limit :: rat where
  "float_limit = 2 ^ 1024 - 2 ^ 970"

text \<open>The same number as a literal, for evaluation.\<close>

lemma float_limit_code [code]:
  "float_limit =
     179769313486231580793728971405303415079934132710037826936173778980444968292764750946649017977587207096330286416692887910946555547851940402630657488671505820681908902000708383676273854845817711531764475730270069855571366959622842914819860834936475292719074168444365510704342711559699508093042880177904174497792"
  by (simp add: float_limit_def)

definition rat_to_float :: "rat \<Rightarrow> flt" where
  "rat_to_float q =
     (if float_limit \<le> q then PInf else if q \<le> - float_limit then NInf else Fin (round64 q))"

definition int_to_float :: "int \<Rightarrow> flt res" where
  "int_to_float i =
     (if float_limit \<le> \<bar>of_int i\<bar> then Inl OverflowError else Inr (Fin (round64 (of_int i))))"

definition int_div :: "int \<Rightarrow> int \<Rightarrow> flt res" where
  "int_div i j =
     (if j = 0 then Inl ZeroDivisionError
      else if float_limit \<le> \<bar>of_int i / of_int j\<bar> then Inl OverflowError
      else Inr (Fin (round64 (of_int i / of_int j))))"

section \<open>Arithmetic\<close>

fun flt_neg :: "flt \<Rightarrow> flt" where
  "flt_neg (Fin a) = Fin (- a)"
| "flt_neg PInf = NInf"
| "flt_neg NInf = PInf"
| "flt_neg NaN = NaN"

fun flt_add :: "flt \<Rightarrow> flt \<Rightarrow> flt" where
  "flt_add NaN _ = NaN"
| "flt_add _ NaN = NaN"
| "flt_add (Fin a) (Fin b) = rat_to_float (a + b)"
| "flt_add PInf NInf = NaN"
| "flt_add NInf PInf = NaN"
| "flt_add PInf _ = PInf"
| "flt_add _ PInf = PInf"
| "flt_add NInf _ = NInf"
| "flt_add _ NInf = NInf"

definition flt_sub :: "flt \<Rightarrow> flt \<Rightarrow> flt" where
  "flt_sub a b = flt_add a (flt_neg b)"

fun flt_mul :: "flt \<Rightarrow> flt \<Rightarrow> flt" where
  "flt_mul NaN _ = NaN"
| "flt_mul _ NaN = NaN"
| "flt_mul (Fin a) (Fin b) = rat_to_float (a * b)"
| "flt_mul (Fin a) PInf = (if a = 0 then NaN else if 0 < a then PInf else NInf)"
| "flt_mul (Fin a) NInf = (if a = 0 then NaN else if 0 < a then NInf else PInf)"
| "flt_mul PInf (Fin a) = (if a = 0 then NaN else if 0 < a then PInf else NInf)"
| "flt_mul NInf (Fin a) = (if a = 0 then NaN else if 0 < a then NInf else PInf)"
| "flt_mul PInf PInf = PInf"
| "flt_mul NInf NInf = PInf"
| "flt_mul _ _ = NInf"

text \<open>Division by a non-zero float; the callers guard or the model raises first.\<close>

fun flt_div :: "flt \<Rightarrow> flt \<Rightarrow> flt" where
  "flt_div NaN _ = NaN"
| "flt_div _ NaN = NaN"
| "flt_div (Fin a) (Fin b) = rat_to_float (a / b)"
| "flt_div (Fin a) _ = Fin 0"
| "flt_div PInf (Fin b) = (if b < 0 then NInf else PInf)"
| "flt_div NInf (Fin b) = (if b < 0 then PInf else NInf)"
| "flt_div _ _ = NaN"

text \<open>Python's two-argument \<open>max\<close> and \<open>min\<close> keep the first argument unless the second is strictly
  larger (smaller), which is observable with NaN.\<close>

definition flt_max :: "flt \<Rightarrow> flt \<Rightarrow> flt" where
  "flt_max a b = (if flt_lt a b then b else a)"

definition flt_min :: "flt \<Rightarrow> flt \<Rightarrow> flt" where
  "flt_min a b = (if flt_lt b a then b else a)"

lemma flt_lt_irrefl [simp]: "\<not> flt_lt a a"
  by (cases a) auto

lemma flt_lt_asym: "flt_lt a b \<Longrightarrow> \<not> flt_lt b a"
  by (cases a; cases b) auto

lemma flt_lt_trans: "flt_lt a b \<Longrightarrow> flt_lt b c \<Longrightarrow> flt_lt a c"
  by (cases a; cases b; cases c) auto

lemma flt_le_Fin [simp]: "flt_le (Fin a) (Fin b) \<longleftrightarrow> a \<le> b"
  by (auto simp: flt_le_def)

lemma flt_total: "a \<noteq> NaN \<Longrightarrow> b \<noteq> NaN \<Longrightarrow> flt_lt a b \<or> a = b \<or> flt_lt b a"
  by (cases a; cases b) auto

lemma flt_eq_refl: "a \<noteq> NaN \<Longrightarrow> flt_eq a a"
  by (cases a) auto

lemma flt_eq_iff: "flt_eq a b \<longleftrightarrow> a = b \<and> a \<noteq> NaN"
  by (cases a; cases b) auto

section \<open>Lemmas on rates\<close>

lemma int_div_unit:
  assumes "0 \<le> i" and "i \<le> j" and "0 < j"
  shows "\<exists>q. int_div i j = Inr (Fin q) \<and> 0 \<le> q \<and> q \<le> 1"
proof -
  have u: "0 \<le> (of_int i :: rat) / of_int j" "(of_int i :: rat) / of_int j \<le> 1"
    using assms by (auto simp: divide_le_eq)
  have "(1 :: rat) < float_limit" by (simp add: float_limit_def)
  then have "\<not> float_limit \<le> \<bar>of_int i / of_int j\<bar>" using u by linarith
  then show ?thesis using assms(3) round64_unit [OF u] unfolding int_div_def by auto
qed

lemma int_div_self: "0 < i \<Longrightarrow> int_div i i = Inr (Fin 1)"
proof -
  assume "0 < i"
  have "round64 1 = 1" by code_simp
  moreover have "(1 :: rat) < float_limit" by (simp add: float_limit_def)
  ultimately show ?thesis using \<open>0 < i\<close> by (simp add: int_div_def)
qed

section \<open>Durations in milliseconds\<close>

text \<open>\<open>delta.total_seconds() * 1000.0\<close> for a \<open>timedelta\<close> of a whole number of microseconds.\<close>

definition micros_to_ms :: "int \<Rightarrow> rat" where
  "micros_to_ms us = round64 (round64 (of_int us / 10 ^ 6) * 1000)"

lemma micros_to_ms_error:
  assumes "\<bar>us\<bar> < 2 ^ 50"
  shows "\<bar>micros_to_ms us - of_int us / 1000\<bar> < 1 / 2000"
proof (cases "us = 0")
  case False
  define q where "q = (of_int us :: rat) / 10 ^ 6"
  define r where "r = round64 q"
  have "(1 :: rat) \<le> \<bar>of_int us\<bar>" using False by linarith
  then have q1: "1 / 10 ^ 6 \<le> \<bar>q\<bar>" by (simp add: q_def field_simps)
  have "(of_int \<bar>us\<bar> :: rat) < of_int (2 ^ 50)" using assms by (simp only: of_int_less_iff)
  then have q2: "\<bar>q\<bar> < 1125899907" by (simp add: q_def field_simps)
  have tiny: "pow2 (- 1022) \<le> 1 / 10 ^ 6"
  proof -
    have "pow2 (- 1022) \<le> pow2 (- 20)" by simp
    also have "\<dots> \<le> 1 / 10 ^ 6" by (simp add: pow2_def)
    finally show ?thesis .
  qed
  have "\<bar>r - q\<bar> \<le> \<bar>q\<bar> * pow2 (- 53)"
    unfolding r_def using order_trans [OF tiny q1] by (rule round64_relative)
  then have r1: "\<bar>r - q\<bar> \<le> \<bar>q\<bar> / 9007199254740992" by (simp add: pow2_def)
  then have r2: "\<bar>q\<bar> / 2 \<le> \<bar>r\<bar>" "\<bar>r\<bar> \<le> 2 * \<bar>q\<bar>" by linarith+
  have "\<bar>round64 (r * 1000) - r * 1000\<bar> \<le> \<bar>r * 1000\<bar> * pow2 (- 53)"
  proof (rule round64_relative)
    have "1 / 10 ^ 6 \<le> \<bar>r\<bar> * 1000" using q1 r2 by simp
    then show "pow2 (- 1022) \<le> \<bar>r * 1000\<bar>" using order_trans [OF tiny] by (simp add: abs_mult)
  qed
  then have "\<bar>round64 (r * 1000) - r * 1000\<bar> \<le> \<bar>r\<bar> * 1000 / 9007199254740992" by (simp add: pow2_def abs_mult)
  then have "\<bar>round64 (r * 1000) - q * 1000\<bar> < 1 / 2000" using r1 r2 q2 by linarith
  then show ?thesis by (simp add: micros_to_ms_def r_def q_def)
qed (simp add: micros_to_ms_def round64_def Let_def)

lemma micros_to_ms_le:
  assumes "\<bar>us\<bar> < 2 ^ 50" and "\<bar>micros_to_ms us\<bar> \<le> of_int ms"
  shows "\<bar>us\<bar> \<le> 1000 * ms"
proof -
  have "\<bar>of_int us\<bar> < (1000 * of_int ms + 1 :: rat)"
    using micros_to_ms_error [OF assms(1)] assms(2) by linarith
  then have "(of_int \<bar>us\<bar> :: rat) < of_int (1000 * ms + 1)" by simp
  then show ?thesis unfolding of_int_less_iff by simp
qed

lemma micros_to_ms_less:
  assumes "\<bar>us\<bar> < 2 ^ 50" and "\<bar>us\<bar> < 1000 * ms"
  shows "\<bar>micros_to_ms us\<bar> \<le> of_int ms"
proof -
  have "(of_int (\<bar>us\<bar> + 1) :: rat) \<le> of_int (1000 * ms)" using assms(2) by (simp only: of_int_le_iff)
  then have "\<bar>of_int us\<bar> + 1 \<le> (1000 * of_int ms :: rat)" by simp
  then show ?thesis using micros_to_ms_error [OF assms(1)] by linarith
qed

text \<open>\<open>math.ceil\<close> of a float.\<close>

fun flt_ceil :: "flt \<Rightarrow> int res" where
  "flt_ceil (Fin q) = Inr \<lceil>q\<rceil>"
| "flt_ceil NaN = Inl ValueError"
| "flt_ceil _ = Inl OverflowError"

end
