(* ===== verification/PyValues.thy ===== *)
theory PyValues
  imports Floats
begin

text \<open>
  The Python values the evaluation code handles dynamically (\<open>Any\<close>): JSON data, the two sentinels of
  \<open>predicates.py\<close>, datetimes, and pydantic models reached through a dotted path.

  Integers are unbounded, as in Python; floats are those of \<open>Floats\<close>. Characters are the code points 0 to 255. A
  dict is an association list in insertion order with distinct keys. A datetime is an instant in
  microseconds, with or without a time zone.
\<close>

section \<open>Dynamic values\<close>

datatype datetime = Aware int | Naive int

datatype pyval =
    VMissing
  | VUnknown
  | VNull
  | VBool bool
  | VInt int
  | VFloat flt
  | VStr string
  | VList "pyval list"
  | VDict "(string \<times> pyval) list"
  | VDate datetime
  | VModel string "(string \<times> pyval) list"

type_synonym pydict = "(string \<times> pyval) list"

datatype ptype =
    TMissing | TUnknown | TNull | TBool | TInt | TFloat | TStr | TList | TDict | TDate | TModel string

fun py_type :: "pyval \<Rightarrow> ptype" where
  "py_type VMissing = TMissing"
| "py_type VUnknown = TUnknown"
| "py_type VNull = TNull"
| "py_type (VBool _) = TBool"
| "py_type (VInt _) = TInt"
| "py_type (VFloat _) = TFloat"
| "py_type (VStr _) = TStr"
| "py_type (VList _) = TList"
| "py_type (VDict _) = TDict"
| "py_type (VDate _) = TDate"
| "py_type (VModel c _) = TModel c"

text \<open>\<open>isinstance(v, (int, float))\<close> holds for bool too, as in Python; \<open>num_of\<close> reads the number.\<close>

fun num_of :: "pyval \<Rightarrow> flt option" where
  "num_of (VBool b) = Some (Fin (if b then 1 else 0))"
| "num_of (VInt i) = Some (Fin (of_int i))"
| "num_of (VFloat f) = Some f"
| "num_of _ = None"

fun is_bool :: "pyval \<Rightarrow> bool" where
  "is_bool (VBool _) = True"
| "is_bool _ = False"

fun is_str :: "pyval \<Rightarrow> bool" where
  "is_str (VStr _) = True"
| "is_str _ = False"

fun is_list :: "pyval \<Rightarrow> bool" where
  "is_list (VList _) = True"
| "is_list _ = False"

fun is_dict :: "pyval \<Rightarrow> bool" where
  "is_dict (VDict _) = True"
| "is_dict _ = False"

text \<open>\<open>isinstance(v, int)\<close>, with the value read as an int.\<close>

fun as_int :: "pyval \<Rightarrow> int option" where
  "as_int (VInt i) = Some i"
| "as_int (VBool b) = Some (if b then 1 else 0)"
| "as_int _ = None"

text \<open>\<open>d.get(k)\<close> on a dict: \<open>None\<close> for an absent key, like an explicit null.\<close>

definition dict_get :: "pydict \<Rightarrow> string \<Rightarrow> pyval" where
  "dict_get d k = (case map_of d k of None \<Rightarrow> VNull | Some v \<Rightarrow> v)"

text \<open>Truthiness, \<open>bool(v)\<close>.\<close>

fun truthy :: "pyval \<Rightarrow> bool" where
  "truthy VNull = False"
| "truthy (VBool b) = b"
| "truthy (VInt i) = (i \<noteq> 0)"
| "truthy (VFloat f) = (f \<noteq> Fin 0)"
| "truthy (VStr s) = (s \<noteq> [])"
| "truthy (VList xs) = (xs \<noteq> [])"
| "truthy (VDict d) = (d \<noteq> [])"
| "truthy _ = True"

text \<open>Python's \<open>==\<close>: numbers of any kind by value, dicts regardless of order, models by class and
  fields.\<close>

definition num_eq :: "pyval \<Rightarrow> pyval \<Rightarrow> bool" where
  "num_eq v w = (case (num_of v, num_of w) of (Some a, Some b) \<Rightarrow> flt_eq a b | _ \<Rightarrow> False)"

fun py_eq :: "pyval \<Rightarrow> pyval \<Rightarrow> bool"
  and py_eq_list :: "pyval list \<Rightarrow> pyval list \<Rightarrow> bool"
  and py_eq_sub :: "pydict \<Rightarrow> pydict \<Rightarrow> bool" where
  "py_eq (VList xs) w = (case w of VList ys \<Rightarrow> py_eq_list xs ys | _ \<Rightarrow> False)"
| "py_eq (VDict d) w = (case w of VDict e \<Rightarrow> length d = length e \<and> py_eq_sub d e | _ \<Rightarrow> False)"
| "py_eq (VModel c d) w =
     (case w of VModel c' e \<Rightarrow> c = c' \<and> length d = length e \<and> py_eq_sub d e | _ \<Rightarrow> False)"
| "py_eq (VStr s) w = (w = VStr s)"
| "py_eq (VDate t) w = (w = VDate t)"
| "py_eq VNull w = (w = VNull)"
| "py_eq VMissing w = (w = VMissing)"
| "py_eq VUnknown w = (w = VUnknown)"
| "py_eq (VBool b) w = num_eq (VBool b) w"
| "py_eq (VInt i) w = num_eq (VInt i) w"
| "py_eq (VFloat f) w = num_eq (VFloat f) w"
| "py_eq_list [] ws = (ws = [])"
| "py_eq_list (v # vs) ws = (case ws of [] \<Rightarrow> False | w # ws' \<Rightarrow> py_eq v w \<and> py_eq_list vs ws')"
| "py_eq_sub [] e = True"
| "py_eq_sub ((k, v) # d) e =
     ((case map_of e k of None \<Rightarrow> False | Some w \<Rightarrow> py_eq v w) \<and> py_eq_sub d e)"

text \<open>\<open>_is_number\<close> of \<open>evaluators.py\<close>: an int or float that is not a bool.\<close>

definition is_number :: "pyval \<Rightarrow> bool" where
  "is_number v = (num_of v \<noteq> None \<and> \<not> is_bool v)"

text \<open>String order is by code points.\<close>

fun str_less :: "string \<Rightarrow> string \<Rightarrow> bool" where
  "str_less _ [] = False"
| "str_less [] (_ # _) = True"
| "str_less (c # cs) (d # ds) =
     (if c = d then str_less cs ds else (of_char c :: nat) < of_char d)"

lemma str_less_irrefl [simp]: "\<not> str_less s s"
  by (induction s) auto

lemma str_less_asym: "str_less s t \<Longrightarrow> \<not> str_less t s"
  by (induction s t rule: str_less.induct) (auto split: if_splits)

lemma str_less_total: "str_less s t \<or> s = t \<or> str_less t s"
proof (induction s arbitrary: t)
  case Nil
  then show ?case by (cases t) auto
next
  case (Cons c s)
  show ?case
  proof (cases t)
    case Nil
    then show ?thesis by simp
  next
    case (Cons d u)
    have "c = d \<or> (of_char c :: nat) < of_char d \<or> (of_char d :: nat) < of_char c"
      using linorder_neqE_nat [of "of_char c" "of_char d"] by auto
    then show ?thesis using Cons.IH [of u] Cons by auto
  qed
qed

text \<open>\<open>(a > b) - (a < b)\<close> for an order given by its strict comparison.\<close>

definition three_way :: "('a \<Rightarrow> 'a \<Rightarrow> bool) \<Rightarrow> 'a \<Rightarrow> 'a \<Rightarrow> int" where
  "three_way lt a b = (if lt b a then 1 else 0) - (if lt a b then 1 else 0)"

lemma three_way_antisym: "three_way lt b a = - three_way lt a b"
  by (simp add: three_way_def)

section \<open>Characters and text\<close>

definition code :: "char \<Rightarrow> nat" where
  "code c = of_char c"

text \<open>The \<open>str\<close> predicates on the code points 0 to 255; \<open>isdigit\<close> holds for the three superscript
  digits, which \<open>int()\<close> and \<open>float()\<close> refuse.\<close>

definition is_decimal :: "char \<Rightarrow> bool" where
  "is_decimal c = (48 \<le> code c \<and> code c \<le> 57)"

definition is_digit :: "char \<Rightarrow> bool" where
  "is_digit c = (is_decimal c \<or> code c \<in> {178, 179, 185})"

definition is_alpha :: "char \<Rightarrow> bool" where
  "is_alpha c =
     (let n = code c in
       65 \<le> n \<and> n \<le> 90 \<or> 97 \<le> n \<and> n \<le> 122 \<or> n \<in> {170, 181, 186} \<or>
       192 \<le> n \<and> n \<le> 214 \<or> 216 \<le> n \<and> n \<le> 246 \<or> 248 \<le> n)"

definition is_alnum :: "char \<Rightarrow> bool" where
  "is_alnum c = (is_alpha c \<or> is_digit c \<or> code c \<in> {188, 189, 190})"

definition is_space :: "char \<Rightarrow> bool" where
  "is_space c =
     (let n = code c in 9 \<le> n \<and> n \<le> 13 \<or> 28 \<le> n \<and> n \<le> 32 \<or> n = 133 \<or> n = 160)"

definition blank :: "string \<Rightarrow> bool" where
  "blank s = list_all is_space s"

definition digit_val :: "char \<Rightarrow> nat" where
  "digit_val c = code c - 48"

definition digits_val :: "string \<Rightarrow> nat" where
  "digits_val s = foldl (\<lambda>n c. 10 * n + digit_val c) 0 s"

text \<open>\<open>int(raw)\<close> on an optional minus sign and digits: a digit that is not decimal, no digit, or more
  than 4300 digits raises.\<close>

definition parse_int :: "string \<Rightarrow> int res" where
  "parse_int raw =
     (let neg = (raw \<noteq> [] \<and> hd raw = CHR ''-''); ds = (if neg then tl raw else raw) in
      if ds = [] \<or> \<not> list_all is_decimal ds \<or> length ds > 4300 then Inl ValueError
      else Inr (if neg then - int (digits_val ds) else int (digits_val ds)))"

text \<open>\<open>float(raw)\<close> on the shape \<open>-?digits(.digits)?([eE][+-]?digits)?\<close> the scanners produce.\<close>

definition pow10 :: "int \<Rightarrow> rat" where
  "pow10 e = (if 0 \<le> e then of_int (10 ^ nat e) else 1 / of_int (10 ^ nat (- e)))"

definition parse_exponent :: "string \<Rightarrow> int res" where
  "parse_exponent es =
     (let neg = (es \<noteq> [] \<and> hd es = CHR ''-'');
          ds = (if es \<noteq> [] \<and> (hd es = CHR ''-'' \<or> hd es = CHR ''+'') then tl es else es) in
      if ds = [] \<or> \<not> list_all is_decimal ds then Inl ValueError
      else Inr (if neg then - int (digits_val ds) else int (digits_val ds)))"

text \<open>\<open>float_parts raw\<close>: sign, integer digits, fraction digits, and what follows them.\<close>

definition float_parts :: "string \<Rightarrow> bool \<times> string \<times> string \<times> string" where
  "float_parts raw =
     (let neg = (raw \<noteq> [] \<and> hd raw = CHR ''-'');
          body = (if neg then tl raw else raw);
          r1 = dropWhile is_digit body;
          dot = (r1 \<noteq> [] \<and> hd r1 = CHR ''.'') in
      (neg, takeWhile is_digit body, (if dot then takeWhile is_digit (tl r1) else []),
       (if dot then dropWhile is_digit (tl r1) else r1)))"

definition float_exponent :: "string \<Rightarrow> int res" where
  "float_exponent r =
     (if r = [] then Inr 0
      else if hd r = CHR ''e'' \<or> hd r = CHR ''E'' then parse_exponent (tl r)
      else Inl ValueError)"

definition float_value :: "bool \<Rightarrow> string \<Rightarrow> nat \<Rightarrow> int \<Rightarrow> flt" where
  "float_value neg mant scale e =
     rat_to_float ((if neg then -1 else 1) * of_nat (digits_val mant) * pow10 (e - int scale))"

definition parse_float :: "string \<Rightarrow> flt res" where
  "parse_float raw =
     (case float_parts raw of (neg, ip, fp, r) \<Rightarrow>
        if ip @ fp = [] \<or> \<not> list_all is_decimal (ip @ fp) then Inl ValueError
        else bind_res (float_exponent r) (\<lambda>e. Inr (float_value neg (ip @ fp) (length fp) e)))"

section \<open>External functions\<close>

text \<open>
  What the code calls and this development does not define: parsing and printing of ISO 8601
  timestamps, the cel-python engine, the \<open>re\<close> engine, \<open>str()\<close> of floats and containers, and \<open>sum\<close> of floats. Every
  definition that reaches one of them takes the record as an argument, and every theorem holds for
  all of them unless it says otherwise.
  \<^item> \<open>fromisoformat\<close>: \<open>None\<close> where Python raises \<open>ValueError\<close>;
  \<^item> \<open>cel_program\<close>: a parse error with its position, or a runner;
  \<^item> \<open>re_search\<close>: \<open>None\<close> where \<open>re.compile\<close> raises \<open>re.error\<close>, else whether \<open>search\<close> finds a match;
  \<^item> \<open>float_sum\<close>: \<open>sum\<close> of a non-empty list of floats, rounded after each addition up to Python 3.11
    (\<open>plain_sum\<close>) and compensated from 3.12 on; the project supports both;
  \<^item> \<open>nan_sorted\<close>: \<open>sorted\<close> of a list of floats that holds NaN, whose order Python leaves open.
\<close>

fun plain_sum :: "flt list \<Rightarrow> flt" where
  "plain_sum [] = Fin 0"
| "plain_sum (x # xs) = foldl flt_add x xs"

datatype cel_outcome = CelValue pyval | CelEvalError bool | CelOtherError

record externals =
  fromisoformat :: "string \<Rightarrow> datetime option"
  isoformat :: "int \<Rightarrow> string"
  cel_program :: "string \<Rightarrow> nat + (pydict \<Rightarrow> cel_outcome)"
  re_search :: "string \<Rightarrow> (string \<Rightarrow> bool) option"
  py_repr :: "pyval \<Rightarrow> string"
  float_sum :: "flt list \<Rightarrow> flt"
  nan_sorted :: "flt list \<Rightarrow> flt list"

text \<open>Concrete instances for examples: nothing parses, nothing matches.\<close>

definition no_externals :: externals where
  "no_externals = \<lparr>fromisoformat = (\<lambda>_. None), isoformat = (\<lambda>_. []), cel_program = (\<lambda>_. Inl 0),
     re_search = (\<lambda>_. None), py_repr = (\<lambda>_. []),
     float_sum = plain_sum, nan_sorted = id\<rparr>"

text \<open>\<open>str(raw)\<close>; of floats and containers it is external.\<close>

fun decimal_digits :: "nat \<Rightarrow> string" where
  "decimal_digits n =
     (if n < 10 then [char_of (48 + n)] else decimal_digits (n div 10) @ [char_of (48 + n mod 10)])"

declare decimal_digits.simps [simp del]

definition py_str :: "externals \<Rightarrow> pyval \<Rightarrow> string" where
  "py_str X v =
     (case v of
        VStr s \<Rightarrow> s
      | VNull \<Rightarrow> ''None''
      | VBool b \<Rightarrow> (if b then ''True'' else ''False'')
      | VInt i \<Rightarrow> (if i < 0 then CHR ''-'' # decimal_digits (nat (- i)) else decimal_digits (nat i))
      | _ \<Rightarrow> py_repr X v)"

end
