(* ===== verification/Events.thy ===== *)
theory Events
  imports PyValues
begin

text \<open>
  The trace-event envelope of \<open>events.py\<close>: the closed list of event types, the source of an event, the
  blocks nested in an event, the envelope with its validator, and \<open>make_event\<close>.

  A trace carries time-zone aware timestamps (\<open>make_event\<close> stamps UTC); an event's timestamp is its
  instant in microseconds. \<open>event_attr\<close> reads the six envelope fields a scalar predicate may root
  at. Serialisation by pydantic is not modelled.
\<close>

section \<open>Closed enumerations\<close>

datatype event_type =
    LLM_CALL | LLM_RESPONSE | TOOL_CALL | TOOL_RESULT | ERROR | RETRIEVAL | DELEGATION
  | GUARDRAIL_CHECK | WAIT_FOR_INPUT | USER_RESPONSE | STREAM_START | FIRST_TOKEN | RETRY
  | BUDGET_EXCEEDED

fun event_type_value :: "event_type \<Rightarrow> string" where
  "event_type_value LLM_CALL = ''llm_call''"
| "event_type_value LLM_RESPONSE = ''llm_response''"
| "event_type_value TOOL_CALL = ''tool_call''"
| "event_type_value TOOL_RESULT = ''tool_result''"
| "event_type_value ERROR = ''error''"
| "event_type_value RETRIEVAL = ''retrieval''"
| "event_type_value DELEGATION = ''delegation''"
| "event_type_value GUARDRAIL_CHECK = ''guardrail_check''"
| "event_type_value WAIT_FOR_INPUT = ''wait_for_input''"
| "event_type_value USER_RESPONSE = ''user_response''"
| "event_type_value STREAM_START = ''stream_start''"
| "event_type_value FIRST_TOKEN = ''first_token''"
| "event_type_value RETRY = ''retry''"
| "event_type_value BUDGET_EXCEEDED = ''budget_exceeded''"

definition all_event_types :: "event_type list" where
  "all_event_types =
     [LLM_CALL, LLM_RESPONSE, TOOL_CALL, TOOL_RESULT, ERROR, RETRIEVAL, DELEGATION, GUARDRAIL_CHECK,
      WAIT_FOR_INPUT, USER_RESPONSE, STREAM_START, FIRST_TOKEN, RETRY, BUDGET_EXCEEDED]"

definition EVENT_TYPES :: "string list" where
  "EVENT_TYPES = map event_type_value all_event_types"

text \<open>\<open>EventType(text)\<close>.\<close>

definition event_type_of :: "string \<Rightarrow> event_type option" where
  "event_type_of t = find (\<lambda>e. event_type_value e = t) all_event_types"

datatype source = PROXY | ADAPTER | RUNNER

fun source_value :: "source \<Rightarrow> string" where
  "source_value PROXY = ''proxy''"
| "source_value ADAPTER = ''adapter''"
| "source_value RUNNER = ''runner''"

definition SOURCES :: "string list" where
  "SOURCES = map source_value [PROXY, ADAPTER, RUNNER]"

lemma event_type_value_inj [simp]: "event_type_value s = event_type_value t \<longleftrightarrow> s = t"
  by (cases s; cases t) simp_all

lemma in_all_event_types [simp]: "t \<in> set all_event_types"
  by (cases t) (simp_all add: all_event_types_def)

lemma in_EVENT_TYPES_iff: "v \<in> set EVENT_TYPES \<longleftrightarrow> (\<exists>t. v = event_type_value t)"
  by (auto simp: EVENT_TYPES_def)

lemma source_value_inj [simp]: "source_value s = source_value t \<longleftrightarrow> s = t"
  by (cases s; cases t) simp_all

lemma event_type_of_value [simp]: "event_type_of (event_type_value t) = Some t"
  by (cases t) (simp_all add: event_type_of_def all_event_types_def)

lemma event_type_of_Some: "event_type_of v = Some t \<longleftrightarrow> v = event_type_value t"
proof
  assume "event_type_of v = Some t"
  then show "v = event_type_value t"
    by (auto simp: event_type_of_def find_Some_iff)
qed simp

lemma event_type_of_None: "event_type_of v = None \<longleftrightarrow> v \<notin> set EVENT_TYPES"
  by (auto simp: event_type_of_def find_None_iff EVENT_TYPES_def)

section \<open>Nested blocks\<close>

record token_usage =
  tk_input :: int
  tk_output :: int
  tk_cache_read :: int
  tk_cache_write :: int

record cost_block =
  co_tokens :: token_usage
  co_cost_usd :: flt
  co_currency :: string
  co_price_version :: string

record redaction_state =
  rd_status :: string
  rd_rules :: "string list"

record otel_context =
  ot_trace_id :: "string option"
  ot_span_id :: "string option"

record error_block =
  er_type :: string
  er_message :: string
  er_retryable :: bool

section \<open>The envelope\<close>

record trace_event =
  event_id :: string
  run_id :: string
  workspace_id :: string
  ev_case_id :: string
  attempt_id :: string
  repeat_index :: int
  ev_attempt :: int
  sequence :: int
  ev_type :: event_type
  ev_source :: source
  timestamp :: int
  duration_ms :: "int option"
  parent_event_id :: "string option"
  provider_request_id :: "string option"
  ev_tool :: "string option"
  otel :: "otel_context option"
  cost :: "cost_block option"
  redaction :: redaction_state
  payload :: "pydict option"
  payload_ref :: "string option"
  ev_error :: "error_block option"

text \<open>The typed \<open>tool\<close> column: set exactly on \<open>tool_call\<close> and \<open>tool_result\<close>.\<close>

definition tool_typed_column :: "trace_event \<Rightarrow> bool" where
  "tool_typed_column e =
     (if ev_type e \<in> {TOOL_CALL, TOOL_RESULT} then ev_tool e \<noteq> None else ev_tool e = None)"

text \<open>The checks of \<open>TraceEvent(...)\<close>: the five non-empty identifiers, the literals of the nested
  blocks, and the model validator. A pydantic \<open>ValidationError\<close> is a \<open>ValueError\<close>.\<close>

definition validate_event :: "trace_event \<Rightarrow> trace_event res" where
  "validate_event e =
     (if event_id e = [] \<or> run_id e = [] \<or> workspace_id e = [] \<or> ev_case_id e = [] \<or> attempt_id e = []
      then Inl ValueError
      else if rd_status (redaction e) \<notin> {''clean'', ''redacted'', ''truncated''} then Inl ValueError
      else if (case cost e of None \<Rightarrow> False | Some c \<Rightarrow> co_currency c \<noteq> ''USD'') then Inl ValueError
      else if \<not> tool_typed_column e then Inl ValueError
      else Inr e)"

definition valid_event :: "trace_event \<Rightarrow> bool" where
  "valid_event e = (validate_event e = Inr e)"

text \<open>
  \<open>make_event\<close>: \<open>draft\<close> holds the caller's other fields and their defaults; \<open>fresh\<close> is the uuid and
  \<open>now\<close> the wall clock used when the caller gives no id or timestamp.
\<close>

definition make_event ::
  "string \<Rightarrow> trace_event \<Rightarrow> string option \<Rightarrow> string \<Rightarrow> int option \<Rightarrow> int \<Rightarrow> trace_event res" where
  "make_event type_text draft eid fresh ts now =
     (case event_type_of type_text of
        None \<Rightarrow> Inl ValueError
      | Some t \<Rightarrow> validate_event (draft\<lparr>
          event_id := (case eid of None \<Rightarrow> fresh | Some i \<Rightarrow> i),
          timestamp := (case ts of None \<Rightarrow> now | Some s \<Rightarrow> s),
          ev_type := t\<rparr>))"

section \<open>Reading an event through a path\<close>

definition opt_str :: "string option \<Rightarrow> pyval" where
  "opt_str s = (case s of None \<Rightarrow> VNull | Some x \<Rightarrow> VStr x)"

definition tokens_value :: "token_usage \<Rightarrow> pyval" where
  "tokens_value t = VModel ''TokenUsage''
     [(''input'', VInt (tk_input t)), (''output'', VInt (tk_output t)),
      (''cache_read'', VInt (tk_cache_read t)), (''cache_write'', VInt (tk_cache_write t))]"

definition cost_value :: "cost_block \<Rightarrow> pyval" where
  "cost_value c = VModel ''CostBlock''
     [(''tokens'', tokens_value (co_tokens c)), (''cost_usd'', VFloat (co_cost_usd c)),
      (''currency'', VStr (co_currency c)), (''price_version'', VStr (co_price_version c))]"

definition redaction_value :: "redaction_state \<Rightarrow> pyval" where
  "redaction_value r = VModel ''RedactionState''
     [(''status'', VStr (rd_status r)), (''rules'', VList (map VStr (rd_rules r)))]"

definition event_attr :: "trace_event \<Rightarrow> string \<Rightarrow> pyval" where
  "event_attr e name =
     (if name = ''payload'' then (case payload e of None \<Rightarrow> VNull | Some d \<Rightarrow> VDict d)
      else if name = ''cost'' then (case cost e of None \<Rightarrow> VNull | Some c \<Rightarrow> cost_value c)
      else if name = ''timestamp'' then VDate (Aware (timestamp e))
      else if name = ''provider_request_id'' then opt_str (provider_request_id e)
      else if name = ''parent_event_id'' then opt_str (parent_event_id e)
      else if name = ''redaction_state'' then redaction_value (redaction e)
      else VMissing)"

section \<open>Construction validates\<close>

lemma validate_event_Inr: "validate_event e = Inr e' \<Longrightarrow> e' = e \<and> valid_event e"
  by (auto simp: validate_event_def valid_event_def split: if_splits)

lemma validate_event_Inl: "validate_event e = Inl x \<Longrightarrow> x = ValueError"
  by (auto simp: validate_event_def split: if_splits)

lemma valid_event_tool: "valid_event e \<Longrightarrow> ev_tool e \<noteq> None \<longleftrightarrow> ev_type e \<in> {TOOL_CALL, TOOL_RESULT}"
  by (auto simp: valid_event_def validate_event_def tool_typed_column_def split: if_splits)

text \<open>A plain event, used as the default envelope in examples.\<close>

definition default_event :: trace_event where
  "default_event = \<lparr>event_id = ''e1'', run_id = ''r1'', workspace_id = ''w1'', ev_case_id = ''c1'',
     attempt_id = ''a1'', repeat_index = 0, ev_attempt = 0, sequence = 0, ev_type = LLM_CALL,
     ev_source = PROXY, timestamp = 0, duration_ms = None, parent_event_id = None,
     provider_request_id = None, ev_tool = None, otel = None, cost = None,
     redaction = \<lparr>rd_status = ''clean'', rd_rules = []\<rparr>, payload = None, payload_ref = None,
     ev_error = None\<rparr>"

end
