(* ===== verification/Predicates.thy ===== *)
theory Predicates
  imports Events
begin

text \<open>
  The scalar predicate language of \<open>predicates.py\<close>: the lexer, the recursive-descent parser with its
  nesting cap, the syntax tree, and three-valued evaluation over a trace event.

  The lexer and the parser consume lists; a position is the index the source records. The parser's
  methods are functions of the remaining tokens; its depth counter is the number of nesting levels
  still allowed, so the recursion ends at the cap. The loops over \<open>&&\<close> and \<open>||\<close> carry the number of
  tokens left as fuel, which \<open>PredicateParsing.parse_tokens_outcome\<close> shows never to run out. The class hierarchy
  of nodes is the datatype \<open>node\<close>.
\<close>

section \<open>Fields and operators\<close>

definition ALLOWED_FIELDS :: "string list" where
  "ALLOWED_FIELDS =
     [''payload'', ''cost'', ''timestamp'', ''provider_request_id'', ''parent_event_id'',
      ''redaction_state'']"

definition comparison_ops :: "string list" where
  "comparison_ops = [''=='', ''!='', ''<'', ''<='', ''>'', ''>='']"

definition MAX_NESTING_DEPTH :: nat where
  "MAX_NESTING_DEPTH = 100"

definition reserved_words :: "string list" where
  "reserved_words = [''true'', ''false'', ''null'']"

definition starts_underscore :: "string \<Rightarrow> bool" where
  "starts_underscore s = (s \<noteq> [] \<and> hd s = CHR ''_'')"

section \<open>Lexer\<close>

datatype token_kind =
    Tok_ident string
  | Tok_number pyval
  | Tok_string string
  | Tok_op string
  | Tok_dot
  | Tok_lparen
  | Tok_rparen
  | Tok_eof

type_synonym token = "token_kind \<times> nat"

definition ESCAPES :: "(char \<times> char) list" where
  "ESCAPES =
     [(CHR ''n'', CHR 0x0A), (CHR ''t'', CHR 0x09), (CHR ''r'', CHR 0x0D), (CHR ''b'', CHR 0x08),
      (CHR ''f'', CHR 0x0C), (CHR 0x22, CHR 0x22), (CHR 0x27, CHR 0x27), (CHR 0x5C, CHR 0x5C)]"

definition is_hex :: "char \<Rightarrow> bool" where
  "is_hex c =
     (is_decimal c \<or> 97 \<le> code c \<and> code c \<le> 102 \<or> 65 \<le> code c \<and> code c \<le> 70)"

definition hex_val :: "char \<Rightarrow> nat" where
  "hex_val c = (if is_decimal c then code c - 48 else if 97 \<le> code c then code c - 87 else code c - 55)"

definition chr_of :: "nat \<Rightarrow> char res" where
  "chr_of n = (if n < 256 then Inr (char_of n) else Inl UnmodelledCodePoint)"

text \<open>\<open>scan_string start q cs i\<close>: the rest \<open>cs\<close> of the text from index \<open>i\<close>, after the quote \<open>q\<close> opened
  at \<open>start\<close>; returns the decoded text, the rest after the closing quote and its index.\<close>

function scan_string :: "nat \<Rightarrow> char \<Rightarrow> string \<Rightarrow> nat \<Rightarrow> (string \<times> string \<times> nat) res" where
  "scan_string start q [] i = Inl (PredicateSyntaxError start)"
| "scan_string start q (c # cs) i =
     (if c = q then Inr ([], cs, Suc i)
      else if c = CHR 0x5C then
        (case cs of
           [] \<Rightarrow> Inl (PredicateSyntaxError i)
         | esc # rest \<Rightarrow>
             if esc = CHR ''u'' then
               (let hex4 = take 4 rest in
                if length hex4 \<noteq> 4 \<or> \<not> list_all is_hex hex4 then Inl (PredicateSyntaxError i)
                else bind_res (chr_of (foldl (\<lambda>n h. 16 * n + hex_val h) 0 hex4)) (\<lambda>ch.
                  bind_res (scan_string start q (drop 4 rest) (i + 6)) (\<lambda>(s, r, j).
                    Inr (ch # s, r, j))))
             else (case map_of ESCAPES esc of
                 Some ch \<Rightarrow> bind_res (scan_string start q rest (i + 2)) (\<lambda>(s, r, j). Inr (ch # s, r, j))
               | None \<Rightarrow> Inl (PredicateSyntaxError i)))
      else bind_res (scan_string start q cs (Suc i)) (\<lambda>(s, r, j). Inr (c # s, r, j)))"
  by pat_completeness auto
termination by (relation "measure (\<lambda>(_, _, cs, _). length cs)") auto

declare scan_string.simps [simp del]

text \<open>\<open>_scan_number\<close>: the shape it consumes, part by part; the value is \<open>int(raw)\<close> or \<open>float(raw)\<close>,
  which may raise.\<close>

definition skip_minus :: "string \<Rightarrow> string" where
  "skip_minus cs = (if cs \<noteq> [] \<and> hd cs = CHR ''-'' then tl cs else cs)"

definition has_fraction :: "string \<Rightarrow> bool" where
  "has_fraction cs = (cs \<noteq> [] \<and> hd cs = CHR ''.'')"

definition skip_fraction :: "string \<Rightarrow> string" where
  "skip_fraction cs = (if has_fraction cs then dropWhile is_digit (tl cs) else cs)"

definition has_exponent :: "string \<Rightarrow> bool" where
  "has_exponent cs = (cs \<noteq> [] \<and> (hd cs = CHR ''e'' \<or> hd cs = CHR ''E''))"

definition skip_exponent :: "string \<Rightarrow> string" where
  "skip_exponent cs =
     (if has_exponent cs then
        (let r = tl cs in
         dropWhile is_digit (if r \<noteq> [] \<and> (hd r = CHR ''+'' \<or> hd r = CHR ''-'') then tl r else r))
      else cs)"

definition scan_number :: "string \<Rightarrow> (pyval \<times> string) res" where
  "scan_number cs =
     (let r1 = dropWhile is_digit (skip_minus cs);
          r2 = skip_fraction r1;
          r3 = skip_exponent r2;
          raw = take (length cs - length r3) cs in
      if has_fraction r1 \<or> has_exponent r2
      then bind_res (parse_float raw) (\<lambda>f. Inr (VFloat f, r3))
      else bind_res (parse_int raw) (\<lambda>n. Inr (VInt n, r3)))"

text \<open>Where the rest of a scanned text comes from: the text after the quote, or the rest of a scan of a
  later part.\<close>

lemma scan_string_plain:
  assumes "scan_string start q (c # ds) i = Inr (s, r, j)" and "c \<noteq> q" and "c \<noteq> CHR 0x5C"
  shows "\<exists>s'. scan_string start q ds (Suc i) = Inr (s', r, j)"
  using assms(1) unfolding scan_string.simps(2) if_not_P [OF assms(2)] if_not_P [OF assms(3)]
  by (auto simp: bind_res_Inr_iff)

lemma scan_string_escape:
  assumes "scan_string start q (c # e # ds) i = Inr (s, r, j)" and "c \<noteq> q" and "c = CHR 0x5C"
  shows "\<exists>es s' k. scan_string start q es k = Inr (s', r, j) \<and> length es \<le> length ds"
proof (cases "e = CHR ''u''")
  case True
  have "\<exists>s'. scan_string start q (drop 4 ds) (i + 6) = Inr (s', r, j)"
    using assms(1)
    unfolding scan_string.simps(2) if_not_P [OF assms(2)] if_P [OF assms(3)] list.case if_P [OF True]
    by (auto simp: Let_def bind_res_Inr_iff split: if_splits)
  then show ?thesis by (metis length_drop diff_le_self)
next
  case False
  have "\<exists>s'. scan_string start q ds (i + 2) = Inr (s', r, j)"
    using assms(1)
    unfolding scan_string.simps(2) if_not_P [OF assms(2)] if_P [OF assms(3)] list.case if_not_P [OF False]
    by (auto simp: bind_res_Inr_iff split: option.splits)
  then show ?thesis by blast
qed

lemma scan_string_shorter: "scan_string start q cs i = Inr (s, r, j) \<Longrightarrow> length r < length cs"
proof (induction "length cs" arbitrary: cs i s r j rule: less_induct)
  case less
  have IH: "length r' < length cs"
    if "scan_string start q ds k = Inr (s', r', j')" "length ds < length cs" for ds k s' r' j'
    using less.hyps [OF that(2,1)] that(2) by simp
  show ?case
  proof (cases cs)
    case Nil
    with less.prems show ?thesis by (simp add: scan_string.simps)
  next
    case (Cons c ds)
    note eq = less.prems [unfolded Cons]
    consider "c = q" | "c \<noteq> q" "c \<noteq> CHR 0x5C" | "c \<noteq> q" "c = CHR 0x5C" "ds = []"
      | e es where "c \<noteq> q" "c = CHR 0x5C" "ds = e # es"
      by (cases ds) auto
    then show ?thesis
    proof cases
      case 1
      with eq Cons show ?thesis by (simp add: scan_string.simps)
    next
      case 2
      with scan_string_plain [OF eq] IH Cons show ?thesis by fastforce
    next
      case 3
      with eq show ?thesis by (simp add: scan_string.simps)
    next
      case (4 e es)
      obtain fs s' k where "scan_string start q fs k = Inr (s', r, j)" "length fs \<le> length es"
        using scan_string_escape [OF eq [unfolded 4(3)] 4(1,2)] by blast
      then show ?thesis using IH Cons 4(3) by simp
    qed
  qed
qed

lemma skip_fraction_le: "length (skip_fraction cs) \<le> length cs"
  using length_dropWhile_le [of is_digit "tl cs"] by (cases cs) (auto simp: skip_fraction_def)

lemma skip_exponent_le: "length (skip_exponent cs) \<le> length cs"
proof -
  have "length (dropWhile is_digit ds) \<le> length cs" if "length ds \<le> length cs" for ds
    using length_dropWhile_le [of is_digit ds] that by linarith
  then show ?thesis by (simp add: skip_exponent_def Let_def)
qed

lemma scan_number_shorter:
  assumes "scan_number cs = Inr (v, r)" and "cs \<noteq> []" and "is_digit (hd cs) \<or> hd cs = CHR ''-''"
  shows "length r < length cs"
proof -
  let ?r1 = "dropWhile is_digit (skip_minus cs)"
  have "r = skip_exponent (skip_fraction ?r1)"
    using assms(1) by (auto simp: scan_number_def Let_def bind_res_Inr_iff split: if_splits)
  then have "length r \<le> length ?r1"
    using le_trans [OF skip_exponent_le skip_fraction_le] by simp
  moreover have "length ?r1 < length cs"
    using assms(2,3) length_dropWhile_le [of is_digit "tl cs"]
    by (cases cs) (auto simp: skip_minus_def le_imp_less_Suc)
  ultimately show ?thesis by linarith
qed

text \<open>\<open>_tokenize\<close>: the rest of the text and its index; the end token carries the text's length.\<close>

definition two_char_ops :: "string list" where
  "two_char_ops = [''=='', ''!='', ''<='', ''>='', ''&&'', ''||'']"

definition one_char_ops :: string where
  "one_char_ops = ''<>!''"

definition blank_chars :: string where
  "blank_chars = [CHR '' '', CHR 0x09, CHR 0x0D, CHR 0x0A]"

definition quote_chars :: string where
  "quote_chars = [CHR 0x22, CHR 0x27]"

definition is_word_char :: "char \<Rightarrow> bool" where
  "is_word_char d = (is_alnum d \<or> d = CHR ''_'')"

function tokenize :: "string \<Rightarrow> nat \<Rightarrow> token list res" where
  "tokenize [] i = Inr [(Tok_eof, i)]"
| "tokenize (c # cs) i =
     (if c \<in> set blank_chars then tokenize cs (Suc i)
      else if take 2 (c # cs) \<in> set two_char_ops then
        bind_res (tokenize (tl cs) (i + 2)) (\<lambda>ts. Inr ((Tok_op (take 2 (c # cs)), i) # ts))
      else if c \<in> set one_char_ops then
        bind_res (tokenize cs (Suc i)) (\<lambda>ts. Inr ((Tok_op [c], i) # ts))
      else if c = CHR ''('' then bind_res (tokenize cs (Suc i)) (\<lambda>ts. Inr ((Tok_lparen, i) # ts))
      else if c = CHR '')'' then bind_res (tokenize cs (Suc i)) (\<lambda>ts. Inr ((Tok_rparen, i) # ts))
      else if c = CHR ''.'' then bind_res (tokenize cs (Suc i)) (\<lambda>ts. Inr ((Tok_dot, i) # ts))
      else if c \<in> set quote_chars then
        bind_res (scan_string i c cs (Suc i)) (\<lambda>(s, r, j).
          bind_res (tokenize r j) (\<lambda>ts. Inr ((Tok_string s, i) # ts)))
      else if is_digit c \<or> c = CHR ''-'' \<and> cs \<noteq> [] \<and> is_digit (hd cs) then
        bind_res (scan_number (c # cs)) (\<lambda>(v, r).
          bind_res (tokenize r (i + (length (c # cs) - length r)))
            (\<lambda>ts. Inr ((Tok_number v, i) # ts)))
      else if is_alpha c \<or> c = CHR ''_'' then
        (let word = c # takeWhile is_word_char cs;
             r = dropWhile is_word_char cs in
         bind_res (tokenize r (i + length word)) (\<lambda>ts. Inr ((Tok_ident word, i) # ts)))
      else Inl (PredicateSyntaxError i))"
  by pat_completeness auto
termination
proof (relation "measure (\<lambda>(cs, _). length cs)", goal_cases)
  case (8 c cs i x s y r j)
  then have "scan_string i c cs (Suc i) = Inr (s, r, j)" by simp
  then show ?case using scan_string_shorter by fastforce
next
  case (9 c cs i x v r)
  then have "scan_number (c # cs) = Inr (v, r)" by simp
  then show ?case using scan_number_shorter [of "c # cs" v r] 9 by auto
qed (simp_all add: length_dropWhile_le le_imp_less_Suc)

declare tokenize.simps [simp del]

section \<open>Syntax tree\<close>

datatype node =
    LiteralNode pyval
  | PathNode "string list"
  | CompareNode string node node
  | AndNode node node
  | OrNode node node
  | NotNode node

section \<open>Parser\<close>

definition next_op :: "token list \<Rightarrow> string \<Rightarrow> bool" where
  "next_op ts v = (ts \<noteq> [] \<and> fst (hd ts) = Tok_op v)"

text \<open>The loop of \<open>_parse_path\<close> over \<open>.ident\<close> segments.\<close>

fun parse_segments :: "token list \<Rightarrow> (string list \<times> token list) res" where
  "parse_segments [] = Inr ([], [])"
| "parse_segments (t # ts) =
     (if fst t \<noteq> Tok_dot then Inr ([], t # ts)
      else case ts of
        [] \<Rightarrow> Inl IndexError
      | (k, p) # rest \<Rightarrow>
          (case k of
             Tok_ident s \<Rightarrow>
               if starts_underscore s then Inl PredicateSemanticError
               else if s \<in> set reserved_words then Inl (PredicateSyntaxError p)
               else bind_res (parse_segments rest) (\<lambda>(ss, r). Inr (s # ss, r))
           | _ \<Rightarrow> Inl (PredicateSyntaxError p)))"

text \<open>\<open>_parse_path\<close> after its first identifier.\<close>

definition parse_path :: "string \<Rightarrow> token list \<Rightarrow> (node \<times> token list) res" where
  "parse_path name ts =
     (if starts_underscore name then Inl PredicateSemanticError
      else if name \<notin> set ALLOWED_FIELDS then Inl PredicateSemanticError
      else bind_res (parse_segments ts) (\<lambda>(ss, r). Inr (PathNode (name # ss), r)))"

text \<open>
  One nesting level of the parser. \<open>chain\<close> is the loop of \<open>_parse_or\<close> and \<open>_parse_and\<close>: it consumes an
  operator and an operand in each round, so the number of tokens left bounds the rounds.
\<close>

type_synonym 'a parser = "token list \<Rightarrow> ('a \<times> token list) res"

fun chain :: "nat \<Rightarrow> 'a parser \<Rightarrow> string \<Rightarrow> ('a \<Rightarrow> 'a \<Rightarrow> 'a) \<Rightarrow> 'a \<Rightarrow> 'a parser" where
  "chain 0 sub v mk n ts = Inl OutOfFuel"
| "chain (Suc f) sub v mk n ts =
     (if next_op ts v then bind_res (sub (tl ts)) (\<lambda>(m, r). chain f sub v mk (mk n m) r)
      else Inr (n, ts))"

text \<open>\<open>sub\<close> is \<open>_parse_not\<close> at the current nesting depth.\<close>

definition parse_and :: "node parser \<Rightarrow> node parser" where
  "parse_and sub ts = bind_res (sub ts) (\<lambda>(n, r). chain (Suc (length r)) sub ''&&'' AndNode n r)"

definition parse_or :: "node parser \<Rightarrow> node parser" where
  "parse_or sub ts =
     bind_res (parse_and sub ts) (\<lambda>(n, r). chain (Suc (length r)) (parse_and sub) ''||'' OrNode n r)"

text \<open>\<open>nested\<close> is \<open>_parse_or\<close> one level deeper, or \<open>None\<close> at the nesting cap.\<close>

definition parse_primary :: "node parser option \<Rightarrow> node parser" where
  "parse_primary nested ts =
     (case ts of
        [] \<Rightarrow> Inl IndexError
      | (k, p) # rest \<Rightarrow>
          (case k of
             Tok_number v \<Rightarrow> Inr (LiteralNode v, rest)
           | Tok_string s \<Rightarrow> Inr (LiteralNode (VStr s), rest)
           | Tok_ident s \<Rightarrow>
               if s = ''true'' then Inr (LiteralNode (VBool True), rest)
               else if s = ''false'' then Inr (LiteralNode (VBool False), rest)
               else if s = ''null'' then Inr (LiteralNode VNull, rest)
               else parse_path s rest
           | Tok_lparen \<Rightarrow>
               (case nested of
                  None \<Rightarrow> Inl (PredicateSyntaxError p)
                | Some p_or \<Rightarrow> bind_res (p_or rest) (\<lambda>(n, r).
                    case r of
                      [] \<Rightarrow> Inl IndexError
                    | (k', p') # r' \<Rightarrow>
                        if k' = Tok_rparen then Inr (n, r') else Inl (PredicateSyntaxError p')))
           | _ \<Rightarrow> Inl (PredicateSyntaxError p)))"

definition comparison_op_of :: "token list \<Rightarrow> string option" where
  "comparison_op_of ts =
     (case ts of
        [] \<Rightarrow> None
      | (k, p) # _ \<Rightarrow>
          (case k of Tok_op v \<Rightarrow> if v \<in> set comparison_ops then Some v else None | _ \<Rightarrow> None))"

definition parse_comparison :: "node parser option \<Rightarrow> node parser" where
  "parse_comparison nested ts =
     bind_res (parse_primary nested ts) (\<lambda>(l, r).
       case comparison_op_of r of
         None \<Rightarrow> Inr (l, r)
       | Some v \<Rightarrow> bind_res (parse_primary nested (tl r)) (\<lambda>(m, r'). Inr (CompareNode v l m, r')))"

text \<open>
  \<open>_parse_not\<close>; the first argument is the number of nesting levels still allowed, that is
  \<open>_MAX_NESTING_DEPTH\<close> minus the parser's \<open>_depth\<close>.
\<close>

fun parse_not :: "nat \<Rightarrow> node parser" where
  "parse_not 0 ts =
     (if next_op ts ''!'' then Inl (PredicateSyntaxError (snd (hd ts))) else parse_comparison None ts)"
| "parse_not (Suc b) ts =
     (if next_op ts ''!''
      then bind_res (parse_not b (tl ts)) (\<lambda>(n, r). Inr (NotNode n, r))
      else parse_comparison (Some (parse_or (parse_not b))) ts)"

text \<open>\<open>_Parser.parse\<close>.\<close>

definition parse_tokens :: "token list \<Rightarrow> node res" where
  "parse_tokens ts =
     bind_res (parse_or (parse_not MAX_NESTING_DEPTH) ts) (\<lambda>(n, r).
       case r of
         [] \<Rightarrow> Inl IndexError
       | (k, p) # _ \<Rightarrow> if k = Tok_eof then Inr n else Inl (PredicateSyntaxError p))"

end
