(* ===== verification/PredicateEval.thy ===== *)
theory PredicateEval
  imports Predicates
begin

text \<open>
  Three-valued evaluation of compiled predicates (\<open>predicates.py\<close>) and the \<open>Predicate\<close> class: typed
  equality, ordering, the missing-value rule, the Boolean combinators, compilation in either
  language, and evaluation against one event.

  \<open>_order\<close> returns \<open>None\<close> for UNKNOWN. Ordering an aware against a naive datetime raises
  \<open>TypeError\<close>, as in Python. The cel-python engine is the parameter \<open>cel_program\<close>; its value
  conversion is the identity here.
\<close>

section \<open>Paths\<close>

definition resolve_segment :: "pyval \<Rightarrow> string \<Rightarrow> pyval" where
  "resolve_segment v seg =
     (case v of
        VDict d \<Rightarrow> (case map_of d seg of Some w \<Rightarrow> w | None \<Rightarrow> VMissing)
      | VModel _ d \<Rightarrow> (case map_of d seg of Some w \<Rightarrow> w | None \<Rightarrow> VMissing)
      | _ \<Rightarrow> VMissing)"

fun resolve_segments :: "pyval \<Rightarrow> string list \<Rightarrow> pyval" where
  "resolve_segments v [] = v"
| "resolve_segments v (seg # segs) =
     (if v = VMissing then VMissing else resolve_segments (resolve_segment v seg) segs)"

definition eval_path :: "trace_event \<Rightarrow> string list \<Rightarrow> pyval" where
  "eval_path ev segs =
     (case segs of [] \<Rightarrow> VMissing | s # rest \<Rightarrow> resolve_segments (event_attr ev s) rest)"

section \<open>Comparison\<close>

definition typed_eq :: "externals \<Rightarrow> pyval \<Rightarrow> pyval \<Rightarrow> bool" where
  "typed_eq X a b =
     (if is_bool a \<or> is_bool b then is_bool a \<and> is_bool b \<and> a = b
      else if num_of a \<noteq> None \<and> num_of b \<noteq> None then num_eq a b
      else case (a, b) of
          (VDate d, VStr s) \<Rightarrow> fromisoformat X s = Some d
        | (VStr s, VDate d) \<Rightarrow> fromisoformat X s = Some d
        | _ \<Rightarrow> py_type a = py_type b \<and> py_eq a b)"

fun date_order :: "datetime \<Rightarrow> datetime \<Rightarrow> int option res" where
  "date_order (Aware x) (Aware y) = Inr (Some (three_way (<) x y))"
| "date_order (Naive x) (Naive y) = Inr (Some (three_way (<) x y))"
| "date_order _ _ = Inl TypeError"

definition order_values :: "externals \<Rightarrow> pyval \<Rightarrow> pyval \<Rightarrow> int option res" where
  "order_values X a b =
     (if is_bool a \<or> is_bool b then Inr None
      else case (num_of a, num_of b) of
          (Some x, Some y) \<Rightarrow> Inr (Some (three_way flt_lt x y))
        | _ \<Rightarrow>
            (case (a, b) of
               (VStr s, VStr t) \<Rightarrow> Inr (Some (three_way str_less s t))
             | (VDate d, VStr t) \<Rightarrow>
                 (case fromisoformat X t of None \<Rightarrow> Inr None | Some d' \<Rightarrow> date_order d d')
             | (VStr s, VDate d) \<Rightarrow>
                 (case fromisoformat X s of None \<Rightarrow> Inr None | Some d' \<Rightarrow> date_order d' d)
             | (VDate d, VDate d') \<Rightarrow> date_order d d'
             | _ \<Rightarrow> Inr None))"

definition compare_values :: "externals \<Rightarrow> string \<Rightarrow> pyval \<Rightarrow> pyval \<Rightarrow> pyval res" where
  "compare_values X cmp a b =
     (if a = VMissing \<or> b = VMissing then
        (if cmp = ''=='' \<and> (a = VNull \<or> b = VNull) then Inr (VBool True) else Inr VUnknown)
      else if cmp = ''=='' then Inr (VBool (typed_eq X a b))
      else if cmp = ''!='' then Inr (VBool (\<not> typed_eq X a b))
      else bind_res (order_values X a b) (\<lambda>ord.
        case ord of
          None \<Rightarrow> Inr VUnknown
        | Some n \<Rightarrow>
            if cmp = ''<'' then Inr (VBool (n < 0))
            else if cmp = ''<='' then Inr (VBool (n \<le> 0))
            else if cmp = ''>'' then Inr (VBool (n > 0))
            else if cmp = ''>='' then Inr (VBool (n \<ge> 0))
            else Inl AssertionError))"

section \<open>Boolean combinators\<close>

datatype truth = TFalse | TUnk | TTrue

text \<open>The truth values in Kleene's order, false below unknown below true.\<close>

fun truth_rank :: "truth \<Rightarrow> nat" where
  "truth_rank TFalse = 0"
| "truth_rank TUnk = 1"
| "truth_rank TTrue = 2"

lemma truth_rank_inj [simp]: "truth_rank a = truth_rank b \<longleftrightarrow> a = b"
  by (cases a; cases b) simp_all

instantiation truth :: linorder
begin

definition less_eq_truth :: "truth \<Rightarrow> truth \<Rightarrow> bool" where
  "less_eq_truth a b = (truth_rank a \<le> truth_rank b)"

definition less_truth :: "truth \<Rightarrow> truth \<Rightarrow> bool" where
  "less_truth a b = (truth_rank a < truth_rank b)"

instance
  by standard (auto simp: less_eq_truth_def less_truth_def)

end

fun truth_not :: "truth \<Rightarrow> truth" where
  "truth_not TFalse = TTrue"
| "truth_not TUnk = TUnk"
| "truth_not TTrue = TFalse"

definition as_truth :: "pyval \<Rightarrow> truth" where
  "as_truth v = (if v = VBool True then TTrue else if v = VBool False then TFalse else TUnk)"

definition bool_and :: "pyval \<Rightarrow> pyval \<Rightarrow> pyval" where
  "bool_and a b =
     (let ta = as_truth a; tb = as_truth b in
      if ta = TFalse \<or> tb = TFalse then VBool False
      else if ta = TUnk \<or> tb = TUnk then VUnknown
      else VBool True)"

definition bool_or :: "pyval \<Rightarrow> pyval \<Rightarrow> pyval" where
  "bool_or a b =
     (let ta = as_truth a; tb = as_truth b in
      if ta = TTrue \<or> tb = TTrue then VBool True
      else if ta = TUnk \<or> tb = TUnk then VUnknown
      else VBool False)"

definition bool_not :: "pyval \<Rightarrow> pyval" where
  "bool_not a =
     (let ta = as_truth a in if ta = TUnk then VUnknown else VBool (\<not> (ta = TTrue)))"

section \<open>Evaluation of the tree\<close>

fun eval_node :: "externals \<Rightarrow> trace_event \<Rightarrow> node \<Rightarrow> pyval res" where
  "eval_node X ev (LiteralNode v) = Inr v"
| "eval_node X ev (PathNode segs) = Inr (eval_path ev segs)"
| "eval_node X ev (CompareNode v l r) =
     bind_res (eval_node X ev l) (\<lambda>a. bind_res (eval_node X ev r) (\<lambda>b. compare_values X v a b))"
| "eval_node X ev (AndNode l r) =
     bind_res (eval_node X ev l) (\<lambda>a. bind_res (eval_node X ev r) (\<lambda>b. Inr (bool_and a b)))"
| "eval_node X ev (OrNode l r) =
     bind_res (eval_node X ev l) (\<lambda>a. bind_res (eval_node X ev r) (\<lambda>b. Inr (bool_or a b)))"
| "eval_node X ev (NotNode c) = bind_res (eval_node X ev c) (\<lambda>a. Inr (bool_not a))"

section \<open>The \<open>Predicate\<close> class\<close>

text \<open>A compiled predicate holds the prototype tree, or the text whose cel-python runner it keeps.\<close>

datatype predicate = Prototype node | Cel string

definition CEL_NAMES :: "string list" where
  "CEL_NAMES =
     [''payload'', ''args'', ''output'', ''test'', ''case'', ''raw_value'', ''cost'', ''timestamp'',
      ''provider_request_id'', ''parent_event_id'', ''redaction_state'']"

definition CEL_MARKERS :: "string list" where
  "CEL_MARKERS = [''['', ''has('', ''size('', ''matches('', ''contains_secret('', '' in '']"

fun has_prefix :: "string \<Rightarrow> string \<Rightarrow> bool" where
  "has_prefix [] _ = True"
| "has_prefix (_ # _) [] = False"
| "has_prefix (p # ps) (c # cs) = (p = c \<and> has_prefix ps cs)"

fun is_substring :: "string \<Rightarrow> string \<Rightarrow> bool" where
  "is_substring m [] = (m = [])"
| "is_substring m (c # cs) = (has_prefix m (c # cs) \<or> is_substring m cs)"

definition needs_cel :: "string \<Rightarrow> bool" where
  "needs_cel text = list_ex (\<lambda>m. is_substring m text) CEL_MARKERS"

definition compile_cel :: "externals \<Rightarrow> string \<Rightarrow> predicate res" where
  "compile_cel X text =
     (case cel_program X text of
        Inl p \<Rightarrow> Inl (PredicateSyntaxError p)
      | Inr runner \<Rightarrow>
          (case runner (map (\<lambda>n. (n, if n \<noteq> ''raw_value'' then VDict [] else VInt 0)) CEL_NAMES) of
             CelEvalError undeclared \<Rightarrow>
               if undeclared then Inl PredicateSemanticError else Inr (Cel text)
           | _ \<Rightarrow> Inr (Cel text)))"

definition compile_predicate :: "externals \<Rightarrow> string \<Rightarrow> string option \<Rightarrow> predicate res" where
  "compile_predicate X text language_version =
     (let version = (case language_version of None \<Rightarrow> ''prototype'' | Some v \<Rightarrow>
                       if v = [] then ''prototype'' else v) in
      if blank text then Inl (PredicateSyntaxError 0)
      else if version \<noteq> ''prototype'' \<and> version \<noteq> ''cel'' then Inl PredicateSemanticError
      else if version = ''cel'' then compile_cel X text
      else bind_res (tokenize text 0) (\<lambda>ts. bind_res (parse_tokens ts) (\<lambda>n. Inr (Prototype n))))"

text \<open>The \<open>model_dump()\<close> of the cost and redaction blocks.\<close>

fun model_dump :: "pyval \<Rightarrow> pyval"
  and model_dump_fields :: "pydict \<Rightarrow> pydict" where
  "model_dump (VModel _ d) = VDict (model_dump_fields d)"
| "model_dump v = v"
| "model_dump_fields [] = []"
| "model_dump_fields ((k, v) # d) = (k, model_dump v) # model_dump_fields d"

definition cel_activation :: "externals \<Rightarrow> trace_event \<Rightarrow> pydict" where
  "cel_activation X ev =
     (let pl = (case payload ev of None \<Rightarrow> [] | Some d \<Rightarrow> d);
          args = dict_get pl ''args''; out = dict_get pl ''output'' in
      [(''payload'', VDict pl),
       (''args'', if is_dict args then args else VDict []),
       (''output'', if is_dict out then out else VDict pl),
       (''test'', VDict []),
       (''case'', VDict []),
       (''raw_value'', VInt 0),
       (''cost'', case cost ev of None \<Rightarrow> VDict [] | Some c \<Rightarrow> model_dump (cost_value c)),
       (''timestamp'', VStr (isoformat X (timestamp ev))),
       (''provider_request_id'', VStr (case provider_request_id ev of None \<Rightarrow> [] | Some s \<Rightarrow> s)),
       (''parent_event_id'', VStr (case parent_event_id ev of None \<Rightarrow> [] | Some s \<Rightarrow> s)),
       (''redaction_state'', model_dump (redaction_value (redaction ev)))])"

definition evaluate_predicate :: "externals \<Rightarrow> predicate \<Rightarrow> trace_event \<Rightarrow> bool res" where
  "evaluate_predicate X p ev =
     (case p of
        Cel text \<Rightarrow>
          (case cel_program X text of
             Inr runner \<Rightarrow>
               (case runner (cel_activation X ev) of
                  CelValue v \<Rightarrow> Inr (py_eq v (VBool True))
                | _ \<Rightarrow> Inr False)
           | Inl _ \<Rightarrow> Inr False)
      | Prototype n \<Rightarrow> bind_res (eval_node X ev n) (\<lambda>v. Inr (v = VBool True)))"

section \<open>Interface of the three-valued connectives\<close>

text \<open>
  The contract a reader of a value in Boolean position relies on: the connectives act on the truth
  of their arguments as minimum, maximum and reversal of Kleene's order.
\<close>

locale kleene_connectives =
  fixes tr :: "'v \<Rightarrow> truth" and conj disj :: "'v \<Rightarrow> 'v \<Rightarrow> 'v" and neg :: "'v \<Rightarrow> 'v"
  assumes tr_conj: "tr (conj a b) = min (tr a) (tr b)"
    and tr_disj: "tr (disj a b) = max (tr a) (tr b)"
    and tr_neg: "tr (neg a) = truth_not (tr a)"
begin

lemma de_morgan: "tr (neg (conj a b)) = tr (disj (neg a) (neg b))"
  by (cases "tr a"; cases "tr b")
    (auto simp: tr_conj tr_disj tr_neg min_def max_def less_eq_truth_def)

lemma conj_true: "tr (conj a b) = TTrue \<longleftrightarrow> tr a = TTrue \<and> tr b = TTrue"
  by (cases "tr a"; cases "tr b") (auto simp: tr_conj min_def less_eq_truth_def)

lemma disj_true: "tr (disj a b) = TTrue \<longleftrightarrow> tr a = TTrue \<or> tr b = TTrue"
  by (cases "tr a"; cases "tr b") (auto simp: tr_disj max_def less_eq_truth_def)

lemma neg_true: "tr (neg a) = TTrue \<longleftrightarrow> tr a = TFalse"
  by (cases "tr a") (auto simp: tr_neg)

lemma neg_neg: "tr (neg (neg a)) = tr a"
  by (cases "tr a") (auto simp: tr_neg)

lemma excluded_middle_fails: "tr a = TUnk \<Longrightarrow> tr (disj a (neg a)) = TUnk"
  by (simp add: tr_disj tr_neg)

end

interpretation pred: kleene_connectives as_truth bool_and bool_or bool_not
proof unfold_locales
  fix a b :: pyval
  show "as_truth (bool_and a b) = min (as_truth a) (as_truth b)"
    by (cases "as_truth a"; cases "as_truth b")
      (auto simp: bool_and_def Let_def as_truth_def min_def less_eq_truth_def)
  show "as_truth (bool_or a b) = max (as_truth a) (as_truth b)"
    by (cases "as_truth a"; cases "as_truth b")
      (auto simp: bool_or_def Let_def as_truth_def max_def less_eq_truth_def)
  show "as_truth (bool_not a) = truth_not (as_truth a)"
    by (cases "as_truth a") (auto simp: bool_not_def Let_def as_truth_def)
qed

end
