(* ===== verification/TraceRules.thy ===== *)
theory TraceRules
  imports PredicateEval "HOL-Library.AList" "HOL-Library.Product_Lexorder"
begin

text \<open>
  Trace-rule evaluation (\<open>trace_rules.py\<close>): the ordering contract over parent chains and timestamps,
  match resolution with its time window, and the twelve operators with their evidence.

  A rule is a JSON value. The depth counter of \<open>_eval_node\<close> is the number of levels still allowed;
  each operator takes the evaluator of the next level as its argument \<open>rec\<close>. The cache of compiled
  \<open>where\<close> predicates is left out: compilation is a function of the text. The dict \<open>by_id\<close> is an
  association list with distinct keys.
\<close>

section \<open>Rule results\<close>

record rule_result =
  rr_result :: bool
  rr_matched :: "string list"
  rr_failing :: "string list"
  rr_value :: "int option"

definition MAX_RULE_DEPTH :: nat where
  "MAX_RULE_DEPTH = 100"

definition TRACE_RULE_OPS :: "string list" where
  "TRACE_RULE_OPS =
     [''for_all'', ''exists'', ''never'', ''exists_before'', ''exists_after'',
      ''immediately_precedes'', ''count'', ''within_ms'', ''and'', ''or'', ''not'', ''implies'']"

section \<open>The ordering contract\<close>

type_synonym id_table = "(string \<times> trace_event) list"

definition by_id :: "trace_event list \<Rightarrow> id_table" where
  "by_id events = fold (\<lambda>e. AList.update (event_id e) e) events []"

definition fallback_key :: "trace_event \<Rightarrow> int \<times> int" where
  "fallback_key e = (timestamp e, sequence e)"

text \<open>The loop of \<open>_is_ancestor\<close>: \<open>n\<close> is \<open>len(by_id) - steps\<close>.\<close>

fun ancestor_loop :: "id_table \<Rightarrow> trace_event \<Rightarrow> trace_event option \<Rightarrow> nat \<Rightarrow> bool" where
  "ancestor_loop d anc None n = False"
| "ancestor_loop d anc (Some c) n =
     (if event_id c = event_id anc then True
      else case parent_event_id c of
          None \<Rightarrow> False
        | Some p \<Rightarrow> (case n of 0 \<Rightarrow> False | Suc m \<Rightarrow> ancestor_loop d anc (map_of d p) m))"

definition parent_of :: "id_table \<Rightarrow> trace_event \<Rightarrow> trace_event option" where
  "parent_of d e = (case parent_event_id e of None \<Rightarrow> None | Some p \<Rightarrow> map_of d p)"

definition is_ancestor :: "id_table \<Rightarrow> trace_event \<Rightarrow> trace_event \<Rightarrow> bool" where
  "is_ancestor d anc desc = ancestor_loop d anc (parent_of d desc) (length d)"

definition precedes :: "id_table \<Rightarrow> trace_event \<Rightarrow> trace_event \<Rightarrow> bool" where
  "precedes d e1 e2 =
     (if is_ancestor d e1 e2 then True
      else if is_ancestor d e2 e1 then False
      else fallback_key e1 < fallback_key e2)"

definition follows :: "id_table \<Rightarrow> trace_event \<Rightarrow> trace_event \<Rightarrow> bool" where
  "follows d e1 e2 =
     (if is_ancestor d e2 e1 then True
      else if is_ancestor d e1 e2 then False
      else fallback_key e2 < fallback_key e1)"

section \<open>Match resolution\<close>

definition attempt_start :: "trace_event list \<Rightarrow> int option" where
  "attempt_start events =
     (case map timestamp events of [] \<Rightarrow> None | t # ts \<Rightarrow> Some (fold min ts t))"

definition within_window :: "trace_event \<Rightarrow> int option \<Rightarrow> int \<Rightarrow> bool" where
  "within_window e anchor_ts ms =
     (case anchor_ts of
        None \<Rightarrow> False
      | Some t \<Rightarrow> \<bar>micros_to_ms (timestamp e - t)\<bar> \<le> of_int ms)"

definition compile_where :: "externals \<Rightarrow> pyval \<Rightarrow> predicate res" where
  "compile_where X w =
     (case w of
        VStr text \<Rightarrow>
          (case compile_predicate X text
                  (Some (if needs_cel text then ''cel'' else ''prototype'')) of
             Inl e \<Rightarrow> Inl (if is_predicate_error e then TraceRuleError else e)
           | Inr p \<Rightarrow> Inr p)
      | _ \<Rightarrow> Inl TypeError)"

text \<open>The body of the loop in \<open>_match\<close>: whether the event is kept.\<close>

definition match_event :: "externals \<Rightarrow> pydict \<Rightarrow> trace_event \<Rightarrow> bool res" where
  "match_event X m e =
     (if dict_get m ''event'' \<noteq> VStr (event_type_value (ev_type e)) then Inr False
      else if (if dict_get m ''source'' \<noteq> VNull
               then dict_get m ''source'' \<noteq> VStr (source_value (ev_source e))
               else ev_source e \<noteq> PROXY \<and> ev_source e \<noteq> ADAPTER) then Inr False
      else if dict_get m ''tool'' \<noteq> VNull \<and> opt_str (ev_tool e) \<noteq> dict_get m ''tool'' then Inr False
      else if dict_get m ''where'' = VNull then Inr True
      else bind_res (compile_where X (dict_get m ''where'')) (\<lambda>p. evaluate_predicate X p e))"

definition match_events ::
  "externals \<Rightarrow> pyval \<Rightarrow> trace_event list \<Rightarrow> trace_event option \<Rightarrow> int option \<Rightarrow> trace_event list res" where
  "match_events X node_match events anchor window =
     (case node_match of
        VDict m \<Rightarrow>
          if dict_get m ''source'' \<noteq> VNull \<and> dict_get m ''source'' \<notin> set (map VStr SOURCES)
          then Inl TraceRuleError
          else bind_res (filter_res (match_event X m) events) (\<lambda>out.
            let anchor_ts = (case anchor of Some a \<Rightarrow> Some (timestamp a) | None \<Rightarrow> attempt_start events)
            in Inr (sort_key fallback_key
                 (case window of None \<Rightarrow> out | Some ms \<Rightarrow> filter (\<lambda>e. within_window e anchor_ts ms) out)))
      | _ \<Rightarrow> Inl TraceRuleError)"

definition ids :: "trace_event list \<Rightarrow> string list" where
  "ids events = map event_id events"

definition dedupe :: "string list \<Rightarrow> string list" where
  "dedupe xs = dedupe_from [] xs"

text \<open>The optional \<open>within_ms\<close> filter of a match-bearing node.\<close>

definition window_of :: "pydict \<Rightarrow> int option res" where
  "window_of node =
     (case dict_get node ''within_ms'' of
        VNull \<Rightarrow> Inr None
      | w \<Rightarrow> (case as_int w of None \<Rightarrow> Inl TraceRuleError | Some i \<Rightarrow> Inr (Some i)))"

section \<open>Operators\<close>

type_synonym rule_rec = "pyval \<Rightarrow> trace_event option \<Rightarrow> rule_result res"

definition eval_and_or :: "rule_rec \<Rightarrow> pydict \<Rightarrow> trace_event option \<Rightarrow> rule_result res" where
  "eval_and_or rec node anchor =
     (case dict_get node ''rules'' of
        VList rules \<Rightarrow>
          if rules = [] then Inl TraceRuleError
          else bind_res (traverse (\<lambda>r. rec r anchor) rules) (\<lambda>results.
            let result = (if dict_get node ''op'' = VStr ''and'' then list_all rr_result results
                          else list_ex rr_result results);
                failed = filter (\<lambda>r. \<not> rr_result r) results
            in Inr \<lparr>rr_result = result,
                  rr_matched = dedupe (concat (map rr_matched results)),
                  rr_failing =
                    (if result then []
                     else dedupe (concat (map (\<lambda>r. rr_matched r @ rr_failing r) failed))),
                  rr_value = None\<rparr>)
      | _ \<Rightarrow> Inl TraceRuleError)"

definition eval_not :: "rule_rec \<Rightarrow> pydict \<Rightarrow> trace_event option \<Rightarrow> rule_result res" where
  "eval_not rec node anchor =
     (let child = dict_get node ''rule'' in
      if \<not> is_dict child then Inl TraceRuleError
      else bind_res (rec child anchor) (\<lambda>cr.
        Inr \<lparr>rr_result = (\<not> rr_result cr),
             rr_matched = rr_matched cr,
             rr_failing = (if rr_result cr then [] else dedupe (rr_matched cr @ rr_failing cr)),
             rr_value = None\<rparr>))"

definition eval_implies :: "rule_rec \<Rightarrow> pydict \<Rightarrow> trace_event option \<Rightarrow> rule_result res" where
  "eval_implies rec node anchor =
     (let antecedent = dict_get node ''rule'' in
      if \<not> is_dict antecedent then Inl TraceRuleError
      else case dict_get node ''rules'' of
          VList [consequent] \<Rightarrow>
            bind_res (rec antecedent anchor) (\<lambda>ar. bind_res (rec consequent anchor) (\<lambda>br.
              let result = (\<not> rr_result ar \<or> rr_result br) in
              Inr \<lparr>rr_result = result,
                   rr_matched = dedupe (rr_matched ar @ rr_matched br),
                   rr_failing = (if result then []
                     else dedupe (rr_matched ar @ rr_failing ar @ rr_matched br @ rr_failing br)),
                   rr_value = None\<rparr>))
        | _ \<Rightarrow> Inl TraceRuleError)"

definition eval_for_all ::
  "externals \<Rightarrow> trace_event list \<Rightarrow> rule_rec \<Rightarrow> pydict \<Rightarrow> trace_event option \<Rightarrow> rule_result res" where
  "eval_for_all X events rec node anchor =
     (let mtch = dict_get node ''match''; assert_rule = dict_get node ''assert'' in
      if \<not> is_dict mtch \<or> \<not> is_dict assert_rule then Inl TraceRuleError
      else bind_res (window_of node) (\<lambda>window.
        bind_res (match_events X mtch events anchor window) (\<lambda>candidates.
          bind_res (traverse (\<lambda>e. rec assert_rule (Some e)) candidates) (\<lambda>results.
            let failed = filter (\<lambda>r. \<not> rr_result r) results in
            Inr \<lparr>rr_result = (failed = []),
                 rr_matched = ids candidates,
                 rr_failing = (if failed = [] then []
                   else dedupe (concat (map (\<lambda>r. rr_matched r @ rr_failing r) failed))),
                 rr_value = None\<rparr>))))"

definition eval_within_ms ::
  "externals \<Rightarrow> trace_event list \<Rightarrow> pydict \<Rightarrow> trace_event option \<Rightarrow> rule_result res" where
  "eval_within_ms X events node anchor =
     (case as_int (dict_get node ''ms'') of
        None \<Rightarrow> Inl TraceRuleError
      | Some ms \<Rightarrow>
          if \<not> is_dict (dict_get node ''match'') then Inl TraceRuleError
          else bind_res (match_events X (dict_get node ''match'') events anchor (Some ms)) (\<lambda>candidates.
            Inr \<lparr>rr_result = (candidates \<noteq> []), rr_matched = ids candidates, rr_failing = [],
                 rr_value = None\<rparr>))"

text \<open>The loop of \<open>_immediate_predecessors\<close> over the events, with the best event so far.\<close>

definition better_predecessor ::
  "id_table \<Rightarrow> trace_event \<Rightarrow> trace_event \<Rightarrow> trace_event option \<Rightarrow> trace_event option" where
  "better_predecessor d anchor e best =
     (if event_id e = event_id anchor then best
      else if is_ancestor d anchor e then best
      else if fallback_key e < fallback_key anchor then
        (case best of
           None \<Rightarrow> Some e
         | Some b \<Rightarrow> if fallback_key b < fallback_key e then Some e else best)
      else best)"

definition immediate_predecessors ::
  "trace_event list \<Rightarrow> trace_event list \<Rightarrow> trace_event \<Rightarrow> id_table \<Rightarrow> trace_event list" where
  "immediate_predecessors candidates events anchor d =
     (case parent_event_id anchor of
        Some p \<Rightarrow> filter (\<lambda>e. event_id e = p) candidates
      | None \<Rightarrow>
          (case fold (better_predecessor d anchor) events None of
             None \<Rightarrow> []
           | Some b \<Rightarrow> filter (\<lambda>e. event_id e = event_id b) candidates))"

definition eval_anchored ::
  "externals \<Rightarrow> trace_event list \<Rightarrow> id_table \<Rightarrow> pydict \<Rightarrow> trace_event option \<Rightarrow> rule_result res" where
  "eval_anchored X events d node anchor =
     (case anchor of
        None \<Rightarrow> Inl TraceRuleError
      | Some a \<Rightarrow>
          if \<not> is_dict (dict_get node ''match'') then Inl TraceRuleError
          else bind_res (window_of node) (\<lambda>window.
            bind_res (match_events X (dict_get node ''match'') events anchor window) (\<lambda>candidates.
              let satisfying =
                (if dict_get node ''op'' = VStr ''exists_before''
                 then filter (\<lambda>e. precedes d e a) candidates
                 else if dict_get node ''op'' = VStr ''exists_after''
                 then filter (\<lambda>e. follows d e a) candidates
                 else immediate_predecessors candidates events a d)
              in Inr \<lparr>rr_result = (satisfying \<noteq> []), rr_matched = ids satisfying,
                     rr_failing = (if satisfying \<noteq> [] then [] else ids candidates),
                     rr_value = None\<rparr>)))"

definition eval_match_bearing ::
  "externals \<Rightarrow> trace_event list \<Rightarrow> pydict \<Rightarrow> trace_event option \<Rightarrow> rule_result res" where
  "eval_match_bearing X events node anchor =
     (if \<not> is_dict (dict_get node ''match'') then Inl TraceRuleError
      else bind_res (window_of node) (\<lambda>window.
        bind_res (match_events X (dict_get node ''match'') events anchor window) (\<lambda>candidates.
          let matched = ids candidates in
          if dict_get node ''op'' = VStr ''exists'' then
            Inr \<lparr>rr_result = (candidates \<noteq> []), rr_matched = matched,
                 rr_failing = (if candidates = [] then matched else []), rr_value = None\<rparr>
          else if dict_get node ''op'' = VStr ''never'' then
            Inr \<lparr>rr_result = (candidates = []), rr_matched = matched,
                 rr_failing = (if candidates \<noteq> [] then matched else []), rr_value = None\<rparr>
          else
            Inr \<lparr>rr_result = True, rr_matched = matched, rr_failing = [],
                 rr_value = Some (int (length candidates))\<rparr>)))"

section \<open>Evaluation of a node and of a rule\<close>

text \<open>\<open>n\<close> levels are still allowed: \<open>n = _MAX_DEPTH + 1 - depth\<close>.\<close>

fun eval_rule_node ::
  "externals \<Rightarrow> trace_event list \<Rightarrow> id_table \<Rightarrow> nat \<Rightarrow> pyval \<Rightarrow> trace_event option \<Rightarrow> rule_result res" where
  "eval_rule_node X events d 0 v anchor = Inl TraceRuleError"
| "eval_rule_node X events d (Suc n) v anchor =
     (case v of
        VDict node \<Rightarrow>
          let op = dict_get node ''op'' in
          if op \<notin> set (map VStr TRACE_RULE_OPS) then Inl TraceRuleError
          else if op = VStr ''and'' \<or> op = VStr ''or'' then
            eval_and_or (eval_rule_node X events d n) node anchor
          else if op = VStr ''not'' then eval_not (eval_rule_node X events d n) node anchor
          else if op = VStr ''implies'' then eval_implies (eval_rule_node X events d n) node anchor
          else if op = VStr ''for_all'' then
            eval_for_all X events (eval_rule_node X events d n) node anchor
          else if op = VStr ''within_ms'' then eval_within_ms X events node anchor
          else if op \<in> {VStr ''exists_before'', VStr ''exists_after'', VStr ''immediately_precedes''}
          then eval_anchored X events d node anchor
          else eval_match_bearing X events node anchor
      | _ \<Rightarrow> Inl TraceRuleError)"

definition evaluate_rule ::
  "externals \<Rightarrow> pyval \<Rightarrow> trace_event list \<Rightarrow> trace_event option \<Rightarrow> rule_result res" where
  "evaluate_rule X rule events anchor =
     (if \<not> is_dict rule then Inl TraceRuleError
      else eval_rule_node X events (by_id events) (MAX_RULE_DEPTH + 1) rule anchor)"

end
