(* ===== verification/SpecModel.thy ===== *)
theory SpecModel
  imports PredicateEval TraceRules
begin

text \<open>
  The evaluation specification of \<open>spec.py\<close>: targets, evaluators, scoring, aggregation, gate, judge
  binding, metrics, test cases and the specification itself, with the checks each model's validators
  make, and the structural validation of trace-rule bodies.

  The fields hold values of their declared types: parsing JSON into fields, coercions and the refusal
  of extra fields are pydantic's. A validator that refuses raises \<open>ValueError\<close>, which pydantic
  collects into the \<open>ValidationError\<close> that \<open>validate_spec\<close> reports as a \<open>SpecValidationError\<close>, itself a
  \<open>ValueError\<close>.
\<close>

section \<open>Trace-rule bodies\<close>

definition COMPOUND_OPS :: "string list" where
  "COMPOUND_OPS = [''and'', ''or'']"

definition UNARY_OPS :: "string list" where
  "UNARY_OPS = [''not'', ''implies'']"

text \<open>A dict, list or tuple loop that stops at the first exception.\<close>

fun each_res :: "('a \<Rightarrow> unit res) \<Rightarrow> 'a list \<Rightarrow> unit res" where
  "each_res f [] = Inr ()"
| "each_res f (x # xs) = bind_res (f x) (\<lambda>_. each_res f xs)"

lemma each_res_Inr: "each_res f xs = Inr u \<longleftrightarrow> (\<forall>x\<in>set xs. f x = Inr ())"
  by (induction xs) (auto simp: bind_res_Inr_iff)

lemma each_res_Inl: "each_res f xs = Inl e \<Longrightarrow> \<exists>x\<in>set xs. f x = Inl e"
  by (induction xs) (auto simp: bind_res_Inl_iff)

text \<open>The criteria of a \<open>match\<close>, and the optional window beside it.\<close>

definition validate_match :: "pydict \<Rightarrow> unit res" where
  "validate_match m =
     (if dict_get m ''event'' \<notin> set (map VStr EVENT_TYPES) then Inl ValueError
      else if dict_get m ''tool'' \<noteq> VNull \<and> \<not> is_str (dict_get m ''tool'') then Inl ValueError
      else if dict_get m ''where'' \<noteq> VNull \<and> \<not> is_str (dict_get m ''where'') then Inl ValueError
      else ensure (dict_get m ''source'' = VNull \<or> dict_get m ''source'' \<in> set (map VStr SOURCES)) ValueError)"

definition is_int :: "pyval \<Rightarrow> bool" where
  "is_int v = (as_int v \<noteq> None)"

text \<open>One node; \<open>rec\<close> validates a child.\<close>

definition validate_rule_node :: "(pyval \<Rightarrow> unit res) \<Rightarrow> bool \<Rightarrow> pydict \<Rightarrow> unit res" where
  "validate_rule_node rec is_root node =
     (let op = dict_get node ''op'' in
      if op \<notin> set (map VStr TRACE_RULE_OPS) then Inl ValueError
      else if op \<in> set (map VStr COMPOUND_OPS) then
        (case dict_get node ''rules'' of
           VList rules \<Rightarrow> if rules = [] then Inl ValueError else each_res rec rules
         | _ \<Rightarrow> Inl ValueError)
      else if op \<in> set (map VStr UNARY_OPS) then
        (if \<not> is_dict (dict_get node ''rule'') then Inl ValueError else rec (dict_get node ''rule''))
      else if op = VStr ''count'' \<and> \<not> is_root then Inl ValueError
      else if op = VStr ''within_ms'' \<and> \<not> is_int (dict_get node ''ms'') then Inl ValueError
      else (case dict_get node ''match'' of
          VDict m \<Rightarrow>
            bind_res (validate_match m) (\<lambda>_.
              if dict_get node ''within_ms'' \<noteq> VNull \<and> \<not> is_int (dict_get node ''within_ms'')
              then Inl ValueError
              else if op = VStr ''for_all'' then
                (if \<not> is_dict (dict_get node ''assert'') then Inl ValueError
                 else rec (dict_get node ''assert''))
              else Inr ())
        | _ \<Rightarrow> Inl ValueError))"

text \<open>\<open>n\<close> levels are still allowed: \<open>n = _MAX_RULE_DEPTH + 1 - _depth\<close>.\<close>

fun validate_trace_rule_body :: "nat \<Rightarrow> bool \<Rightarrow> pyval \<Rightarrow> unit res" where
  "validate_trace_rule_body 0 is_root v = Inl ValueError"
| "validate_trace_rule_body (Suc n) is_root v =
     (case v of
        VDict node \<Rightarrow> validate_rule_node (validate_trace_rule_body n False) is_root node
      | _ \<Rightarrow> Inl ValueError)"

definition validate_rule :: "pyval \<Rightarrow> unit res" where
  "validate_rule v = validate_trace_rule_body (MAX_RULE_DEPTH + 1) True v"

section \<open>Target\<close>

datatype target_type =
    T_input | T_model_output | T_tool_invocation | T_tool_arguments | T_tool_output | T_retrieval
  | T_state_change | T_workflow_node | T_final_response | T_trace | T_run | T_external

fun target_type_value :: "target_type \<Rightarrow> string" where
  "target_type_value T_input = ''input''"
| "target_type_value T_model_output = ''model_output''"
| "target_type_value T_tool_invocation = ''tool_invocation''"
| "target_type_value T_tool_arguments = ''tool_arguments''"
| "target_type_value T_tool_output = ''tool_output''"
| "target_type_value T_retrieval = ''retrieval''"
| "target_type_value T_state_change = ''state_change''"
| "target_type_value T_workflow_node = ''workflow_node''"
| "target_type_value T_final_response = ''final_response''"
| "target_type_value T_trace = ''trace''"
| "target_type_value T_run = ''run''"
| "target_type_value T_external = ''external''"

definition TARGET_TYPES :: "string list" where
  "TARGET_TYPES =
     [''input'', ''model_output'', ''tool_invocation'', ''tool_arguments'', ''tool_output'',
      ''state_change'', ''workflow_node'', ''final_response'', ''trace'', ''run'', ''external'']"

definition TOOL_SCOPED_TARGETS :: "target_type list" where
  "TOOL_SCOPED_TARGETS = [T_tool_invocation, T_tool_arguments, T_tool_output]"

datatype on_missing = OM_fail | OM_skip | OM_pass

record target =
  tg_type :: target_type
  tg_tool :: "string option"
  tg_selector :: "string option"
  tg_occurrence :: "string option"
  tg_on_missing :: "on_missing option"

text \<open>\<open>_OCCURRENCE_RE.match\<close>: the dollar also matches before a final newline.\<close>

definition occurrence_ok :: "string \<Rightarrow> bool" where
  "occurrence_ok v =
     (let s = (if v \<noteq> [] \<and> last v = CHR 0x0A then butlast v else v) in
      s \<in> {''first'', ''last'', ''all''} \<or>
      (take 6 s = ''index:'' \<and> drop 6 s \<noteq> [] \<and> list_all is_decimal (drop 6 s)))"

definition validate_target :: "target \<Rightarrow> unit res" where
  "validate_target t =
     (if (case tg_occurrence t of None \<Rightarrow> False | Some v \<Rightarrow> \<not> occurrence_ok v) then Inl ValueError
      else if (case tg_selector t of None \<Rightarrow> False | Some v \<Rightarrow> v = [] \<or> hd v \<noteq> CHR ''$'') then Inl ValueError
      else if tg_type t \<in> set TOOL_SCOPED_TARGETS \<and> tg_tool t = None then Inl ValueError
      else ensure (tg_type t = T_run \<or> tg_on_missing t \<noteq> None) ValueError)"

section \<open>Evaluator\<close>

datatype evaluator_type =
    E_exact_match | E_json_schema | E_regex | E_numeric | E_reference | E_cel_predicate | E_trace_rule
  | E_llm_judge | E_composite | E_recall_at_k | E_citation_correctness

fun evaluator_type_value :: "evaluator_type \<Rightarrow> string" where
  "evaluator_type_value E_exact_match = ''exact_match''"
| "evaluator_type_value E_json_schema = ''json_schema''"
| "evaluator_type_value E_regex = ''regex''"
| "evaluator_type_value E_numeric = ''numeric''"
| "evaluator_type_value E_reference = ''reference''"
| "evaluator_type_value E_cel_predicate = ''cel_predicate''"
| "evaluator_type_value E_trace_rule = ''trace_rule''"
| "evaluator_type_value E_llm_judge = ''llm_judge''"
| "evaluator_type_value E_composite = ''composite''"
| "evaluator_type_value E_recall_at_k = ''recall_at_k''"
| "evaluator_type_value E_citation_correctness = ''citation_correctness''"

definition EVALUATOR_TYPES :: "string list" where
  "EVALUATOR_TYPES =
     [''exact_match'', ''json_schema'', ''regex'', ''numeric'', ''reference'', ''cel_predicate'',
      ''trace_rule'', ''llm_judge'', ''composite'']"

record evaluator =
  el_type :: evaluator_type
  el_expected :: pyval
  el_tolerance :: "flt option"
  el_pattern :: "string option"
  el_schema :: "pydict option"
  el_predicate :: "string option"
  el_language_version :: "string option"
  el_rule :: "pydict option"
  el_rubric_version_id :: "string option"
  el_k :: "int option"
  el_evidence :: "(string \<times> bool) list option"

definition given :: "string option \<Rightarrow> bool" where
  "given s = (case s of None \<Rightarrow> False | Some t \<Rightarrow> t \<noteq> [])"

text \<open>The check of one evaluator type's configuration.\<close>

definition validate_evaluator :: "externals \<Rightarrow> evaluator \<Rightarrow> unit res" where
  "validate_evaluator X e =
     (case el_type e of
        E_exact_match \<Rightarrow> ensure (el_expected e \<noteq> VNull) ValueError
      | E_json_schema \<Rightarrow> ensure (el_schema e \<noteq> None) ValueError
      | E_regex \<Rightarrow> ensure (given (el_pattern e)) ValueError
      | E_numeric \<Rightarrow> ensure (is_number (el_expected e) \<and> el_tolerance e \<noteq> None) ValueError
      | E_reference \<Rightarrow> ensure (is_str (el_expected e)) ValueError
      | E_cel_predicate \<Rightarrow>
          (if \<not> given (el_predicate e) then Inl ValueError
           else case compile_predicate X (the (el_predicate e))
                  (Some (case el_language_version e of None \<Rightarrow> ''cel'' | Some v \<Rightarrow> v)) of
               Inl x \<Rightarrow> Inl (if is_predicate_error x then ValueError else x)
             | Inr _ \<Rightarrow> Inr ())
      | E_trace_rule \<Rightarrow> (case el_rule e of None \<Rightarrow> Inl ValueError | Some r \<Rightarrow> validate_rule (VDict r))
      | E_llm_judge \<Rightarrow> ensure (given (el_rubric_version_id e)) ValueError
      | E_composite \<Rightarrow> Inr ()
      | E_recall_at_k \<Rightarrow>
          (case el_expected e of
             VList items \<Rightarrow>
               if \<not> list_all (\<lambda>v. is_str v \<and> v \<noteq> VStr []) items then Inl ValueError
               else ensure (case el_k e of None \<Rightarrow> False | Some k \<Rightarrow> 1 \<le> k) ValueError
           | _ \<Rightarrow> Inl ValueError)
      | E_citation_correctness \<Rightarrow> ensure (el_evidence e \<noteq> None) ValueError)"

section \<open>Scoring, aggregation, gate and judge binding\<close>

datatype scoring_type = S_binary | S_numeric | S_categorical

record scoring =
  sc_type :: scoring_type
  sc_range :: "(flt \<times> flt) option"
  sc_categories :: "string list option"
  sc_condition :: "string option"

definition validate_scoring :: "scoring \<Rightarrow> unit res" where
  "validate_scoring s =
     (if sc_type s \<in> {S_binary, S_numeric} \<and> sc_range s = None then Inl ValueError
      else if (case sc_range s of None \<Rightarrow> False | Some (lo, hi) \<Rightarrow> flt_lt hi lo) then Inl ValueError
      else ensure (sc_type s \<noteq> S_categorical \<or> sc_categories s \<noteq> None) ValueError)"

datatype aggregation_method = A_pass_rate | A_mean | A_p50 | A_p95 | A_min | A_sum

datatype on_error = OE_fail | OE_exclude

record aggregation =
  ag_method :: aggregation_method
  ag_on_error :: on_error

record gate =
  gt_min :: "flt option"
  gt_max :: "flt option"

definition validate_gate :: "gate \<Rightarrow> unit res" where
  "validate_gate g =
     (if gt_min g = None \<and> gt_max g = None then Inl ValueError
      else case (gt_min g, gt_max g) of
          (Some lo, Some hi) \<Rightarrow> ensure (\<not> flt_lt hi lo) ValueError
        | _ \<Rightarrow> Inr ())"

record judge_binding =
  jb_provider :: string
  jb_model :: string
  jb_schema_version :: string
  jb_rubric_version :: string

section \<open>Metric\<close>

datatype metric_type = M_trace_rule | M_scalar | M_judge

record metric =
  mt_metric_id :: string
  mt_name :: string
  mt_type :: metric_type
  mt_target :: target
  mt_evaluator :: evaluator
  mt_scoring :: scoring
  mt_aggregation :: aggregation
  mt_gate :: "gate option"
  mt_weight :: flt
  mt_judge_binding :: "judge_binding option"
  mt_provisional :: bool

definition NUMERIC_PRODUCING_EVALUATORS :: "evaluator_type list" where
  "NUMERIC_PRODUCING_EVALUATORS = [E_numeric, E_recall_at_k, E_citation_correctness]"

definition numeric_producing :: "evaluator \<Rightarrow> bool" where
  "numeric_producing e =
     (el_type e \<in> set NUMERIC_PRODUCING_EVALUATORS \<or>
      (el_type e = E_trace_rule \<and>
       (case el_rule e of None \<Rightarrow> False | Some r \<Rightarrow> dict_get r ''op'' = VStr ''count'')))"

text \<open>\<open>set_provisional\<close>: whether the input gave \<open>provisional\<close> (\<open>model_fields_set\<close>).\<close>

definition judge_requires_binding :: "bool \<Rightarrow> metric \<Rightarrow> metric res" where
  "judge_requires_binding set_provisional m =
     (if mt_type m = M_judge then
        (if mt_judge_binding m = None then Inl ValueError
         else if el_type (mt_evaluator m) \<noteq> E_llm_judge then Inl ValueError
         else Inr (if set_provisional then m else m\<lparr>mt_provisional := True\<rparr>))
      else Inr m)"

definition scoring_condition_required :: "metric \<Rightarrow> unit res" where
  "scoring_condition_required m =
     ensure (\<not> (sc_type (mt_scoring m) = S_binary \<and> numeric_producing (mt_evaluator m)
             \<and> \<not> given (sc_condition (mt_scoring m)))) ValueError"

definition validate_metric :: "externals \<Rightarrow> bool \<Rightarrow> metric \<Rightarrow> metric res" where
  "validate_metric X set_provisional m =
     bind_res (validate_target (mt_target m)) (\<lambda>_.
     bind_res (validate_evaluator X (mt_evaluator m)) (\<lambda>_.
     bind_res (validate_scoring (mt_scoring m)) (\<lambda>_.
     bind_res (case mt_gate m of None \<Rightarrow> Inr () | Some g \<Rightarrow> validate_gate g) (\<lambda>_.
     bind_res (ensure (mt_metric_id m \<noteq> [] \<and> mt_name m \<noteq> []) ValueError) (\<lambda>_.
     bind_res (judge_requires_binding set_provisional m) (\<lambda>m'.
     bind_res (scoring_condition_required m') (\<lambda>_. Inr m')))))))"

section \<open>Test cases\<close>

datatype expected_tag = User_stated | Inferred | Derived_from_trace

record expected_value =
  xv_tag :: expected_tag
  xv_value :: pyval

datatype step_kind = Wait_for_input | User_response_step

record script_step =
  ss_kind :: step_kind
  ss_requested_input :: "string option"
  ss_provided_input :: "string option"
  ss_real_user :: bool

definition validate_script_step :: "script_step \<Rightarrow> unit res" where
  "validate_script_step s =
     (if ss_kind s = Wait_for_input \<and> ss_provided_input s \<noteq> None then Inl ValueError
      else ensure (\<not> (ss_kind s = User_response_step \<and> ss_requested_input s \<noteq> None)) ValueError)"

record test_case =
  tc_case_id :: string
  tc_name :: string
  tc_description :: string
  tc_input :: pydict
  tc_expected :: "(string \<times> expected_value) list"
  tc_metadata :: pydict
  tc_script :: "script_step list"

definition validate_test_case :: "test_case \<Rightarrow> unit res" where
  "validate_test_case c =
     bind_res (ensure (tc_case_id c \<noteq> [] \<and> tc_name c \<noteq> []) ValueError) (\<lambda>_.
       each_res validate_script_step (tc_script c))"

section \<open>The specification\<close>

datatype run_tier = Quick | Standard | Full

record evaluation_spec =
  sp_spec_version :: string
  sp_name :: string
  sp_dataset_version :: string
  sp_cases :: "test_case list"
  sp_metrics :: "metric list"
  sp_run_tier :: "run_tier option"

text \<open>\<open>[c for c, n in Counter(xs).items() if n > 1]\<close>.\<close>

definition duplicates :: "string list \<Rightarrow> string list" where
  "duplicates xs = filter (\<lambda>x. 1 < count_list xs x) (remdups xs)"

definition unique_ids :: "evaluation_spec \<Rightarrow> unit res" where
  "unique_ids s =
     (if duplicates (map tc_case_id (sp_cases s)) \<noteq> [] then Inl ValueError
      else ensure (duplicates (map mt_metric_id (sp_metrics s)) = []) ValueError)"

text \<open>\<open>validate_spec\<close> on a typed specification; the input carries, per metric, whether \<open>provisional\<close> was
  given.\<close>

definition validate_spec :: "externals \<Rightarrow> (metric \<Rightarrow> bool) \<Rightarrow> evaluation_spec \<Rightarrow> evaluation_spec res" where
  "validate_spec X set_provisional s =
     bind_res (each_res validate_test_case (sp_cases s)) (\<lambda>_.
     bind_res (traverse (\<lambda>m. validate_metric X (set_provisional m) m) (sp_metrics s)) (\<lambda>ms.
     bind_res (unique_ids (s\<lparr>sp_metrics := ms\<rparr>)) (\<lambda>_. Inr (s\<lparr>sp_metrics := ms\<rparr>))))"

text \<open>\<open>_loc_to_string\<close>: a pydantic location, its parts field names or list indexes.\<close>

datatype loc_part = Index string | Name string

fun loc_parts :: "string list \<Rightarrow> loc_part list \<Rightarrow> string list" where
  "loc_parts parts [] = parts"
| "loc_parts parts (Index i # ls) =
     loc_parts (if parts = [] then [''['' @ i @ '']'']
                else butlast parts @ [last parts @ ''['' @ i @ '']'']) ls"
| "loc_parts parts (Name s # ls) = loc_parts (parts @ [s]) ls"

fun dotted :: "string list \<Rightarrow> string" where
  "dotted [] = []"
| "dotted [p] = p"
| "dotted (p # q # ps) = p @ ''.'' @ dotted (q # ps)"

definition loc_to_string :: "loc_part list \<Rightarrow> string" where
  "loc_to_string loc = (let parts = loc_parts [] loc in if parts = [] then ''spec'' else dotted parts)"

end
