(* ===== verification/Judge.thy ===== *)
theory Judge
  imports SpecModel
begin

text \<open>
  Judge instruments (\<open>judge.py\<close>) and the retrieval metrics (\<open>retrieval.py\<close>): verdicts with their
  validation, the judge interface with the shipped implementations, the readiness state machine per
  binding, and the registry of readiness states.

  A judge is a record of its binding and its \<open>evaluate\<close>. The locale \<open>judge_evaluator\<close> is the contract
  the scoring code relies on; the no-op, scripted and unconfigured judges interpret it.
\<close>

section \<open>Retrieval metrics\<close>

definition recall_at_k :: "string list \<Rightarrow> string list \<Rightarrow> int \<Rightarrow> flt res" where
  "recall_at_k relevant ranked k =
     (if k < 1 then Inl ValueError
      else let rel = remdups relevant in
        if rel = [] then Inr (Fin 0)
        else int_div (int (length (filter (\<lambda>r. r \<in> set (take (nat k) ranked)) rel))) (int (length rel)))"

definition citation_correctness :: "string list \<Rightarrow> (string \<times> bool) list \<Rightarrow> flt option res" where
  "citation_correctness citations evidence =
     (if citations = [] then Inr None
      else if list_ex (\<lambda>c. map_of evidence c = None) citations then Inr None
      else bind_res
        (int_div (int (length (filter (\<lambda>c. map_of evidence c = Some True) citations))) (int (length citations)))
        (\<lambda>q. Inr (Some q)))"

section \<open>Verdicts\<close>

record judge_verdict =
  jv_score :: pyval
  jv_justification :: string
  jv_evidence_refs :: "string list"
  jv_scale :: "(flt \<times> flt) option"

text \<open>\<open>lo <= v <= hi\<close> for a number \<open>v\<close>.\<close>

definition in_scale :: "flt \<times> flt \<Rightarrow> pyval \<Rightarrow> bool" where
  "in_scale r v =
     (case num_of v of None \<Rightarrow> False | Some x \<Rightarrow> flt_le (fst r) x \<and> flt_le x (snd r))"

text \<open>\<open>JudgeVerdict(...)\<close> with its \<open>__post_init__\<close>.\<close>

definition make_verdict ::
  "pyval \<Rightarrow> string \<Rightarrow> string list \<Rightarrow> (flt \<times> flt) option \<Rightarrow> judge_verdict res" where
  "make_verdict score justification refs scale =
     (if \<not> is_number score then Inl JudgmentError
      else if (case scale of None \<Rightarrow> False | Some r \<Rightarrow> \<not> in_scale r score) then Inl JudgmentError
      else Inr \<lparr>jv_score = score, jv_justification = justification, jv_evidence_refs = refs,
             jv_scale = scale\<rparr>)"

section \<open>Judges\<close>

record judge =
  jd_binding :: judge_binding
  jd_evaluate :: "metric \<Rightarrow> test_case \<Rightarrow> string list \<Rightarrow> judge_verdict res"

definition unconfigured_judge :: "judge_binding \<Rightarrow> judge" where
  "unconfigured_judge b = \<lparr>jd_binding = b, jd_evaluate = (\<lambda>_ _ _. Inl JudgmentError)\<rparr>"

text \<open>\<open>float(value)\<close> of a number.\<close>

definition to_float :: "pyval \<Rightarrow> flt res" where
  "to_float v =
     (case v of
        VFloat f \<Rightarrow> Inr f
      | VInt i \<Rightarrow> int_to_float i
      | VBool b \<Rightarrow> Inr (Fin (if b then 1 else 0))
      | _ \<Rightarrow> Inl TypeError)"

definition noop_judge :: "judge_binding \<Rightarrow> pyval \<Rightarrow> string \<Rightarrow> judge res" where
  "noop_judge b score justification =
     (if \<not> is_number score then Inl ValueError
      else bind_res (to_float score) (\<lambda>f.
        Inr \<lparr>jd_binding = b,
          jd_evaluate = (\<lambda>_ _ evidence. make_verdict (VFloat f) justification evidence None)\<rparr>))"

definition scripted_judge ::
  "judge_binding \<Rightarrow> (string \<times> pyval) list \<Rightarrow> pyval \<Rightarrow> string \<Rightarrow> judge res" where
  "scripted_judge b scores default_score justification =
     (if \<not> list_all is_number (map snd scores @ [default_score]) then Inl ValueError
      else bind_res (to_float default_score) (\<lambda>f.
        Inr \<lparr>jd_binding = b,
          jd_evaluate = (\<lambda>_ c evidence.
            make_verdict (case map_of scores (tc_case_id c) of None \<Rightarrow> VFloat f | Some v \<Rightarrow> v)
              justification evidence None)\<rparr>))"

section \<open>The judge interface\<close>

text \<open>
  The contract of \<open>JudgeEvaluator.evaluate\<close>: a verdict with a numeric score that cites only evidence it
  was given, or a \<open>JudgmentError\<close>.
\<close>

locale judge_evaluator =
  fixes judge_metric :: "metric \<Rightarrow> test_case \<Rightarrow> string list \<Rightarrow> judge_verdict res"
  assumes verdict: "judge_metric m c ev = Inr v \<Longrightarrow>
      is_number (jv_score v) \<and> set (jv_evidence_refs v) \<subseteq> set ev"
    and failure: "judge_metric m c ev = Inl e \<Longrightarrow> e = JudgmentError"
begin

lemma outcome:
  "(\<exists>v. judge_metric m c ev = Inr v \<and> is_number (jv_score v) \<and> set (jv_evidence_refs v) \<subseteq> set ev)
   \<or> judge_metric m c ev = Inl JudgmentError"
  using verdict failure by (cases "judge_metric m c ev") auto

end

definition well_behaved :: "judge \<Rightarrow> bool" where
  "well_behaved j = judge_evaluator (jd_evaluate j)"

lemma make_verdict_Inr:
  "make_verdict s j refs scale = Inr v \<Longrightarrow>
   is_number s \<and> v = \<lparr>jv_score = s, jv_justification = j, jv_evidence_refs = refs, jv_scale = scale\<rparr>
   \<and> (\<forall>r. scale = Some r \<longrightarrow> in_scale r s)"
  by (auto simp: make_verdict_def split: if_splits option.splits)

lemma make_verdict_Inl: "make_verdict s j refs scale = Inl e \<Longrightarrow> e = JudgmentError"
  by (auto simp: make_verdict_def split: if_splits)

interpretation unconfigured: judge_evaluator "jd_evaluate (unconfigured_judge b)"
  by unfold_locales (auto simp: unconfigured_judge_def)

interpretation fixed_score: judge_evaluator "\<lambda>(m :: metric) (c :: test_case) ev. make_verdict (s c) just ev None"
  by unfold_locales (auto dest: make_verdict_Inr make_verdict_Inl)

lemma noop_judge_well_behaved: "noop_judge b s j = Inr jd \<Longrightarrow> well_behaved jd"
  using fixed_score.judge_evaluator_axioms
  by (auto simp: noop_judge_def bind_res_Inr_iff well_behaved_def split: if_splits)

lemma scripted_judge_well_behaved: "scripted_judge b scores d j = Inr jd \<Longrightarrow> well_behaved jd"
  using fixed_score.judge_evaluator_axioms
  by (auto simp: scripted_judge_def bind_res_Inr_iff well_behaved_def split: if_splits)

section \<open>Readiness\<close>

datatype readiness_state = UNCALIBRATED | CALIBRATING | CALIBRATED

definition readiness_is_provisional :: "readiness_state \<Rightarrow> bool" where
  "readiness_is_provisional s = (s \<in> {UNCALIBRATED, CALIBRATING})"

record readiness =
  rn_binding :: judge_binding
  rn_state :: readiness_state
  rn_label_count :: int
  rn_kappa :: "flt option"
  rn_min_labels :: int
  rn_kappa_ready :: flt
  rn_kappa_reset :: flt
  rn_generation :: int

text \<open>\<open>JudgeReadiness(binding=...)\<close> with the shipped thresholds: 30 labels, the floats 0.6 and 0.5.\<close>

definition new_readiness :: "judge_binding \<Rightarrow> readiness" where
  "new_readiness b = \<lparr>rn_binding = b, rn_state = UNCALIBRATED, rn_label_count = 0, rn_kappa = None,
     rn_min_labels = 30, rn_kappa_ready = rat_to_float (6 / 10), rn_kappa_reset = rat_to_float (5 / 10),
     rn_generation = 0\<rparr>"

definition sufficient :: "readiness \<Rightarrow> bool" where
  "sufficient r =
     (rn_min_labels r \<le> rn_label_count r \<and>
      (case rn_kappa r of None \<Rightarrow> False | Some k \<Rightarrow> flt_le (rn_kappa_ready r) k))"

definition kappa_below_reset :: "readiness \<Rightarrow> bool" where
  "kappa_below_reset r = (case rn_kappa r of None \<Rightarrow> False | Some k \<Rightarrow> flt_lt k (rn_kappa_reset r))"

definition derive :: "readiness \<Rightarrow> readiness" where
  "derive r = r\<lparr>rn_state :=
     (if kappa_below_reset r then (if 0 < rn_label_count r then CALIBRATING else UNCALIBRATED)
      else if sufficient r then CALIBRATED
      else if 0 < rn_label_count r then CALIBRATING
      else UNCALIBRATED)\<rparr>"

text \<open>\<open>replace\<close> runs \<open>__post_init__\<close>, which refuses a negative count.\<close>

definition with_label :: "int \<Rightarrow> readiness \<Rightarrow> readiness res" where
  "with_label n r =
     (if rn_label_count r + n < 0 then Inl ValueError
      else Inr (derive (r\<lparr>rn_label_count := rn_label_count r + n\<rparr>)))"

definition with_kappa :: "flt \<Rightarrow> readiness \<Rightarrow> readiness" where
  "with_kappa k r = derive (r\<lparr>rn_kappa := Some k\<rparr>)"

definition reset :: "judge_binding option \<Rightarrow> readiness \<Rightarrow> readiness" where
  "reset b r = r\<lparr>rn_binding := (case b of None \<Rightarrow> rn_binding r | Some b' \<Rightarrow> b'), rn_state := UNCALIBRATED,
     rn_label_count := 0, rn_kappa := None, rn_generation := rn_generation r + 1\<rparr>"

section \<open>The registry\<close>

type_synonym binding_key = "string \<times> string \<times> string \<times> string"
type_synonym registry = "(binding_key \<times> readiness) list"

definition binding_key :: "judge_binding \<Rightarrow> binding_key" where
  "binding_key b = (jb_provider b, jb_model b, jb_schema_version b, jb_rubric_version b)"

text \<open>\<open>get\<close> stores a fresh readiness for a binding it has not seen.\<close>

definition registry_get :: "judge_binding \<Rightarrow> registry \<Rightarrow> readiness \<times> registry" where
  "registry_get b g =
     (case map_of g (binding_key b) of
        Some r \<Rightarrow> (r, g)
      | None \<Rightarrow> (new_readiness b, AList.update (binding_key b) (new_readiness b) g))"

definition registry_set :: "readiness \<Rightarrow> registry \<Rightarrow> registry" where
  "registry_set r g = AList.update (binding_key (rn_binding r)) r g"

definition record_label :: "judge_binding \<Rightarrow> int \<Rightarrow> registry \<Rightarrow> (readiness \<times> registry) res" where
  "record_label b n g =
     (let (r, g') = registry_get b g in
      bind_res (with_label n r) (\<lambda>r'. Inr (r', registry_set r' g')))"

definition recompute_kappa :: "judge_binding \<Rightarrow> flt \<Rightarrow> registry \<Rightarrow> readiness \<times> registry" where
  "recompute_kappa b k g =
     (let (r, g') = registry_get b g; r' = with_kappa k r in (r', registry_set r' g'))"

definition reset_binding :: "judge_binding \<Rightarrow> registry \<Rightarrow> readiness \<times> registry" where
  "reset_binding b g =
     (let (r, g') = registry_get b g; r' = reset (Some b) r in (r', registry_set r' g'))"

definition registry_provisional :: "judge_binding \<Rightarrow> registry \<Rightarrow> bool" where
  "registry_provisional b g = readiness_is_provisional (rn_state (fst (registry_get b g)))"

definition registry_contains :: "judge_binding \<Rightarrow> registry \<Rightarrow> bool" where
  "registry_contains b g = (map_of g (binding_key b) \<noteq> None)"

section \<open>What the registry keeps true\<close>

text \<open>
  A readiness state is earned: CALIBRATED only with enough labels and an agreement at or above the
  ready threshold and not below the reset threshold, CALIBRATING only with a label.
\<close>

definition earned :: "readiness \<Rightarrow> bool" where
  "earned r =
     (0 \<le> rn_label_count r
      \<and> (rn_state r = CALIBRATED \<longrightarrow> sufficient r \<and> \<not> kappa_below_reset r)
      \<and> (rn_state r = CALIBRATING \<longrightarrow> 0 < rn_label_count r))"

lemma sufficient_iff:
  "sufficient r \<longleftrightarrow>
     rn_min_labels r \<le> rn_label_count r \<and> (\<exists>x. rn_kappa r = Some x \<and> flt_le (rn_kappa_ready r) x)"
  by (cases "rn_kappa r") (simp_all add: sufficient_def)

lemma earned_new: "earned (new_readiness b)"
  by (simp add: earned_def new_readiness_def)

lemma earned_derive: "0 \<le> rn_label_count r \<Longrightarrow> earned (derive r)"
  by (cases "rn_kappa r") (simp_all add: earned_def derive_def sufficient_def kappa_below_reset_def)

lemma earned_with_label: "with_label n r = Inr r' \<Longrightarrow> earned r'"
  by (auto simp: with_label_def intro!: earned_derive split: if_splits)

lemma earned_with_kappa: "earned r \<Longrightarrow> earned (with_kappa k r)"
  unfolding with_kappa_def by (rule earned_derive) (simp add: earned_def)

lemma earned_reset: "earned (reset b r)"
  by (simp add: earned_def reset_def)

text \<open>The operations of the registry as steps.\<close>

inductive registry_step :: "registry \<Rightarrow> judge_binding \<Rightarrow> registry \<Rightarrow> bool" where
  get: "registry_get b g = (r, g') \<Longrightarrow> registry_step g b g'"
| label: "record_label b n g = Inr (r, g') \<Longrightarrow> registry_step g b g'"
| kappa: "recompute_kappa b k g = (r, g') \<Longrightarrow> registry_step g b g'"
| reset: "reset_binding b g = (r, g') \<Longrightarrow> registry_step g b g'"

inductive registry_reachable :: "registry \<Rightarrow> bool" where
  empty: "registry_reachable []"
| step: "registry_reachable g \<Longrightarrow> registry_step g b g' \<Longrightarrow> registry_reachable g'"

definition registry_ok :: "registry \<Rightarrow> bool" where
  "registry_ok g = (\<forall>k r. map_of g k = Some r \<longrightarrow> earned r \<and> binding_key (rn_binding r) = k)"

lemma registry_ok_get:
  assumes "registry_ok g" and "registry_get b g = (r, g')"
  shows "registry_ok g' \<and> earned r \<and> binding_key (rn_binding r) = binding_key b"
proof (cases "map_of g (binding_key b)")
  case None
  have fresh: "binding_key (rn_binding (new_readiness b)) = binding_key b" by (simp add: new_readiness_def)
  from None assms(2) have "r = new_readiness b" "g' = AList.update (binding_key b) (new_readiness b) g"
    by (auto simp: registry_get_def)
  then show ?thesis
    using assms(1) earned_new fresh unfolding registry_ok_def by (simp del: split_paired_All add: update_conv')
next
  case (Some r0)
  then show ?thesis using assms unfolding registry_ok_def by (simp del: split_paired_All add: registry_get_def)
qed

lemma registry_ok_set:
  "registry_ok g \<Longrightarrow> earned r \<Longrightarrow> registry_ok (registry_set r g)"
  by (auto simp: registry_set_def registry_ok_def update_conv')

lemma registry_step_ok: "registry_step g b g' \<Longrightarrow> registry_ok g \<Longrightarrow> registry_ok g'"
proof (induction rule: registry_step.induct)
  case (get b g r g')
  then show ?case using registry_ok_get by blast
next
  case (label b n g r g')
  obtain r0 g0 where r0: "registry_get b g = (r0, g0)" by (cases "registry_get b g")
  then have "with_label n r0 = Inr r" "g' = registry_set r g0"
    using label.hyps by (auto simp: record_label_def bind_res_Inr_iff)
  then show ?case using registry_ok_set registry_ok_get [OF label.prems r0] earned_with_label by blast
next
  case (kappa b k g r g')
  obtain r0 g0 where r0: "registry_get b g = (r0, g0)" by (cases "registry_get b g")
  then have "r = with_kappa k r0" "g' = registry_set r g0"
    using kappa.hyps by (auto simp: recompute_kappa_def Let_def)
  then show ?case using registry_ok_set registry_ok_get [OF kappa.prems r0] earned_with_kappa by blast
next
  case (reset b g r g')
  obtain r0 g0 where r0: "registry_get b g = (r0, g0)" by (cases "registry_get b g")
  then have "r = Judge.reset (Some b) r0" "g' = registry_set r g0"
    using reset.hyps by (auto simp: reset_binding_def Let_def)
  then show ?case using registry_ok_set registry_ok_get [OF reset.prems r0] earned_reset by blast
qed

lemma registry_reachable_ok: "registry_reachable g \<Longrightarrow> registry_ok g"
proof (induction rule: registry_reachable.induct)
  case empty
  show ?case by (simp add: registry_ok_def)
next
  case (step g b g')
  then show ?case by (blast intro: registry_step_ok)
qed

text \<open>Steps on one binding leave every other binding's entry alone.\<close>

lemma with_label_binding: "with_label n r = Inr r' \<Longrightarrow> rn_binding r' = rn_binding r"
  by (auto simp: with_label_def derive_def split: if_splits)

lemma registry_get_other:
  "registry_get b g = (r, g') \<Longrightarrow> k \<noteq> binding_key b \<Longrightarrow> map_of g' k = map_of g k"
  by (auto simp: registry_get_def update_conv' split: option.splits)

lemma registry_step_other:
  "registry_step g b g' \<Longrightarrow> registry_ok g \<Longrightarrow> k \<noteq> binding_key b \<Longrightarrow> map_of g' k = map_of g k"
proof (induction rule: registry_step.induct)
  case (get b g r g')
  show ?case by (rule registry_get_other [OF get.hyps get.prems(2)])
next
  case (label b n g r g')
  obtain r0 g0 where r0: "registry_get b g = (r0, g0)" by (cases "registry_get b g")
  then have "with_label n r0 = Inr r" "g' = registry_set r g0"
    using label.hyps by (auto simp: record_label_def bind_res_Inr_iff)
  then show ?case using registry_ok_get [OF label.prems(1) r0] registry_get_other [OF r0 label.prems(2)] label.prems(2)
    by (simp add: registry_set_def update_conv' with_label_binding)
next
  case (kappa b k' g r g')
  obtain r0 g0 where r0: "registry_get b g = (r0, g0)" by (cases "registry_get b g")
  then have "r = with_kappa k' r0" "g' = registry_set r g0"
    using kappa.hyps by (auto simp: recompute_kappa_def Let_def)
  then show ?case using registry_ok_get [OF kappa.prems(1) r0] registry_get_other [OF r0 kappa.prems(2)] kappa.prems(2)
    by (simp add: registry_set_def update_conv' with_kappa_def derive_def)
next
  case (reset b g r g')
  obtain r0 g0 where r0: "registry_get b g = (r0, g0)" by (cases "registry_get b g")
  then have "r = Judge.reset (Some b) r0" "g' = registry_set r g0"
    using reset.hyps by (auto simp: reset_binding_def Let_def)
  then show ?case using registry_get_other [OF r0 reset.prems(2)] reset.prems(2)
    by (simp add: registry_set_def update_conv' Judge.reset_def)
qed

text \<open>
  Readiness is earned and isolated: in every state the registry reaches, a binding is CALIBRATED only
  with at least its minimum of labels and an agreement at or above its ready threshold, and an
  operation on one binding never changes the state of another.
\<close>

theorem readiness_earned:
  assumes "registry_reachable g" and "registry_step g b g'"
  shows "(\<forall>k r. map_of g' k = Some r \<and> rn_state r = CALIBRATED \<longrightarrow>
            rn_min_labels r \<le> rn_label_count r \<and> (\<exists>x. rn_kappa r = Some x \<and> flt_le (rn_kappa_ready r) x))
       \<and> (\<forall>k. k \<noteq> binding_key b \<longrightarrow> map_of g' k = map_of g k)"
proof -
  have ok: "registry_ok g'" using registry_step_ok [OF assms(2)] registry_reachable_ok [OF assms(1)] by blast
  show ?thesis
  proof (intro conjI allI impI)
    fix k r
    assume "map_of g' k = Some r \<and> rn_state r = CALIBRATED"
    then have "sufficient r" using ok unfolding registry_ok_def earned_def by blast
    then show "rn_min_labels r \<le> rn_label_count r" "\<exists>x. rn_kappa r = Some x \<and> flt_le (rn_kappa_ready r) x"
      by (simp_all add: sufficient_iff)
  next
    fix k
    assume "k \<noteq> binding_key b"
    then show "map_of g' k = map_of g k"
      by (rule registry_step_other [OF assms(2) registry_reachable_ok [OF assms(1)]])
  qed
qed

theorem readiness_earned_witness:
  "\<exists>g r. registry_step [] \<lparr>jb_provider = ''p'', jb_model = ''m'', jb_schema_version = ''1'', jb_rubric_version = ''1''\<rparr> g
     \<and> map_of g (''q'', ''m'', ''1'', ''1'') = None"
proof -
  let ?b = "\<lparr>jb_provider = ''p'', jb_model = ''m'', jb_schema_version = ''1'', jb_rubric_version = ''1''\<rparr>"
  obtain r g where "recompute_kappa ?b (Fin 1) [] = (r, g)" by (cases "recompute_kappa ?b (Fin 1) []")
  then have s: "registry_step [] ?b g" by (rule registry_step.kappa)
  have "\<forall>k. k \<noteq> binding_key ?b \<longrightarrow> map_of g k = map_of [] k"
    using readiness_earned [OF registry_reachable.empty s] by (rule conjunct2)
  then have "map_of g (''q'', ''m'', ''1'', ''1'') = None"
    by (auto simp: binding_key_def)
  with s show ?thesis by auto
qed

text \<open>
  Retrieval scores are rates: recall at k and citation correctness, when defined, are between 0 and
  1, and recall is 1 when every relevant document is among the first k.
\<close>

theorem retrieval_rates:
  assumes "1 \<le> k"
  shows "(\<exists>q. recall_at_k relevant ranked k = Inr (Fin q) \<and> 0 \<le> q \<and> q \<le> 1
       \<and> (relevant = [] \<or> \<not> set relevant \<subseteq> set (take (nat k) ranked) \<or> q = 1))
   \<and> (\<exists>r. citation_correctness citations evidence = Inr r
       \<and> (r = None \<longleftrightarrow> citations = [] \<or> \<not> set citations \<subseteq> fst ` set evidence)
       \<and> (r = None \<or> (\<exists>q. r = Some (Fin q) \<and> 0 \<le> q \<and> q \<le> 1)))"
proof
  let ?rel = "remdups relevant"
  let ?hits = "filter (\<lambda>r. r \<in> set (take (nat k) ranked)) ?rel"
  show "\<exists>q. recall_at_k relevant ranked k = Inr (Fin q) \<and> 0 \<le> q \<and> q \<le> 1
       \<and> (relevant = [] \<or> \<not> set relevant \<subseteq> set (take (nat k) ranked) \<or> q = 1)"
  proof (cases "relevant = []")
    case True
    then show ?thesis using assms by (simp add: recall_at_k_def)
  next
    case False
    then have pos: "0 < int (length ?rel)" by simp
    have eq: "recall_at_k relevant ranked k = int_div (int (length ?hits)) (int (length ?rel))"
      using assms False by (simp add: recall_at_k_def Let_def)
    obtain q where q: "recall_at_k relevant ranked k = Inr (Fin q)" "0 \<le> q" "q \<le> 1"
      using int_div_unit [of "int (length ?hits)" "int (length ?rel)"] pos eq by auto
    have "q = 1" if "set relevant \<subseteq> set (take (nat k) ranked)"
    proof -
      have "?hits = ?rel" using that by (auto simp: filter_id_conv)
      then show ?thesis using q(1) eq int_div_self [OF pos] by simp
    qed
    then show ?thesis using q by blast
  qed
next
  let ?ok = "filter (\<lambda>c. map_of evidence c = Some True) citations"
  show "\<exists>r. citation_correctness citations evidence = Inr r
       \<and> (r = None \<longleftrightarrow> citations = [] \<or> \<not> set citations \<subseteq> fst ` set evidence)
       \<and> (r = None \<or> (\<exists>q. r = Some (Fin q) \<and> 0 \<le> q \<and> q \<le> 1))"
  proof (cases "citations = [] \<or> list_ex (\<lambda>c. map_of evidence c = None) citations")
    case True
    then show ?thesis by (auto simp: citation_correctness_def list_ex_iff map_of_eq_None_iff)
  next
    case False
    then have "set citations \<subseteq> fst ` set evidence" by (auto simp: list_ex_iff map_of_eq_None_iff)
    moreover obtain q where "int_div (int (length ?ok)) (int (length citations)) = Inr (Fin q)" "0 \<le> q" "q \<le> 1"
      using int_div_unit [of "int (length ?ok)" "int (length citations)"] False by auto
    ultimately show ?thesis using False by (auto simp: citation_correctness_def)
  qed
qed

theorem retrieval_rates_witness:
  "\<exists>q. recall_at_k [''a'', ''b''] [''b'', ''c'', ''a''] 2 = Inr (Fin q) \<and> 0 \<le> q \<and> q \<le> 1"
  using retrieval_rates [of 2 "[''a'', ''b'']" "[''b'', ''c'', ''a'']" "[]" "[]"] by auto

end
