(* ===== verification/Aggregation.thy ===== *)
theory Aggregation
  imports Judge
begin

text \<open>
  Per-case scores and their run-level rollup (\<open>evaluators.py\<close>): the score record, \<open>aggregate_metric\<close>
  with its percentile, \<open>evaluate_gate\<close> and \<open>gate_safe\<close>.

  A score's message is left out; so is a gate result's. \<open>gate_safe\<close> reads the readiness registry
  through \<open>get\<close>, which stores a fresh entry for an unknown binding: the registry is passed on.
\<close>

section \<open>Scores\<close>

datatype case_status = PASS | FAIL | ERROR | SKIPPED

datatype aggregation_state = IN_PROGRESS | PARTIAL | COMPLETE

record case_score =
  cs_metric_id :: string
  cs_case_id :: string
  cs_score :: "flt option"
  cs_passed :: bool
  cs_evidence :: "string list"
  cs_status :: case_status
  cs_attempt :: int
  cs_on_retry_override :: bool
  cs_provisional :: bool
  cs_raw_value :: pyval
  cs_evaluator_version :: "string option"

record run_aggregate =
  ra_metric_id :: string
  ra_value :: "flt option"
  ra_pass_rate :: "flt option"
  ra_mean :: "flt option"
  ra_n_cases :: nat
  ra_n_denominator :: nat
  ra_error_n :: nat
  ra_skipped_n :: nat
  ra_state :: aggregation_state

record gate_result =
  gr_metric_id :: string
  gr_value :: "flt option"
  gr_passed :: bool
  gr_active :: bool

section \<open>Rollup\<close>

definition P50 :: flt where
  "P50 = rat_to_float (1 / 2)"

definition P95 :: flt where
  "P95 = rat_to_float (95 / 100)"

definition len_float :: "nat \<Rightarrow> flt" where
  "len_float n = rat_to_float (of_nat n)"

text \<open>\<open>sorted\<close> of floats: by value, stable; the order of a list that holds NaN is the external
  \<open>nan_sorted\<close>.\<close>

fun insert_float :: "flt \<Rightarrow> flt list \<Rightarrow> flt list" where
  "insert_float x [] = [x]"
| "insert_float x (y # ys) = (if flt_lt y x then y # insert_float x ys else x # y # ys)"

definition sorted_floats :: "externals \<Rightarrow> flt list \<Rightarrow> flt list" where
  "sorted_floats X vs = (if list_ex (\<lambda>v. v = NaN) vs then nan_sorted X vs else foldr insert_float vs [])"

definition percentile :: "externals \<Rightarrow> flt list \<Rightarrow> flt \<Rightarrow> flt res" where
  "percentile X vs p =
     (let n = length vs in
      bind_res (flt_ceil (flt_mul p (len_float n))) (\<lambda>c.
        case drop (nat (max 0 (min (c - 1) (int n - 1)))) (sorted_floats X vs) of
          [] \<Rightarrow> Inl IndexError
        | v # _ \<Rightarrow> Inr v))"

definition float_mean :: "externals \<Rightarrow> flt list \<Rightarrow> flt" where
  "float_mean X vs = flt_div (float_sum X vs) (len_float (length vs))"

text \<open>\<open>min(values)\<close> keeps the first smallest value.\<close>

definition float_min :: "flt list \<Rightarrow> flt res" where
  "float_min vs = (case vs of [] \<Rightarrow> Inl ValueError | v # vs' \<Rightarrow> Inr (foldl flt_min v vs'))"

definition retained :: "case_score list \<Rightarrow> case_score list" where
  "retained scores = filter (\<lambda>s. \<not> cs_on_retry_override s) scores"

definition with_status :: "case_status list \<Rightarrow> case_score list \<Rightarrow> case_score list" where
  "with_status ss scores = filter (\<lambda>s. cs_status s \<in> set ss) scores"

definition denominator :: "on_error \<Rightarrow> case_score list \<Rightarrow> case_score list" where
  "denominator oe scores =
     (if oe = OE_exclude then with_status [PASS, FAIL] scores
      else with_status [PASS, FAIL, ERROR] scores)"

text \<open>The numeric contribution of a case.\<close>

definition contribution :: "case_score \<Rightarrow> flt" where
  "contribution s = (case cs_score s of None \<Rightarrow> Fin 0 | Some x \<Rightarrow> x)"

definition rollup :: "externals \<Rightarrow> aggregation_method \<Rightarrow> flt \<Rightarrow> flt list \<Rightarrow> flt res" where
  "rollup X method pass_rate vs =
     (case method of
        A_pass_rate \<Rightarrow> Inr pass_rate
      | A_mean \<Rightarrow> Inr (float_mean X vs)
      | A_p50 \<Rightarrow> percentile X vs P50
      | A_p95 \<Rightarrow> percentile X vs P95
      | A_min \<Rightarrow> float_min vs
      | A_sum \<Rightarrow> Inr (float_sum X vs))"

definition aggregation_state_of :: "bool \<Rightarrow> nat \<Rightarrow> int \<Rightarrow> aggregation_state" where
  "aggregation_state_of in_progress n expected_n =
     (if in_progress then IN_PROGRESS else if int n < expected_n then PARTIAL else COMPLETE)"

definition aggregate_metric ::
  "externals \<Rightarrow> evaluation_spec \<Rightarrow> metric \<Rightarrow> case_score list \<Rightarrow> int option \<Rightarrow> bool \<Rightarrow> run_aggregate res" where
  "aggregate_metric X spec m scores expected_n in_progress =
     (if list_ex (\<lambda>s. cs_metric_id s \<noteq> mt_metric_id m) scores then Inl ValueError
      else
        let kept = retained scores;
            expected = (case expected_n of None \<Rightarrow> int (length (sp_cases spec)) | Some n \<Rightarrow> n);
            state = aggregation_state_of in_progress (length kept) expected;
            skipped_n = length (with_status [SKIPPED] kept);
            error_n = length (with_status [ERROR] kept);
            denom = denominator (ag_on_error (mt_aggregation m)) kept in
        if denom = [] then
          Inr \<lparr>ra_metric_id = mt_metric_id m, ra_value = None, ra_pass_rate = None, ra_mean = None,
               ra_n_cases = length kept, ra_n_denominator = 0, ra_error_n = error_n,
               ra_skipped_n = skipped_n, ra_state = state\<rparr>
        else
          bind_res (int_div (int (length (with_status [PASS] denom))) (int (length denom))) (\<lambda>pass_rate.
          let vs = map contribution denom in
          bind_res (rollup X (ag_method (mt_aggregation m)) pass_rate vs) (\<lambda>v.
            Inr \<lparr>ra_metric_id = mt_metric_id m, ra_value = Some v, ra_pass_rate = Some pass_rate,
                 ra_mean = Some (float_mean X vs), ra_n_cases = length kept,
                 ra_n_denominator = length denom, ra_error_n = error_n, ra_skipped_n = skipped_n,
                 ra_state = state\<rparr>)))"

section \<open>Gate\<close>

definition below_min :: "gate \<Rightarrow> flt \<Rightarrow> bool" where
  "below_min g v = (case gt_min g of None \<Rightarrow> False | Some lo \<Rightarrow> flt_lt v lo)"

definition above_max :: "gate \<Rightarrow> flt \<Rightarrow> bool" where
  "above_max g v = (case gt_max g of None \<Rightarrow> False | Some hi \<Rightarrow> flt_lt hi v)"

definition evaluate_gate :: "metric \<Rightarrow> run_aggregate \<Rightarrow> gate_result" where
  "evaluate_gate m agg =
     (case mt_gate m of
        None \<Rightarrow> \<lparr>gr_metric_id = mt_metric_id m, gr_value = ra_value agg, gr_passed = True, gr_active = False\<rparr>
      | Some g \<Rightarrow>
          (case ra_value agg of
             None \<Rightarrow> \<lparr>gr_metric_id = mt_metric_id m, gr_value = None, gr_passed = False, gr_active = True\<rparr>
           | Some v \<Rightarrow>
               \<lparr>gr_metric_id = mt_metric_id m, gr_value = Some v,
                gr_passed = (\<not> below_min g v \<and> \<not> above_max g v), gr_active = True\<rparr>))"

text \<open>One metric of \<open>gate_safe\<close>, with the registry as \<open>get\<close> leaves it.\<close>

definition gate_safe_metric :: "metric \<Rightarrow> registry option \<Rightarrow> bool \<times> registry option" where
  "gate_safe_metric m readiness =
     (if mt_provisional m then (False, readiness)
      else if mt_type m = M_judge then
        (case readiness of
           None \<Rightarrow> (False, None)
         | Some g \<Rightarrow>
             (case mt_judge_binding m of
                None \<Rightarrow> (False, Some g)
              | Some b \<Rightarrow> (let (r, g') = registry_get b g in (rn_state r = CALIBRATED, Some g'))))
      else (True, readiness))"

fun gate_safe :: "metric list \<Rightarrow> registry option \<Rightarrow> metric list \<times> registry option" where
  "gate_safe [] readiness = ([], readiness)"
| "gate_safe (m # ms) readiness =
     (let (ok, readiness') = gate_safe_metric m readiness;
          (out, readiness'') = gate_safe ms readiness' in
      (if ok then m # out else out, readiness''))"

end
