(* ===== verification/Conditions.thy ===== *)
theory Conditions
  imports Predicates
begin

text \<open>
  Scoring conditions (\<open>evaluators.py\<close>, \<open>_Condition\<close>): the closed grammar over \<open>raw_value\<close>, with its own
  lexer, parser and three-valued evaluation.

  The parser has no nesting cap; a text nested deeper than the interpreter's stack is outside the
  model. \<open>parse_cond_not\<close> carries a number of nesting levels that the number of tokens bounds, and
  the loops carry the number of tokens left; \<open>compile_condition\<close> never runs out of either
  (\<open>parse_cond_outcome\<close>).
\<close>

section \<open>Typed equality of observed values\<close>

definition observed_eq :: "pyval \<Rightarrow> pyval \<Rightarrow> bool" where
  "observed_eq a b =
     (if a = VMissing \<or> b = VMissing then False
      else if is_bool a \<or> is_bool b then is_bool a \<and> is_bool b \<and> a = b
      else if is_number a \<and> is_number b then num_eq a b
      else py_type a = py_type b \<and> py_eq a b)"

section \<open>Lexer\<close>

datatype cond_kind = CT_op string | CT_paren char | CT_literal pyval | CT_ident string | CT_eof

type_synonym cond_token = "cond_kind \<times> nat"

definition COND_ESCAPES :: "(char \<times> char) list" where
  "COND_ESCAPES =
     [(CHR 0x5C, CHR 0x5C), (CHR 0x22, CHR 0x22), (CHR 0x27, CHR 0x27), (CHR ''n'', CHR 0x0A),
      (CHR ''t'', CHR 0x09), (CHR ''r'', CHR 0x0D)]"

text \<open>The rest \<open>cs\<close> of the text from index \<open>i\<close>, after the quote \<open>q\<close> opened at \<open>start\<close>; an unknown escape
  is an ordinary character.\<close>

definition cond_escape :: "char \<Rightarrow> string \<Rightarrow> char option" where
  "cond_escape c cs = (if c = CHR 0x5C \<and> cs \<noteq> [] then map_of COND_ESCAPES (hd cs) else None)"

function cond_scan_string :: "nat \<Rightarrow> char \<Rightarrow> string \<Rightarrow> nat \<Rightarrow> (string \<times> string \<times> nat) res" where
  "cond_scan_string start q [] i = Inl (ConditionError start)"
| "cond_scan_string start q (c # cs) i =
     (if c = q then Inr ([], cs, Suc i)
      else case cond_escape c cs of
          Some ch \<Rightarrow> bind_res (cond_scan_string start q (tl cs) (i + 2)) (\<lambda>(s, r, j). Inr (ch # s, r, j))
        | None \<Rightarrow> bind_res (cond_scan_string start q cs (Suc i)) (\<lambda>(s, r, j). Inr (c # s, r, j)))"
  by pat_completeness auto
termination by (relation "measure (\<lambda>(_, _, cs, _). length cs)") auto

declare cond_scan_string.simps [simp del]

definition cond_scan_number :: "string \<Rightarrow> (pyval \<times> string) res" where
  "cond_scan_number cs =
     (let r1 = dropWhile is_digit (skip_minus cs);
          r2 = skip_fraction r1;
          raw = take (length cs - length r2) cs in
      if has_fraction r1 then bind_res (parse_float raw) (\<lambda>f. Inr (VFloat f, r2))
      else bind_res (parse_int raw) (\<lambda>n. Inr (VInt n, r2)))"

lemma cond_scan_string_shorter: "cond_scan_string start q cs i = Inr (s, r, j) \<Longrightarrow> length r < length cs"
proof (induction start q cs i arbitrary: s r j rule: cond_scan_string.induct)
  case (1 start q i)
  then show ?case by (simp add: cond_scan_string.simps)
next
  case (2 start q c cs i)
  show ?case
  proof (cases "c = q")
    case True
    then show ?thesis using 2(3) by (simp add: cond_scan_string.simps)
  next
    case False
    show ?thesis
    proof (cases "cond_escape c cs")
      case None
      then obtain s' where "cond_scan_string start q cs (Suc i) = Inr (s', r, j)"
        using 2(3) False unfolding cond_scan_string.simps(2) by (auto simp: bind_res_Inr_iff)
      then show ?thesis using 2(1) [OF False None] by fastforce
    next
      case (Some ch)
      then obtain s' where "cond_scan_string start q (tl cs) (i + 2) = Inr (s', r, j)"
        using 2(3) False unfolding cond_scan_string.simps(2) by (auto simp: bind_res_Inr_iff)
      then show ?thesis using 2(2) [OF False Some] by fastforce
    qed
  qed
qed

lemma cond_scan_number_shorter:
  assumes "cond_scan_number cs = Inr (v, r)" and "cs \<noteq> []" and "is_digit (hd cs) \<or> hd cs = CHR ''-''"
  shows "length r < length cs"
proof -
  let ?r1 = "dropWhile is_digit (skip_minus cs)"
  have "r = skip_fraction ?r1"
    using assms(1) by (auto simp: cond_scan_number_def Let_def bind_res_Inr_iff split: if_splits)
  then have "length r \<le> length ?r1" using skip_fraction_le by simp
  moreover have "length ?r1 < length cs"
    using assms(2,3) length_dropWhile_le [of is_digit "tl cs"]
    by (cases cs) (auto simp: skip_minus_def le_imp_less_Suc)
  ultimately show ?thesis by linarith
qed

function cond_tokenize :: "string \<Rightarrow> nat \<Rightarrow> cond_token list res" where
  "cond_tokenize [] i = Inr [(CT_eof, i)]"
| "cond_tokenize (c # cs) i =
     (if c \<in> set blank_chars then cond_tokenize cs (Suc i)
      else if take 2 (c # cs) \<in> set two_char_ops then
        bind_res (cond_tokenize (tl cs) (i + 2)) (\<lambda>ts. Inr ((CT_op (take 2 (c # cs)), i) # ts))
      else if c \<in> set one_char_ops then
        bind_res (cond_tokenize cs (Suc i)) (\<lambda>ts. Inr ((CT_op [c], i) # ts))
      else if c = CHR ''('' \<or> c = CHR '')'' then
        bind_res (cond_tokenize cs (Suc i)) (\<lambda>ts. Inr ((CT_paren c, i) # ts))
      else if c \<in> set quote_chars then
        bind_res (cond_scan_string i c cs (Suc i)) (\<lambda>(s, r, j).
          bind_res (cond_tokenize r j) (\<lambda>ts. Inr ((CT_literal (VStr s), i) # ts)))
      else if is_digit c \<or> c = CHR ''-'' \<and> cs \<noteq> [] \<and> is_digit (hd cs) then
        bind_res (cond_scan_number (c # cs)) (\<lambda>(v, r).
          bind_res (cond_tokenize r (i + (length (c # cs) - length r)))
            (\<lambda>ts. Inr ((CT_literal v, i) # ts)))
      else if is_alpha c \<or> c = CHR ''_'' then
        (let word = c # takeWhile is_word_char cs;
             r = dropWhile is_word_char cs in
         bind_res (cond_tokenize r (i + length word)) (\<lambda>ts. Inr ((CT_ident word, i) # ts)))
      else Inl (ConditionError i))"
  by pat_completeness auto
termination
proof (relation "measure (\<lambda>(cs, _). length cs)", goal_cases)
  case (6 c cs i x s y r j)
  then have "cond_scan_string i c cs (Suc i) = Inr (s, r, j)" by simp
  then show ?case using cond_scan_string_shorter by fastforce
next
  case (7 c cs i x v r)
  then have "cond_scan_number (c # cs) = Inr (v, r)" by simp
  then show ?case using cond_scan_number_shorter [of "c # cs" v r] 7 by auto
qed (simp_all add: length_dropWhile_le le_imp_less_Suc)

declare cond_tokenize.simps [simp del]

section \<open>Syntax tree and parser\<close>

datatype cond =
    CondLiteral pyval
  | CondRaw
  | CondCompare string cond cond
  | CondBool string "cond list"
  | CondNot cond

type_synonym 'a cond_parser = "cond_token list \<Rightarrow> ('a \<times> cond_token list) res"

definition cond_op :: "cond_token list \<Rightarrow> string \<Rightarrow> bool" where
  "cond_op ts v = (ts \<noteq> [] \<and> fst (hd ts) = CT_op v)"

text \<open>The loops of \<open>_parse_or\<close> and \<open>_parse_and\<close>: the operands after the first.\<close>

fun cond_operands :: "nat \<Rightarrow> cond cond_parser \<Rightarrow> string \<Rightarrow> cond list cond_parser" where
  "cond_operands 0 sub v ts = Inl OutOfFuel"
| "cond_operands (Suc f) sub v ts =
     (if cond_op ts v then
        bind_res (sub (tl ts)) (\<lambda>(n, r). bind_res (cond_operands f sub v r) (\<lambda>(ns, r'). Inr (n # ns, r')))
      else Inr ([], ts))"

definition cond_level :: "cond cond_parser \<Rightarrow> string \<Rightarrow> cond cond_parser" where
  "cond_level sub v ts =
     bind_res (sub ts) (\<lambda>(n, r). bind_res (cond_operands (Suc (length r)) sub v r) (\<lambda>(ns, r').
       Inr (if ns = [] then n else CondBool v (n # ns), r')))"

definition parse_cond_and :: "cond cond_parser \<Rightarrow> cond cond_parser" where
  "parse_cond_and sub = cond_level sub ''&&''"

definition parse_cond_or :: "cond cond_parser \<Rightarrow> cond cond_parser" where
  "parse_cond_or sub = cond_level (parse_cond_and sub) ''||''"

text \<open>\<open>nested\<close> is \<open>_parse_or\<close>.\<close>

definition parse_operand :: "cond cond_parser \<Rightarrow> cond cond_parser" where
  "parse_operand nested ts =
     (case ts of
        [] \<Rightarrow> Inl IndexError
      | (k, p) # rest \<Rightarrow>
          (case k of
             CT_literal v \<Rightarrow> Inr (CondLiteral v, rest)
           | CT_ident s \<Rightarrow>
               if s = ''raw_value'' then Inr (CondRaw, rest)
               else if s = ''true'' then Inr (CondLiteral (VBool True), rest)
               else if s = ''false'' then Inr (CondLiteral (VBool False), rest)
               else if s = ''null'' then Inr (CondLiteral VNull, rest)
               else Inl (ConditionError p)
           | CT_paren c \<Rightarrow>
               if c = CHR ''('' then
                 bind_res (nested rest) (\<lambda>(n, r).
                   case r of
                     [] \<Rightarrow> Inl IndexError
                   | (k', p') # r' \<Rightarrow>
                       if k' = CT_paren (CHR '')'') then Inr (n, r') else Inl (ConditionError p'))
               else Inl (ConditionError p)
           | _ \<Rightarrow> Inl (ConditionError p)))"

definition cond_comparison_of :: "cond_token list \<Rightarrow> string option" where
  "cond_comparison_of ts =
     (case ts of
        [] \<Rightarrow> None
      | (k, p) # _ \<Rightarrow> (case k of CT_op v \<Rightarrow> if v \<in> set comparison_ops then Some v else None | _ \<Rightarrow> None))"

definition parse_cond_comparison :: "cond cond_parser \<Rightarrow> cond cond_parser" where
  "parse_cond_comparison nested ts =
     bind_res (parse_operand nested ts) (\<lambda>(l, r).
       case cond_comparison_of r of
         None \<Rightarrow> Inr (l, r)
       | Some v \<Rightarrow> bind_res (parse_operand nested (tl r)) (\<lambda>(m, r'). Inr (CondCompare v l m, r')))"

fun parse_cond_not :: "nat \<Rightarrow> cond cond_parser" where
  "parse_cond_not 0 ts = Inl OutOfFuel"
| "parse_cond_not (Suc b) ts =
     (if cond_op ts ''!'' then bind_res (parse_cond_not b (tl ts)) (\<lambda>(n, r). Inr (CondNot n, r))
      else parse_cond_comparison (parse_cond_or (parse_cond_not b)) ts)"

definition parse_cond_tokens :: "cond_token list \<Rightarrow> cond res" where
  "parse_cond_tokens ts =
     bind_res (parse_cond_or (parse_cond_not (Suc (length ts))) ts) (\<lambda>(n, r).
       case r of
         [] \<Rightarrow> Inl IndexError
       | (k, p) # _ \<Rightarrow> if k = CT_eof then Inr n else Inl (ConditionError p))"

definition compile_condition :: "string \<Rightarrow> cond res" where
  "compile_condition text =
     (if blank text then Inl (ConditionError 0)
      else bind_res (cond_tokenize text 0) parse_cond_tokens)"

section \<open>Evaluation\<close>

definition cond_compare :: "string \<Rightarrow> pyval \<Rightarrow> pyval \<Rightarrow> pyval" where
  "cond_compare v a b =
     (if a = VMissing \<or> b = VMissing then
        (if v = ''=='' \<and> (a = VNull \<or> b = VNull) then VBool True else VUnknown)
      else if v = ''=='' then VBool (observed_eq a b)
      else if v = ''!='' then VBool (\<not> observed_eq a b)
      else if is_bool a \<or> is_bool b then VUnknown
      else
        (let ordered =
           (case (num_of a, num_of b) of
              (Some x, Some y) \<Rightarrow> Some (three_way flt_lt x y)
            | _ \<Rightarrow> (case (a, b) of (VStr s, VStr t) \<Rightarrow> Some (three_way str_less s t) | _ \<Rightarrow> None))
         in case ordered of
              None \<Rightarrow> VUnknown
            | Some n \<Rightarrow>
                if v = ''<'' then VBool (n < 0)
                else if v = ''<='' then VBool (n \<le> 0)
                else if v = ''>'' then VBool (n > 0)
                else VBool (n \<ge> 0)))"

definition cond_and :: "pyval \<Rightarrow> pyval \<Rightarrow> pyval" where
  "cond_and a b =
     (if a = VBool False \<or> b = VBool False then VBool False
      else if a = VUnknown \<or> b = VUnknown then VUnknown
      else VBool True)"

definition cond_or :: "pyval \<Rightarrow> pyval \<Rightarrow> pyval" where
  "cond_or a b =
     (if a = VBool True \<or> b = VBool True then VBool True
      else if a = VUnknown \<or> b = VUnknown then VUnknown
      else VBool False)"

definition cond_not :: "pyval \<Rightarrow> pyval" where
  "cond_not a = (if a = VUnknown then VUnknown else VBool (\<not> truthy a))"

fun eval_cond :: "pyval \<Rightarrow> cond \<Rightarrow> pyval" where
  "eval_cond raw (CondLiteral v) = v"
| "eval_cond raw CondRaw = raw"
| "eval_cond raw (CondCompare v l r) = cond_compare v (eval_cond raw l) (eval_cond raw r)"
| "eval_cond raw (CondBool v cs) =
     (if v = ''&&'' then foldl (\<lambda>acc c. cond_and acc (eval_cond raw c)) (VBool True) cs
      else foldl (\<lambda>acc c. cond_or acc (eval_cond raw c)) (VBool False) cs)"
| "eval_cond raw (CondNot c) = cond_not (eval_cond raw c)"

definition evaluate_condition :: "cond \<Rightarrow> pyval \<Rightarrow> bool" where
  "evaluate_condition c raw = (eval_cond raw c = VBool True)"

end
