(* ===== verification/Scoring.thy ===== *)
theory Scoring
  imports Aggregation Conditions
begin

text \<open>
  Case scoring (\<open>evaluators.py\<close>): target selection with the JSONPath subset, the mapping of a raw value to
  a score, the value evaluators with the JSON Schema subset and references, judge scoring, and the
  entry points \<open>score_attempt\<close>, \<open>evaluate_case\<close>, \<open>score_output\<close> and \<open>score_custom\<close>.

  Messages are left out. The attempt number and the two flags every helper passes on are one record,
  \<open>tag\<close>. \<open>str\<close> of an integer is total here: an integer of more than 4300 digits, which \<open>str\<close> refuses and
  no JSON parser of Python returns, is outside the model.
\<close>

section \<open>Result constructors\<close>

record tag =
  tg_attempt :: int
  tg_override :: bool
  tg_provisional :: bool

definition case_result ::
  "metric \<Rightarrow> string \<Rightarrow> tag \<Rightarrow> flt option \<Rightarrow> bool \<Rightarrow> string list \<Rightarrow> case_status \<Rightarrow> pyval \<Rightarrow> case_score" where
  "case_result m case_id t score passed evidence status raw =
     \<lparr>cs_metric_id = mt_metric_id m, cs_case_id = case_id, cs_score = score, cs_passed = passed,
      cs_evidence = evidence, cs_status = status, cs_attempt = tg_attempt t,
      cs_on_retry_override = tg_override t, cs_provisional = tg_provisional t, cs_raw_value = raw,
      cs_evaluator_version = None\<rparr>"

text \<open>\<open>CaseStatus.PASS if passed else CaseStatus.FAIL\<close> with a given score.\<close>

definition verdict_result ::
  "metric \<Rightarrow> string \<Rightarrow> tag \<Rightarrow> flt \<Rightarrow> bool \<Rightarrow> string list \<Rightarrow> pyval \<Rightarrow> case_score" where
  "verdict_result m case_id t score passed evidence raw =
     case_result m case_id t (Some score) passed evidence (if passed then PASS else FAIL) raw"

definition unit_score :: "bool \<Rightarrow> flt" where
  "unit_score passed = (if passed then Fin 1 else Fin 0)"

definition error_result :: "metric \<Rightarrow> string \<Rightarrow> tag \<Rightarrow> case_score" where
  "error_result m case_id t = case_result m case_id t None False [] ERROR VNull"

definition on_missing_result :: "metric \<Rightarrow> string \<Rightarrow> tag \<Rightarrow> case_score res" where
  "on_missing_result m case_id t =
     (case tg_on_missing (mt_target m) of
        Some OM_pass \<Rightarrow> Inr (case_result m case_id t (Some (Fin 1)) True [] PASS VNull)
      | Some OM_skip \<Rightarrow> Inr (case_result m case_id t None False [] SKIPPED VNull)
      | Some OM_fail \<Rightarrow> Inr (case_result m case_id t (Some (Fin 0)) False [] FAIL VNull)
      | None \<Rightarrow> Inl EvaluationError)"

definition validate_events :: "string \<Rightarrow> trace_event list \<Rightarrow> unit res" where
  "validate_events case_id events = ensure (list_all (\<lambda>e. ev_case_id e = case_id) events) ValueError"

definition case_from_spec :: "evaluation_spec \<Rightarrow> string \<Rightarrow> test_case res" where
  "case_from_spec spec case_id =
     (case find (\<lambda>c. tc_case_id c = case_id) (sp_cases spec) of None \<Rightarrow> Inl ValueError | Some c \<Rightarrow> Inr c)"

section \<open>Target selection\<close>

definition NON_EVENT_TARGETS :: "target_type list" where
  "NON_EVENT_TARGETS = [T_final_response, T_state_change, T_workflow_node, T_external]"

fun observed_event_type :: "target_type \<Rightarrow> event_type option" where
  "observed_event_type T_model_output = Some LLM_RESPONSE"
| "observed_event_type T_tool_invocation = Some TOOL_CALL"
| "observed_event_type T_tool_arguments = Some TOOL_CALL"
| "observed_event_type T_tool_output = Some TOOL_RESULT"
| "observed_event_type T_retrieval = Some RETRIEVAL"
| "observed_event_type _ = None"

definition select_target_events :: "target \<Rightarrow> trace_event list \<Rightarrow> trace_event list" where
  "select_target_events t events =
     (case observed_event_type (tg_type t) of
        None \<Rightarrow> []
      | Some ty \<Rightarrow>
          sort_key fallback_key
            (filter (\<lambda>e. ev_type e = ty \<and> (tg_tool t = None \<or> ev_tool e = tg_tool t)) events))"

text \<open>\<open>None\<close> is \<open>index:N\<close> out of range; \<open>selected\<close> is not empty. A validated occurrence may end in a
  newline, which \<open>int\<close> strips after \<open>index:\<close> and no other value tolerates.\<close>

definition apply_occurrence :: "string option \<Rightarrow> trace_event list \<Rightarrow> trace_event list option res" where
  "apply_occurrence occurrence selected =
     (if occurrence = None \<or> occurrence = Some ''first'' then Inr (Some [hd selected])
      else if occurrence = Some ''last'' then Inr (Some [last selected])
      else if occurrence = Some ''all'' then Inr (Some selected)
      else if take 6 (the occurrence) = ''index:'' then
        (let digits = drop 6 (the occurrence);
             body = (if digits \<noteq> [] \<and> last digits = CHR 0x0A then butlast digits else digits) in
         bind_res (parse_int body) (\<lambda>i.
           if int (length selected) \<le> i then Inr None
           else if i < - int (length selected) then Inl IndexError
           else Inr (Some [selected ! nat (if i < 0 then i + int (length selected) else i)])))
      else Inl EvaluationError)"

datatype selector_token = Every | At int | Key string

definition is_key_char :: "char \<Rightarrow> bool" where
  "is_key_char c = (is_alnum c \<or> c = CHR ''_'')"

definition strip :: "string \<Rightarrow> string" where
  "strip s = rev (dropWhile is_space (rev (dropWhile is_space s)))"

text \<open>The text between \<open>[\<close> and the first \<open>]\<close>.\<close>

definition bracket_token :: "string \<Rightarrow> selector_token res" where
  "bracket_token inner =
     (if inner = ''*'' then Inr Every
      else if inner \<noteq> [] \<and> list_all is_digit inner then bind_res (parse_int inner) (\<lambda>i. Inr (At i))
      else Inl UnsupportedSelectorError)"

function selector_tokens :: "string \<Rightarrow> selector_token list res" where
  "selector_tokens [] = Inr []"
| "selector_tokens (c # cs) =
     (if c = CHR ''.'' then
        (if cs \<noteq> [] \<and> hd cs = CHR ''.'' then Inl UnsupportedSelectorError
         else if cs \<noteq> [] \<and> hd cs = CHR ''*'' then
           bind_res (selector_tokens (tl cs)) (\<lambda>ts. Inr (Every # ts))
         else if takeWhile is_key_char cs = [] then Inl UnsupportedSelectorError
         else bind_res (selector_tokens (dropWhile is_key_char cs))
                (\<lambda>ts. Inr (Key (takeWhile is_key_char cs) # ts)))
      else if c = CHR ''['' then
        (if CHR '']'' \<notin> set cs then Inl UnsupportedSelectorError
         else bind_res (bracket_token (strip (takeWhile (\<lambda>d. d \<noteq> CHR '']'') cs))) (\<lambda>t.
           bind_res (selector_tokens (tl (dropWhile (\<lambda>d. d \<noteq> CHR '']'') cs))) (\<lambda>ts. Inr (t # ts))))
      else Inl UnsupportedSelectorError)"
  by pat_completeness auto
termination
proof (relation "measure length", goal_cases)
  case (4 c cs x)
  show ?case using length_dropWhile_le [of "\<lambda>d. d \<noteq> CHR '']''" cs] by (simp add: le_imp_less_Suc le_diff_conv)
qed (simp_all add: length_dropWhile_le le_imp_less_Suc)

declare selector_tokens.simps [simp del]

fun select_walk :: "pyval \<Rightarrow> selector_token list \<Rightarrow> pyval" where
  "select_walk v [] = v"
| "select_walk v (Every # ts) =
     (case v of
        VDict d \<Rightarrow> select_walk (VList (map snd d)) ts
      | VList xs \<Rightarrow> select_walk (VList xs) ts
      | _ \<Rightarrow> VMissing)"
| "select_walk v (At i # ts) =
     (case v of
        VList xs \<Rightarrow> if 0 \<le> i \<and> i < int (length xs) then select_walk (xs ! nat i) ts else VMissing
      | _ \<Rightarrow> VMissing)"
| "select_walk v (Key k # ts) =
     (case v of
        VDict d \<Rightarrow> (case map_of d k of None \<Rightarrow> VMissing | Some w \<Rightarrow> select_walk w ts)
      | _ \<Rightarrow> VMissing)"

definition select_from :: "pyval \<Rightarrow> string option \<Rightarrow> pyval res" where
  "select_from context selector =
     (case selector of
        None \<Rightarrow> Inr context
      | Some s \<Rightarrow>
          if s = [] \<or> hd s \<noteq> CHR ''$'' then Inl UnsupportedSelectorError
          else bind_res (selector_tokens (tl s)) (\<lambda>ts. Inr (select_walk context ts)))"

definition payload_ctx :: "trace_event \<Rightarrow> string \<Rightarrow> pyval" where
  "payload_ctx e key =
     (case payload e of
        None \<Rightarrow> VMissing
      | Some d \<Rightarrow> (case map_of d key of None \<Rightarrow> VMissing | Some v \<Rightarrow> v))"

text \<open>The context a target observes on one event.\<close>

definition observed_context :: "target_type \<Rightarrow> trace_event \<Rightarrow> pyval" where
  "observed_context t e =
     (if t = T_tool_arguments then payload_ctx e ''args''
      else if t = T_tool_output then payload_ctx e ''output''
      else if t = T_model_output then payload_ctx e ''content''
      else case payload e of None \<Rightarrow> VNull | Some d \<Rightarrow> VDict d)"

section \<open>From a raw value to a score\<close>

fun safe_raw_value :: "pyval \<Rightarrow> pyval"
  and safe_raw_values :: "pyval list \<Rightarrow> pyval list"
  and safe_raw_items :: "pydict \<Rightarrow> pydict" where
  "safe_raw_value VMissing = VNull"
| "safe_raw_value VUnknown = VNull"
| "safe_raw_value (VList xs) = VList (safe_raw_values xs)"
| "safe_raw_value (VDict d) = VDict (safe_raw_items d)"
| "safe_raw_value v = v"
| "safe_raw_values [] = []"
| "safe_raw_values (x # xs) = safe_raw_value x # safe_raw_values xs"
| "safe_raw_items [] = []"
| "safe_raw_items ((k, v) # d) = (k, safe_raw_value v) # safe_raw_items d"

definition eval_condition :: "metric \<Rightarrow> pyval \<Rightarrow> bool res" where
  "eval_condition m raw =
     (case sc_condition (mt_scoring m) of
        None \<Rightarrow> Inl EvaluationError
      | Some c \<Rightarrow>
          if c = [] then Inl EvaluationError
          else bind_res (compile_condition c) (\<lambda>n. Inr (evaluate_condition n raw)))"

definition in_score_range :: "scoring \<Rightarrow> pyval \<Rightarrow> bool res" where
  "in_score_range s raw =
     (if \<not> is_number raw then Inr False
      else case sc_range s of None \<Rightarrow> Inl TypeError | Some r \<Rightarrow> Inr (in_scale r raw))"

definition normalize_score :: "scoring \<Rightarrow> pyval \<Rightarrow> flt res" where
  "normalize_score s raw =
     (if \<not> is_number raw then Inr (Fin 0)
      else case sc_range s of
          None \<Rightarrow> Inl TypeError
        | Some (lo, hi) \<Rightarrow>
            if flt_lt lo hi then
              bind_res (to_float raw) (\<lambda>x.
                Inr (flt_min (flt_max (flt_div (flt_sub x lo) (flt_sub hi lo)) (Fin 0)) (Fin 1)))
            else Inr (unit_score (num_eq raw (VFloat lo))))"

fun index_of :: "string \<Rightarrow> string list \<Rightarrow> nat option" where
  "index_of s [] = None"
| "index_of s (c # cs) = (if c = s then Some 0 else map_option Suc (index_of s cs))"

text \<open>Position of the value among the categories, as a score; \<open>None\<close> when it is none of them.\<close>

definition category_score :: "externals \<Rightarrow> string list \<Rightarrow> pyval \<Rightarrow> flt option res" where
  "category_score X categories raw =
     (case (if raw = VMissing then None else index_of (py_str X raw) categories) of
        None \<Rightarrow> Inr None
      | Some i \<Rightarrow>
          if 1 < length categories
          then bind_res (int_div (int i) (int (length categories) - 1)) (\<lambda>q. Inr (Some q))
          else Inr (Some (Fin 1)))"

definition score_raw_list ::
  "externals \<Rightarrow> metric \<Rightarrow> string \<Rightarrow> pyval list \<Rightarrow> string list \<Rightarrow> tag \<Rightarrow> case_score res" where
  "score_raw_list X m case_id raws evidence t =
     (case sc_type (mt_scoring m) of
        S_binary \<Rightarrow>
          bind_res (all_res (eval_condition m) raws) (\<lambda>passed.
            Inr (verdict_result m case_id t (unit_score passed) passed evidence (safe_raw_value (VList raws))))
      | S_numeric \<Rightarrow>
          bind_res (traverse (normalize_score (mt_scoring m)) raws) (\<lambda>norms.
          bind_res (traverse (in_score_range (mt_scoring m)) raws) (\<lambda>in_range.
            if norms = [] then Inl ZeroDivisionError
            else Inr (verdict_result m case_id t (float_mean X norms) (list_all id in_range) evidence
                   (safe_raw_value (VList raws)))))
      | S_categorical \<Rightarrow> Inl EvaluationError)"

definition score_raw_scalar ::
  "externals \<Rightarrow> metric \<Rightarrow> string \<Rightarrow> pyval \<Rightarrow> string list \<Rightarrow> tag \<Rightarrow> case_score res" where
  "score_raw_scalar X m case_id raw evidence t =
     (case sc_type (mt_scoring m) of
        S_binary \<Rightarrow>
          bind_res (eval_condition m raw) (\<lambda>passed.
            Inr (verdict_result m case_id t (unit_score passed) passed evidence (safe_raw_value raw)))
      | S_numeric \<Rightarrow>
          bind_res (in_score_range (mt_scoring m) raw) (\<lambda>passed.
          bind_res (normalize_score (mt_scoring m) raw) (\<lambda>score.
            Inr (verdict_result m case_id t score passed evidence (safe_raw_value raw))))
      | S_categorical \<Rightarrow>
          bind_res (category_score X (case sc_categories (mt_scoring m) of None \<Rightarrow> [] | Some cs \<Rightarrow> cs) raw) (\<lambda>q.
            Inr (verdict_result m case_id t (case q of None \<Rightarrow> Fin 0 | Some x \<Rightarrow> x) (q \<noteq> None) evidence
                   (safe_raw_value raw))))"

definition score_raw_value ::
  "externals \<Rightarrow> metric \<Rightarrow> string \<Rightarrow> pyval \<Rightarrow> string list \<Rightarrow> tag \<Rightarrow> case_score res" where
  "score_raw_value X m case_id raw evidence t =
     (case raw of
        VList raws \<Rightarrow> score_raw_list X m case_id raws evidence t
      | _ \<Rightarrow> score_raw_scalar X m case_id raw evidence t)"

text \<open>\<open>_boolean_case_score\<close>, whose \<open>raw_value\<close> no caller gives.\<close>

definition boolean_case_score ::
  "externals \<Rightarrow> metric \<Rightarrow> string \<Rightarrow> bool \<Rightarrow> string list \<Rightarrow> tag \<Rightarrow> case_score res" where
  "boolean_case_score X m case_id passed evidence t =
     (if sc_type (mt_scoring m) = S_binary
      then Inr (verdict_result m case_id t (unit_score passed) passed evidence (VBool passed))
      else score_raw_value X m case_id (VFloat (unit_score passed)) evidence t)"

section \<open>Trace rules\<close>

definition score_trace_rule ::
  "externals \<Rightarrow> metric \<Rightarrow> string \<Rightarrow> trace_event list \<Rightarrow> tag \<Rightarrow> case_score res" where
  "score_trace_rule X m case_id events t =
     (case el_rule (mt_evaluator m) of
        None \<Rightarrow> Inl TraceRuleError
      | Some rule \<Rightarrow>
          bind_res (evaluate_rule X (VDict rule) events None) (\<lambda>r.
            if dict_get rule ''op'' = VStr ''count'' then
              score_raw_value X m case_id (case rr_value r of None \<Rightarrow> VNull | Some n \<Rightarrow> VInt n) (rr_matched r) t
            else if rr_result r then
              Inr (verdict_result m case_id t (Fin 1) True (rr_matched r) (VBool True))
            else
              Inr (verdict_result m case_id t (Fin 0) False (dedupe (rr_matched r @ rr_failing r))
                     (VBool False))))"

section \<open>JSON Schema\<close>

definition matches_json_type :: "pyval \<Rightarrow> pyval \<Rightarrow> bool" where
  "matches_json_type expected v =
     (if expected = VStr ''object'' then is_dict v
      else if expected = VStr ''array'' then is_list v
      else if expected = VStr ''string'' then is_str v
      else if expected = VStr ''number'' then is_number v
      else if expected = VStr ''integer'' then is_int v \<and> \<not> is_bool v
      else if expected = VStr ''boolean'' then is_bool v
      else if expected = VStr ''null'' then v = VNull
      else False)"

text \<open>Iterating a schema value: a list by element, a string by character, a dict by key; anything else
  raises.\<close>

definition iterate :: "pyval \<Rightarrow> pyval list res" where
  "iterate v =
     (case v of
        VList xs \<Rightarrow> Inr xs
      | VStr s \<Rightarrow> Inr (map (\<lambda>c. VStr [c]) s)
      | VDict d \<Rightarrow> Inr (map (VStr \<circ> fst) d)
      | _ \<Rightarrow> Inl TypeError)"

text \<open>\<open>a >= b\<close> for a number \<open>a\<close>, through \<open>le b a\<close>.\<close>

definition number_le :: "pyval \<Rightarrow> pyval \<Rightarrow> bool res" where
  "number_le a b =
     (case (num_of a, num_of b) of (Some x, Some y) \<Rightarrow> Inr (flt_le x y) | _ \<Rightarrow> Inl TypeError)"

definition number_lt :: "pyval \<Rightarrow> pyval \<Rightarrow> bool res" where
  "number_lt a b =
     (case (num_of a, num_of b) of (Some x, Some y) \<Rightarrow> Inr (flt_lt x y) | _ \<Rightarrow> Inl TypeError)"

text \<open>A keyword that is absent or null is not checked.\<close>

definition keyword :: "pydict \<Rightarrow> string \<Rightarrow> (pyval \<Rightarrow> bool res) \<Rightarrow> bool res" where
  "keyword schema k check = (if dict_get schema k = VNull then Inr True else check (dict_get schema k))"

definition both :: "bool res \<Rightarrow> bool res \<Rightarrow> bool res" where
  "both a b = bind_res a (\<lambda>ok. if ok then b else Inr False)"

definition negate :: "bool res \<Rightarrow> bool res" where
  "negate a = bind_res a (\<lambda>b. Inr (\<not> b))"

definition type_ok :: "pydict \<Rightarrow> pyval \<Rightarrow> bool" where
  "type_ok schema v =
     (case dict_get schema ''type'' of
        VNull \<Rightarrow> True
      | VList ts \<Rightarrow> list_ex (\<lambda>t. matches_json_type t v) ts
      | t \<Rightarrow> matches_json_type t v)"

definition enum_ok :: "pydict \<Rightarrow> pyval \<Rightarrow> bool res" where
  "enum_ok schema v =
     (case map_of schema ''enum'' of
        None \<Rightarrow> Inr True
      | Some es \<Rightarrow> bind_res (iterate es) (\<lambda>xs. Inr (list_ex (\<lambda>e. observed_eq e v) xs)))"

definition const_ok :: "pydict \<Rightarrow> pyval \<Rightarrow> bool" where
  "const_ok schema v = (case map_of schema ''const'' of None \<Rightarrow> True | Some c \<Rightarrow> observed_eq c v)"

definition bounds_ok :: "pydict \<Rightarrow> pyval \<Rightarrow> bool res" where
  "bounds_ok schema v =
     (if \<not> is_number v then Inr True
      else both (keyword schema ''minimum'' (\<lambda>lo. number_le lo v)) (keyword schema ''maximum'' (number_le v)))"

definition pattern_ok :: "externals \<Rightarrow> string \<Rightarrow> pyval \<Rightarrow> bool res" where
  "pattern_ok X s p =
     (case p of
        VStr pat \<Rightarrow> (case re_search X pat of None \<Rightarrow> Inl EvaluationError | Some f \<Rightarrow> Inr (f s))
      | _ \<Rightarrow> Inl TypeError)"

definition string_ok :: "externals \<Rightarrow> pydict \<Rightarrow> pyval \<Rightarrow> bool res" where
  "string_ok X schema v =
     (case v of
        VStr s \<Rightarrow>
          (let n = VInt (int (length s)) in
           both (keyword schema ''minLength'' (\<lambda>lo. negate (number_lt n lo)))
             (both (keyword schema ''maxLength'' (\<lambda>hi. negate (number_lt hi n)))
               (keyword schema ''pattern'' (pattern_ok X s))))
      | _ \<Rightarrow> Inr True)"

text \<open>\<open>key in instance\<close> for a dict: an unhashable key raises, one that is not a string is absent.\<close>

definition has_key :: "pydict \<Rightarrow> pyval \<Rightarrow> bool res" where
  "has_key d k =
     (case k of
        VStr s \<Rightarrow> Inr (map_of d s \<noteq> None)
      | VList _ \<Rightarrow> Inl TypeError
      | VDict _ \<Rightarrow> Inl TypeError
      | _ \<Rightarrow> Inr False)"

definition required_ok :: "pydict \<Rightarrow> pydict \<Rightarrow> bool res" where
  "required_ok schema d =
     (case map_of schema ''required'' of
        None \<Rightarrow> Inr True
      | Some r \<Rightarrow> bind_res (iterate r) (all_res (has_key d)))"

text \<open>\<open>(schema.get("properties") or {}).items()\<close>\<close>

definition property_schemas :: "pydict \<Rightarrow> pydict res" where
  "property_schemas schema =
     (if \<not> truthy (dict_get schema ''properties'') then Inr []
      else case dict_get schema ''properties'' of VDict ps \<Rightarrow> Inr ps | _ \<Rightarrow> Inl AttributeError)"

text \<open>The checks that do not descend into the instance.\<close>

definition flat_ok :: "externals \<Rightarrow> pydict \<Rightarrow> pyval \<Rightarrow> bool res" where
  "flat_ok X schema v =
     both (Inr (type_ok schema v))
       (both (enum_ok schema v)
         (both (Inr (const_ok schema v))
           (both (bounds_ok schema v) (string_ok X schema v))))"

text \<open>A schema is a dict, or decides at once.\<close>

definition with_schema :: "pyval \<Rightarrow> (pydict \<Rightarrow> bool res) \<Rightarrow> bool res" where
  "with_schema schema check =
     (case schema of VDict s \<Rightarrow> check s | VBool b \<Rightarrow> Inr b | _ \<Rightarrow> Inr False)"

fun json_ok :: "externals \<Rightarrow> pyval \<Rightarrow> pyval \<Rightarrow> bool res"
  and json_items_ok :: "externals \<Rightarrow> pyval \<Rightarrow> pyval list \<Rightarrow> bool res"
  and json_property_ok :: "externals \<Rightarrow> pyval \<Rightarrow> pydict \<Rightarrow> string \<Rightarrow> bool res" where
  "json_ok X schema (VDict d) =
     with_schema schema (\<lambda>s. both (flat_ok X s (VDict d)) (both (required_ok s d)
       (bind_res (property_schemas s) (all_res (\<lambda>p. json_property_ok X (snd p) d (fst p))))))"
| "json_ok X schema (VList xs) =
     with_schema schema (\<lambda>s. both (flat_ok X s (VList xs))
       (keyword s ''items'' (\<lambda>items. json_items_ok X items xs)))"
| "json_ok X schema v = with_schema schema (\<lambda>s. flat_ok X s v)"
| "json_items_ok X items [] = Inr True"
| "json_items_ok X items (x # xs) = both (json_ok X items x) (json_items_ok X items xs)"
| "json_property_ok X sub [] key = Inr True"
| "json_property_ok X sub ((k, v) # d) key =
     (if k = key then json_ok X sub v else json_property_ok X sub d key)"

definition validate_json_schema :: "externals \<Rightarrow> pydict option \<Rightarrow> pyval \<Rightarrow> bool res" where
  "validate_json_schema X schema v =
     (case schema of None \<Rightarrow> Inl EvaluationError | Some s \<Rightarrow> json_ok X (VDict s) v)"

section \<open>Evaluators over observed values\<close>

fun split_dots :: "string \<Rightarrow> string list" where
  "split_dots [] = [[]]"
| "split_dots (c # cs) =
     (if c = CHR ''.'' then [] # split_dots cs
      else case split_dots cs of [] \<Rightarrow> [[c]] | w # ws \<Rightarrow> (c # w) # ws)"

fun descend :: "pyval \<Rightarrow> string list \<Rightarrow> pyval res" where
  "descend v [] = Inr v"
| "descend v (s # ss) =
     (case v of
        VDict d \<Rightarrow> (case map_of d s of None \<Rightarrow> Inl EvaluationError | Some w \<Rightarrow> descend w ss)
      | _ \<Rightarrow> Inl EvaluationError)"

definition resolve_reference :: "metric \<Rightarrow> test_case \<Rightarrow> pyval res" where
  "resolve_reference m c =
     (case el_expected (mt_evaluator m) of
        VStr path \<Rightarrow>
          (let segments = split_dots path in
           if length segments < 3 \<or> take 2 segments \<noteq> [''test'', ''expected''] then Inl EvaluationError
           else case map_of (tc_expected c) (segments ! 2) of
               None \<Rightarrow> Inl EvaluationError
             | Some x \<Rightarrow> descend (xv_value x) (drop 3 segments))
      | _ \<Rightarrow> Inl EvaluationError)"

text \<open>\<open>values[0] if len(values) == 1 else list(values)\<close>\<close>

definition raw_of :: "pyval list \<Rightarrow> pyval" where
  "raw_of vals = (case vals of [v] \<Rightarrow> v | _ \<Rightarrow> VList vals)"

fun as_strings :: "pyval list \<Rightarrow> string list option" where
  "as_strings [] = Some []"
| "as_strings (VStr s # vs) = map_option ((#) s) (as_strings vs)"
| "as_strings (_ # vs) = None"

definition string_list :: "pyval \<Rightarrow> string list option" where
  "string_list v = (case v of VList xs \<Rightarrow> as_strings xs | _ \<Rightarrow> None)"

text \<open>The pattern of a validated regex evaluator is a text; \<open>re.compile(None)\<close> raises \<open>TypeError\<close>.\<close>

definition compiled_pattern :: "externals \<Rightarrow> evaluator \<Rightarrow> (string \<Rightarrow> bool) res" where
  "compiled_pattern X e =
     (case el_pattern e of
        None \<Rightarrow> Inl TypeError
      | Some p \<Rightarrow> (case re_search X p of None \<Rightarrow> Inl EvaluationError | Some f \<Rightarrow> Inr f))"

definition found_in :: "(string \<Rightarrow> bool) \<Rightarrow> pyval \<Rightarrow> bool" where
  "found_in f v = (case v of VStr s \<Rightarrow> f s | _ \<Rightarrow> False)"

text \<open>The expected ids of a validated recall evaluator are strings; its \<open>k\<close> is an int.\<close>

definition recall_score :: "evaluator \<Rightarrow> string list \<Rightarrow> flt res" where
  "recall_score e ranked =
     (case el_k e of
        None \<Rightarrow> Inl ValueError
      | Some k \<Rightarrow>
          (case string_list (el_expected e) of
             None \<Rightarrow> Inl TypeError
           | Some relevant \<Rightarrow> recall_at_k relevant ranked k))"

text \<open>A check under binary scoring, the raw value otherwise.\<close>

definition check_or_raw ::
  "externals \<Rightarrow> metric \<Rightarrow> string \<Rightarrow> bool res \<Rightarrow> pyval list \<Rightarrow> string list \<Rightarrow> tag \<Rightarrow> case_score res" where
  "check_or_raw X m case_id passed vals evidence t =
     (if sc_type (mt_scoring m) = S_binary
      then bind_res passed (\<lambda>b. boolean_case_score X m case_id b evidence t)
      else score_raw_value X m case_id (raw_of vals) evidence t)"

definition score_observed_value ::
  "externals \<Rightarrow> metric \<Rightarrow> string \<Rightarrow> pyval list \<Rightarrow> string list \<Rightarrow> test_case option \<Rightarrow> tag \<Rightarrow> case_score res" where
  "score_observed_value X m case_id vals evidence c t =
     (let e = mt_evaluator m in
      case el_type e of
        E_exact_match \<Rightarrow>
          check_or_raw X m case_id (Inr (list_all (\<lambda>v. observed_eq v (el_expected e)) vals)) vals evidence t
      | E_regex \<Rightarrow>
          bind_res (compiled_pattern X e) (\<lambda>f.
            check_or_raw X m case_id (Inr (list_all (found_in f) vals)) vals evidence t)
      | E_numeric \<Rightarrow> score_raw_value X m case_id (raw_of vals) evidence t
      | E_recall_at_k \<Rightarrow>
          (case string_list (raw_of vals) of
             None \<Rightarrow> Inl EvaluationError
           | Some ranked \<Rightarrow>
               bind_res (recall_score e ranked) (\<lambda>q. score_raw_value X m case_id (VFloat q) evidence t))
      | E_citation_correctness \<Rightarrow>
          (case string_list (raw_of vals) of
             None \<Rightarrow> Inl EvaluationError
           | Some citations \<Rightarrow>
               bind_res (citation_correctness citations (case el_evidence e of None \<Rightarrow> [] | Some d \<Rightarrow> d)) (\<lambda>q.
                 case q of
                   None \<Rightarrow> Inl EvaluationError
                 | Some x \<Rightarrow> score_raw_value X m case_id (VFloat x) evidence t))
      | E_reference \<Rightarrow>
          (case c of
             None \<Rightarrow> Inl EvaluationError
           | Some tc \<Rightarrow>
               bind_res (resolve_reference m tc) (\<lambda>x.
                 check_or_raw X m case_id (Inr (list_all (\<lambda>v. observed_eq v x) vals)) vals evidence t))
      | E_json_schema \<Rightarrow>
          check_or_raw X m case_id (all_res (validate_json_schema X (el_schema e)) vals) vals evidence t
      | _ \<Rightarrow> Inl EvaluationError)"

section \<open>Scalar metrics\<close>

definition run_predicate :: "externals \<Rightarrow> evaluator \<Rightarrow> trace_event list \<Rightarrow> bool res" where
  "run_predicate X e sel =
     (case el_predicate e of
        None \<Rightarrow> Inl TypeError
      | Some p \<Rightarrow>
          (case compile_predicate X p None of
             Inl x \<Rightarrow> Inl (if is_predicate_error x then EvaluationError else x)
           | Inr pred \<Rightarrow> all_res (evaluate_predicate X pred) sel))"

definition score_events ::
  "externals \<Rightarrow> evaluation_spec \<Rightarrow> string \<Rightarrow> trace_event list \<Rightarrow> metric \<Rightarrow> tag \<Rightarrow> case_score res" where
  "score_events X spec case_id sel m t =
     (if el_type (mt_evaluator m) = E_cel_predicate then
        bind_res (run_predicate X (mt_evaluator m) sel) (\<lambda>passed. boolean_case_score X m case_id passed (ids sel) t)
      else
        bind_res (traverse (\<lambda>e. select_from (observed_context (tg_type (mt_target m)) e) (tg_selector (mt_target m))) sel)
          (\<lambda>vals. bind_res (case_from_spec spec case_id) (\<lambda>c.
            score_observed_value X m case_id vals (ids sel) (Some c) t)))"

text \<open>The selection both scalar and judge metrics share: nothing selected is \<open>on_missing\<close>.\<close>

definition on_selected ::
  "trace_event list \<Rightarrow> string \<Rightarrow> metric \<Rightarrow> tag \<Rightarrow> (trace_event list \<Rightarrow> case_score res) \<Rightarrow> case_score res" where
  "on_selected events case_id m t score =
     (let selected = select_target_events (mt_target m) events in
      if selected = [] then on_missing_result m case_id t
      else bind_res (apply_occurrence (tg_occurrence (mt_target m)) selected) (\<lambda>sel.
        case sel of None \<Rightarrow> on_missing_result m case_id t | Some es \<Rightarrow> score es))"

definition score_scalar ::
  "externals \<Rightarrow> evaluation_spec \<Rightarrow> string \<Rightarrow> trace_event list \<Rightarrow> metric \<Rightarrow> tag \<Rightarrow> case_score res" where
  "score_scalar X spec case_id events m t =
     (let ty = tg_type (mt_target m) in
      if ty = T_run then Inl ValueError
      else if ty = T_trace then Inl EvaluationError
      else if ty = T_input then
        bind_res (case_from_spec spec case_id) (\<lambda>c.
        bind_res (select_from (VDict (tc_input c)) (tg_selector (mt_target m))) (\<lambda>v.
          score_observed_value X m case_id [v] [] (Some c) t))
      else if ty \<in> set NON_EVENT_TARGETS then on_missing_result m case_id t
      else on_selected events case_id m t (\<lambda>sel. score_events X spec case_id sel m t))"

section \<open>Judge metrics\<close>

definition finish_judge ::
  "externals \<Rightarrow> metric \<Rightarrow> string \<Rightarrow> test_case \<Rightarrow> judge \<Rightarrow> string list \<Rightarrow> tag \<Rightarrow> case_score res" where
  "finish_judge X m case_id c j evidence t =
     bind_res (jd_evaluate j m c evidence) (\<lambda>v.
       if (case sc_range (mt_scoring m) of None \<Rightarrow> False | Some r \<Rightarrow> \<not> in_scale r (jv_score v))
       then Inl JudgmentError
       else score_raw_value X m case_id (jv_score v) (dedupe (evidence @ jv_evidence_refs v)) t)"

definition score_judge ::
  "externals \<Rightarrow> evaluation_spec \<Rightarrow> string \<Rightarrow> trace_event list \<Rightarrow> metric \<Rightarrow> judge \<Rightarrow> tag \<Rightarrow> case_score res" where
  "score_judge X spec case_id events m j t =
     (let ty = tg_type (mt_target m) in
      if ty \<in> set NON_EVENT_TARGETS \<or> ty = T_trace \<or> ty = T_run then on_missing_result m case_id t
      else if ty = T_input then
        bind_res (case_from_spec spec case_id) (\<lambda>c. finish_judge X m case_id c j [] t)
      else on_selected events case_id m t (\<lambda>sel.
        bind_res (case_from_spec spec case_id) (\<lambda>c. finish_judge X m case_id c j (ids sel) t)))"

section \<open>Entry points\<close>

text \<open>\<open>except (EvaluationError, TraceRuleError, JudgmentError)\<close>\<close>

definition is_scoring_error :: "exn \<Rightarrow> bool" where
  "is_scoring_error e = (is_evaluation_error e \<or> e = TraceRuleError \<or> e = JudgmentError)"

definition contain_errors :: "metric \<Rightarrow> string \<Rightarrow> tag \<Rightarrow> case_score res \<Rightarrow> case_score res" where
  "contain_errors m case_id t r =
     (case r of
        Inl e \<Rightarrow> if is_scoring_error e then Inr (error_result m case_id t) else Inl e
      | Inr s \<Rightarrow> Inr s)"

definition score_by_type ::
  "externals \<Rightarrow> evaluation_spec \<Rightarrow> string \<Rightarrow> trace_event list \<Rightarrow> metric \<Rightarrow> judge option \<Rightarrow> tag \<Rightarrow> case_score res" where
  "score_by_type X spec case_id events m j t =
     (case mt_type m of
        M_trace_rule \<Rightarrow> score_trace_rule X m case_id events t
      | M_scalar \<Rightarrow> score_scalar X spec case_id events m t
      | M_judge \<Rightarrow>
          (case j of None \<Rightarrow> Inl ValueError | Some jd \<Rightarrow> score_judge X spec case_id events m jd t))"

definition attempt_tag :: "metric \<Rightarrow> trace_event list \<Rightarrow> tag" where
  "attempt_tag m events =
     (let a = (case events of [] \<Rightarrow> 0 | e # _ \<Rightarrow> ev_attempt e) in
      \<lparr>tg_attempt = a, tg_override = (0 < a), tg_provisional = mt_provisional m\<rparr>)"

definition score_attempt ::
  "externals \<Rightarrow> evaluation_spec \<Rightarrow> string \<Rightarrow> trace_event list \<Rightarrow> metric \<Rightarrow> judge option \<Rightarrow> case_score res" where
  "score_attempt X spec case_id events m j =
     bind_res (validate_events case_id events) (\<lambda>_.
     bind_res (case_from_spec spec case_id) (\<lambda>_.
     bind_res (ensure (\<not> (mt_type m = M_judge \<and> j = None)) ValueError) (\<lambda>_.
     bind_res (ensure (tg_type (mt_target m) \<noteq> T_run) ValueError) (\<lambda>_.
     bind_res (ensure (length (remdups (map ev_attempt events)) \<le> 1) ValueError) (\<lambda>_.
       let t = attempt_tag m events in
       if events = [] \<and> tg_type (mt_target m) \<noteq> T_input then on_missing_result m case_id t
       else contain_errors m case_id t (score_by_type X spec case_id events m j t))))))"

definition evaluate_case ::
  "externals \<Rightarrow> evaluation_spec \<Rightarrow> string \<Rightarrow> trace_event list \<Rightarrow> metric \<Rightarrow> judge option \<Rightarrow> case_score res" where
  "evaluate_case X spec case_id events m j =
     bind_res (validate_events case_id events) (\<lambda>_.
       score_attempt X spec case_id (filter (\<lambda>e. ev_attempt e = 0) events) m j)"

text \<open>\<open>score_output\<close>: the attempt and override arguments of the caller are \<open>t\<close>'s, but the delegations to
  \<open>score_attempt\<close> do not pass them on.\<close>

definition output_context :: "target_type \<Rightarrow> pyval \<Rightarrow> pyval" where
  "output_context ty output =
     (case output of
        VDict d \<Rightarrow>
          if ty = T_final_response
          then (case map_of d ''final_response'' of None \<Rightarrow> output | Some v \<Rightarrow> v)
          else output
      | _ \<Rightarrow> output)"

definition score_output ::
  "externals \<Rightarrow> evaluation_spec \<Rightarrow> string \<Rightarrow> pyval \<Rightarrow> metric \<Rightarrow> judge option \<Rightarrow> int \<Rightarrow> bool \<Rightarrow> case_score res" where
  "score_output X spec case_id output m j attempt on_retry_override =
     bind_res (case_from_spec spec case_id) (\<lambda>c.
       let t = \<lparr>tg_attempt = attempt, tg_override = on_retry_override, tg_provisional = mt_provisional m\<rparr>;
           outside = (tg_type (mt_target m) \<in> set NON_EVENT_TARGETS) in
       contain_errors m case_id t
         (if mt_type m = M_judge then
            (case j of
               None \<Rightarrow> Inl JudgmentError
             | Some jd \<Rightarrow>
                 if \<not> outside then score_attempt X spec case_id [] m j
                 else finish_judge X m case_id c jd [] t)
          else if mt_type m \<noteq> M_scalar \<or> \<not> outside then score_attempt X spec case_id [] m j
          else bind_res (select_from (output_context (tg_type (mt_target m)) output) (tg_selector (mt_target m)))
                 (\<lambda>v. score_observed_value X m case_id [v] [] (Some c) t)))"

section \<open>Custom evaluators\<close>

fun expected_tag_value :: "expected_tag \<Rightarrow> string" where
  "expected_tag_value User_stated = ''user_stated''"
| "expected_tag_value Inferred = ''inferred''"
| "expected_tag_value Derived_from_trace = ''derived_from_trace''"

text \<open>The evidence and reference dicts; \<open>dump\<close> is pydantic's JSON dump of an event.\<close>

definition custom_evidence :: "(trace_event \<Rightarrow> pyval) \<Rightarrow> trace_event list \<Rightarrow> pyval \<Rightarrow> pydict" where
  "custom_evidence dump selected output = [(''events'', VList (map dump selected)), (''output'', output)]"

definition custom_reference :: "test_case \<Rightarrow> pydict" where
  "custom_reference c =
     [(''case_id'', VStr (tc_case_id c)), (''input'', VDict (tc_input c)),
      (''expected'', VDict (map (\<lambda>(k, x). (k, xv_value x)) (tc_expected c))),
      (''expected_tags'', VDict (map (\<lambda>(k, x). (k, VStr (expected_tag_value (xv_tag x)))) (tc_expected c)))]"

text \<open>\<open>except (EvaluationError, TypeError, ValueError, KeyError, AttributeError)\<close>\<close>

definition is_custom_error :: "exn \<Rightarrow> bool" where
  "is_custom_error e =
     (is_evaluation_error e \<or> e \<in> {TypeError, ValueError, IllegalTransition, KeyError, AttributeError})"

definition is_plain_number :: "pyval \<Rightarrow> bool" where
  "is_plain_number v = (py_type v = TInt \<or> py_type v = TFloat)"

fun is_finite :: "flt \<Rightarrow> bool" where
  "is_finite (Fin _) = True"
| "is_finite _ = False"

text \<open>The score and the references of a result, as \<open>score_custom\<close> checks them.\<close>

definition custom_score :: "metric \<Rightarrow> pyval \<Rightarrow> (pydict \<times> pyval \<times> flt) res" where
  "custom_score m result =
     (case result of
        VDict d \<Rightarrow>
          (let raw = dict_get d ''score'' in
           if \<not> is_plain_number raw then Inl EvaluationError
           else bind_res (to_float raw) (\<lambda>f.
             if \<not> is_finite f then Inl EvaluationError
             else case sc_range (mt_scoring m) of
                 None \<Rightarrow> Inl EvaluationError
               | Some r \<Rightarrow> if in_scale r raw then Inr (d, raw, f) else Inl EvaluationError))
      | _ \<Rightarrow> Inl EvaluationError)"

definition custom_refs :: "string list \<Rightarrow> pydict \<Rightarrow> string list res" where
  "custom_refs known d =
     (case (case map_of d ''evidence_refs'' of None \<Rightarrow> Some [] | Some v \<Rightarrow> string_list v) of
        None \<Rightarrow> Inl EvaluationError
      | Some refs \<Rightarrow> if set refs \<subseteq> set known then Inr refs else Inl EvaluationError)"

definition custom_result ::
  "metric \<Rightarrow> string \<Rightarrow> tag \<Rightarrow> string list \<Rightarrow> flt \<Rightarrow> string \<Rightarrow> pyval \<Rightarrow> case_score res" where
  "custom_result m case_id t known pass_threshold version result =
     bind_res (custom_score m result) (\<lambda>(d, raw, f).
     bind_res (custom_refs known d) (\<lambda>refs.
     bind_res (normalize_score (mt_scoring m) raw) (\<lambda>score.
       Inr ((verdict_result m case_id t score (flt_le pass_threshold f) (dedupe refs) (safe_raw_value raw))
              \<lparr>cs_evaluator_version := Some version\<rparr>))))"

text \<open>The events a custom evaluator sees.\<close>

definition custom_selected :: "target \<Rightarrow> trace_event list \<Rightarrow> trace_event list" where
  "custom_selected tg events =
     (if tg_type tg \<noteq> T_trace \<and> tg_type tg \<noteq> T_input \<and> tg_type tg \<notin> set NON_EVENT_TARGETS
      then select_target_events tg events else events)"

definition custom_missing :: "target_type \<Rightarrow> trace_event list \<Rightarrow> pyval \<Rightarrow> bool" where
  "custom_missing ty selected output =
     (ty \<in> set NON_EVENT_TARGETS \<and> output = VNull
      \<or> selected = [] \<and> ty = T_trace
      \<or> selected = [] \<and> ty \<noteq> T_input \<and> output = VNull)"

definition score_custom ::
  "evaluation_spec \<Rightarrow> string \<Rightarrow> trace_event list \<Rightarrow> metric \<Rightarrow> (trace_event \<Rightarrow> pyval) \<Rightarrow>
   (pydict \<Rightarrow> pydict \<Rightarrow> pyval res) \<Rightarrow> string \<Rightarrow> flt \<Rightarrow> string list \<Rightarrow> pyval \<Rightarrow> tag \<Rightarrow> case_score res" where
  "score_custom spec case_id events m dump evaluate version pass_threshold evidence_ids output t =
     bind_res (validate_events case_id events) (\<lambda>_.
     bind_res (case_from_spec spec case_id) (\<lambda>c.
       let selected = custom_selected (mt_target m) events in
       if custom_missing (tg_type (mt_target m)) selected output then on_missing_result m case_id t
       else
         let known = (if evidence_ids \<noteq> [] then evidence_ids else ids selected) in
         case bind_res (evaluate (custom_evidence dump selected output) (custom_reference c))
                (custom_result m case_id t known pass_threshold version) of
           Inr s \<Rightarrow> Inr s
         | Inl e \<Rightarrow>
             if is_custom_error e
             then Inr ((error_result m case_id t)\<lparr>cs_evaluator_version := Some version\<rparr>)
             else Inl e))"

end
