(* ===== verification/AggregationProps.thy ===== *)
theory AggregationProps
  imports Aggregation "HOL-Library.Multiset"
begin

text \<open>
  Properties of the rollup: every case is accounted for and rates are rates, percentiles are nearest-rank
  percentiles despite the float arithmetic of their rank, the gate is its bounds, and only
  calibrated judges gate.
\<close>

section \<open>Counting\<close>

lemma length_with_status:
  "length (with_status [PASS] ss) + length (with_status [FAIL] ss) + length (with_status [ERROR] ss)
   + length (with_status [SKIPPED] ss) = length ss"
proof (induction ss)
  case (Cons s ss)
  then show ?case by (cases "cs_status s") (simp_all add: with_status_def)
qed (simp add: with_status_def)

lemma length_denominator:
  "length (denominator oe ss) + length (with_status [SKIPPED] ss)
     + (if oe = OE_exclude then length (with_status [ERROR] ss) else 0) = length ss"
proof (induction ss)
  case (Cons s ss)
  then show ?case by (cases "cs_status s") (simp_all add: denominator_def with_status_def split: if_splits)
qed (simp add: denominator_def with_status_def)

lemma passes_in_denominator: "with_status [PASS] (denominator oe ss) = with_status [PASS] ss"
  by (induction ss) (auto simp: denominator_def with_status_def)

lemma passes_le: "length (with_status [PASS] ss) \<le> length ss"
  by (simp add: with_status_def)

text \<open>What a successful rollup consists of.\<close>

lemma aggregate_Inr:
  assumes "aggregate_metric X spec m scores expected_n in_progress = Inr a"
  defines "kept \<equiv> retained scores"
  defines "denom \<equiv> denominator (ag_on_error (mt_aggregation m)) kept"
  shows "ra_n_cases a = length kept" "ra_n_denominator a = length denom"
    "ra_error_n a = length (with_status [ERROR] kept)" "ra_skipped_n a = length (with_status [SKIPPED] kept)"
    "ra_pass_rate a = None \<longleftrightarrow> denom = []" "ra_value a = None \<longleftrightarrow> denom = []"
    "ra_pass_rate a = Some r \<Longrightarrow> int_div (int (length (with_status [PASS] kept))) (int (length denom)) = Inr r"
    "ra_value a = Some v \<Longrightarrow> ra_pass_rate a = Some r \<Longrightarrow>
       rollup X (ag_method (mt_aggregation m)) r (map contribution denom) = Inr v"
    "ra_state a = aggregation_state_of in_progress (length kept)
       (case expected_n of None \<Rightarrow> int (length (sp_cases spec)) | Some n \<Rightarrow> n)"
  using assms(1) passes_in_denominator
  by (auto simp: aggregate_metric_def Let_def bind_res_Inr_iff kept_def denom_def split: if_splits)

text \<open>
  C24. Every retained case is accounted for: it passed, failed, erred or was skipped; the denominator is what is
  left without the skipped and, under exclude, the erred; pass rate and value are reported exactly
  when the denominator is not empty; and the pass rate is the quotient of the passes, between 0 and 1.
\<close>

theorem aggregate_accounts:
  assumes "aggregate_metric X spec m scores expected_n in_progress = Inr a"
  defines "passes \<equiv> length (with_status [PASS] (retained scores))"
  shows "ra_n_cases a = length (retained scores)
   \<and> passes + length (with_status [FAIL] (retained scores)) + ra_error_n a + ra_skipped_n a = ra_n_cases a
   \<and> ra_n_denominator a + ra_skipped_n a
       + (if ag_on_error (mt_aggregation m) = OE_exclude then ra_error_n a else 0) = ra_n_cases a
   \<and> (ra_pass_rate a = None \<longleftrightarrow> ra_n_denominator a = 0)
   \<and> (ra_value a = None \<longleftrightarrow> ra_n_denominator a = 0)
   \<and> (ra_n_denominator a = 0 \<or>
      (\<exists>q. ra_pass_rate a = Some (Fin q) \<and> 0 \<le> q \<and> q \<le> 1
        \<and> int_div (int passes) (int (ra_n_denominator a)) = Inr (Fin q)))"
proof -
  note a = aggregate_Inr [OF assms(1)]
  let ?kept = "retained scores"
  let ?denom = "denominator (ag_on_error (mt_aggregation m)) ?kept"
  have rate: "\<exists>q. ra_pass_rate a = Some (Fin q) \<and> 0 \<le> q \<and> q \<le> 1
      \<and> int_div (int passes) (int (ra_n_denominator a)) = Inr (Fin q)" if ne: "ra_n_denominator a \<noteq> 0"
  proof -
    obtain r where r: "ra_pass_rate a = Some r" using a(2,5) ne by fastforce
    have div: "int_div (int passes) (int (ra_n_denominator a)) = Inr r"
      using a(7) [OF r] by (simp add: a(2) passes_def)
    have "passes \<le> ra_n_denominator a"
      using passes_le [of ?denom] by (simp add: a(2) passes_def passes_in_denominator)
    then obtain q where "int_div (int passes) (int (ra_n_denominator a)) = Inr (Fin q)" "0 \<le> q" "q \<le> 1"
      using int_div_unit [of "int passes" "int (ra_n_denominator a)"] ne by auto
    then show ?thesis using r div by auto
  qed
  show ?thesis
    using a(1-6) length_with_status [of ?kept] length_denominator [of "ag_on_error (mt_aggregation m)" ?kept] rate
    by (auto simp: passes_def)
qed

section \<open>Nearest rank\<close>

lemma ulp_below_2_53:
  assumes "0 < q" and "q < of_int (2 ^ 53)"
  obtains j :: nat where "ulp q * of_int (2 ^ j) = 1"
proof -
  have "pow2 (log2_floor \<bar>q\<bar>) < pow2 53"
    using log2_floor_bounds(1) [of "\<bar>q\<bar>"] assms pow2_of_nat [of 53] by simp
  then have "max (log2_floor \<bar>q\<bar> - 52) (- 1074) \<le> 0" by simp
  then obtain j where j: "max (log2_floor \<bar>q\<bar> - 52) (- 1074) = - int j" using nonpos_int_cases by blast
  have "pow2 (- int j) * pow2 (int j) = pow2 0" by (simp flip: pow2_add)
  then have "ulp q * of_int (2 ^ j) = 1" unfolding ulp_def j pow2_of_nat by (simp add: pow2_def)
  then show thesis by (rule that)
qed

lemma round64_le_int:
  assumes "0 < q" and "q \<le> of_int k" and "k < 2 ^ 53"
  shows "round64 q \<le> of_int k"
proof -
  have "q < of_int (2 ^ 53)" using assms(2,3) of_int_less_iff [of k "2 ^ 53", where 'a = rat] by linarith
  then obtain j :: nat where j: "ulp q * of_int (2 ^ j) = 1" by (rule ulp_below_2_53 [OF assms(1)])
  have "q / ulp q = q * of_int (2 ^ j)" using j by (simp add: field_simps)
  also have "\<dots> \<le> of_int k * of_int (2 ^ j)" by (rule mult_right_mono [OF assms(2)]) simp
  finally have "round_even (q / ulp q) \<le> k * 2 ^ j" by (intro round_even_mono) simp
  then have "(of_int (round_even (q / ulp q)) :: rat) \<le> of_int (k * 2 ^ j)" by (simp only: of_int_le_iff)
  then have "of_int (round_even (q / ulp q)) * ulp q \<le> of_int (k * 2 ^ j) * ulp q"
    by (rule mult_right_mono) (simp add: less_imp_le)
  also have "\<dots> = of_int k * (ulp q * of_int (2 ^ j))" by simp
  also have "\<dots> = of_int k" unfolding j by simp
  finally show ?thesis using assms(1) by (simp add: round64_def Let_def)
qed

lemma round64_of_nat:
  assumes "n < 2 ^ 53"
  shows "round64 (of_nat n) = of_nat n"
proof (cases "n = 0")
  case False
  have "(of_nat n :: rat) < of_int (2 ^ 53)"
    using assms of_nat_less_iff [of n "2 ^ 53", where 'a = rat] by simp
  then obtain j :: nat where j: "ulp (of_nat n) * of_int (2 ^ j) = 1" using ulp_below_2_53 [of "of_nat n"] False by auto
  have "of_nat n / ulp (of_nat n) = of_int (int n * 2 ^ j)" using j by (simp add: field_simps)
  then have "round64 (of_nat n) = of_int (int n * 2 ^ j) * ulp (of_nat n)"
    using False by (simp only: round64_def Let_def round_even_of_int) simp
  also have "\<dots> = of_nat n * (ulp (of_nat n) * of_int (2 ^ j))" by simp
  finally show ?thesis using j by simp
qed (simp add: round64_def Let_def)

lemma below_float_limit: "\<bar>q\<bar> \<le> 2 ^ 53 \<Longrightarrow> rat_to_float q = Fin (round64 q)"
proof -
  assume "\<bar>q\<bar> \<le> 2 ^ 53"
  moreover have "(2 ^ 53 :: rat) < float_limit" by (simp add: float_limit_def)
  ultimately show ?thesis unfolding rat_to_float_def by auto
qed

text \<open>The rank computed in floats is the exact rank of the fraction \<open>k / 20\<close>.\<close>

lemma rank_exact:
  fixes p :: rat and k :: int
  assumes n: "0 < n" "n < 2 ^ 40" and k: "0 < k" "k \<le> 20"
    and p: "of_int k / 20 * (1 - pow2 (- 53)) \<le> p" "p \<le> of_int k / 20"
  shows "flt_ceil (flt_mul (Fin p) (len_float n)) = Inr \<lceil>of_int k / 20 * of_nat n :: rat\<rceil>"
proof -
  define N where "N = (of_nat n :: rat)"
  define y where "y = of_int k / 20 * N"
  define c where "c = \<lceil>y\<rceil>"
  have N: "1 \<le> N" "N < 2 ^ 40"
    using n of_nat_less_iff [of n "2 ^ 40", where 'a = rat] by (auto simp: N_def)
  then have N': "N < 1099511627776" by simp
  have k': "1 \<le> (of_int k :: rat)" "(of_int k :: rat) \<le> 20" using k by auto
  have eps: "pow2 (- 53) = (1 / 9007199254740992 :: rat)" by (simp add: pow2_def)
  have y0: "1 / 20 \<le> y" unfolding y_def using mult_mono [of 1 "of_int k" 1 N] k' N by simp
  have yN: "y \<le> N" unfolding y_def using mult_right_mono [of "of_int k / 20" 1 N] k' N by simp
  have xy: "p * N \<le> y" "y * (1 - pow2 (- 53)) \<le> p * N"
    using mult_right_mono [OF p(2), of N] mult_right_mono [OF p(1), of N] N by (simp_all add: y_def mult_ac)
  have "y - y / 9007199254740992 \<le> p * N" using xy(2) unfolding eps by (simp add: right_diff_distrib)
  note xy = xy(1) this
  have x0: "1 / 40 \<le> p * N" using xy(2) y0 by linarith
  have "len_float n = Fin N"
    using n N round64_of_nat [of n] by (simp add: len_float_def below_float_limit N_def)
  then have mul: "flt_mul (Fin p) (len_float n) = Fin (round64 (p * N))"
    using xy(1) yN N x0 by (simp add: below_float_limit)
  have cy: "y \<le> of_int c" "of_int c < y + 1" unfolding c_def by linarith+
  have "(of_int c :: rat) < of_int (2 ^ 53)" using cy yN N by simp
  then have "c < 2 ^ 53" by (simp only: of_int_less_iff)
  then have up: "round64 (p * N) \<le> of_int c" using x0 xy(1) cy by (intro round64_le_int) auto
  have "pow2 (- 1022) \<le> pow2 (- 6)" by simp
  also have "\<dots> \<le> \<bar>p * N\<bar>" using x0 by (simp add: pow2_def)
  finally have "\<bar>round64 (p * N) - p * N\<bar> \<le> \<bar>p * N\<bar> * pow2 (- 53)" by (rule round64_relative)
  then have near: "p * N - p * N / 9007199254740992 \<le> round64 (p * N)" using x0 unfolding eps by linarith
  have "of_int (20 * (c - 1)) < (of_int (k * int n) :: rat)"
    using cy(2) by (simp add: y_def N_def)
  then have "20 * (c - 1) + 1 \<le> k * int n" unfolding of_int_less_iff by simp
  then have "(of_int (20 * (c - 1) + 1) :: rat) \<le> of_int (k * int n)" by (simp only: of_int_le_iff)
  then have gap: "of_int c - 1 + 1 / 20 \<le> y" by (simp add: y_def N_def)
  have "of_int c - 1 < round64 (p * N)"
    using near xy gap yN N(1) N' by linarith
  then have "\<lceil>round64 (p * N)\<rceil> = c" using up by (intro ceiling_unique) auto
  then show ?thesis using mul by (simp add: c_def y_def N_def)
qed

lemma P50_rank:
  assumes "0 < n" and "n < 2 ^ 40"
  shows "flt_ceil (flt_mul P50 (len_float n)) = Inr \<lceil>1 / 2 * of_nat n :: rat\<rceil>"
proof -
  have "round64 (1 / 2) = 1 / 2" by code_simp
  then have "P50 = Fin (1 / 2)" by (simp add: P50_def below_float_limit)
  then show ?thesis using rank_exact [of n 10 "1 / 2"] assms by (simp add: pow2_def)
qed

lemma P95_rank:
  assumes "0 < n" and "n < 2 ^ 40"
  shows "flt_ceil (flt_mul P95 (len_float n)) = Inr \<lceil>19 / 20 * of_nat n :: rat\<rceil>"
proof -
  have "round64 (95 / 100) = 4278419646001971 / 4503599627370496" by code_simp
  then have "P95 = Fin (4278419646001971 / 4503599627370496)" by (simp add: P95_def below_float_limit)
  then show ?thesis using rank_exact [of n 19 "4278419646001971 / 4503599627370496"] assms by (simp add: pow2_def)
qed

text \<open>Sorting floats that hold no NaN.\<close>

definition ascending :: "flt list \<Rightarrow> bool" where
  "ascending vs = sorted_wrt flt_le vs"

lemma not_lt_le: "a \<noteq> NaN \<Longrightarrow> b \<noteq> NaN \<Longrightarrow> \<not> flt_lt a b \<Longrightarrow> flt_le b a"
  using flt_total [of a b] by (auto simp: flt_le_def flt_eq_refl)

lemma flt_le_not_lt: "flt_le a b \<Longrightarrow> \<not> flt_lt b a"
  by (cases a; cases b) (auto simp: flt_le_def)

lemma flt_le_trans: "flt_le a b \<Longrightarrow> flt_le b c \<Longrightarrow> flt_le a c"
  by (cases a; cases b; cases c) (auto simp: flt_le_def)

lemma flt_le_refl: "a \<noteq> NaN \<Longrightarrow> flt_le a a"
  by (simp add: flt_le_def flt_eq_refl)

lemma mset_insert_float [simp]: "mset (insert_float x vs) = add_mset x (mset vs)"
  by (induction vs) auto

lemma set_insert_float: "set (insert_float x vs) = insert x (set vs)"
  using mset_insert_float [of x vs] by (metis set_mset_add_mset_insert set_mset_mset)

lemma ascending_insert_float:
  "x \<noteq> NaN \<Longrightarrow> NaN \<notin> set vs \<Longrightarrow> ascending vs \<Longrightarrow> ascending (insert_float x vs)"
proof (induction vs)
  case (Cons y ys)
  show ?case
  proof (cases "flt_lt y x")
    case True
    then have "flt_le y x" by (simp add: flt_le_def)
    then show ?thesis using Cons True by (auto simp: ascending_def set_insert_float)
  next
    case False
    then have "flt_le x y" using Cons.prems by (intro not_lt_le) auto
    then show ?thesis using Cons.prems False by (auto simp: ascending_def intro: flt_le_trans)
  qed
qed (simp add: ascending_def)

lemma sorted_floats_spec:
  assumes "NaN \<notin> set vs"
  shows "mset (sorted_floats X vs) = mset vs \<and> ascending (sorted_floats X vs)"
proof -
  have eq: "sorted_floats X vs = foldr insert_float vs []"
    using assms by (auto simp: sorted_floats_def list_ex_iff)
  have m: "mset (foldr insert_float ws []) = mset ws" for ws by (induction ws) auto
  have "ascending (foldr insert_float vs [])"
    using assms
  proof (induction vs)
    case (Cons v vs)
    then have "NaN \<notin> set (foldr insert_float vs [])" using m [of vs] by (metis list.set_intros(2) set_mset_mset)
    then show ?case using Cons by (auto intro: ascending_insert_float)
  qed (simp add: ascending_def)
  then show ?thesis using m eq by simp
qed

lemma ascending_rank:
  assumes "ascending s" and "NaN \<notin> set s" and "i < length s"
  shows "i < length (filter (\<lambda>x. flt_le x (s ! i)) s)"
    and "length (filter (\<lambda>x. flt_lt x (s ! i)) s) \<le> i"
proof -
  have pre: "flt_le x (s ! i)" if "x \<in> set (take (Suc i) s)" for x
  proof -
    have "x \<in> nth s ` {0..<Suc i}" using that nth_image [of "Suc i" s] assms(3) by auto
    then obtain j where j: "j \<le> i" "x = s ! j" by (auto simp: less_Suc_eq_le)
    have "s ! i \<noteq> NaN" using assms(2,3) by (metis nth_mem)
    then show ?thesis
      using j assms(1,3) sorted_wrt_nth_less [of flt_le s j i] by (cases "j = i") (auto simp: ascending_def flt_le_refl)
  qed
  have post: "\<not> flt_lt x (s ! i)" if x: "x \<in> set (drop i s)" for x
  proof -
    obtain k where "k < length s - i" "x = s ! (i + k)" using x assms(3) by (auto simp: in_set_conv_nth)
    then obtain j where j: "i \<le> j" "j < length s" "x = s ! j" by (intro that [of "i + k"]) auto
    then show ?thesis
      using assms(1) sorted_wrt_nth_less [of flt_le s i j] flt_le_not_lt by (cases "j = i") (auto simp: ascending_def)
  qed
  have "length (filter (\<lambda>x. flt_le x (s ! i)) (take (Suc i) s)) = Suc i"
    using pre assms(3) by (simp add: filter_id_conv)
  then show "i < length (filter (\<lambda>x. flt_le x (s ! i)) s)"
    using filter_append [of "\<lambda>x. flt_le x (s ! i)" "take (Suc i) s" "drop (Suc i) s"] by simp
  have "filter (\<lambda>x. flt_lt x (s ! i)) (drop i s) = []" using post by (simp add: filter_empty_conv)
  then have "filter (\<lambda>x. flt_lt x (s ! i)) s = filter (\<lambda>x. flt_lt x (s ! i)) (take i s)"
    using filter_append [of "\<lambda>x. flt_lt x (s ! i)" "take i s" "drop i s"] by simp
  then show "length (filter (\<lambda>x. flt_lt x (s ! i)) s) \<le> i"
    using length_filter_le [of "\<lambda>x. flt_lt x (s ! i)" "take i s"] by simp
qed

lemma length_filter_mset: "mset s = mset vs \<Longrightarrow> length (filter p s) = length (filter p vs)"
  by (metis mset_filter size_mset)

lemma percentile_rank:
  fixes P :: rat
  assumes vs: "vs \<noteq> []" "NaN \<notin> set vs" and P: "0 < P" "P \<le> 1"
    and rank: "flt_ceil (flt_mul p (len_float (length vs))) = Inr \<lceil>P * of_nat (length vs)\<rceil>"
  shows "\<exists>v\<in>set vs. percentile X vs p = Inr v
    \<and> P * of_nat (length vs) \<le> of_nat (length (filter (\<lambda>x. flt_le x v) vs))
    \<and> of_nat (length (filter (\<lambda>x. flt_lt x v) vs)) < P * of_nat (length vs)"
proof -
  let ?n = "length vs" and ?s = "sorted_floats X vs"
  define c where "c = \<lceil>P * of_nat ?n\<rceil>"
  define i where "i = nat (c - 1)"
  have n: "0 < ?n" using vs by simp
  have "P * of_nat ?n \<le> of_int (int ?n)" using P mult_right_mono [of P 1 "of_nat ?n"] by simp
  then have c: "0 < c" "c \<le> int ?n" using P n by (auto simp: c_def ceiling_le_iff)
  have i: "i < ?n" "nat (max 0 (min (c - 1) (int ?n - 1))) = i" using c by (auto simp: i_def)
  note s = sorted_floats_spec [OF vs(2), of X]
  then have len: "length ?s = ?n" and nan: "NaN \<notin> set ?s"
    using vs(2) by (metis size_mset, metis set_mset_mset)
  have "percentile X vs p = Inr (?s ! i)"
    using rank i len unfolding percentile_def Let_def c_def [symmetric]
    by (simp add: Cons_nth_drop_Suc [symmetric])
  moreover have "?s ! i \<in> set vs" using i(1) len s by (metis nth_mem set_mset_mset)
  moreover have "i < length (filter (\<lambda>x. flt_le x (?s ! i)) vs)" "length (filter (\<lambda>x. flt_lt x (?s ! i)) vs) \<le> i"
    using ascending_rank [OF conjunct2 [OF s] nan, of i] i(1) len length_filter_mset [OF conjunct1 [OF s]] by auto
  moreover have "P * of_nat ?n \<le> of_nat (Suc i)" "of_nat i < P * of_nat ?n"
    using c unfolding i_def c_def by (simp_all add: of_nat_nat) linarith+
  ultimately show ?thesis
    by (intro bexI [of _ "?s ! i"])
      (auto intro: order_trans [OF _ of_nat_mono] le_less_trans [OF of_nat_mono])
qed

text \<open>
  C25. The percentiles are exact nearest-rank percentiles although their rank is computed in floats: over
  scores without NaN (and fewer than 2 ^ 40 of them) p50 and p95 are one of the scores, at least half
  (95 percent) of the scores are at most it, and fewer than that are below it.
\<close>

theorem percentile_nearest_rank:
  assumes "vs \<noteq> []" and "NaN \<notin> set vs" and "length vs < 2 ^ 40"
  shows "(\<exists>v\<in>set vs. percentile X vs P50 = Inr v
      \<and> 1 / 2 * of_nat (length vs) \<le> (of_nat (length (filter (\<lambda>x. flt_le x v) vs)) :: rat)
      \<and> of_nat (length (filter (\<lambda>x. flt_lt x v) vs)) < (1 / 2 * of_nat (length vs) :: rat))
   \<and> (\<exists>v\<in>set vs. percentile X vs P95 = Inr v
      \<and> 19 / 20 * of_nat (length vs) \<le> (of_nat (length (filter (\<lambda>x. flt_le x v) vs)) :: rat)
      \<and> of_nat (length (filter (\<lambda>x. flt_lt x v) vs)) < (19 / 20 * of_nat (length vs) :: rat))"
proof
  have n: "0 < length vs" using assms(1) by simp
  show "\<exists>v\<in>set vs. percentile X vs P50 = Inr v
      \<and> 1 / 2 * of_nat (length vs) \<le> (of_nat (length (filter (\<lambda>x. flt_le x v) vs)) :: rat)
      \<and> of_nat (length (filter (\<lambda>x. flt_lt x v) vs)) < (1 / 2 * of_nat (length vs) :: rat)"
    by (rule percentile_rank [OF assms(1,2) _ _ P50_rank [OF n assms(3)]]) simp_all
  show "\<exists>v\<in>set vs. percentile X vs P95 = Inr v
      \<and> 19 / 20 * of_nat (length vs) \<le> (of_nat (length (filter (\<lambda>x. flt_le x v) vs)) :: rat)
      \<and> of_nat (length (filter (\<lambda>x. flt_lt x v) vs)) < (19 / 20 * of_nat (length vs) :: rat)"
    by (rule percentile_rank [OF assms(1,2) _ _ P95_rank [OF n assms(3)]]) simp_all
qed

theorem percentile_nearest_rank_witness:
  "\<exists>v. percentile no_externals [Fin 1, Fin 0, Fin (1 / 2)] P50 = Inr v \<and> v \<in> {Fin 1, Fin 0, Fin (1 / 2)}"
  using percentile_nearest_rank [of "[Fin 1, Fin 0, Fin (1 / 2)]" no_externals] by auto

section \<open>The gate\<close>

lemma round64_below_one:
  assumes "q \<le> 1 - pow2 (- 53)"
  shows "round64 q < 1"
proof (cases "q < 1 / 2")
  case True
  then have "q \<le> pow2 (- 1)" by (simp add: pow2_def)
  then have "round64 q \<le> pow2 (- 1)" by (rule round64_le_pow2) simp
  then show ?thesis by (simp add: pow2_def)
next
  case False
  have half: "pow2 (- 1) = 1 / 2" by (simp add: pow2_def)
  have lt: "q < pow2 0" using assms pow2_pos [of "- 53"] by (simp add: pow2_def)
  have q: "0 < \<bar>q\<bar>" "\<bar>q\<bar> = q" using False by auto
  have "pow2 (- 1) < pow2 (log2_floor \<bar>q\<bar> + 1)" "pow2 (log2_floor \<bar>q\<bar>) < pow2 0"
    using log2_floor_bounds [OF q(1)] q(2) False lt half by linarith+
  then have "log2_floor \<bar>q\<bar> = - 1" by simp
  then have ulp: "ulp q = pow2 (- 53)" by (simp add: ulp_def)
  have inv: "pow2 (- 53) * of_int (2 ^ 53) = 1" by (simp add: pow2_def)
  have "q / ulp q = q * of_int (2 ^ 53)" unfolding ulp using inv by (simp add: field_simps)
  also have "\<dots> \<le> (1 - pow2 (- 53)) * of_int (2 ^ 53)" by (rule mult_right_mono [OF assms]) simp
  also have "\<dots> = of_int (2 ^ 53 - 1)" by (simp add: pow2_def)
  finally have "round_even (q / ulp q) \<le> 2 ^ 53 - 1" by (rule round_even_mono)
  then have "(of_int (round_even (q / ulp q)) :: rat) \<le> of_int (2 ^ 53 - 1)" by (simp only: of_int_le_iff)
  then have "of_int (round_even (q / ulp q)) * ulp q \<le> of_int (2 ^ 53 - 1) * ulp q"
    by (rule mult_right_mono) (simp add: less_imp_le)
  also have "\<dots> < 1" unfolding ulp by (simp add: pow2_def)
  finally show ?thesis using False by (simp add: round64_def Let_def)
qed

lemma int_div_one:
  assumes "0 \<le> i" "i \<le> j" "0 < j" "j < 2 ^ 53" and "int_div i j = Inr (Fin q)"
  shows "1 \<le> q \<longleftrightarrow> i = j"
proof (cases "i = j")
  case True
  then show ?thesis using int_div_self [OF assms(3)] assms(5) by simp
next
  case False
  have q: "q = round64 (of_int i / of_int j)" using assms(3,5) by (auto simp: int_div_def split: if_splits)
  have "i + 1 \<le> j" using False assms(2) by linarith
  then have "(of_int (i + 1) :: rat) \<le> of_int j" by (simp only: of_int_le_iff)
  moreover have "(of_int j :: rat) < of_int (2 ^ 53)" using assms(4) by (simp only: of_int_less_iff)
  ultimately have "of_int i / of_int j \<le> (1 - pow2 (- 53) :: rat)"
    using assms(3) by (simp add: pow2_def divide_le_eq field_simps)
  then show ?thesis using round64_below_one False q by fastforce
qed

text \<open>
  A gate that demands a pass rate of 1 passes exactly when some case counted and every counted case passed
  (below 2 ^ 53 cases): no rounding of the quotient lets a failing case through, and an empty
  denominator never passes.
\<close>

theorem full_pass_gate:
  assumes "aggregate_metric X spec m scores expected_n in_progress = Inr a"
    and "ag_method (mt_aggregation m) = A_pass_rate"
    and "mt_gate m = Some \<lparr>gt_min = Some (Fin 1), gt_max = None\<rparr>"
    and "ra_n_denominator a < 2 ^ 53"
  shows "gr_active (evaluate_gate m a) \<and>
    (gr_passed (evaluate_gate m a) \<longleftrightarrow>
       0 < ra_n_denominator a \<and> length (with_status [PASS] (retained scores)) = ra_n_denominator a)"
proof (cases "ra_n_denominator a = 0")
  case True
  then show ?thesis using aggregate_Inr(2,6) [OF assms(1)] assms(3) by (simp add: evaluate_gate_def)
next
  case False
  note a = aggregate_Inr [OF assms(1)]
  let ?denom = "denominator (ag_on_error (mt_aggregation m)) (retained scores)"
  have le: "length (with_status [PASS] (retained scores)) \<le> ra_n_denominator a"
    using passes_le [of ?denom] by (simp add: a(2) passes_in_denominator)
  obtain r v where r: "ra_pass_rate a = Some r" "ra_value a = Some v" using a(2,5,6) False by fastforce
  then have "v = r" using a(8) [OF r(2,1)] assms(2) by (simp add: rollup_def)
  moreover have div: "int_div (int (length (with_status [PASS] (retained scores)))) (int (ra_n_denominator a)) = Inr r"
    using a(7) [OF r(1)] by (simp add: a(2))
  moreover obtain q where "r = Fin q"
    using int_div_unit [of "int (length (with_status [PASS] (retained scores)))" "int (ra_n_denominator a)"] div le False
    by auto
  ultimately have "ra_value a = Some (Fin q)" and q: "1 \<le> q \<longleftrightarrow>
      int (length (with_status [PASS] (retained scores))) = int (ra_n_denominator a)"
    using r int_div_one [OF _ _ _ _ div [unfolded \<open>r = Fin q\<close>]] le False assms(4) by auto
  then show ?thesis using assms(3) False
    by (simp add: evaluate_gate_def below_min_def above_max_def not_less)
qed

definition sample_metric :: "aggregation_method \<Rightarrow> gate option \<Rightarrow> metric" where
  "sample_metric method g = \<lparr>mt_metric_id = ''m'', mt_name = ''m'', mt_type = M_scalar,
     mt_target = \<lparr>tg_type = T_tool_output, tg_tool = Some ''t'', tg_selector = None, tg_occurrence = None,
       tg_on_missing = Some OM_fail\<rparr>,
     mt_evaluator = \<lparr>el_type = E_numeric, el_expected = VInt 1, el_tolerance = Some (Fin 0), el_pattern = None,
       el_schema = None, el_predicate = None, el_language_version = None, el_rule = None,
       el_rubric_version_id = None, el_k = None, el_evidence = None\<rparr>,
     mt_scoring = \<lparr>sc_type = S_numeric, sc_range = Some (Fin 0, Fin 1), sc_categories = None,
       sc_condition = None\<rparr>,
     mt_aggregation = \<lparr>ag_method = method, ag_on_error = OE_fail\<rparr>, mt_gate = g, mt_weight = Fin 1,
     mt_judge_binding = None, mt_provisional = False\<rparr>"

definition sample_score :: "case_status \<Rightarrow> case_score" where
  "sample_score st = \<lparr>cs_metric_id = ''m'', cs_case_id = ''c'', cs_score = Some (Fin 1), cs_passed = (st = PASS),
     cs_evidence = [], cs_status = st, cs_attempt = 0, cs_on_retry_override = False, cs_provisional = False,
     cs_raw_value = VNull, cs_evaluator_version = None\<rparr>"

definition empty_spec :: evaluation_spec where
  "empty_spec = \<lparr>sp_spec_version = ''1'', sp_name = ''s'', sp_dataset_version = ''1'', sp_cases = [],
     sp_metrics = [], sp_run_tier = None\<rparr>"

theorem full_pass_gate_witness:
  "\<exists>a. aggregate_metric no_externals empty_spec
      (sample_metric A_pass_rate (Some \<lparr>gt_min = Some (Fin 1), gt_max = None\<rparr>))
      [sample_score PASS, sample_score FAIL] None False = Inr a
    \<and> \<not> gr_passed (evaluate_gate (sample_metric A_pass_rate (Some \<lparr>gt_min = Some (Fin 1), gt_max = None\<rparr>)) a)"
proof -
  let ?m = "sample_metric A_pass_rate (Some \<lparr>gt_min = Some (Fin 1), gt_max = None\<rparr>)"
  let ?ss = "[sample_score PASS, sample_score FAIL]"
  obtain r where "int_div 1 2 = Inr r" using int_div_unit [of 1 2] by auto
  then have "\<exists>a. aggregate_metric no_externals empty_spec ?m ?ss None False = Inr a"
    by (simp add: aggregate_metric_def sample_metric_def sample_score_def retained_def denominator_def
        with_status_def rollup_def Let_def)
  then obtain a where a: "aggregate_metric no_externals empty_spec ?m ?ss None False = Inr a" ..
  have n: "ra_n_denominator a = 2" "length (with_status [PASS] (retained ?ss)) = 1"
    using aggregate_Inr(2) [OF a]
    by (simp_all add: retained_def denominator_def with_status_def sample_metric_def sample_score_def)
  have "gr_passed (evaluate_gate ?m a) \<longleftrightarrow>
      0 < ra_n_denominator a \<and> length (with_status [PASS] (retained ?ss)) = ra_n_denominator a"
    by (rule full_pass_gate [OF a, THEN conjunct2]) (simp_all add: sample_metric_def n)
  then show ?thesis using a n by auto
qed

theorem aggregate_accounts_witness:
  "\<exists>a. aggregate_metric no_externals empty_spec (sample_metric A_pass_rate None)
      [sample_score PASS, sample_score ERROR, sample_score SKIPPED] None False = Inr a
    \<and> ra_n_denominator a + ra_skipped_n a = ra_n_cases a"
proof -
  let ?m = "sample_metric A_pass_rate None"
  let ?ss = "[sample_score PASS, sample_score ERROR, sample_score SKIPPED]"
  obtain r where "int_div 1 2 = Inr r" using int_div_unit [of 1 2] by auto
  then have "\<exists>a. aggregate_metric no_externals empty_spec ?m ?ss None False = Inr a"
    by (simp add: aggregate_metric_def sample_metric_def sample_score_def retained_def denominator_def
        with_status_def rollup_def Let_def)
  then obtain a where a: "aggregate_metric no_externals empty_spec ?m ?ss None False = Inr a" ..
  then show ?thesis using aggregate_accounts [OF a] by (auto simp: sample_metric_def)
qed

section \<open>Who may gate\<close>

definition calibrated_in :: "registry \<Rightarrow> judge_binding \<Rightarrow> bool" where
  "calibrated_in g b = (\<exists>r. map_of g (binding_key b) = Some r \<and> rn_state r = CALIBRATED)"

definition may_gate :: "registry \<Rightarrow> metric \<Rightarrow> bool" where
  "may_gate g m =
     (\<not> mt_provisional m \<and> (mt_type m \<noteq> M_judge \<or> (\<exists>b. mt_judge_binding m = Some b \<and> calibrated_in g b)))"

lemma registry_get_calibrated:
  "registry_get b g = (r, g') \<Longrightarrow> (rn_state r = CALIBRATED \<longleftrightarrow> calibrated_in g b) \<and> calibrated_in g' = calibrated_in g"
  by (auto simp: registry_get_def calibrated_in_def new_readiness_def update_conv' fun_eq_iff
      split: option.splits if_splits)

lemma gate_safe_metric_spec:
  "\<exists>g'. gate_safe_metric m (Some g) = (may_gate g m, Some g') \<and> calibrated_in g' = calibrated_in g"
proof (cases "mt_judge_binding m")
  case None
  then show ?thesis by (auto simp: gate_safe_metric_def may_gate_def)
next
  case (Some b)
  obtain r g' where rg: "registry_get b g = (r, g')" by (cases "registry_get b g")
  show ?thesis
    using registry_get_calibrated [OF rg] Some rg by (auto simp: gate_safe_metric_def may_gate_def)
qed

lemma gate_safe_filter: "\<exists>g'. gate_safe ms (Some g) = (filter (may_gate g) ms, Some g')"
proof (induction ms arbitrary: g)
  case (Cons m ms)
  obtain g1 where g1: "gate_safe_metric m (Some g) = (may_gate g m, Some g1)" "calibrated_in g1 = calibrated_in g"
    using gate_safe_metric_spec by blast
  moreover obtain g2 where "gate_safe ms (Some g1) = (filter (may_gate g1) ms, Some g2)" using Cons by blast
  moreover have "may_gate g1 = may_gate g" by (simp add: may_gate_def g1(2) fun_eq_iff)
  ultimately show ?case by simp
qed simp

lemma gate_safe_without_registry:
  "fst (gate_safe ms None) = filter (\<lambda>m. \<not> mt_provisional m \<and> mt_type m \<noteq> M_judge) ms"
proof (induction ms)
  case (Cons m ms)
  have "gate_safe_metric m None = (\<not> mt_provisional m \<and> mt_type m \<noteq> M_judge, None)"
    by (simp add: gate_safe_metric_def)
  then show ?case using Cons by (cases "gate_safe ms None") auto
qed simp

text \<open>
  C26. Which metrics may gate: in every registry the readiness operations reach, \<open>gate_safe\<close> keeps a metric
  exactly when it is not provisional and, for a judge metric, its binding is calibrated there, which
  means enough labels at sufficient agreement; without a registry no judge gates. Asking changes
  no verdict.
\<close>

theorem gating_judges_are_calibrated:
  assumes "registry_reachable g"
  shows "fst (gate_safe ms (Some g)) = filter (may_gate g) ms
   \<and> fst (gate_safe ms None) = filter (\<lambda>m. \<not> mt_provisional m \<and> mt_type m \<noteq> M_judge) ms
   \<and> list_all (\<lambda>m. \<not> mt_provisional m \<and> (mt_type m \<noteq> M_judge \<or>
        (\<exists>b r k. mt_judge_binding m = Some b \<and> map_of g (binding_key b) = Some r
           \<and> rn_min_labels r \<le> rn_label_count r \<and> rn_kappa r = Some k \<and> flt_le (rn_kappa_ready r) k)))
       (fst (gate_safe ms (Some g)))"
proof -
  have eq: "fst (gate_safe ms (Some g)) = filter (may_gate g) ms" using gate_safe_filter [of ms g] by auto
  have "\<exists>b r k. mt_judge_binding m = Some b \<and> map_of g (binding_key b) = Some r
      \<and> rn_min_labels r \<le> rn_label_count r \<and> rn_kappa r = Some k \<and> flt_le (rn_kappa_ready r) k"
    if m: "may_gate g m" "mt_type m = M_judge" for m
  proof -
    obtain b r where "mt_judge_binding m = Some b" "map_of g (binding_key b) = Some r" "rn_state r = CALIBRATED"
      using m by (auto simp: may_gate_def calibrated_in_def)
    moreover from this have "sufficient r"
      using registry_reachable_ok [OF assms] unfolding registry_ok_def earned_def by blast
    ultimately show ?thesis by (auto simp: sufficient_iff)
  qed
  then show ?thesis using eq gate_safe_without_registry [of ms]
    by (auto simp: list_all_iff may_gate_def)
qed

theorem gating_judges_are_calibrated_witness:
  "fst (gate_safe [sample_metric A_mean None, (sample_metric A_mean None)\<lparr>mt_type := M_judge\<rparr>] (Some []))
     = [sample_metric A_mean None]"
proof -
  let ?ms = "[sample_metric A_mean None, (sample_metric A_mean None)\<lparr>mt_type := M_judge\<rparr>]"
  have "fst (gate_safe ?ms (Some [])) = filter (may_gate []) ?ms"
    by (rule gating_judges_are_calibrated [OF registry_reachable.empty, THEN conjunct1])
  then show ?thesis by (simp add: may_gate_def sample_metric_def calibrated_in_def)
qed

end
