(* ===== verification/PredicateParsing.thy ===== *)
theory PredicateParsing
  imports PredicateEval
begin

text \<open>
  What the predicate parser guarantees: it is total (its loops never run out of fuel, and the only
  exceptions are the documented compile errors, but for the number scanner's \<open>ValueError\<close>), every
  tree it returns stays inside the whitelist, and it reads back every tree the grammar can print,
  with the grammar's precedences.
\<close>

section \<open>Trees of the closed grammar\<close>

definition wf_path :: "string list \<Rightarrow> bool" where
  "wf_path segs =
     (case segs of
        [] \<Rightarrow> False
      | s # ss \<Rightarrow> s \<in> set ALLOWED_FIELDS \<and>
          list_all (\<lambda>t. \<not> starts_underscore t \<and> t \<notin> set reserved_words) ss)"

fun literal_ok :: "pyval \<Rightarrow> bool" where
  "literal_ok VNull = True"
| "literal_ok (VBool _) = True"
| "literal_ok (VInt _) = True"
| "literal_ok (VFloat _) = True"
| "literal_ok (VStr _) = True"
| "literal_ok _ = False"

fun wf_node :: "node \<Rightarrow> bool" where
  "wf_node (LiteralNode v) = literal_ok v"
| "wf_node (PathNode segs) = wf_path segs"
| "wf_node (CompareNode v l r) = (v \<in> set comparison_ops \<and> wf_node l \<and> wf_node r)"
| "wf_node (AndNode l r) = (wf_node l \<and> wf_node r)"
| "wf_node (OrNode l r) = (wf_node l \<and> wf_node r)"
| "wf_node (NotNode c) = wf_node c"

section \<open>Every outcome of the parser\<close>

text \<open>Token lists as the lexer makes them: number tokens hold numbers, and the end token comes last.\<close>

fun token_ok :: "token \<Rightarrow> bool" where
  "token_ok (Tok_number v, _) = literal_ok v"
| "token_ok _ = True"

definition tokens_ok :: "token list \<Rightarrow> bool" where
  "tokens_ok ts = (ts \<noteq> [] \<and> fst (last ts) = Tok_eof \<and> list_all token_ok ts)"

lemma tokens_ok_tl: "tokens_ok (t # ts) \<Longrightarrow> fst t \<noteq> Tok_eof \<Longrightarrow> tokens_ok ts"
  by (cases ts) (auto simp: tokens_ok_def)

lemma tokens_ok_Cons: "tokens_ok ts \<Longrightarrow> token_ok t \<Longrightarrow> tokens_ok (t # ts)"
  by (auto simp: tokens_ok_def)

lemma tokens_ok_next_op: "tokens_ok ts \<Longrightarrow> next_op ts v \<Longrightarrow> tokens_ok (tl ts) \<and> length (tl ts) < length ts"
  by (cases ts) (auto simp: next_op_def intro: tokens_ok_tl)

text \<open>A sound parser raises only compile errors, returns a tree of the grammar and consumes tokens.\<close>

definition outcome_ok :: "token list \<Rightarrow> (node \<times> token list) res \<Rightarrow> bool" where
  "outcome_ok ts x =
     (case x of
        Inl e \<Rightarrow> is_predicate_error e
      | Inr (n, r) \<Rightarrow> wf_node n \<and> tokens_ok r \<and> length r < length ts)"

definition sound :: "node parser \<Rightarrow> bool" where
  "sound p = (\<forall>ts. tokens_ok ts \<longrightarrow> outcome_ok ts (p ts))"

lemma soundD: "sound p \<Longrightarrow> tokens_ok ts \<Longrightarrow> outcome_ok ts (p ts)"
  by (simp add: sound_def)

lemma outcome_ok_Inr [simp]:
  "outcome_ok ts (Inr (n, r)) \<longleftrightarrow> wf_node n \<and> tokens_ok r \<and> length r < length ts"
  by (simp add: outcome_ok_def)

lemma outcome_ok_Inl [simp]: "outcome_ok ts (Inl e) \<longleftrightarrow> is_predicate_error e"
  by (simp add: outcome_ok_def)

lemma outcome_ok_bind:
  assumes "outcome_ok ts x"
    and "\<And>n r. x = Inr (n, r) \<Longrightarrow> wf_node n \<Longrightarrow> tokens_ok r \<Longrightarrow> length r < length ts \<Longrightarrow>
           outcome_ok us (f (n, r))"
  shows "outcome_ok us (bind_res x f)"
  using assms by (cases x) (auto simp: outcome_ok_def)

lemma outcome_ok_weaken: "outcome_ok ts x \<Longrightarrow> length ts \<le> length us \<Longrightarrow> outcome_ok us x"
  by (auto simp: outcome_ok_def split: sum.splits)

lemma parse_segments_ok:
  "tokens_ok ts \<Longrightarrow>
   case parse_segments ts of
     Inl e \<Rightarrow> is_predicate_error e
   | Inr (ss, r) \<Rightarrow> list_all (\<lambda>t. \<not> starts_underscore t \<and> t \<notin> set reserved_words) ss
       \<and> tokens_ok r \<and> length r \<le> length ts"
proof (induction ts rule: parse_segments.induct)
  case (2 t ts)
  show ?case
  proof (cases "fst t = Tok_dot")
    case True
    then have ok: "tokens_ok ts" using "2.prems" by (auto dest: tokens_ok_tl)
    then obtain k p rest where ts: "ts = (k, p) # rest" by (cases ts) (auto simp: tokens_ok_def)
    show ?thesis
    proof (cases k)
      case (Tok_ident s)
      then have "tokens_ok rest" using ok ts by (auto dest: tokens_ok_tl)
      then show ?thesis
        using "2.IH" [of "(k, p)" rest k p s] True ts Tok_ident
        by (auto split: sum.splits)
    qed (use True ts in simp_all)
  next
    case False
    with "2.prems" show ?thesis by simp
  qed
qed (simp add: tokens_ok_def)

lemma parse_path_ok:
  assumes "tokens_ok ts" and "length ts < length us"
  shows "outcome_ok us (parse_path name ts)"
  using parse_segments_ok [OF assms(1)] assms(2)
  by (auto simp: parse_path_def outcome_ok_def wf_path_def split: sum.splits)

lemma parse_primary_sound:
  assumes "\<And>p. nested = Some p \<Longrightarrow> sound p"
  shows "sound (parse_primary nested)"
  unfolding sound_def
proof (intro allI impI)
  fix ts assume ok: "tokens_ok ts"
  then obtain k p rest where ts: "ts = (k, p) # rest" by (cases ts) (auto simp: tokens_ok_def)
  have rest: "tokens_ok rest" if "k \<noteq> Tok_eof" using ok ts that by (auto dest: tokens_ok_tl)
  have lit: "literal_ok v" if "k = Tok_number v" for v using ok ts that by (simp add: tokens_ok_def)
  show "outcome_ok ts (parse_primary nested ts)"
  proof (cases k)
    case (Tok_ident s)
    then show ?thesis using rest ts parse_path_ok [of rest ts s] by (simp add: parse_primary_def)
  next
    case Tok_lparen
    show ?thesis
    proof (cases nested)
      case (Some p_or)
      have "outcome_ok rest (p_or rest)" using assms [OF Some] rest Tok_lparen by (simp add: soundD)
      then show ?thesis
        unfolding parse_primary_def ts list.case prod.case Tok_lparen token_kind.case Some option.case
        by (rule outcome_ok_bind)
          (auto split: list.split if_splits simp: tokens_ok_def)
    qed (simp add: parse_primary_def ts Tok_lparen)
  qed (use rest lit ts in \<open>auto simp: parse_primary_def\<close>)
qed

lemma comparison_op_of_Some:
  assumes "comparison_op_of r = Some v" and "tokens_ok r"
  shows "v \<in> set comparison_ops \<and> tokens_ok (tl r) \<and> length (tl r) < length r"
  using assms
  by (cases r) (auto simp: comparison_op_of_def split: token_kind.splits if_splits intro: tokens_ok_tl)

lemma parse_comparison_sound:
  assumes "\<And>p. nested = Some p \<Longrightarrow> sound p"
  shows "sound (parse_comparison nested)"
  unfolding sound_def
proof (intro allI impI)
  fix ts assume ok: "tokens_ok ts"
  note prim = soundD [OF parse_primary_sound [OF assms]]
  show "outcome_ok ts (parse_comparison nested ts)"
    unfolding parse_comparison_def
  proof (rule outcome_ok_bind [OF prim [OF _ ok]])
    fix l r assume lr: "wf_node l" "tokens_ok r" "length r < length ts"
    show "outcome_ok ts (case (l, r) of (l, r) \<Rightarrow> (case comparison_op_of r of
        None \<Rightarrow> Inr (l, r)
      | Some v \<Rightarrow> bind_res (parse_primary nested (tl r)) (\<lambda>(m, r'). Inr (CompareNode v l m, r'))))"
    proof (cases "comparison_op_of r")
      case None
      with lr show ?thesis by simp
    next
      case (Some v)
      note op = comparison_op_of_Some [OF Some lr(2)]
      have "outcome_ok (tl r) (parse_primary nested (tl r))" using prim op by blast
      then show ?thesis
        unfolding prod.case Some option.case
        by (rule outcome_ok_bind) (use op lr in auto)
    qed
  qed simp
qed

lemma chain_sound:
  assumes "sound sub" and "\<And>a b. wf_node a \<Longrightarrow> wf_node b \<Longrightarrow> wf_node (mk a b)"
  shows "tokens_ok ts \<Longrightarrow> wf_node n \<Longrightarrow> length ts < f \<Longrightarrow> length ts < length us \<Longrightarrow>
    outcome_ok us (chain f sub v mk n ts)"
proof (induction f arbitrary: n ts)
  case (Suc f)
  show ?case
  proof (cases "next_op ts v")
    case True
    note tl = tokens_ok_next_op [OF Suc.prems(1) True]
    have "outcome_ok (tl ts) (sub (tl ts))" using assms(1) tl by (simp add: soundD)
    then show ?thesis
      unfolding chain.simps if_P [OF True]
      by (rule outcome_ok_bind) (use tl Suc assms(2) in auto)
  qed (use Suc.prems in simp)
qed simp

lemma parse_and_sound:
  assumes "sound sub"
  shows "sound (parse_and sub)"
  unfolding sound_def parse_and_def
proof (intro allI impI)
  fix ts assume "tokens_ok ts"
  then show "outcome_ok ts (bind_res (sub ts) (\<lambda>(n, r). chain (Suc (length r)) sub ''&&'' AndNode n r))"
    by (intro outcome_ok_bind [OF soundD [OF assms]])
      (auto simp del: chain.simps intro!: chain_sound [OF assms])
qed

lemma parse_or_sound:
  assumes "sound sub"
  shows "sound (parse_or sub)"
  unfolding sound_def parse_or_def
proof (intro allI impI)
  fix ts assume "tokens_ok ts"
  then show "outcome_ok ts
      (bind_res (parse_and sub ts) (\<lambda>(n, r). chain (Suc (length r)) (parse_and sub) ''||'' OrNode n r))"
    by (intro outcome_ok_bind [OF soundD [OF parse_and_sound [OF assms]]])
      (auto simp del: chain.simps intro!: chain_sound [OF parse_and_sound [OF assms]])
qed

lemma parse_not_sound: "sound (parse_not b)"
proof (induction b)
  case 0
  have "outcome_ok ts (parse_not 0 ts)" if "tokens_ok ts" for ts
    using soundD [OF parse_comparison_sound [of None] that] by simp
  then show ?case by (simp add: sound_def)
next
  case (Suc b)
  have "outcome_ok ts (parse_not (Suc b) ts)" if ok: "tokens_ok ts" for ts
  proof (cases "next_op ts ''!''")
    case True
    note tl = tokens_ok_next_op [OF ok True]
    have "outcome_ok (tl ts) (parse_not b (tl ts))" using Suc.IH tl by (simp add: soundD)
    then show ?thesis
      unfolding parse_not.simps if_P [OF True] by (rule outcome_ok_bind) (use tl in auto)
  next
    case False
    have "sound (parse_comparison (Some (parse_or (parse_not b))))"
      by (rule parse_comparison_sound) (use parse_or_sound [OF Suc.IH] in auto)
    with False ok show ?thesis by (simp add: soundD)
  qed
  then show ?case by (simp add: sound_def)
qed

lemma parse_tokens_outcome:
  assumes "tokens_ok ts"
  shows "case parse_tokens ts of Inl e \<Rightarrow> is_predicate_error e | Inr n \<Rightarrow> wf_node n"
proof -
  have "outcome_ok ts (parse_or (parse_not MAX_NESTING_DEPTH) ts)"
    using parse_or_sound [OF parse_not_sound] assms by (simp add: soundD)
  then show ?thesis
    by (auto simp: parse_tokens_def outcome_ok_def tokens_ok_def split: sum.splits list.splits if_splits)
qed

section \<open>The lexer's tokens and its exceptions\<close>

lemma parse_int_error: "parse_int raw = Inl e \<Longrightarrow> e = ValueError"
  by (auto simp: parse_int_def Let_def split: if_splits)

lemma parse_exponent_error: "parse_exponent raw = Inl e \<Longrightarrow> e = ValueError"
  by (auto simp: parse_exponent_def Let_def split: if_splits)

lemma float_exponent_error: "float_exponent raw = Inl e \<Longrightarrow> e = ValueError"
  by (auto simp: float_exponent_def split: if_splits dest: parse_exponent_error)

lemma parse_float_error: "parse_float raw = Inl e \<Longrightarrow> e = ValueError"
  by (auto simp: parse_float_def bind_res_Inl_iff split: if_splits prod.splits dest: float_exponent_error)

lemma scan_number_outcome:
  "scan_number cs = Inr (v, r) \<Longrightarrow> literal_ok v"
  "scan_number cs = Inl e \<Longrightarrow> e = ValueError"
  by (auto simp: scan_number_def Let_def bind_res_Inr_iff bind_res_Inl_iff split: if_splits
      dest: parse_int_error parse_float_error)

definition lexer_error :: "exn \<Rightarrow> bool" where
  "lexer_error e = (is_predicate_error e \<or> e = ValueError \<or> e = UnmodelledCodePoint)"

lemma scan_string_error: "scan_string start q cs i = Inl e \<Longrightarrow> lexer_error e"
proof (induction start q cs i rule: scan_string.induct)
  case (1 start q i)
  then show ?case by (auto simp: scan_string.simps lexer_error_def)
next
  case (2 start q c cs i)
  note eq = "2.prems" [unfolded scan_string.simps]
  consider "c = q" | "c \<noteq> q" "c \<noteq> CHR 0x5C" | "c \<noteq> q" "c = CHR 0x5C" "cs = []"
    | esc rest where "c \<noteq> q" "c = CHR 0x5C" "cs = esc # rest"
    by (cases cs) auto
  then show ?case
  proof cases
    case 1
    with eq show ?thesis by simp
  next
    case 2
    with eq "2.IH"(3) show ?thesis by (auto simp: bind_res_Inl_iff)
  next
    case 3
    with eq show ?thesis by (auto simp: lexer_error_def)
  next
    case (4 esc rest)
    show ?thesis
    proof (cases "esc = CHR ''u''")
      case True
      show ?thesis
        using eq "2.IH"(1) [OF 4 True refl]
        unfolding if_not_P [OF 4(1)] if_P [OF 4(2)] 4(3) list.case if_P [OF True]
        by (auto simp: Let_def bind_res_Inl_iff chr_of_def lexer_error_def split: if_splits)
    next
      case False
      show ?thesis
        using eq "2.IH"(2) [OF 4 False]
        unfolding if_not_P [OF 4(1)] if_P [OF 4(2)] 4(3) list.case if_not_P [OF False]
        by (auto simp: bind_res_Inl_iff lexer_error_def split: option.splits)
    qed
  qed
qed

definition lex_ok :: "token list res \<Rightarrow> bool" where
  "lex_ok x = (case x of Inl e \<Rightarrow> lexer_error e | Inr ts \<Rightarrow> tokens_ok ts)"

lemma lex_ok_if: "(b \<Longrightarrow> lex_ok x) \<Longrightarrow> (\<not> b \<Longrightarrow> lex_ok y) \<Longrightarrow> lex_ok (if b then x else y)"
  by simp

lemma lex_ok_cons: "lex_ok x \<Longrightarrow> token_ok t \<Longrightarrow> lex_ok (bind_res x (\<lambda>ts. Inr (t # ts)))"
  by (cases x) (auto simp: lex_ok_def intro: tokens_ok_Cons)

lemma tokenize_lex_ok: "lex_ok (tokenize cs i)"
proof (induction cs i rule: tokenize.induct)
  case (1 i)
  then show ?case by (simp add: tokenize.simps lex_ok_def tokens_ok_def)
next
  case (2 c cs i)
  show ?case
    unfolding tokenize.simps(2)
  proof (intro lex_ok_if, goal_cases)
    case 7
    show ?case
    proof (cases "scan_string i c cs (Suc i)")
      case (Inl e)
      then show ?thesis by (simp add: lex_ok_def scan_string_error)
    next
      case (Inr x)
      obtain s r j where x: "x = (s, r, j)" by (cases x)
      have "lex_ok (tokenize r j)" using "2.IH"(7) [OF 7 Inr x [symmetric] refl] by simp
      then show ?thesis using Inr x by (simp add: lex_ok_cons)
    qed
  next
    case 8
    show ?case
    proof (cases "scan_number (c # cs)")
      case (Inl e)
      then show ?thesis using scan_number_outcome(2) [OF Inl] by (simp add: lex_ok_def lexer_error_def)
    next
      case (Inr x)
      obtain v r where x: "x = (v, r)" by (cases x)
      have "literal_ok v" using scan_number_outcome(1) Inr x by blast
      moreover have "lex_ok (tokenize r (i + (length (c # cs) - length r)))"
        using "2.IH"(8) [OF 8 Inr x [symmetric]] by simp
      ultimately show ?thesis using Inr x by (simp add: lex_ok_cons)
    qed
  next
    case 9
    then show ?case using "2.IH"(9) [OF 9 refl refl] by (simp add: Let_def lex_ok_cons)
  next
    case 1
    then show ?case by (rule "2.IH"(1))
  next
    case 2
    then show ?case by (intro lex_ok_cons "2.IH"(2)) simp_all
  next
    case 3
    then show ?case by (intro lex_ok_cons "2.IH"(3)) simp_all
  next
    case 4
    then show ?case by (intro lex_ok_cons "2.IH"(4)) simp_all
  next
    case 5
    then show ?case by (intro lex_ok_cons "2.IH"(5)) simp_all
  next
    case 6
    then show ?case by (intro lex_ok_cons "2.IH"(6)) simp_all
  next
    case 10
    then show ?case by (simp add: lex_ok_def lexer_error_def)
  qed
qed

section \<open>Printing and reading back\<close>

text \<open>
  \<open>print_node p n\<close> prints \<open>n\<close> where the grammar expects \<open>or\<close> (0), \<open>and\<close> (1), \<open>not\<close> (2) or
  \<open>primary\<close> (3), with parentheses only where the precedence needs them.
\<close>

definition paren :: "bool \<Rightarrow> token_kind list \<Rightarrow> token_kind list" where
  "paren b ks = (if b then Tok_lparen # ks @ [Tok_rparen] else ks)"

fun print_literal :: "pyval \<Rightarrow> token_kind" where
  "print_literal (VBool b) = Tok_ident (if b then ''true'' else ''false'')"
| "print_literal (VStr s) = Tok_string s"
| "print_literal (VInt i) = Tok_number (VInt i)"
| "print_literal (VFloat f) = Tok_number (VFloat f)"
| "print_literal _ = Tok_ident ''null''"

definition print_path :: "string list \<Rightarrow> token_kind list" where
  "print_path segs = tl (concat (map (\<lambda>s. [Tok_dot, Tok_ident s]) segs))"

fun print_node :: "nat \<Rightarrow> node \<Rightarrow> token_kind list" where
  "print_node p (LiteralNode v) = [print_literal v]"
| "print_node p (PathNode segs) = print_path segs"
| "print_node p (CompareNode v l r) =
     paren (3 \<le> p) (print_node 3 l @ Tok_op v # print_node 3 r)"
| "print_node p (NotNode c) = paren (3 \<le> p) (Tok_op ''!'' # print_node 2 c)"
| "print_node p (AndNode l r) = paren (2 \<le> p) (print_node 1 l @ Tok_op ''&&'' # print_node 2 r)"
| "print_node p (OrNode l r) = paren (1 \<le> p) (print_node 0 l @ Tok_op ''||'' # print_node 1 r)"

text \<open>The nesting levels the parser enters while it reads the printed text back.\<close>

fun nesting :: "nat \<Rightarrow> node \<Rightarrow> nat" where
  "nesting p (LiteralNode v) = 0"
| "nesting p (PathNode segs) = 0"
| "nesting p (CompareNode v l r) = (if 3 \<le> p then 1 else 0) + max (nesting 3 l) (nesting 3 r)"
| "nesting p (NotNode c) = (if 3 \<le> p then 1 else 0) + Suc (nesting 2 c)"
| "nesting p (AndNode l r) = (if 2 \<le> p then 1 else 0) + max (nesting 1 l) (nesting 2 r)"
| "nesting p (OrNode l r) = (if 1 \<le> p then 1 else 0) + max (nesting 0 l) (nesting 1 r)"

definition toks :: "token_kind list \<Rightarrow> token list" where
  "toks ks = map (\<lambda>k. (k, 0)) ks"

lemma toks_simps [simp]:
  "toks [] = []"
  "toks (k # ks) = (k, 0) # toks ks"
  "toks (ks @ ls) = toks ks @ toks ls"
  by (simp_all add: toks_def)

text \<open>The loops without their fuel.\<close>

definition loop :: "'a parser \<Rightarrow> string \<Rightarrow> ('a \<Rightarrow> 'a \<Rightarrow> 'a) \<Rightarrow> 'a \<Rightarrow> 'a parser" where
  "loop sub v mk n ts = chain (Suc (length ts)) sub v mk n ts"

definition shrinks :: "'a parser \<Rightarrow> bool" where
  "shrinks p = (\<forall>ts n r. p ts = Inr (n, r) \<longrightarrow> length r < length ts)"

lemma shrinksD: "shrinks p \<Longrightarrow> p ts = Inr (n, r) \<Longrightarrow> length r < length ts"
  by (auto simp: shrinks_def)

lemma chain_fuel:
  assumes "shrinks sub"
  shows "length ts < f \<Longrightarrow> chain f sub v mk n ts = loop sub v mk n ts"
proof (induction f arbitrary: n ts rule: less_induct)
  case (less f)
  obtain g where f: "f = Suc g" using less.prems by (cases f) auto
  show ?case
  proof (cases "next_op ts v")
    case True
    have "(case x of (m, r) \<Rightarrow> chain g sub v mk (mk n m) r)
        = (case x of (m, r) \<Rightarrow> chain (length ts) sub v mk (mk n m) r)"
      if "sub (tl ts) = Inr x" for x
    proof -
      obtain m r where x: "x = (m, r)" by (cases x)
      have "length r < length (tl ts)" using shrinksD [OF assms] that x by blast
      moreover have "ts \<noteq> []" using True by (auto simp: next_op_def)
      ultimately have r: "length r < g" "length r < length ts" using less.prems f by auto
      have "chain g sub v mk (mk n m) r = loop sub v mk (mk n m) r"
        using less.IH r f by simp
      moreover have "chain (length ts) sub v mk (mk n m) r = loop sub v mk (mk n m) r"
        using less.IH [of "length ts"] less.prems r f by (cases "length ts < f") auto
      ultimately show ?thesis using x by simp
    qed
    then have "bind_res (sub (tl ts)) (\<lambda>(m, r). chain g sub v mk (mk n m) r)
        = bind_res (sub (tl ts)) (\<lambda>(m, r). chain (length ts) sub v mk (mk n m) r)"
      by (intro bind_res_cong) auto
    then show ?thesis using True f by (simp add: loop_def)
  qed (simp add: f loop_def)
qed

lemma loop_step:
  assumes "shrinks sub" and "sub (tl ts) = Inr (m, r)" and "next_op ts v"
  shows "loop sub v mk n ts = loop sub v mk (mk n m) r"
proof -
  have "length r < length (tl ts)" using assms(1,2) by (rule shrinksD)
  then have "length r < length ts" by simp
  then have "chain (length ts) sub v mk (mk n m) r = loop sub v mk (mk n m) r"
    by (rule chain_fuel [OF assms(1)])
  then show ?thesis using assms(2,3) by (simp add: loop_def)
qed

lemma loop_stop: "\<not> next_op ts v \<Longrightarrow> loop sub v mk n ts = Inr (n, ts)"
  by (simp add: loop_def)

text \<open>The parsers of one level shrink their input.\<close>

lemma shrinks_chain:
  "shrinks sub \<Longrightarrow> chain f sub v mk n ts = Inr (m, r) \<Longrightarrow> length r \<le> length ts"
proof (induction f arbitrary: n ts)
  case (Suc f)
  show ?case
  proof (cases "next_op ts v")
    case True
    with Suc.prems obtain k q where "sub (tl ts) = Inr (k, q)" "chain f sub v mk (mk n k) q = Inr (m, r)"
      by (auto simp: bind_res_Inr_iff)
    then have "length r \<le> length q" "length q < length (tl ts)"
      using Suc.IH Suc.prems(1) by (auto dest: shrinksD)
    then show ?thesis by simp
  qed (use Suc.prems in auto)
qed simp

lemma shrinks_and: "shrinks sub \<Longrightarrow> shrinks (parse_and sub)"
  unfolding shrinks_def [of "parse_and sub"]
proof (intro allI impI)
  fix ts n r assume sub: "shrinks sub" and "parse_and sub ts = Inr (n, r)"
  then obtain m q where q: "sub ts = Inr (m, q)" "chain (Suc (length q)) sub ''&&'' AndNode m q = Inr (n, r)"
    by (auto simp: parse_and_def bind_res_Inr_iff simp del: chain.simps)
  show "length r < length ts"
    using shrinks_chain [OF sub q(2)] shrinksD [OF sub q(1)] by (rule le_less_trans)
qed

lemma parse_segments_le: "parse_segments ts = Inr (ss, r) \<Longrightarrow> length r \<le> length ts"
proof (induction ts arbitrary: ss r rule: parse_segments.induct)
  case (2 t ts)
  show ?case
  proof (cases "fst t = Tok_dot")
    case True
    with "2.prems" obtain k p rest where ts: "ts = (k, p) # rest" by (cases ts) auto
    with True "2.prems" obtain s where k: "k = Tok_ident s" by (cases k) auto
    with True ts "2.prems" obtain ss' where "parse_segments rest = Inr (ss', r)"
      "\<not> starts_underscore s" "s \<notin> set reserved_words"
      by (auto simp: bind_res_Inr_iff split: if_splits)
    with "2.IH" [of "(k, p)" rest k p s] True ts k show ?thesis by fastforce
  qed (use "2.prems" in simp)
qed simp

lemma parse_path_le: "parse_path s ts = Inr (n, r) \<Longrightarrow> length r \<le> length ts"
  by (auto simp: parse_path_def bind_res_Inr_iff dest: parse_segments_le split: if_splits)

lemma shrinks_or: "shrinks sub \<Longrightarrow> shrinks (parse_or sub)"
  unfolding shrinks_def [of "parse_or sub"]
proof (intro allI impI)
  fix ts n r assume sub: "shrinks sub" and "parse_or sub ts = Inr (n, r)"
  then obtain m q where q: "parse_and sub ts = Inr (m, q)"
    "chain (Suc (length q)) (parse_and sub) ''||'' OrNode m q = Inr (n, r)"
    by (auto simp: parse_or_def bind_res_Inr_iff simp del: chain.simps)
  show "length r < length ts"
    using shrinks_chain [OF shrinks_and [OF sub] q(2)] shrinksD [OF shrinks_and [OF sub] q(1)]
    by (rule le_less_trans)
qed

lemma shrinks_primary:
  assumes "\<And>p. nested = Some p \<Longrightarrow> shrinks p"
  shows "shrinks (parse_primary nested)"
  unfolding shrinks_def
proof (intro allI impI)
  fix ts n r assume eq: "parse_primary nested ts = Inr (n, r)"
  then obtain k p rest where ts: "ts = (k, p) # rest"
    by (cases ts) (auto simp: parse_primary_def)
  show "length r < length ts"
  proof (cases k)
    case (Tok_ident s)
    with eq ts show ?thesis
      by (auto simp: parse_primary_def le_imp_less_Suc split: if_splits dest!: parse_path_le)
  next
    case Tok_lparen
    with eq ts obtain p_or where some: "nested = Some p_or"
      by (cases nested) (auto simp: parse_primary_def)
    with eq ts Tok_lparen obtain m q where q: "p_or rest = Inr (m, q)"
      "(case q of [] \<Rightarrow> Inl IndexError
        | (k', p') # r' \<Rightarrow> if k' = Tok_rparen then Inr (m, r') else Inl (PredicateSyntaxError p')) = Inr (n, r)"
      by (auto simp: parse_primary_def bind_res_Inr_iff)
    then have "length r < length q" by (auto split: list.splits if_splits)
    with shrinksD [OF assms [OF some] q(1)] ts show ?thesis by simp
  qed (use eq ts in \<open>auto simp: parse_primary_def\<close>)
qed

lemma shrinks_comparison:
  assumes "\<And>p. nested = Some p \<Longrightarrow> shrinks p"
  shows "shrinks (parse_comparison nested)"
  unfolding shrinks_def
proof (intro allI impI)
  fix ts n r assume "parse_comparison nested ts = Inr (n, r)"
  then obtain l q where q: "parse_primary nested ts = Inr (l, q)"
    "r = q \<or> (\<exists>m. parse_primary nested (tl q) = Inr (m, r))"
    by (auto simp: parse_comparison_def bind_res_Inr_iff split: option.splits)
  note shr = shrinksD [OF shrinks_primary [OF assms]]
  have "length q < length ts" using q(1) by (rule shr [rotated])
  moreover have "length r < length (tl q)" if "parse_primary nested (tl q) = Inr (m, r)" for m
    using that by (rule shr [rotated])
  ultimately show "length r < length ts" using q(2) by fastforce
qed

lemma shrinks_not: "shrinks (parse_not b)"
proof (induction b)
  case 0
  show ?case using shrinks_comparison [of None] by (auto simp: shrinks_def)
next
  case (Suc b)
  have "shrinks (parse_comparison (Some (parse_or (parse_not b))))"
    by (rule shrinks_comparison) (use shrinks_or [OF Suc.IH] in auto)
  moreover have "length r < length ts" if "parse_not b (tl ts) = Inr (n, r)" for n r ts
    using shrinksD [OF Suc.IH that] by simp
  ultimately show ?case by (fastforce simp: shrinks_def bind_res_Inr_iff)
qed

lemma and_as_loop:
  "sub ts = Inr (n, r) \<Longrightarrow> parse_and sub ts = loop sub ''&&'' AndNode n r"
  by (simp add: parse_and_def loop_def del: chain.simps)

lemma or_as_loop:
  "parse_and sub ts = Inr (n, r) \<Longrightarrow> parse_or sub ts = loop (parse_and sub) ''||'' OrNode n r"
  by (simp add: parse_or_def loop_def del: chain.simps)

text \<open>What may follow a printed tree at each level.\<close>

definition stops :: "string list \<Rightarrow> token list \<Rightarrow> bool" where
  "stops vs rest = ((\<forall>v\<in>set vs. \<not> next_op rest v) \<and> (rest = [] \<or> fst (hd rest) \<noteq> Tok_dot))"

lemma stops_op [simp]: "stops vs ((Tok_op v, p) # rest) \<longleftrightarrow> v \<notin> set vs"
  by (auto simp: stops_def next_op_def)

lemma stops_rparen [simp]: "stops vs ((Tok_rparen, p) # rest)"
  by (auto simp: stops_def next_op_def)

lemma stops_mono: "stops vs rest \<Longrightarrow> set ws \<subseteq> set vs \<Longrightarrow> stops ws rest"
  by (auto simp: stops_def)

lemma stops_next: "stops vs rest \<Longrightarrow> v \<in> set vs \<Longrightarrow> \<not> next_op rest v"
  by (auto simp: stops_def)

lemma stops_comparison: "stops vs rest \<Longrightarrow> set comparison_ops \<subseteq> set vs \<Longrightarrow> comparison_op_of rest = None"
  by (cases rest) (fastforce simp: stops_def next_op_def comparison_op_of_def split: token_kind.splits)+

definition reads_primary :: "nat \<Rightarrow> node \<Rightarrow> bool" where
  "reads_primary b n = (\<forall>rest. stops [] rest \<longrightarrow>
     parse_primary (case b of 0 \<Rightarrow> None | Suc b' \<Rightarrow> Some (parse_or (parse_not b')))
       (toks (print_node 3 n) @ rest) = Inr (n, rest))"

definition reads_not :: "nat \<Rightarrow> node \<Rightarrow> bool" where
  "reads_not b n = (\<forall>rest. stops comparison_ops rest \<longrightarrow>
     parse_not b (toks (print_node 2 n) @ rest) = Inr (n, rest))"

definition reads_and :: "nat \<Rightarrow> node \<Rightarrow> bool" where
  "reads_and b n = (\<forall>rest. stops comparison_ops rest \<longrightarrow>
     parse_and (parse_not b) (toks (print_node 1 n) @ rest) = loop (parse_not b) ''&&'' AndNode n rest)"

definition reads_or :: "nat \<Rightarrow> node \<Rightarrow> bool" where
  "reads_or b n = (\<forall>rest. stops (''&&'' # comparison_ops) rest \<longrightarrow>
     parse_or (parse_not b) (toks (print_node 0 n) @ rest)
       = loop (parse_and (parse_not b)) ''||'' OrNode n rest)"

lemma parse_not_unfold:
  "\<not> next_op ts ''!'' \<Longrightarrow>
   parse_not b ts = parse_comparison (case b of 0 \<Rightarrow> None | Suc b' \<Rightarrow> Some (parse_or (parse_not b'))) ts"
  by (cases b) simp_all

lemma wf_path_Cons: "wf_path segs \<Longrightarrow> \<exists>s ss. segs = s # ss"
  by (cases segs) (auto simp: wf_path_def)

lemma print_first: "wf_node n \<Longrightarrow> \<not> next_op (toks (print_node 3 n) @ rest) ''!''"
proof (cases n)
  case (LiteralNode v)
  then show ?thesis by (cases v) (auto simp: next_op_def)
next
  case (PathNode segs)
  moreover assume "wf_node n"
  ultimately show ?thesis by (auto simp: next_op_def print_path_def dest: wf_path_Cons)
qed (auto simp: next_op_def paren_def)

lemma reads_not_of_primary:
  assumes "wf_node n" and "reads_primary b n" and "print_node 2 n = print_node 3 n"
  shows "reads_not b n"
  using assms print_first [OF assms(1)]
  by (auto simp: reads_not_def reads_primary_def parse_not_unfold parse_comparison_def
      stops_comparison stops_mono)

lemma reads_and_of_not:
  "reads_not b n \<Longrightarrow> print_node 1 n = print_node 2 n \<Longrightarrow> reads_and b n"
  by (auto simp: reads_and_def reads_not_def intro!: and_as_loop)

lemma reads_or_of_and:
  assumes "reads_and b n" and "print_node 0 n = print_node 1 n"
  shows "reads_or b n"
  unfolding reads_or_def
proof (intro allI impI)
  fix rest assume st: "stops (''&&'' # comparison_ops) rest"
  then have "stops comparison_ops rest" by (rule stops_mono) auto
  with assms st have "parse_and (parse_not b) (toks (print_node 0 n) @ rest) = Inr (n, rest)"
    by (simp add: reads_and_def loop_stop stops_next)
  then show "parse_or (parse_not b) (toks (print_node 0 n) @ rest)
      = loop (parse_and (parse_not b)) ''||'' OrNode n rest"
    by (rule or_as_loop)
qed

lemma reads_primary_paren:
  assumes "reads_or b n" and "print_node 3 n = paren True (print_node 0 n)"
  shows "reads_primary (Suc b) n"
  unfolding reads_primary_def
proof (intro allI impI)
  fix rest :: "token list"
  let ?rest = "(Tok_rparen, 0) # rest"
  have "parse_or (parse_not b) (toks (print_node 0 n) @ ?rest) = Inr (n, ?rest)"
    using assms(1) by (simp add: reads_or_def loop_stop next_op_def)
  then show "parse_primary (case Suc b of 0 \<Rightarrow> None | Suc b' \<Rightarrow> Some (parse_or (parse_not b')))
      (toks (print_node 3 n) @ rest) = Inr (n, rest)"
    using assms(2) by (simp add: parse_primary_def paren_def)
qed

lemma parse_segments_print:
  "list_all (\<lambda>t. \<not> starts_underscore t \<and> t \<notin> set reserved_words) ss \<Longrightarrow> stops [] rest \<Longrightarrow>
   parse_segments (toks (concat (map (\<lambda>s. [Tok_dot, Tok_ident s]) ss)) @ rest) = Inr (ss, rest)"
proof (induction ss)
  case Nil
  then show ?case by (cases rest) (auto simp: stops_def)
qed auto

lemma reads_path: "wf_path segs \<Longrightarrow> reads_primary b (PathNode segs)"
proof -
  assume wf: "wf_path segs"
  then obtain s ss where segs: "segs = s # ss" using wf_path_Cons by blast
  with wf have s: "s \<in> set ALLOWED_FIELDS"
    and ss: "list_all (\<lambda>t. \<not> starts_underscore t \<and> t \<notin> set reserved_words) ss"
    by (auto simp: wf_path_def)
  then have "\<not> starts_underscore s" "s \<noteq> ''true''" "s \<noteq> ''false''" "s \<noteq> ''null''"
    by (auto simp: ALLOWED_FIELDS_def starts_underscore_def)
  with s parse_segments_print [OF ss] show ?thesis
    by (auto simp: reads_primary_def print_path_def segs parse_primary_def parse_path_def)
qed

lemma reads_literal: "literal_ok v \<Longrightarrow> reads_primary b (LiteralNode v)"
  by (cases v) (auto simp: reads_primary_def parse_primary_def)

lemma op_disjoint [simp]:
  "''&&'' \<notin> set comparison_ops" "''||'' \<notin> set comparison_ops" "''!'' \<notin> set comparison_ops"
  by (simp_all add: comparison_ops_def)

lemma reads_compare:
  assumes "reads_primary b l" and "reads_primary b r" and "wf_node (CompareNode v l r)"
  shows "reads_not b (CompareNode v l r)"
  unfolding reads_not_def
proof (intro allI impI)
  fix rest assume st: "stops comparison_ops rest"
  let ?nested = "case b of 0 \<Rightarrow> None | Suc b' \<Rightarrow> Some (parse_or (parse_not b'))"
  let ?more = "(Tok_op v, 0) # toks (print_node 3 r) @ rest"
  have "parse_primary ?nested (toks (print_node 3 l) @ ?more) = Inr (l, ?more)"
    using assms(1) by (simp add: reads_primary_def)
  moreover have "parse_primary ?nested (toks (print_node 3 r) @ rest) = Inr (r, rest)"
    using assms(2) stops_mono [OF st] by (simp add: reads_primary_def)
  moreover have "comparison_op_of ?more = Some v"
    using assms(3) by (simp add: comparison_op_of_def)
  ultimately show "parse_not b (toks (print_node 2 (CompareNode v l r)) @ rest)
      = Inr (CompareNode v l r, rest)"
    using print_first [of l ?more] assms(3)
    by (simp add: paren_def parse_not_unfold parse_comparison_def)
qed

lemma reads_negation:
  assumes "reads_not b c"
  shows "reads_not (Suc b) (NotNode c)"
  using assms by (simp add: reads_not_def paren_def next_op_def)

lemma reads_conjunction:
  assumes "reads_and b l" and "reads_not b r"
  shows "reads_and b (AndNode l r)"
  unfolding reads_and_def
proof (intro allI impI)
  fix rest assume st: "stops comparison_ops rest"
  let ?more = "(Tok_op ''&&'', 0) # toks (print_node 2 r) @ rest"
  have "parse_and (parse_not b) (toks (print_node 1 l) @ ?more) = loop (parse_not b) ''&&'' AndNode l ?more"
    using assms(1) by (simp add: reads_and_def)
  also have "\<dots> = loop (parse_not b) ''&&'' AndNode (AndNode l r) rest"
    by (rule loop_step [OF shrinks_not]) (use assms(2) st in \<open>auto simp: reads_not_def next_op_def\<close>)
  finally show "parse_and (parse_not b) (toks (print_node 1 (AndNode l r)) @ rest)
      = loop (parse_not b) ''&&'' AndNode (AndNode l r) rest"
    by (simp add: paren_def)
qed

lemma reads_disjunction:
  assumes "reads_or b l" and "reads_and b r"
  shows "reads_or b (OrNode l r)"
  unfolding reads_or_def
proof (intro allI impI)
  fix rest assume st: "stops (''&&'' # comparison_ops) rest"
  let ?more = "(Tok_op ''||'', 0) # toks (print_node 1 r) @ rest"
  have "stops comparison_ops rest" using st by (rule stops_mono) auto
  then have r: "parse_and (parse_not b) (toks (print_node 1 r) @ rest) = Inr (r, rest)"
    using assms(2) st by (simp add: reads_and_def loop_stop stops_next)
  have "parse_or (parse_not b) (toks (print_node 0 l) @ ?more)
      = loop (parse_and (parse_not b)) ''||'' OrNode l ?more"
    using assms(1) by (simp add: reads_or_def)
  also have "\<dots> = loop (parse_and (parse_not b)) ''||'' OrNode (OrNode l r) rest"
    by (rule loop_step [OF shrinks_and [OF shrinks_not]]) (use r in \<open>auto simp: next_op_def\<close>)
  finally show "parse_or (parse_not b) (toks (print_node 0 (OrNode l r)) @ rest)
      = loop (parse_and (parse_not b)) ''||'' OrNode (OrNode l r) rest"
    by (simp add: paren_def)
qed

definition reads_all :: "node \<Rightarrow> bool" where
  "reads_all n = (\<forall>b.
     (nesting 0 n \<le> b \<longrightarrow> reads_or b n) \<and> (nesting 1 n \<le> b \<longrightarrow> reads_and b n) \<and>
     (nesting 2 n \<le> b \<longrightarrow> reads_not b n) \<and> (nesting 3 n \<le> b \<longrightarrow> reads_primary b n))"

lemmas climb = reads_not_of_primary reads_and_of_not reads_or_of_and

lemma reads_all_atom:
  assumes "wf_node n" and "\<And>b. reads_primary b n" and "\<And>p q. print_node p n = print_node q n"
  shows "reads_all n"
proof -
  have "reads_not b n" for b by (rule reads_not_of_primary) (use assms in auto)
  moreover from this have "reads_and b n" for b by (rule reads_and_of_not) (rule assms(3))
  moreover from this have "reads_or b n" for b by (rule reads_or_of_and) (rule assms(3))
  ultimately show ?thesis using assms(2) by (simp add: reads_all_def)
qed

lemma reads_all_compound:
  assumes paren: "print_node 3 n = paren True (print_node 0 n)" and nest: "nesting 3 n = Suc (nesting 0 n)"
    and "\<And>b. nesting 0 n \<le> b \<Longrightarrow> reads_or b n"
    and "\<And>b. nesting 1 n \<le> b \<Longrightarrow> reads_primary b n \<or> nesting 1 n = nesting 0 n \<Longrightarrow> reads_and b n"
    and "\<And>b. nesting 2 n \<le> b \<Longrightarrow> reads_primary b n \<or> nesting 2 n = nesting 0 n \<Longrightarrow> reads_not b n"
    and mono: "nesting 1 n = nesting 0 n \<or> nesting 1 n = nesting 3 n"
      "nesting 2 n = nesting 0 n \<or> nesting 2 n = nesting 3 n"
  shows "reads_all n"
proof -
  have prim: "reads_primary b n" if "nesting 3 n \<le> b" for b
  proof -
    have "\<exists>b'. b = Suc b' \<and> nesting 0 n \<le> b'" using that nest by (cases b) auto
    then obtain b' where "b = Suc b'" "nesting 0 n \<le> b'" by blast
    then show ?thesis using reads_primary_paren [OF assms(3) paren] by blast
  qed
  then show ?thesis using assms(3-7) by (auto simp: reads_all_def)
qed

lemma reads_all_node: "wf_node n \<Longrightarrow> reads_all n"
proof (induction n)
  case (LiteralNode v)
  then show ?case by (intro reads_all_atom) (auto intro: reads_literal)
next
  case (PathNode segs)
  then show ?case by (intro reads_all_atom) (auto intro: reads_path)
next
  case (CompareNode v l r)
  then have IH: "reads_all l" "reads_all r" by auto
  have "reads_not b (CompareNode v l r)" if "nesting 2 (CompareNode v l r) \<le> b" for b
    by (rule reads_compare) (use IH that CompareNode.prems in \<open>auto simp: reads_all_def\<close>)
  moreover from this have "reads_and b (CompareNode v l r)" if "nesting 2 (CompareNode v l r) \<le> b" for b
    by (rule reads_and_of_not) (use that in \<open>auto simp: paren_def\<close>)
  moreover from this have "reads_or b (CompareNode v l r)" if "nesting 2 (CompareNode v l r) \<le> b" for b
    by (rule reads_or_of_and) (use that in \<open>auto simp: paren_def\<close>)
  ultimately show ?case by (intro reads_all_compound) (auto simp: paren_def)
next
  case (NotNode c)
  then have IH: "reads_all c" by auto
  have nn: "reads_not b (NotNode c)" if "nesting 2 (NotNode c) \<le> b" for b
  proof -
    have "\<exists>b'. b = Suc b' \<and> nesting 2 c \<le> b'" using that by (cases b) auto
    then obtain b' where "b = Suc b'" "nesting 2 c \<le> b'" by blast
    then show ?thesis using IH by (auto simp: reads_all_def intro: reads_negation)
  qed
  then have na: "reads_and b (NotNode c)" if "nesting 2 (NotNode c) \<le> b" for b
    by (rule reads_and_of_not) (use that in \<open>auto simp: paren_def\<close>)
  then have "reads_or b (NotNode c)" if "nesting 2 (NotNode c) \<le> b" for b
    by (rule reads_or_of_and) (use that in \<open>auto simp: paren_def\<close>)
  with nn na show ?case by (intro reads_all_compound) (auto simp: paren_def)
next
  case (AndNode l r)
  then have IH: "reads_all l" "reads_all r" by auto
  have a: "reads_and b (AndNode l r)" if "nesting 1 (AndNode l r) \<le> b" for b
    by (rule reads_conjunction) (use IH that in \<open>auto simp: reads_all_def\<close>)
  then have "reads_or b (AndNode l r)" if "nesting 1 (AndNode l r) \<le> b" for b
    by (rule reads_or_of_and) (use that in \<open>auto simp: paren_def\<close>)
  with a show ?case using AndNode.prems
    by (intro reads_all_compound) (auto simp: paren_def intro!: reads_not_of_primary)
next
  case (OrNode l r)
  then have IH: "reads_all l" "reads_all r" by auto
  have o: "reads_or b (OrNode l r)" if "nesting 0 (OrNode l r) \<le> b" for b
    by (rule reads_disjunction) (use IH that in \<open>auto simp: reads_all_def\<close>)
  with OrNode.prems show ?case
    by (intro reads_all_compound)
      (auto simp: paren_def intro!: reads_not_of_primary reads_and_of_not)
qed

end
