(* ===== verification/PredicateProps.thy ===== *)
theory PredicateProps
  imports PredicateParsing
begin

text \<open>
  Properties of the scalar predicate language: compilation is total and closed over the whitelist,
  reading back printed trees, three-valued evaluation as Kleene's logic, monotonicity in the fields
  an event has, totality of evaluation over aware timestamps, and the places where comparisons of
  indeterminate values let a missing field pass.
\<close>

section \<open>Compilation\<close>

lemma compile_prototype_iff:
  "compile_predicate X text None = Inr (Prototype n) \<longleftrightarrow>
     \<not> blank text \<and> (\<exists>ts. tokenize text 0 = Inr ts \<and> parse_tokens ts = Inr n)"
  by (auto simp: compile_predicate_def bind_res_Inr_iff Let_def split: if_splits)

lemma compile_wf_node:
  assumes "compile_predicate X text None = Inr (Prototype n)"
  shows "wf_node n"
proof -
  obtain ts where "tokenize text 0 = Inr ts" and n: "parse_tokens ts = Inr n"
    using assms by (auto simp: compile_prototype_iff)
  then have "tokens_ok ts" using tokenize_lex_ok [of "text" 0] by (simp add: lex_ok_def)
  then show ?thesis using parse_tokens_outcome [of ts] n by simp
qed

lemma compile_is_prototype:
  "compile_predicate X text None = Inr p \<Longrightarrow> \<exists>n. p = Prototype n"
  by (auto simp: compile_predicate_def bind_res_Inr_iff Let_def split: if_splits)

lemma compile_errors:
  assumes "compile_predicate X text version = Inl e"
  shows "is_predicate_error e \<or> e = ValueError \<or> e = UnmodelledCodePoint"
proof (cases "tokenize text 0")
  case (Inl x)
  then show ?thesis using tokenize_lex_ok [of "text" 0] assms
    by (auto simp: compile_predicate_def compile_cel_def Let_def lex_ok_def lexer_error_def
        split: if_splits sum.splits cel_outcome.splits)
next
  case (Inr ts)
  then have "tokens_ok ts" using tokenize_lex_ok [of "text" 0] by (simp add: lex_ok_def)
  then show ?thesis using parse_tokens_outcome [of ts] Inr assms
    by (cases "parse_tokens ts") (auto simp: compile_predicate_def compile_cel_def Let_def
        split: if_splits sum.splits cel_outcome.splits)
qed

text \<open>
  C18. Closed language: whatever text compiles, every path of the tree starts at a whitelisted
  envelope field, no later segment starts with an underscore or is a reserved word, and every
  operator is a comparison of the grammar.
\<close>

theorem compiled_tree_is_closed:
  assumes "compile_predicate X text None = Inr (Prototype n)"
  shows "wf_node n"
  using assms by (rule compile_wf_node)

theorem compiled_tree_is_closed_witness:
  "wf_node (CompareNode ''=='' (PathNode [''payload'', ''x'']) (LiteralNode (VInt 1)))"
proof (rule compiled_tree_is_closed)
  show "compile_predicate no_externals ''payload.x == 1'' None =
    Inr (Prototype (CompareNode ''=='' (PathNode [''payload'', ''x'']) (LiteralNode (VInt 1))))"
    by code_simp
qed

text \<open>
  C21. Total compilation: the parser's loops never run out of fuel and no internal exception escapes;
  a text either compiles or is refused with a compile error, the \<open>ValueError\<close> of a malformed
  number, or an escape outside the modelled characters.
\<close>

theorem compile_outcomes:
  "case compile_predicate X text None of
     Inr p \<Rightarrow> \<exists>n. p = Prototype n
   | Inl e \<Rightarrow> is_predicate_error e \<or> e = ValueError \<or> e = UnmodelledCodePoint"
  using compile_errors compile_is_prototype by (simp split: sum.split)

text \<open>
  A malformed number leaves the documented error protocol: the text is refused with a bare
  \<open>ValueError\<close>, which no \<open>except PredicateError\<close> clause catches.
\<close>

theorem malformed_number_escapes:
  "compile_predicate X ''payload.x == 1e'' None = Inl ValueError \<and> \<not> is_predicate_error ValueError"
  by (rule conjI) (code_simp, simp)

text \<open>
  C17. Read-back: every tree of the grammar whose parentheses and negations nest at most 100 deep is
  parsed back from its printed tokens, so the parser accepts the whole grammar and applies its
  precedences and its left associativity.
\<close>

theorem parse_print_roundtrip:
  assumes "wf_node n" and "nesting 0 n \<le> MAX_NESTING_DEPTH"
  shows "parse_tokens (toks (print_node 0 n @ [Tok_eof])) = Inr n"
proof -
  let ?rest = "[(Tok_eof, 0)] :: token list"
  have "reads_or MAX_NESTING_DEPTH n"
    using reads_all_node [OF assms(1)] assms(2) by (auto simp: reads_all_def)
  then have "parse_or (parse_not MAX_NESTING_DEPTH) (toks (print_node 0 n) @ ?rest)
      = loop (parse_and (parse_not MAX_NESTING_DEPTH)) ''||'' OrNode n ?rest"
    by (simp add: reads_or_def stops_def next_op_def)
  then show ?thesis by (simp add: parse_tokens_def loop_stop next_op_def)
qed

theorem parse_print_roundtrip_witness:
  "parse_tokens (toks (print_node 0
     (AndNode (OrNode (PathNode [''cost'']) (LiteralNode (VBool True))) (NotNode (LiteralNode VNull)))
     @ [Tok_eof])) =
   Inr (AndNode (OrNode (PathNode [''cost'']) (LiteralNode (VBool True))) (NotNode (LiteralNode VNull)))"
  by (rule parse_print_roundtrip)
    (simp_all add: wf_path_def ALLOWED_FIELDS_def MAX_NESTING_DEPTH_def)

section \<open>Evaluation as Kleene's logic\<close>

text \<open>The abstract meaning of a tree, given the truth of its comparisons and operands.\<close>

fun kleene :: "(node \<Rightarrow> truth) \<Rightarrow> node \<Rightarrow> truth" where
  "kleene t (AndNode l r) = min (kleene t l) (kleene t r)"
| "kleene t (OrNode l r) = max (kleene t l) (kleene t r)"
| "kleene t (NotNode c) = truth_not (kleene t c)"
| "kleene t n = t n"

definition node_truth :: "externals \<Rightarrow> trace_event \<Rightarrow> node \<Rightarrow> truth" where
  "node_truth X ev n = (case eval_node X ev n of Inr v \<Rightarrow> as_truth v | Inl _ \<Rightarrow> TUnk)"

lemma eval_node_kleene:
  "eval_node X ev n = Inr v \<Longrightarrow> as_truth v = kleene (node_truth X ev) n"
proof (induction n arbitrary: v)
  case (AndNode l r)
  then show ?case by (auto simp: bind_res_Inr_iff pred.tr_conj)
next
  case (OrNode l r)
  then show ?case by (auto simp: bind_res_Inr_iff pred.tr_disj)
next
  case (NotNode c)
  then show ?case by (auto simp: bind_res_Inr_iff pred.tr_neg)
qed (auto simp: node_truth_def)

text \<open>
  C19. Refinement of Kleene's three-valued logic: when evaluation returns, the verdict is true exactly
  when the tree is true in the strong Kleene interpretation of its leaves, where conjunction is the
  minimum, disjunction the maximum, and unknown is never rendered true.
\<close>

theorem evaluate_refines_kleene:
  assumes "evaluate_predicate X (Prototype n) ev = Inr b"
  shows "b \<longleftrightarrow> kleene (node_truth X ev) n = TTrue"
proof -
  obtain v where "eval_node X ev n = Inr v" and b: "b \<longleftrightarrow> v = VBool True"
    using assms by (auto simp: evaluate_predicate_def bind_res_Inr_iff)
  then have "as_truth v = kleene (node_truth X ev) n" by (simp add: eval_node_kleene)
  then show ?thesis using b by (auto simp: as_truth_def split: if_splits)
qed

theorem evaluate_refines_kleene_witness:
  "kleene (node_truth no_externals default_event)
     (OrNode (LiteralNode (VBool True)) (PathNode [''cost''])) = TTrue"
proof -
  have "evaluate_predicate no_externals
      (Prototype (OrNode (LiteralNode (VBool True)) (PathNode [''cost'']))) default_event = Inr True"
    by (simp add: evaluate_predicate_def bool_or_def as_truth_def eval_path_def event_attr_def
        default_event_def)
  from evaluate_refines_kleene [OF this] show ?thesis by simp
qed

section \<open>Monotonicity in the fields present\<close>

text \<open>The paths of a tree, and the trees whose comparisons compare paths and literals only.\<close>

fun node_paths :: "node \<Rightarrow> string list list" where
  "node_paths (LiteralNode _) = []"
| "node_paths (PathNode segs) = [segs]"
| "node_paths (CompareNode _ l r) = node_paths l @ node_paths r"
| "node_paths (AndNode l r) = node_paths l @ node_paths r"
| "node_paths (OrNode l r) = node_paths l @ node_paths r"
| "node_paths (NotNode c) = node_paths c"

fun operand :: "node \<Rightarrow> bool" where
  "operand (LiteralNode v) = (v \<noteq> VNull)"
| "operand (PathNode _) = True"
| "operand _ = False"

fun flat :: "node \<Rightarrow> bool" where
  "flat (CompareNode _ l r) = (operand l \<and> operand r)"
| "flat (AndNode l r) = (flat l \<and> flat r)"
| "flat (OrNode l r) = (flat l \<and> flat r)"
| "flat (NotNode c) = flat c"
| "flat n = True"

definition fills :: "trace_event \<Rightarrow> trace_event \<Rightarrow> string list list \<Rightarrow> bool" where
  "fills ev ev' ps =
     (\<forall>p\<in>set ps. eval_path ev p \<noteq> VNull \<and> (eval_path ev p = VMissing \<or> eval_path ev' p = eval_path ev p))"

definition at_most :: "truth \<Rightarrow> truth \<Rightarrow> bool" where
  "at_most a b = (a = TUnk \<or> a = b)"

lemma at_most_min: "at_most a a' \<Longrightarrow> at_most b b' \<Longrightarrow> at_most (min a b) (min a' b')"
  by (cases a; cases a'; cases b; cases b') (auto simp: at_most_def min_def less_eq_truth_def)

lemma at_most_max: "at_most a a' \<Longrightarrow> at_most b b' \<Longrightarrow> at_most (max a b) (max a' b')"
  by (cases a; cases a'; cases b; cases b') (auto simp: at_most_def max_def less_eq_truth_def)

lemma at_most_not: "at_most a a' \<Longrightarrow> at_most (truth_not a) (truth_not a')"
  by (auto simp: at_most_def)

lemma operand_fills:
  "operand n \<Longrightarrow> fills ev ev' (node_paths n) \<Longrightarrow>
   \<exists>a b. eval_node X ev n = Inr a \<and> eval_node X ev' n = Inr b \<and> a \<noteq> VNull \<and> (a = VMissing \<or> b = a)"
  by (cases n) (auto simp: fills_def)

lemma compare_missing:
  "a \<noteq> VNull \<Longrightarrow> b \<noteq> VNull \<Longrightarrow> a = VMissing \<or> b = VMissing \<Longrightarrow> compare_values X v a b = Inr VUnknown"
  by (auto simp: compare_values_def)

lemma compare_fills:
  assumes "operand l" "operand r" "fills ev ev' (node_paths l @ node_paths r)"
    and "eval_node X ev (CompareNode v l r) = Inr x" "eval_node X ev' (CompareNode v l r) = Inr y"
  shows "at_most (as_truth x) (as_truth y)"
proof -
  have fl: "fills ev ev' (node_paths l)" "fills ev ev' (node_paths r)"
    using assms(3) by (auto simp: fills_def)
  obtain a b where a: "eval_node X ev l = Inr a" "eval_node X ev' l = Inr b" "a \<noteq> VNull" "a = VMissing \<or> b = a"
    using operand_fills [OF assms(1) fl(1)] by blast
  obtain c d where c: "eval_node X ev r = Inr c" "eval_node X ev' r = Inr d" "c \<noteq> VNull" "c = VMissing \<or> d = c"
    using operand_fills [OF assms(2) fl(2)] by blast
  show ?thesis
  proof (cases "a = VMissing \<or> c = VMissing")
    case True
    then have "x = VUnknown" using assms(4) a c by (simp add: compare_missing)
    then show ?thesis by (simp add: as_truth_def at_most_def)
  next
    case False
    then show ?thesis using assms(4,5) a c by (simp add: at_most_def)
  qed
qed

lemma flat_fills:
  "flat n \<Longrightarrow> fills ev ev' (node_paths n) \<Longrightarrow> eval_node X ev n = Inr x \<Longrightarrow> eval_node X ev' n = Inr y \<Longrightarrow>
   at_most (as_truth x) (as_truth y)"
proof (induction n arbitrary: x y)
  case (PathNode segs)
  then show ?case by (auto simp: fills_def at_most_def as_truth_def)
next
  case (CompareNode v l r)
  then show ?case by (intro compare_fills) auto
next
  case (AndNode l r)
  then obtain a b c d where "eval_node X ev l = Inr a" "eval_node X ev r = Inr b" "x = bool_and a b"
    "eval_node X ev' l = Inr c" "eval_node X ev' r = Inr d" "y = bool_and c d"
    by (auto simp: bind_res_Inr_iff)
  with AndNode show ?case by (auto simp: pred.tr_conj fills_def intro!: at_most_min)
next
  case (OrNode l r)
  then obtain a b c d where "eval_node X ev l = Inr a" "eval_node X ev r = Inr b" "x = bool_or a b"
    "eval_node X ev' l = Inr c" "eval_node X ev' r = Inr d" "y = bool_or c d"
    by (auto simp: bind_res_Inr_iff)
  with OrNode show ?case by (auto simp: pred.tr_disj fills_def intro!: at_most_max)
next
  case (NotNode c)
  then obtain a b where "eval_node X ev c = Inr a" "x = bool_not a"
    "eval_node X ev' c = Inr b" "y = bool_not b"
    by (auto simp: bind_res_Inr_iff)
  with NotNode show ?case by (auto simp: pred.tr_neg intro!: at_most_not)
qed (auto simp: at_most_def)

text \<open>
  A missing field never passes by accident: for a predicate whose comparisons compare paths and
  non-null literals, a predicate that passes on an event still passes on every event that has the
  same values and more fields, so no verdict rests on the absence of a field.
\<close>

theorem missing_field_never_decides:
  assumes "flat n" and "fills ev ev' (node_paths n)"
    and "evaluate_predicate X (Prototype n) ev = Inr True"
    and "evaluate_predicate X (Prototype n) ev' = Inr b"
  shows "b"
proof -
  obtain x y where x: "eval_node X ev n = Inr x" "x = VBool True"
    and y: "eval_node X ev' n = Inr y" "b \<longleftrightarrow> y = VBool True"
    using assms(3,4) by (auto simp: evaluate_predicate_def bind_res_Inr_iff)
  have "at_most (as_truth x) (as_truth y)" by (rule flat_fills [OF assms(1,2) x(1) y(1)])
  then show ?thesis using x(2) y(2) by (auto simp: at_most_def as_truth_def split: if_splits)
qed

theorem missing_field_never_decides_witness:
  "fills (default_event\<lparr>payload := Some [(''x'', VInt 1)]\<rparr>)
     (default_event\<lparr>payload := Some [(''x'', VInt 1), (''y'', VInt 7)]\<rparr>)
     (node_paths (OrNode (CompareNode ''=='' (PathNode [''payload'', ''y'']) (LiteralNode (VInt 0)))
        (CompareNode ''=='' (PathNode [''payload'', ''x'']) (LiteralNode (VInt 1)))))
   \<and> evaluate_predicate no_externals
       (Prototype (OrNode (CompareNode ''=='' (PathNode [''payload'', ''y'']) (LiteralNode (VInt 0)))
          (CompareNode ''=='' (PathNode [''payload'', ''x'']) (LiteralNode (VInt 1)))))
       (default_event\<lparr>payload := Some [(''x'', VInt 1), (''y'', VInt 7)]\<rparr>) = Inr True"
proof -
  let ?n = "OrNode (CompareNode ''=='' (PathNode [''payload'', ''y'']) (LiteralNode (VInt 0)))
        (CompareNode ''=='' (PathNode [''payload'', ''x'']) (LiteralNode (VInt 1)))"
  let ?ev = "default_event\<lparr>payload := Some [(''x'', VInt 1)]\<rparr>"
  let ?ev' = "default_event\<lparr>payload := Some [(''x'', VInt 1), (''y'', VInt 7)]\<rparr>"
  have f: "fills ?ev ?ev' (node_paths ?n)"
    by (simp add: fills_def eval_path_def event_attr_def resolve_segment_def)
  have ev: "evaluate_predicate no_externals (Prototype ?n) ?ev = Inr True" by code_simp
  have "\<exists>b. evaluate_predicate no_externals (Prototype ?n) ?ev' = Inr b" by code_simp
  then obtain b where b: "evaluate_predicate no_externals (Prototype ?n) ?ev' = Inr b" by blast
  have b
    by (rule missing_field_never_decides [OF _ f ev b]) simp
  with f b show ?thesis by simp
qed

text \<open>
  Comparisons of comparisons escape the missing-value rule: two indeterminate comparisons are equal,
  so \<open>(payload.x > 5) == (payload.x < 5)\<close> passes on every event without the field, and a mismatch of
  types is unequal, so \<open>payload.x != "a"\<close> passes on a number, where the module's contract says a
  type mismatch is unknown.
\<close>

theorem indeterminate_comparisons_pass:
  assumes "payload ev = Some d" and "map_of d ''x'' = None"
  shows "evaluate_predicate X (Prototype (CompareNode ''==''
       (CompareNode ''>'' (PathNode [''payload'', ''x'']) (LiteralNode (VInt 5)))
       (CompareNode ''<'' (PathNode [''payload'', ''x'']) (LiteralNode (VInt 5))))) ev = Inr True
    \<and> evaluate_predicate X (Prototype (CompareNode ''!='' (PathNode [''payload'', ''x''])
       (LiteralNode (VStr ''a'')))) (ev\<lparr>payload := Some [(''x'', VInt 1)]\<rparr>) = Inr True"
  using assms
  by (simp add: evaluate_predicate_def eval_path_def event_attr_def resolve_segment_def
      compare_values_def typed_eq_def)

theorem indeterminate_comparisons_pass_witness:
  "evaluate_predicate no_externals (Prototype (CompareNode ''==''
       (CompareNode ''>'' (PathNode [''payload'', ''x'']) (LiteralNode (VInt 5)))
       (CompareNode ''<'' (PathNode [''payload'', ''x'']) (LiteralNode (VInt 5)))))
     (default_event\<lparr>payload := Some []\<rparr>) = Inr True"
  using indeterminate_comparisons_pass [of "default_event\<lparr>payload := Some []\<rparr>" "[]" no_externals] by simp

section \<open>Totality of evaluation\<close>

fun aware :: "pyval \<Rightarrow> bool"
  and aware_list :: "pyval list \<Rightarrow> bool"
  and aware_fields :: "pydict \<Rightarrow> bool" where
  "aware (VDate d) = (\<exists>t. d = Aware t)"
| "aware (VList vs) = aware_list vs"
| "aware (VDict d) = aware_fields d"
| "aware (VModel _ d) = aware_fields d"
| "aware _ = True"
| "aware_list [] = True"
| "aware_list (v # vs) = (aware v \<and> aware_list vs)"
| "aware_fields [] = True"
| "aware_fields ((_, v) # d) = (aware v \<and> aware_fields d)"

definition aware_parser :: "externals \<Rightarrow> bool" where
  "aware_parser X = (\<forall>s d. fromisoformat X s = Some d \<longrightarrow> (\<exists>t. d = Aware t))"

lemma aware_fields_map_of: "aware_fields d \<Longrightarrow> map_of d k = Some v \<Longrightarrow> aware v"
  by (induction d) (auto split: if_splits)

lemma aware_resolve: "aware v \<Longrightarrow> aware (resolve_segment v seg)"
  by (cases v) (auto simp: resolve_segment_def split: option.splits dest: aware_fields_map_of)

lemma aware_resolve_all: "aware v \<Longrightarrow> aware (resolve_segments v segs)"
  by (induction segs arbitrary: v) (auto simp: aware_resolve)

lemma aware_list_strings: "aware_list (map VStr ss)"
  by (induction ss) auto

lemma aware_event_attr:
  assumes "\<And>d. payload ev = Some d \<Longrightarrow> aware_fields d"
  shows "aware (event_attr ev name)"
  using assms
  by (auto simp: event_attr_def cost_value_def tokens_value_def redaction_value_def opt_str_def
      aware_list_strings split: option.splits)

lemma aware_eval_path:
  "(\<And>d. payload ev = Some d \<Longrightarrow> aware_fields d) \<Longrightarrow> aware (eval_path ev segs)"
  by (cases segs) (auto simp: eval_path_def intro: aware_resolve_all aware_event_attr)

lemma order_values_total:
  assumes "aware_parser X" and "aware a" and "aware b"
  shows "\<exists>r. order_values X a b = Inr r"
proof (cases "is_bool a \<or> is_bool b \<or> num_of a \<noteq> None \<and> num_of b \<noteq> None")
  case True
  then show ?thesis by (auto simp: order_values_def)
next
  case False
  have "\<exists>t. d = Aware t" if "fromisoformat X s = Some d" for s d
    using assms(1) that by (auto simp: aware_parser_def)
  then show ?thesis using assms(2,3) False
    by (cases a; cases b) (fastforce simp: order_values_def split: option.splits)+
qed

lemma compare_values_total:
  assumes "aware_parser X" and "aware a" and "aware b" and "v \<in> set comparison_ops"
  shows "\<exists>r. compare_values X v a b = Inr r \<and> aware r"
proof -
  obtain r where "order_values X a b = Inr r" using order_values_total [OF assms(1-3)] by blast
  then show ?thesis
    using assms(4) by (cases r) (auto simp: compare_values_def comparison_ops_def)
qed

lemma aware_literal: "literal_ok v \<Longrightarrow> aware v"
  by (cases v) auto

text \<open>Whatever the values, the only exception a compiled tree raises is the comparison of datetimes.\<close>

lemma order_values_Inl: "order_values X a b = Inl e \<Longrightarrow> e = TypeError"
  by (auto simp: order_values_def elim: date_order.elims split: if_splits option.splits pyval.splits)

lemma compare_values_Inl:
  "compare_values X v a b = Inl e \<Longrightarrow> v \<in> set comparison_ops \<Longrightarrow> e = TypeError"
  by (auto simp: compare_values_def comparison_ops_def bind_res_Inl_iff dest: order_values_Inl
      split: if_splits option.splits)

lemma eval_node_Inl: "wf_node n \<Longrightarrow> eval_node X ev n = Inl e \<Longrightarrow> e = TypeError"
  by (induction n) (auto simp: bind_res_Inl_iff dest: compare_values_Inl)

lemma evaluate_compiled_Inl:
  assumes "compile_predicate X text version = Inr p" and "evaluate_predicate X p ev = Inl e"
  shows "e = TypeError"
proof (cases p)
  case (Prototype n)
  have "compile_predicate X text None = Inr (Prototype n)"
    using assms(1) Prototype
    by (auto simp: compile_predicate_def compile_cel_def Let_def split: if_splits sum.splits
        cel_outcome.splits option.splits)
  then have "wf_node n" by (rule compile_wf_node)
  then show ?thesis using assms(2) Prototype
    by (auto simp: evaluate_predicate_def bind_res_Inl_iff dest: eval_node_Inl)
next
  case (Cel t)
  then show ?thesis using assms(2)
    by (auto simp: evaluate_predicate_def split: sum.splits cel_outcome.splits)
qed

lemma eval_node_total:
  assumes "aware_parser X" and "\<And>d. payload ev = Some d \<Longrightarrow> aware_fields d"
  shows "wf_node n \<Longrightarrow> \<exists>v. eval_node X ev n = Inr v \<and> aware v"
proof (induction n)
  case (CompareNode v l r)
  then obtain a b where "eval_node X ev l = Inr a" "aware a" "eval_node X ev r = Inr b" "aware b"
    by auto
  with compare_values_total [OF assms(1)] CompareNode.prems show ?case by simp
qed (auto simp: aware_literal aware_eval_path assms(2) bool_and_def bool_or_def bool_not_def Let_def)

text \<open>
  Evaluation is total where timestamps are aware: if the datetime parser yields aware datetimes
  only and the payload holds no naive one, every compiled predicate evaluates to a verdict.
\<close>

theorem evaluate_total:
  assumes "aware_parser X" and "\<forall>d. payload ev = Some d \<longrightarrow> aware_fields d"
    and "compile_predicate X text None = Inr p"
  shows "\<exists>b. evaluate_predicate X p ev = Inr b"
proof -
  obtain n where p: "p = Prototype n"
    using compile_is_prototype [OF assms(3)] by blast
  have "wf_node n" using compile_wf_node assms(3) unfolding p by blast
  then obtain v where "eval_node X ev n = Inr v"
    using eval_node_total [OF assms(1)] assms(2) by blast
  then show ?thesis by (simp add: p evaluate_predicate_def)
qed

theorem evaluate_total_witness:
  "\<exists>b. evaluate_predicate no_externals
     (Prototype (CompareNode ''>'' (PathNode [''timestamp'']) (LiteralNode (VStr ''x'')))) default_event = Inr b"
proof (rule evaluate_total)
  show "aware_parser no_externals" by (simp add: aware_parser_def no_externals_def)
  show "\<forall>d. payload default_event = Some d \<longrightarrow> aware_fields d" by (simp add: default_event_def)
  show "compile_predicate no_externals ''timestamp > \"x\"'' None =
    Inr (Prototype (CompareNode ''>'' (PathNode [''timestamp'']) (LiteralNode (VStr ''x''))))"
    by code_simp
qed

end
