(* ===== verification/ConditionProps.thy ===== *)
theory ConditionProps
  imports Conditions PredicateProps
begin

text \<open>
  Properties of scoring conditions: compilation ends in a condition or a listed exception, evaluation
  of conditions built from comparisons is Kleene's logic, and a missing raw value never decides such
  a condition.
\<close>

section \<open>Compilation\<close>

definition ends_eof :: "cond_token list \<Rightarrow> bool" where
  "ends_eof ts = (ts \<noteq> [] \<and> fst (last ts) = CT_eof)"

definition cond_error :: "exn \<Rightarrow> bool" where
  "cond_error e = (\<exists>p. e = ConditionError p)"

lemma cond_error_ConditionError [simp]: "cond_error (ConditionError p)"
  by (simp add: cond_error_def)

lemma ends_eof_tl: "ends_eof (t # ts) \<Longrightarrow> fst t \<noteq> CT_eof \<Longrightarrow> ends_eof ts"
  by (cases ts) (auto simp: ends_eof_def)

lemma cond_op_tl: "cond_op ts v \<Longrightarrow> ends_eof ts \<Longrightarrow> ends_eof (tl ts) \<and> length (tl ts) < length ts"
  by (cases ts) (auto simp: cond_op_def intro: ends_eof_tl)

text \<open>What a parser yields on tokens that end with the end token: a rest of the same kind, shorter, or a
  \<open>ConditionError\<close>.\<close>

definition yields :: "cond cond_parser \<Rightarrow> cond_token list \<Rightarrow> bool" where
  "yields f ts =
     (case f ts of Inr (n, r) \<Rightarrow> ends_eof r \<and> length r < length ts | Inl e \<Rightarrow> cond_error e)"

lemma yields_Inr: "yields f ts \<Longrightarrow> f ts = Inr (n, r) \<Longrightarrow> ends_eof r \<and> length r < length ts"
  by (simp add: yields_def)

lemma yields_Inl: "yields f ts \<Longrightarrow> f ts = Inl e \<Longrightarrow> cond_error e"
  by (simp add: yields_def)

definition yields_below :: "nat \<Rightarrow> cond cond_parser \<Rightarrow> bool" where
  "yields_below b f = (\<forall>ts. ends_eof ts \<and> length ts < b \<longrightarrow> yields f ts)"

lemma yields_below_mono: "yields_below b f \<Longrightarrow> a \<le> b \<Longrightarrow> yields_below a f"
  by (auto simp: yields_below_def)

lemma cond_operands_end: "\<not> cond_op ts v \<Longrightarrow> cond_operands (Suc f) sub v ts = Inr ([], ts)"
  by simp

lemma cond_operands_step:
  "cond_op ts v \<Longrightarrow> cond_operands (Suc f) sub v ts =
     bind_res (sub (tl ts)) (\<lambda>(n, r). bind_res (cond_operands f sub v r) (\<lambda>(ns, r'). Inr (n # ns, r')))"
  by simp

lemma parse_cond_not_step:
  "cond_op ts ''!'' \<Longrightarrow> parse_cond_not (Suc b) ts = bind_res (parse_cond_not b (tl ts)) (\<lambda>(n, r). Inr (CondNot n, r))"
  by simp

lemma parse_cond_not_end:
  "\<not> cond_op ts ''!'' \<Longrightarrow>
   parse_cond_not (Suc b) ts = parse_cond_comparison (parse_cond_or (parse_cond_not b)) ts"
  by simp

declare cond_operands.simps [simp del] parse_cond_not.simps [simp del]

lemma operands_yield:
  assumes "yields_below b sub"
  shows "ends_eof ts \<Longrightarrow> length ts < b \<Longrightarrow> length ts < f \<Longrightarrow>
    case cond_operands f sub v ts of
      Inr (ns, r) \<Rightarrow> ends_eof r \<and> length r \<le> length ts
    | Inl e \<Rightarrow> cond_error e"
proof (induction f arbitrary: ts)
  case (Suc f)
  show ?case
  proof (cases "cond_op ts v")
    case True
    note tl = cond_op_tl [OF True Suc.prems(1)]
    have y: "yields sub (tl ts)" using assms tl Suc.prems(2) by (auto simp: yields_below_def)
    show ?thesis
    proof (cases "sub (tl ts)")
      case (Inl e)
      then show ?thesis using yields_Inl [OF y] by (simp add: cond_operands_step [OF True])
    next
      case (Inr nr)
      then obtain n r where nr: "sub (tl ts) = Inr (n, r)" by (cases nr) auto
      note r = yields_Inr [OF y nr]
      have "case cond_operands f sub v r of Inr (ns, r') \<Rightarrow> ends_eof r' \<and> length r' \<le> length r | Inl e \<Rightarrow> cond_error e"
        using r tl Suc.prems by (intro Suc.IH) auto
      then show ?thesis
        using nr r tl by (cases "cond_operands f sub v r") (auto simp: cond_operands_step [OF True])
    qed
  next
    case False
    then show ?thesis using Suc.prems(1) by (simp add: cond_operands_end)
  qed
qed simp

lemma level_yields:
  assumes "yields_below b sub"
  shows "yields_below b (cond_level sub v)"
  unfolding yields_below_def
proof (intro allI impI)
  fix ts
  assume ts: "ends_eof ts \<and> length ts < b"
  then have y: "yields sub ts" using assms by (simp add: yields_below_def)
  show "yields (cond_level sub v) ts"
  proof (cases "sub ts")
    case (Inl e)
    then show ?thesis using yields_Inl [OF y] by (simp add: yields_def cond_level_def)
  next
    case (Inr nr)
    then obtain n r where nr: "sub ts = Inr (n, r)" by (cases nr) auto
    note r = yields_Inr [OF y nr]
    have "case cond_operands (Suc (length r)) sub v r of
        Inr (ns, r') \<Rightarrow> ends_eof r' \<and> length r' \<le> length r | Inl e \<Rightarrow> cond_error e"
      using r ts by (intro operands_yield [OF assms]) auto
    then show ?thesis using nr r
      by (cases "cond_operands (Suc (length r)) sub v r") (auto simp: yields_def cond_level_def)
  qed
qed

lemma operand_yields:
  assumes "yields_below (length ts) nested" and "ends_eof ts"
  shows "yields (parse_operand nested) ts"
proof (cases ts)
  case Nil
  then show ?thesis using assms(2) by (simp add: ends_eof_def)
next
  case (Cons t rest)
  obtain k p where t: "t = (k, p)" by (cases t)
  have rest: "k \<noteq> CT_eof \<Longrightarrow> ends_eof rest" using assms(2) ends_eof_tl Cons t by fastforce
  show ?thesis
  proof (cases "k = CT_paren (CHR ''('')")
    case True
    have y: "yields nested rest" using assms(1) rest True Cons by (simp add: yields_below_def)
    show ?thesis
    proof (cases "nested rest")
      case (Inl e)
      then show ?thesis using yields_Inl [OF y] by (simp add: yields_def parse_operand_def Cons t True)
    next
      case (Inr nr)
      then obtain n r where nr: "nested rest = Inr (n, r)" by (cases nr) auto
      note r = yields_Inr [OF y nr]
      obtain k' p' r' where r': "r = (k', p') # r'" using r by (cases r) (auto simp: ends_eof_def)
      have "k' = CT_paren (CHR '')'') \<Longrightarrow> ends_eof r'" using r r' ends_eof_tl [of "(k', p')" r'] by simp
      then show ?thesis using nr r r' by (auto simp: yields_def parse_operand_def Cons t True)
    qed
  next
    case False
    then show ?thesis using rest by (cases k) (auto simp: yields_def parse_operand_def Cons t)
  qed
qed

lemma comparison_tl: "cond_comparison_of ts = Some v \<Longrightarrow> ends_eof ts \<Longrightarrow> ends_eof (tl ts) \<and> length (tl ts) < length ts"
  by (cases ts) (auto simp: cond_comparison_of_def intro: ends_eof_tl split: cond_kind.splits if_splits)

lemma comparison_yields:
  assumes "yields_below (length ts) nested" and "ends_eof ts"
  shows "yields (parse_cond_comparison nested) ts"
proof (cases "parse_operand nested ts")
  case (Inl e)
  then show ?thesis using yields_Inl [OF operand_yields [OF assms] Inl]
    by (simp add: yields_def parse_cond_comparison_def)
next
  case (Inr nr)
  then obtain l r where l: "parse_operand nested ts = Inr (l, r)" by (cases nr) auto
  note r = yields_Inr [OF operand_yields [OF assms] l]
  show ?thesis
  proof (cases "cond_comparison_of r")
    case None
    then show ?thesis using l r by (simp add: yields_def parse_cond_comparison_def)
  next
    case (Some v)
    note tl = comparison_tl [OF Some conjunct1 [OF r]]
    have "yields_below (length (tl r)) nested"
      by (rule yields_below_mono [OF assms(1)]) (use r in auto)
    then have y: "yields (parse_operand nested) (tl r)" using tl by (intro operand_yields) auto
    show ?thesis
    proof (cases "parse_operand nested (tl r)")
      case (Inl e)
      then show ?thesis using l Some yields_Inl [OF y] by (simp add: yields_def parse_cond_comparison_def)
    next
      case (Inr nr')
      then obtain m r' where m: "parse_operand nested (tl r) = Inr (m, r')" by (cases nr') auto
      then show ?thesis using l Some yields_Inr [OF y m] r tl by (simp add: yields_def parse_cond_comparison_def)
    qed
  qed
qed

lemma parse_cond_not_yields: "yields_below b (parse_cond_not b)"
proof (induction b)
  case (Suc b)
  have or: "yields_below b (parse_cond_or (parse_cond_not b))"
    unfolding parse_cond_or_def parse_cond_and_def by (intro level_yields Suc.IH)
  show ?case
    unfolding yields_below_def
  proof (intro allI impI)
    fix ts
    assume ts: "ends_eof ts \<and> length ts < Suc b"
    show "yields (parse_cond_not (Suc b)) ts"
    proof (cases "cond_op ts ''!''")
      case True
      note tl = cond_op_tl [OF True conjunct1 [OF ts]]
      have y: "yields (parse_cond_not b) (tl ts)" using Suc.IH tl ts by (simp add: yields_below_def)
      show ?thesis
      proof (cases "parse_cond_not b (tl ts)")
        case (Inl e)
        then show ?thesis using yields_Inl [OF y] by (simp add: yields_def parse_cond_not_step [OF True])
      next
        case (Inr nr)
        then obtain n r where nr: "parse_cond_not b (tl ts) = Inr (n, r)" by (cases nr) auto
        show ?thesis using nr yields_Inr [OF y nr] tl by (simp add: yields_def parse_cond_not_step [OF True])
      qed
    next
      case False
      have "yields_below (length ts) (parse_cond_or (parse_cond_not b))"
        by (rule yields_below_mono [OF or]) (use ts in auto)
      then have "yields (parse_cond_comparison (parse_cond_or (parse_cond_not b))) ts"
        using ts by (intro comparison_yields) auto
      then show ?thesis by (simp add: yields_def parse_cond_not_end [OF False])
    qed
  qed
qed (simp add: yields_below_def)

lemma parse_cond_outcome:
  assumes "ends_eof ts"
  shows "case parse_cond_tokens ts of Inr c \<Rightarrow> True | Inl e \<Rightarrow> cond_error e"
proof -
  have "yields_below (Suc (length ts)) (parse_cond_or (parse_cond_not (Suc (length ts))))"
    unfolding parse_cond_or_def parse_cond_and_def by (intro level_yields parse_cond_not_yields)
  then have y: "yields (parse_cond_or (parse_cond_not (Suc (length ts)))) ts"
    using assms by (auto simp: yields_below_def)
  show ?thesis
  proof (cases "parse_cond_or (parse_cond_not (Suc (length ts))) ts")
    case (Inl e)
    then show ?thesis using yields_Inl [OF y Inl] unfolding parse_cond_tokens_def Inl by simp
  next
    case (Inr nr)
    then obtain n r where nr: "parse_cond_or (parse_cond_not (Suc (length ts))) ts = Inr (n, r)" by (cases nr) auto
    obtain k p r' where "r = (k, p) # r'" using yields_Inr [OF y nr] by (cases r) (auto simp: ends_eof_def)
    then show ?thesis unfolding parse_cond_tokens_def nr by simp
  qed
qed

lemma cond_scan_string_Inl: "cond_scan_string start q cs i = Inl e \<Longrightarrow> cond_error e"
proof (induction start q cs i rule: cond_scan_string.induct)
  case (2 start q c cs i)
  then show ?case
    unfolding cond_scan_string.simps(2) by (auto simp: bind_res_Inl_iff split: if_splits option.splits)
qed (auto simp: cond_scan_string.simps)

lemma cond_scan_number_Inl: "cond_scan_number cs = Inl e \<Longrightarrow> e = ValueError"
  by (auto simp: cond_scan_number_def Let_def bind_res_Inl_iff parse_float_def parse_int_def
      float_exponent_def parse_exponent_def split: if_splits prod.splits)

definition cond_lex_ok :: "cond_token list res \<Rightarrow> bool" where
  "cond_lex_ok r = (case r of Inr ts \<Rightarrow> ends_eof ts | Inl e \<Rightarrow> cond_error e \<or> e = ValueError)"

lemma cond_lex_ok_bind:
  "cond_lex_ok m \<Longrightarrow> cond_lex_ok (bind_res m (\<lambda>ts. Inr (t # ts)))"
  by (cases m) (auto simp: cond_lex_ok_def ends_eof_def)

lemma cond_lex_ok_if:
  "(c \<Longrightarrow> cond_lex_ok m) \<Longrightarrow> (\<not> c \<Longrightarrow> cond_lex_ok m') \<Longrightarrow> cond_lex_ok (if c then m else m')"
  by simp

lemma cond_lex_ok_error: "cond_lex_ok (Inl (ConditionError i))"
  by (simp add: cond_lex_ok_def)

lemma cond_tokenize_ok: "cond_lex_ok (cond_tokenize cs i)"
proof (induction cs i rule: cond_tokenize.induct)
  case (1 i)
  then show ?case by (simp add: cond_tokenize.simps cond_lex_ok_def ends_eof_def)
next
  case (2 c cs i)
  have string: "cond_lex_ok (bind_res (cond_scan_string i c cs (Suc i)) (\<lambda>(s, r, j).
      bind_res (cond_tokenize r j) (\<lambda>ts. Inr ((CT_literal (VStr s), i) # ts))))"
    if "\<And>s r j. cond_scan_string i c cs (Suc i) = Inr (s, r, j) \<Longrightarrow> cond_lex_ok (cond_tokenize r j)"
  proof (cases "cond_scan_string i c cs (Suc i)")
    case (Inl e)
    then show ?thesis using cond_scan_string_Inl [of i c cs "Suc i"] by (simp add: cond_lex_ok_def)
  next
    case (Inr x)
    then show ?thesis using that by (cases x) (simp add: cond_lex_ok_bind)
  qed
  have number: "cond_lex_ok (bind_res (cond_scan_number (c # cs)) (\<lambda>(v, r).
      bind_res (cond_tokenize r (i + (length (c # cs) - length r))) (\<lambda>ts. Inr ((CT_literal v, i) # ts))))"
    if "\<And>v r. cond_scan_number (c # cs) = Inr (v, r) \<Longrightarrow>
        cond_lex_ok (cond_tokenize r (i + (length (c # cs) - length r)))"
  proof (cases "cond_scan_number (c # cs)")
    case (Inl e)
    then show ?thesis using cond_scan_number_Inl [of "c # cs"] by (simp add: cond_lex_ok_def)
  next
    case (Inr x)
    then show ?thesis using that by (cases x) (simp add: cond_lex_ok_bind)
  qed
  show ?case
    unfolding cond_tokenize.simps(2) Let_def
    by (intro cond_lex_ok_if cond_lex_ok_bind string number cond_lex_ok_error; rule 2; (assumption | rule refl))
qed

text \<open>
  Compilation of a condition always ends, in a condition, a \<open>ConditionError\<close> with its position, or the
  \<open>ValueError\<close> of a number Python's own conversion refuses.
\<close>

theorem condition_outcomes:
  "case compile_condition text of
     Inr c \<Rightarrow> \<not> blank text
   | Inl e \<Rightarrow> (\<exists>p. e = ConditionError p) \<or> e = ValueError"
proof (cases "blank text")
  case True
  then show ?thesis by (simp add: compile_condition_def)
next
  case False
  show ?thesis
  proof (cases "cond_tokenize text 0")
    case (Inl e)
    then show ?thesis using cond_tokenize_ok [of "text" 0] False
      by (auto simp: compile_condition_def cond_lex_ok_def cond_error_def)
  next
    case (Inr ts)
    then have "ends_eof ts" using cond_tokenize_ok [of "text" 0] by (simp add: cond_lex_ok_def)
    then show ?thesis using parse_cond_outcome [of ts] Inr False
      by (auto simp: compile_condition_def cond_error_def split: sum.splits)
  qed
qed

section \<open>Evaluation is Kleene's logic\<close>

fun of_truth :: "truth \<Rightarrow> pyval" where
  "of_truth TTrue = VBool True"
| "of_truth TFalse = VBool False"
| "of_truth TUnk = VUnknown"

lemma as_truth_of_truth [simp]: "as_truth (of_truth t) = t"
  by (cases t) (auto simp: as_truth_def)

lemma cond_connectives_closed:
  "cond_and (of_truth s) (of_truth t) = of_truth (min s t)"
  "cond_or (of_truth s) (of_truth t) = of_truth (max s t)"
  "cond_not (of_truth s) = of_truth (truth_not s)"
  by (cases s; cases t; simp add: cond_and_def cond_or_def cond_not_def min_def max_def less_eq_truth_def)+

interpretation condition: kleene_connectives
  "\<lambda>t. t" "\<lambda>s t. as_truth (cond_and (of_truth s) (of_truth t))"
  "\<lambda>s t. as_truth (cond_or (of_truth s) (of_truth t))" "\<lambda>s. as_truth (cond_not (of_truth s))"
  by unfold_locales (simp_all add: cond_connectives_closed)

text \<open>Conditions whose connectives join comparisons, \<open>true\<close>, \<open>false\<close> and connectives only.\<close>

fun boolean_cond :: "cond \<Rightarrow> bool" where
  "boolean_cond (CondLiteral v) = is_bool v"
| "boolean_cond CondRaw = False"
| "boolean_cond (CondCompare v l r) = True"
| "boolean_cond (CondBool v cs) = list_all boolean_cond cs"
| "boolean_cond (CondNot c) = boolean_cond c"

fun kleene_cond :: "pyval \<Rightarrow> cond \<Rightarrow> truth" where
  "kleene_cond raw (CondLiteral v) = as_truth v"
| "kleene_cond raw CondRaw = as_truth raw"
| "kleene_cond raw (CondCompare v l r) = as_truth (cond_compare v (eval_cond raw l) (eval_cond raw r))"
| "kleene_cond raw (CondBool v cs) =
     (if v = ''&&'' then foldr min (map (kleene_cond raw) cs) TTrue
      else foldr max (map (kleene_cond raw) cs) TFalse)"
| "kleene_cond raw (CondNot c) = truth_not (kleene_cond raw c)"

lemma truth_bounds: "t \<le> TTrue" "TFalse \<le> t" for t :: truth
  by (cases t; simp add: less_eq_truth_def)+

lemma foldl_min: "foldl min a ts = min a (foldr min ts TTrue)" for a :: truth
  by (induction ts arbitrary: a) (simp_all add: min.assoc min.absorb1 truth_bounds)

lemma foldl_max: "foldl max a ts = max a (foldr max ts TFalse)" for a :: truth
  by (induction ts arbitrary: a) (simp_all add: max.assoc max.absorb1 truth_bounds)

lemma cond_fold_closed:
  assumes "\<And>c. c \<in> set cs \<Longrightarrow> eval_cond raw c = of_truth (kleene_cond raw c)"
  shows "foldl (\<lambda>acc c. cond_and acc (eval_cond raw c)) (of_truth a) cs =
           of_truth (foldl min a (map (kleene_cond raw) cs))"
    and "foldl (\<lambda>acc c. cond_or acc (eval_cond raw c)) (of_truth a) cs =
           of_truth (foldl max a (map (kleene_cond raw) cs))"
  using assms by (induction cs arbitrary: a) (simp_all add: cond_connectives_closed)

lemma cond_compare_truth: "cond_compare v a b = of_truth (as_truth (cond_compare v a b))"
proof -
  have "of_truth (as_truth x) = x" if "x = VUnknown \<or> (\<exists>b. x = VBool b)" for x
    using that by (auto simp: as_truth_def)
  moreover have "cond_compare v a b = VUnknown \<or> (\<exists>c. cond_compare v a b = VBool c)"
    unfolding cond_compare_def Let_def by (auto split: option.splits)
  ultimately show ?thesis by metis
qed

lemma eval_cond_kleene: "boolean_cond c \<Longrightarrow> eval_cond raw c = of_truth (kleene_cond raw c)"
proof (induction c)
  case (CondLiteral v)
  then show ?case by (cases v) (auto simp: as_truth_def)
next
  case (CondCompare v l r)
  show ?case using cond_compare_truth by simp
next
  case (CondBool v cs)
  then have cs: "eval_cond raw c = of_truth (kleene_cond raw c)" if "c \<in> set cs" for c
    using that by (auto simp: list_all_iff)
  show ?case
    using cond_fold_closed(1) [OF cs, where a = TTrue] cond_fold_closed(2) [OF cs, where a = TFalse]
    by (simp add: foldl_min foldl_max min.absorb2 max.absorb2 truth_bounds del: foldl_map)
next
  case (CondNot c)
  then show ?case by (simp add: cond_connectives_closed)
qed simp

text \<open>
  Evaluation of a condition that joins comparisons and Boolean literals is strong Kleene logic: a
  conjunction is the minimum of its operands in the order false, unknown, true, a disjunction the
  maximum, and negation reverses the order. The condition passes exactly when that value is true.
\<close>

theorem condition_refines_kleene:
  assumes "boolean_cond c"
  shows "eval_cond raw c = of_truth (kleene_cond raw c) \<and>
    (evaluate_condition c raw \<longleftrightarrow> kleene_cond raw c = TTrue)"
proof -
  have e: "eval_cond raw c = of_truth (kleene_cond raw c)" by (rule eval_cond_kleene [OF assms])
  then show ?thesis by (cases "kleene_cond raw c") (simp_all add: evaluate_condition_def)
qed

theorem condition_refines_kleene_witness:
  "kleene_cond (VInt 3)
     (CondBool ''&&'' [CondCompare ''>='' CondRaw (CondLiteral (VInt 1)),
        CondNot (CondCompare ''<'' CondRaw (CondLiteral (VStr ''x'')))]) = TUnk
   \<and> eval_cond (VInt 3)
       (CondBool ''&&'' [CondCompare ''>='' CondRaw (CondLiteral (VInt 1)),
          CondNot (CondCompare ''<'' CondRaw (CondLiteral (VStr ''x'')))]) = VUnknown"
proof -
  let ?c = "CondBool ''&&'' [CondCompare ''>='' CondRaw (CondLiteral (VInt 1)),
      CondNot (CondCompare ''<'' CondRaw (CondLiteral (VStr ''x'')))]"
  have k: "kleene_cond (VInt 3) ?c = TUnk" by code_simp
  have "eval_cond (VInt 3) ?c = of_truth (kleene_cond (VInt 3) ?c)"
    by (rule condition_refines_kleene [THEN conjunct1]) simp
  then show ?thesis using k by simp
qed

section \<open>A missing raw value\<close>

text \<open>Boolean conditions that compare the raw value and non-null literals.\<close>

fun plain_operand :: "cond \<Rightarrow> bool" where
  "plain_operand (CondLiteral v) = (v \<noteq> VNull \<and> v \<noteq> VMissing)"
| "plain_operand CondRaw = True"
| "plain_operand _ = False"

fun plain_cond :: "cond \<Rightarrow> bool" where
  "plain_cond (CondLiteral v) = is_bool v"
| "plain_cond CondRaw = False"
| "plain_cond (CondCompare v l r) = (plain_operand l \<and> plain_operand r)"
| "plain_cond (CondBool v cs) = list_all plain_cond cs"
| "plain_cond (CondNot c) = plain_cond c"

lemma plain_boolean: "plain_cond c \<Longrightarrow> boolean_cond c"
  by (induction c) (auto simp: list_all_iff)

lemma plain_operand_missing:
  "plain_operand l \<Longrightarrow> eval_cond VMissing l \<noteq> VNull"
  "plain_operand l \<Longrightarrow> eval_cond VMissing l \<noteq> VMissing \<Longrightarrow> eval_cond raw l = eval_cond VMissing l"
  by (cases l; simp)+

lemma at_most_refl: "at_most t t"
  by (simp add: at_most_def)

lemma compare_missing_at_most:
  assumes "plain_operand l" "plain_operand r"
  shows "at_most (as_truth (cond_compare v (eval_cond VMissing l) (eval_cond VMissing r)))
    (as_truth (cond_compare v (eval_cond raw l) (eval_cond raw r)))"
proof (cases "eval_cond VMissing l = VMissing \<or> eval_cond VMissing r = VMissing")
  case True
  moreover have "eval_cond VMissing l \<noteq> VNull" "eval_cond VMissing r \<noteq> VNull"
    using plain_operand_missing(1) assms by auto
  ultimately have "cond_compare v (eval_cond VMissing l) (eval_cond VMissing r) = VUnknown"
    unfolding cond_compare_def by simp
  then show ?thesis by (simp add: at_most_def as_truth_def)
next
  case False
  then have "eval_cond raw l = eval_cond VMissing l" "eval_cond raw r = eval_cond VMissing r"
    using plain_operand_missing(2) assms by blast+
  then show ?thesis by (simp only: at_most_refl)
qed

lemma at_most_folds:
  assumes "\<And>c. c \<in> set cs \<Longrightarrow> at_most (f c) (g c)"
  shows "at_most (foldr min (map f cs) TTrue) (foldr min (map g cs) TTrue)"
    and "at_most (foldr max (map f cs) TFalse) (foldr max (map g cs) TFalse)"
  using assms by (induction cs) (auto intro!: at_most_min at_most_max at_most_refl)

lemma kleene_missing: "plain_cond c \<Longrightarrow> at_most (kleene_cond VMissing c) (kleene_cond raw c)"
proof (induction c)
  case (CondBool v cs)
  then have cs: "at_most (kleene_cond VMissing c) (kleene_cond raw c)" if "c \<in> set cs" for c
    using that by (auto simp: list_all_iff)
  show ?case
    using at_most_folds [of cs "kleene_cond VMissing" "kleene_cond raw", OF cs] by simp
next
  case (CondCompare v l r)
  then show ?case using compare_missing_at_most by simp
qed (auto simp: at_most_def intro!: at_most_not)

text \<open>
  A missing raw value never passes by accident: a condition over comparisons of the raw value with
  non-null literals that passes when the value is missing passes whatever the value is.
\<close>

theorem missing_raw_never_decides:
  assumes "plain_cond c" and "evaluate_condition c VMissing"
  shows "evaluate_condition c raw"
proof -
  note k = eval_cond_kleene [OF plain_boolean [OF assms(1)]]
  have "kleene_cond VMissing c = TTrue"
    using assms(2) by (cases "kleene_cond VMissing c") (simp_all add: evaluate_condition_def k)
  then have "kleene_cond raw c = TTrue" using kleene_missing [OF assms(1)] by (auto simp: at_most_def)
  then show ?thesis by (simp add: evaluate_condition_def k)
qed

theorem missing_raw_never_decides_witness:
  "evaluate_condition (CondBool ''||'' [CondCompare ''<'' CondRaw (CondLiteral (VInt 2)),
     CondCompare ''<'' (CondLiteral (VInt 1)) (CondLiteral (VInt 2))]) (VInt 5)"
  by (rule missing_raw_never_decides) code_simp+

text \<open>
  The guarantee needs comparisons: the raw value itself in a conjunction counts as true when it is
  missing, null, zero or empty, and as false under a disjunction.
\<close>

theorem bare_raw_value_passes:
  "compile_condition ''raw_value && true'' = Inr (CondBool ''&&'' [CondRaw, CondLiteral (VBool True)]) \<and>
   evaluate_condition (CondBool ''&&'' [CondRaw, CondLiteral (VBool True)]) VMissing \<and>
   evaluate_condition (CondBool ''&&'' [CondRaw, CondLiteral (VBool True)]) (VInt 0) \<and>
   \<not> evaluate_condition (CondBool ''||'' [CondRaw, CondLiteral (VBool False)]) (VInt 1)"
  by code_simp

end
