(* ===== verification/TraceRuleOrder.thy ===== *)
theory TraceRuleOrder
  imports TraceRules "HOL-Library.Multiset"
begin

text \<open>
  The ordering contract of trace rules: the id table, the bounded ancestor loop as reachability along
  parent references, the order it gives with the fallback key, the time window, and the result of a
  match.
\<close>

section \<open>The id table\<close>

lemma distinct_update_fold: "distinct (map fst d) \<Longrightarrow> distinct (map fst (fold (\<lambda>e. AList.update (event_id e) e) events d))"
  by (induction events arbitrary: d) (auto simp: distinct_update)

lemma distinct_by_id: "distinct (map fst (by_id events))"
  by (simp add: by_id_def distinct_update_fold)

lemma map_of_update_fold:
  "map_of (fold (\<lambda>e. AList.update (event_id e) e) events d) =
   map_of d ++ map_of (rev (map (\<lambda>e. (event_id e, e)) events))"
  by (induction events arbitrary: d) (auto simp: update_conv' map_add_def fun_eq_iff split: option.splits)

lemma map_of_by_id: "map_of (by_id events) = map_of (rev (map (\<lambda>e. (event_id e, e)) events))"
  by (simp add: by_id_def map_of_update_fold)

lemma by_id_Some: "map_of (by_id events) i = Some e \<Longrightarrow> e \<in> set events \<and> event_id e = i"
  by (auto simp: map_of_by_id dest!: map_of_SomeD)

lemma by_id_lookup:
  assumes "distinct (map event_id events)"
  shows "map_of (by_id events) i = Some e \<longleftrightarrow> e \<in> set events \<and> event_id e = i"
proof -
  have "distinct (map fst (rev (map (\<lambda>e. (event_id e, e)) events)))"
    using assms by (simp add: rev_map [symmetric] comp_def)
  then show ?thesis unfolding map_of_by_id by (subst map_of_eq_Some_iff) auto
qed

lemma length_by_id: "length (by_id events) = card (event_id ` set events)"
proof -
  have "length (by_id events) = card (set (map fst (by_id events)))"
    using distinct_card [OF distinct_by_id] by simp
  also have "set (map fst (by_id events)) = dom (map_of (by_id events))"
    by (simp add: dom_map_of_conv_image_fst)
  also have "\<dots> = event_id ` set events"
    unfolding map_of_by_id by (subst dom_map_of_conv_image_fst) force
  finally show ?thesis .
qed

section \<open>Causal precedence\<close>

definition parent_rel :: "id_table \<Rightarrow> (trace_event \<times> trace_event) set" where
  "parent_rel d = {(e, p). parent_of d e = Some p}"

fun climb :: "id_table \<Rightarrow> trace_event option \<Rightarrow> nat \<Rightarrow> trace_event option" where
  "climb d cur 0 = cur"
| "climb d cur (Suc k) = (case cur of None \<Rightarrow> None | Some c \<Rightarrow> climb d (parent_of d c) k)"

lemma climb_None [simp]: "climb d None k = None"
  by (cases k) auto

lemma climb_add: "climb d cur (i + j) = climb d (climb d cur i) j"
  by (induction i arbitrary: cur) (auto split: option.splits)

lemma ancestor_loop_iff:
  "ancestor_loop d anc cur n \<longleftrightarrow> (\<exists>k\<le>n. \<exists>c. climb d cur k = Some c \<and> event_id c = event_id anc)"
proof (induction n arbitrary: cur)
  case 0
  then show ?case by (cases cur) (auto split: option.splits)
next
  case (Suc n)
  show ?case
  proof (cases cur)
    case (Some c)
    have split: "(\<exists>k\<le>Suc n. P k) \<longleftrightarrow> P 0 \<or> (\<exists>k\<le>n. P (Suc k))" for P
      by (metis Suc_le_mono le0 not0_implies_Suc)
    show ?thesis
      unfolding split using Suc.IH [of "parent_of d c"]
      by (auto simp: Some parent_of_def split: option.splits)
  qed simp
qed

lemma climb_parent: "climb d (parent_of d e) k = Some c \<longleftrightarrow> (e, c) \<in> parent_rel d ^^ Suc k"
proof (induction k arbitrary: e)
  case 0
  then show ?case by (simp add: parent_rel_def)
next
  case (Suc k)
  have "(e, c) \<in> parent_rel d ^^ Suc (Suc k) \<longleftrightarrow>
      (\<exists>p. (e, p) \<in> parent_rel d \<and> (p, c) \<in> parent_rel d ^^ Suc k)"
    using relpow_Suc_D2 [of e c "Suc k" "parent_rel d"] relpow_Suc_I2 [of e _ "parent_rel d" c "Suc k"] by blast
  also have "\<dots> \<longleftrightarrow> (\<exists>p. parent_of d e = Some p \<and> climb d (parent_of d p) k = Some c)"
    by (simp only: parent_rel_def mem_Collect_eq case_prod_conv Suc.IH [unfolded parent_rel_def])
  finally show ?case by (auto split: option.splits)
qed

lemma climb_in_table: "climb d (parent_of d e) k = Some c \<Longrightarrow> c \<in> snd ` set d"
  by (induction k arbitrary: e)
    (auto simp: parent_of_def image_iff split: option.splits dest!: map_of_SomeD, force)

text \<open>A shortest climb never needs more steps than the table has entries.\<close>

lemma climb_shortest:
  assumes "climb d (parent_of d e) k = Some c"
    and min: "\<And>i. i < k \<Longrightarrow> climb d (parent_of d e) i \<noteq> Some c"
  shows "k \<le> length d"
proof (rule ccontr)
  let ?w = "\<lambda>i. climb d (parent_of d e) i"
  assume long: "\<not> k \<le> length d"
  have "?w i \<in> Some ` snd ` set d" if "i \<le> length d" for i
  proof -
    have "?w k = climb d (?w i) (k - i)" using that long by (simp flip: climb_add)
    then obtain b where b: "?w i = Some b" using assms(1) by (cases "?w i") auto
    then show ?thesis using climb_in_table [OF b] by simp
  qed
  moreover have "card (Some ` snd ` set d) \<le> length d"
  proof -
    have "card (Some ` snd ` set d) \<le> card (set d)" unfolding image_image by (rule card_image_le) simp
    then show ?thesis using card_length [of d] by simp
  qed
  ultimately obtain i j where ij: "i < j" "j \<le> length d" "?w i = ?w j"
    using pigeonhole_walk [of "Some ` snd ` set d" "length d" ?w] by auto
  have "?w k = climb d (?w j) (k - j)" using ij long by (simp flip: climb_add)
  also have "\<dots> = ?w (i + (k - j))" by (simp add: ij(3) climb_add)
  finally have "?w (i + (k - j)) = Some c" using assms(1) by simp
  moreover have "i + (k - j) < k" using ij long by linarith
  ultimately show False using min by blast
qed

lemma is_ancestor_iff:
  "is_ancestor d a e \<longleftrightarrow> (\<exists>c. (e, c) \<in> (parent_rel d)\<^sup>+ \<and> event_id c = event_id a)"
proof
  assume "is_ancestor d a e"
  then show "\<exists>c. (e, c) \<in> (parent_rel d)\<^sup>+ \<and> event_id c = event_id a"
    unfolding is_ancestor_def ancestor_loop_iff climb_parent trancl_power by blast
next
  assume "\<exists>c. (e, c) \<in> (parent_rel d)\<^sup>+ \<and> event_id c = event_id a"
  then obtain c n where c: "event_id c = event_id a" and "(e, c) \<in> parent_rel d ^^ n" "0 < n"
    unfolding trancl_power by blast
  then have "\<exists>k. climb d (parent_of d e) k = Some c"
    unfolding climb_parent by (cases n) auto
  then have "climb d (parent_of d e) (LEAST k. climb d (parent_of d e) k = Some c) = Some c"
    by (rule LeastI_ex)
  moreover from this have "(LEAST k. climb d (parent_of d e) k = Some c) \<le> length d"
    by (rule climb_shortest) (rule not_less_Least)
  ultimately show "is_ancestor d a e"
    unfolding is_ancestor_def ancestor_loop_iff using c by blast
qed

lemma is_ancestor_by_id:
  assumes "distinct (map event_id events)" and "a \<in> set events"
  shows "is_ancestor (by_id events) a e \<longleftrightarrow> (e, a) \<in> (parent_rel (by_id events))\<^sup>+"
proof -
  have "c = a" if "(e, c) \<in> (parent_rel (by_id events))\<^sup>+" "event_id c = event_id a" for c
  proof -
    note reach = that
    obtain x where "(x, c) \<in> parent_rel (by_id events)" using tranclD2 [OF reach(1)] by blast
    then have "c \<in> set events" using by_id_Some by (auto simp: parent_rel_def parent_of_def split: option.splits)
    then show ?thesis using assms reach(2) by (auto simp: distinct_map inj_on_def)
  qed
  then show ?thesis unfolding is_ancestor_iff by blast
qed

text \<open>
  Causal precedence is exactly the ancestor chain: the loop with its step bound finds an ancestor
  if and only if some event with its id is reachable through one or more parent references, also
  when the references form a cycle.
\<close>

theorem ancestor_is_parent_chain:
  "is_ancestor (by_id events) a e \<longleftrightarrow>
     (\<exists>c. (e, c) \<in> (parent_rel (by_id events))\<^sup>+ \<and> event_id c = event_id a)"
  by (rule is_ancestor_iff)

section \<open>The order of events\<close>

lemma follows_precedes: "follows d e1 e2 = precedes d e2 e1"
  by (simp add: follows_def precedes_def)

lemma ancestor_asym:
  assumes "acyclic (parent_rel (by_id events))" and "distinct (map event_id events)"
    and "a \<in> set events" and "b \<in> set events"
  shows "\<not> (is_ancestor (by_id events) a b \<and> is_ancestor (by_id events) b a)"
proof
  assume "is_ancestor (by_id events) a b \<and> is_ancestor (by_id events) b a"
  then have "(b, a) \<in> (parent_rel (by_id events))\<^sup>+" "(a, b) \<in> (parent_rel (by_id events))\<^sup>+"
    using is_ancestor_by_id assms(2-4) by blast+
  then have "(b, b) \<in> (parent_rel (by_id events))\<^sup>+" by (rule trancl_trans)
  then show False using assms(1) by (simp add: acyclic_def)
qed

text \<open>
  The order is a strict tournament on the events of an attempt whose parent references are acyclic:
  no two events precede each other, any two with different keys are ordered, and following is the
  converse of preceding.
\<close>

theorem precedes_asymmetric:
  assumes "acyclic (parent_rel (by_id events))" and "distinct (map event_id events)"
    and "a \<in> set events" and "b \<in> set events"
  shows "\<not> (precedes (by_id events) a b \<and> precedes (by_id events) b a)
    \<and> (fallback_key a = fallback_key b \<or> precedes (by_id events) a b \<or> precedes (by_id events) b a)
    \<and> (follows (by_id events) a b \<longleftrightarrow> precedes (by_id events) b a)"
proof (intro conjI)
  show "\<not> (precedes (by_id events) a b \<and> precedes (by_id events) b a)"
    using ancestor_asym [OF assms] unfolding precedes_def by (auto split: if_splits)
  show "fallback_key a = fallback_key b \<or> precedes (by_id events) a b \<or> precedes (by_id events) b a"
    unfolding precedes_def by (auto simp: not_less)
qed (rule follows_precedes)

theorem precedes_asymmetric_witness:
  "\<not> precedes (by_id [default_event, default_event\<lparr>event_id := ''e2'', parent_event_id := Some ''e1''\<rparr>])
     (default_event\<lparr>event_id := ''e2'', parent_event_id := Some ''e1''\<rparr>) default_event"
proof -
  let ?b = "default_event\<lparr>event_id := ''e2'', parent_event_id := Some ''e1''\<rparr>"
  let ?es = "[default_event, ?b]"
  let ?rank = "\<lambda>e. if parent_event_id e = None then 0 else if parent_event_id e = Some ''e1'' then 1 else 2 :: nat"
  have "parent_rel (by_id ?es) \<subseteq> (measure ?rank)\<inverse>"
    by (auto simp: parent_rel_def parent_of_def by_id_def default_event_def split: option.splits if_splits)
  moreover have "acyclic ((measure ?rank)\<inverse>)"
    by (simp add: acyclic_converse wf_acyclic)
  ultimately have "acyclic (parent_rel (by_id ?es))" by (rule acyclic_subset [rotated])
  moreover have "distinct (map event_id ?es)" by (simp add: default_event_def)
  moreover have "default_event \<in> set ?es" "?b \<in> set ?es" by simp_all
  ultimately have "\<not> (precedes (by_id ?es) default_event ?b \<and> precedes (by_id ?es) ?b default_event)"
    using precedes_asymmetric [of ?es default_event ?b] by blast
  moreover have "precedes (by_id ?es) default_event ?b" by code_simp
  ultimately show ?thesis by blast
qed

text \<open>
  The order is not transitive: with clock skew between a parent and its child, three events with
  distinct ids and keys and acyclic references precede each other in a circle, so the contract's
  "deterministic total order" holds of the fallback key only.
\<close>

theorem precedes_not_transitive:
  "\<exists>a b c. distinct (map event_id [a, b, c]) \<and> distinct (map fallback_key [a, b, c])
     \<and> precedes (by_id [a, b, c]) a b \<and> precedes (by_id [a, b, c]) b c \<and> precedes (by_id [a, b, c]) c a"
proof (intro exI)
  let ?a = "default_event\<lparr>event_id := ''a'', timestamp := 10\<rparr>"
  let ?b = "default_event\<lparr>event_id := ''b'', timestamp := 0, parent_event_id := Some ''a''\<rparr>"
  let ?c = "default_event\<lparr>event_id := ''c'', timestamp := 5\<rparr>"
  show "distinct (map event_id [?a, ?b, ?c]) \<and> distinct (map fallback_key [?a, ?b, ?c])
     \<and> precedes (by_id [?a, ?b, ?c]) ?a ?b \<and> precedes (by_id [?a, ?b, ?c]) ?b ?c
     \<and> precedes (by_id [?a, ?b, ?c]) ?c ?a"
    by code_simp
qed

section \<open>The time window\<close>

text \<open>
  The float arithmetic of the window is exact off its boundary: for events less than \<open>2 ^ 50\<close>
  microseconds (35 years) from the anchor, an event inside the window is at most \<open>ms\<close> milliseconds
  away, and an event strictly less than \<open>ms\<close> milliseconds away is inside.
\<close>

theorem window_exact_inside:
  assumes "\<bar>timestamp e - t\<bar> < 2 ^ 50"
  shows "(within_window e (Some t) ms \<longrightarrow> \<bar>timestamp e - t\<bar> \<le> 1000 * ms)
    \<and> (\<bar>timestamp e - t\<bar> < 1000 * ms \<longrightarrow> within_window e (Some t) ms)"
  using micros_to_ms_le [OF assms] micros_to_ms_less [OF assms]
  by (simp add: within_window_def)

theorem window_exact_inside_witness:
  "within_window (default_event\<lparr>timestamp := 1499999\<rparr>) (Some 0) 1500"
  using window_exact_inside [of "default_event\<lparr>timestamp := 1499999\<rparr>" 0 1500] by simp

text \<open>
  On the boundary it is not: an event exactly 2007 milliseconds after its anchor falls outside a
  window of 2007 milliseconds, because \<open>2.007 * 1000.0\<close> rounds above 2007.
\<close>

theorem window_boundary_rounds_out:
  assumes "timestamp e = t + 2007 * 1000"
  shows "\<not> within_window e (Some t) 2007"
proof -
  have "2007 < micros_to_ms 2007000" by code_simp
  then show ?thesis using assms by (simp add: within_window_def)
qed

theorem window_boundary_rounds_out_witness:
  "\<not> within_window (default_event\<lparr>timestamp := 2007000\<rparr>) (Some 0) 2007"
  by (rule window_boundary_rounds_out) simp

section \<open>The result of a match\<close>

definition anchor_time :: "trace_event list \<Rightarrow> trace_event option \<Rightarrow> int option" where
  "anchor_time events anchor = (case anchor of Some a \<Rightarrow> Some (timestamp a) | None \<Rightarrow> attempt_start events)"

definition selects ::
  "externals \<Rightarrow> trace_event list \<Rightarrow> trace_event option \<Rightarrow> pyval \<Rightarrow> int option \<Rightarrow> trace_event \<Rightarrow> bool" where
  "selects X events anchor node_match window e =
     (case node_match of
        VDict m \<Rightarrow> match_event X m e = Inr True \<and>
          (case window of None \<Rightarrow> True | Some ms \<Rightarrow> within_window e (anchor_time events anchor) ms)
      | _ \<Rightarrow> False)"

lemma selects_VDict:
  "selects X events anchor (VDict m) None = (\<lambda>e. match_event X m e = Inr True)"
  "selects X events anchor (VDict m) (Some ms) =
     (\<lambda>e. match_event X m e = Inr True \<and> within_window e (anchor_time events anchor) ms)"
  by (simp_all add: selects_def fun_eq_iff)

lemma match_events_eq:
  "match_events X nm events anchor w = Inr out \<Longrightarrow>
   out = sort_key fallback_key (filter (selects X events anchor nm w) events)"
  by (cases nm; cases w)
    (auto simp: match_events_def bind_res_Inr_iff selects_VDict anchor_time_def Let_def
      dest!: filter_res_Inr split: if_splits)

lemma set_match_events:
  "match_events X nm events anchor w = Inr out \<Longrightarrow>
   set out = {e \<in> set events. selects X events anchor nm w e}"
  by (auto dest!: match_events_eq)

lemma attempt_start_least:
  "attempt_start events = Some t \<longleftrightarrow> events \<noteq> [] \<and> t \<in> timestamp ` set events \<and> (\<forall>e\<in>set events. t \<le> timestamp e)"
proof (cases events)
  case (Cons e es)
  have "fold min (map timestamp es) (timestamp e) = Min (timestamp ` set events)"
    by (simp add: Cons flip: Min.set_eq_fold set_map)
  then have "attempt_start events = Some (Min (timestamp ` set events))"
    by (simp add: attempt_start_def Cons)
  moreover have "Min (timestamp ` set events) = t \<longleftrightarrow>
      t \<in> timestamp ` set events \<and> (\<forall>e\<in>set events. t \<le> timestamp e)"
    by (subst Min_eq_iff) (auto simp: Cons)
  ultimately show ?thesis by (simp add: Cons)
qed (simp add: attempt_start_def)

text \<open>
  Match resolution: the result holds exactly the events that satisfy every criterion and the window,
  each as often as it occurs, in the order of timestamp and sequence, and events with equal keys
  keep their order.
\<close>

theorem match_events_spec:
  assumes "match_events X nm events anchor window = Inr out"
  shows "mset out = filter_mset (selects X events anchor nm window) (mset events)
    \<and> sorted (map fallback_key out)
    \<and> filter (\<lambda>e. fallback_key e = k) out =
        filter (\<lambda>e. fallback_key e = k) (filter (selects X events anchor nm window) events)"
  unfolding match_events_eq [OF assms] by (simp add: sort_key_stable)

end
