(* ===== verification/TraceRuleProps.thy ===== *)
theory TraceRuleProps
  imports TraceRuleOrder PredicateProps
begin

text \<open>
  Properties of rule evaluation: the verdict against a set-based meaning of rules, the evidence, the
  exceptions, independence of the order events arrive in, and the failure evidence of \<open>not\<close>.
\<close>

section \<open>The operators by their results\<close>

lemma window_of_Inr: "window_of node = Inr w \<Longrightarrow> w = as_int (dict_get node ''within_ms'')"
  by (auto simp: window_of_def split: pyval.splits option.splits)

lemma window_of_Inl: "window_of node = Inl e \<Longrightarrow> e = TraceRuleError"
  by (auto simp: window_of_def split: pyval.splits option.splits)

lemma eval_and_or_Inr:
  assumes "eval_and_or rec node anchor = Inr r"
  obtains rules rs where "dict_get node ''rules'' = VList rules" "rules \<noteq> []"
    "traverse (\<lambda>c. rec c anchor) rules = Inr rs"
    "r = \<lparr>rr_result = (if dict_get node ''op'' = VStr ''and'' then list_all rr_result rs else list_ex rr_result rs),
          rr_matched = dedupe (concat (map rr_matched rs)),
          rr_failing = (if (if dict_get node ''op'' = VStr ''and'' then list_all rr_result rs
                           else list_ex rr_result rs) then []
            else dedupe (concat (map (\<lambda>r. rr_matched r @ rr_failing r) (filter (\<lambda>r. \<not> rr_result r) rs)))),
          rr_value = None\<rparr>"
  using assms by (auto simp: eval_and_or_def Let_def bind_res_Inr_iff split: pyval.splits if_splits)

lemma eval_not_Inr:
  assumes "eval_not rec node anchor = Inr r"
  obtains cr where "rec (dict_get node ''rule'') anchor = Inr cr"
    "r = \<lparr>rr_result = (\<not> rr_result cr), rr_matched = rr_matched cr,
          rr_failing = (if rr_result cr then [] else dedupe (rr_matched cr @ rr_failing cr)), rr_value = None\<rparr>"
  using assms by (auto simp: eval_not_def Let_def bind_res_Inr_iff split: if_splits)

lemma eval_implies_Inr:
  assumes "eval_implies rec node anchor = Inr r"
  obtains b ar br where "dict_get node ''rules'' = VList [b]"
    "rec (dict_get node ''rule'') anchor = Inr ar" "rec b anchor = Inr br"
    "r = \<lparr>rr_result = (\<not> rr_result ar \<or> rr_result br), rr_matched = dedupe (rr_matched ar @ rr_matched br),
          rr_failing = (if \<not> rr_result ar \<or> rr_result br then []
            else dedupe (rr_matched ar @ rr_failing ar @ rr_matched br @ rr_failing br)), rr_value = None\<rparr>"
  using assms that
  by (cases "is_dict (dict_get node ''rule'')")
    (auto simp: eval_implies_def Let_def bind_res_Inr_iff split del: if_split split: pyval.splits list.splits)

lemma eval_for_all_Inr:
  assumes "eval_for_all X events rec node anchor = Inr r"
  obtains out rs where
    "match_events X (dict_get node ''match'') events anchor (as_int (dict_get node ''within_ms'')) = Inr out"
    "traverse (\<lambda>e. rec (dict_get node ''assert'') (Some e)) out = Inr rs"
    "r = \<lparr>rr_result = (filter (\<lambda>r. \<not> rr_result r) rs = []), rr_matched = ids out,
          rr_failing = (if filter (\<lambda>r. \<not> rr_result r) rs = [] then []
            else dedupe (concat (map (\<lambda>r. rr_matched r @ rr_failing r) (filter (\<lambda>r. \<not> rr_result r) rs)))),
          rr_value = None\<rparr>"
proof -
  obtain w out rs where w: "window_of node = Inr w"
    and "match_events X (dict_get node ''match'') events anchor w = Inr out"
      "traverse (\<lambda>e. rec (dict_get node ''assert'') (Some e)) out = Inr rs"
    and "r = \<lparr>rr_result = (filter (\<lambda>r. \<not> rr_result r) rs = []), rr_matched = ids out,
          rr_failing = (if filter (\<lambda>r. \<not> rr_result r) rs = [] then []
            else dedupe (concat (map (\<lambda>r. rr_matched r @ rr_failing r) (filter (\<lambda>r. \<not> rr_result r) rs)))),
          rr_value = None\<rparr>"
    using assms by (auto simp: eval_for_all_def Let_def bind_res_Inr_iff split: if_splits)
  then show thesis using that window_of_Inr [OF w] by blast
qed

lemma eval_within_ms_Inr:
  assumes "eval_within_ms X events node anchor = Inr r"
  obtains ms out where "as_int (dict_get node ''ms'') = Some ms"
    "match_events X (dict_get node ''match'') events anchor (Some ms) = Inr out"
    "r = \<lparr>rr_result = (out \<noteq> []), rr_matched = ids out, rr_failing = [], rr_value = None\<rparr>"
  using assms by (auto simp: eval_within_ms_def bind_res_Inr_iff split: option.splits if_splits)

definition satisfying ::
  "trace_event list \<Rightarrow> id_table \<Rightarrow> pyval \<Rightarrow> trace_event \<Rightarrow> trace_event list \<Rightarrow> trace_event list" where
  "satisfying events d op a out =
     (if op = VStr ''exists_before'' then filter (\<lambda>e. precedes d e a) out
      else if op = VStr ''exists_after'' then filter (\<lambda>e. follows d e a) out
      else immediate_predecessors out events a d)"

lemma eval_anchored_Inr:
  assumes "eval_anchored X events d node anchor = Inr r"
  obtains a out where "anchor = Some a"
    "match_events X (dict_get node ''match'') events anchor (as_int (dict_get node ''within_ms'')) = Inr out"
    "r = \<lparr>rr_result = (satisfying events d (dict_get node ''op'') a out \<noteq> []),
          rr_matched = ids (satisfying events d (dict_get node ''op'') a out),
          rr_failing = (if satisfying events d (dict_get node ''op'') a out \<noteq> [] then [] else ids out),
          rr_value = None\<rparr>"
proof -
  obtain a where a: "anchor = Some a" using assms by (cases anchor) (auto simp: eval_anchored_def)
  have d: "is_dict (dict_get node ''match'')" using assms by (auto simp: eval_anchored_def a split: if_splits)
  obtain w out where w: "window_of node = Inr w"
    and m: "match_events X (dict_get node ''match'') events anchor w = Inr out"
    using assms by (auto simp: eval_anchored_def a d bind_res_Inr_iff)
  have "Inr r = eval_anchored X events d node anchor" by (rule assms [symmetric])
  then have "r = \<lparr>rr_result = (satisfying events d (dict_get node ''op'') a out \<noteq> []),
          rr_matched = ids (satisfying events d (dict_get node ''op'') a out),
          rr_failing = (if satisfying events d (dict_get node ''op'') a out \<noteq> [] then [] else ids out),
          rr_value = None\<rparr>"
    using m by (simp add: eval_anchored_def satisfying_def [symmetric] a d w Let_def split del: if_split)
  then show thesis using that a m window_of_Inr [OF w] by blast
qed

lemma eval_match_bearing_Inr:
  assumes "eval_match_bearing X events node anchor = Inr r"
  obtains out where
    "match_events X (dict_get node ''match'') events anchor (as_int (dict_get node ''within_ms'')) = Inr out"
    "rr_matched r = ids out" "set (rr_failing r) \<subseteq> set (ids out)"
    "rr_result r = (if dict_get node ''op'' = VStr ''exists'' then out \<noteq> []
                   else if dict_get node ''op'' = VStr ''never'' then out = [] else True)"
    "rr_failing r = (if dict_get node ''op'' = VStr ''never'' \<and> out \<noteq> [] then ids out else [])"
    "rr_value r = (if dict_get node ''op'' \<in> {VStr ''exists'', VStr ''never''} then None
                   else Some (int (length out)))"
proof -
  have d: "is_dict (dict_get node ''match'')" using assms by (auto simp: eval_match_bearing_def split: if_splits)
  obtain w out where w: "window_of node = Inr w"
    and m: "match_events X (dict_get node ''match'') events anchor w = Inr out"
    using assms by (auto simp: eval_match_bearing_def bind_res_Inr_iff split: if_splits)
  have r: "r = (if dict_get node ''op'' = VStr ''exists'' then
            \<lparr>rr_result = (out \<noteq> []), rr_matched = ids out,
             rr_failing = (if out = [] then ids out else []), rr_value = None\<rparr>
          else if dict_get node ''op'' = VStr ''never'' then
            \<lparr>rr_result = (out = []), rr_matched = ids out,
             rr_failing = (if out \<noteq> [] then ids out else []), rr_value = None\<rparr>
          else \<lparr>rr_result = True, rr_matched = ids out, rr_failing = [],
                rr_value = Some (int (length out))\<rparr>)"
  proof -
    have "Inr r = eval_match_bearing X events node anchor" by (rule assms [symmetric])
    then show ?thesis by (simp add: eval_match_bearing_def Let_def d w m split: if_splits)
  qed
  show thesis
    by (rule that [of out]) (use m window_of_Inr [OF w] in \<open>auto simp: r ids_def\<close>)
qed

section \<open>Dispatch\<close>

lemma eval_rule_node_cases:
  assumes "eval_rule_node X events d (Suc n) v anchor = Inr r"
  obtains (and_or) node where "v = VDict node" "dict_get node ''op'' \<in> {VStr ''and'', VStr ''or''}"
      "eval_and_or (eval_rule_node X events d n) node anchor = Inr r"
    | (neg) node where "v = VDict node" "dict_get node ''op'' = VStr ''not''"
      "eval_not (eval_rule_node X events d n) node anchor = Inr r"
    | (implies) node where "v = VDict node" "dict_get node ''op'' = VStr ''implies''"
      "eval_implies (eval_rule_node X events d n) node anchor = Inr r"
    | (for_all) node where "v = VDict node" "dict_get node ''op'' = VStr ''for_all''"
      "eval_for_all X events (eval_rule_node X events d n) node anchor = Inr r"
    | (within) node where "v = VDict node" "dict_get node ''op'' = VStr ''within_ms''"
      "eval_within_ms X events node anchor = Inr r"
    | (anchored) node where "v = VDict node"
      "dict_get node ''op'' \<in> {VStr ''exists_before'', VStr ''exists_after'', VStr ''immediately_precedes''}"
      "eval_anchored X events d node anchor = Inr r"
    | (bearing) node where "v = VDict node"
      "dict_get node ''op'' \<in> {VStr ''exists'', VStr ''never'', VStr ''count''}"
      "eval_match_bearing X events node anchor = Inr r"
proof -
  obtain node where v: "v = VDict node" using assms by (cases v) auto
  have op: "dict_get node ''op'' \<in> set (map VStr TRACE_RULE_OPS)"
    using assms by (auto simp: v Let_def split: if_splits)
  then show thesis
    using assms that [OF v] unfolding TRACE_RULE_OPS_def by (auto simp: v TRACE_RULE_OPS_def Let_def)
qed

section \<open>The meaning of a rule\<close>

text \<open>The events that may count as immediately preceding an anchor without a parent reference.\<close>

definition earlier_event :: "id_table \<Rightarrow> trace_event \<Rightarrow> trace_event \<Rightarrow> bool" where
  "earlier_event d a e =
     (event_id e \<noteq> event_id a \<and> \<not> is_ancestor d a e \<and> fallback_key e < fallback_key a)"

definition immediately_before :: "trace_event list \<Rightarrow> id_table \<Rightarrow> trace_event \<Rightarrow> trace_event \<Rightarrow> bool" where
  "immediately_before events d a e =
     (case parent_event_id a of
        Some p \<Rightarrow> event_id e = p
      | None \<Rightarrow> (\<exists>b. first_max (earlier_event d a) fallback_key events = Some b \<and> event_id e = event_id b))"

lemma best_predecessor:
  "fold (better_predecessor d a) events None = first_max (earlier_event d a) fallback_key events"
  by (rule fold_first_max) (auto simp: better_predecessor_def earlier_event_def split: option.split)

lemma immediate_predecessors_eq:
  "immediate_predecessors out events a d = filter (immediately_before events d a) out"
  by (auto simp: immediate_predecessors_def immediately_before_def best_predecessor split: option.split
      intro!: filter_cong)

definition selection ::
  "externals \<Rightarrow> trace_event list \<Rightarrow> trace_event option \<Rightarrow> pydict \<Rightarrow> int option \<Rightarrow> trace_event set" where
  "selection X events anchor node window =
     {e \<in> set events. selects X events anchor (dict_get node ''match'') window e}"

text \<open>
  The meaning of a rule over an attempt: sets of events and quantifiers, with no lists, no order of
  evaluation and no evidence.
\<close>

fun rule_holds :: "externals \<Rightarrow> trace_event list \<Rightarrow> nat \<Rightarrow> pyval \<Rightarrow> trace_event option \<Rightarrow> bool" where
  "rule_holds X events 0 v anchor = False"
| "rule_holds X events (Suc n) v anchor =
     (case v of
        VDict node \<Rightarrow>
          let op = dict_get node ''op'';
              sel = selection X events anchor node (as_int (dict_get node ''within_ms''));
              child = (\<lambda>k. rule_holds X events n (dict_get node k));
              children = (case dict_get node ''rules'' of VList rs \<Rightarrow> set rs | _ \<Rightarrow> {})
          in if op = VStr ''and'' then (\<forall>c\<in>children. rule_holds X events n c anchor)
             else if op = VStr ''or'' then (\<exists>c\<in>children. rule_holds X events n c anchor)
             else if op = VStr ''not'' then \<not> child ''rule'' anchor
             else if op = VStr ''implies'' then
               child ''rule'' anchor \<longrightarrow> (\<exists>c\<in>children. rule_holds X events n c anchor)
             else if op = VStr ''for_all'' then (\<forall>e\<in>sel. child ''assert'' (Some e))
             else if op = VStr ''within_ms'' then
               selection X events anchor node (as_int (dict_get node ''ms'')) \<noteq> {}
             else if op = VStr ''exists_before'' then
               (\<exists>a e. anchor = Some a \<and> e \<in> sel \<and> precedes (by_id events) e a)
             else if op = VStr ''exists_after'' then
               (\<exists>a e. anchor = Some a \<and> e \<in> sel \<and> precedes (by_id events) a e)
             else if op = VStr ''immediately_precedes'' then
               (\<exists>a e. anchor = Some a \<and> e \<in> sel \<and> immediately_before events (by_id events) a e)
             else if op = VStr ''exists'' then sel \<noteq> {}
             else if op = VStr ''never'' then sel = {}
             else op = VStr ''count''
      | _ \<Rightarrow> False)"

lemma list_all2_results:
  assumes "traverse f xs = Inr rs" and "\<And>x r. x \<in> set xs \<Longrightarrow> f x = Inr r \<Longrightarrow> rr_result r = p x"
  shows "list_all rr_result rs \<longleftrightarrow> (\<forall>x\<in>set xs. p x)" and "list_ex rr_result rs \<longleftrightarrow> (\<exists>x\<in>set xs. p x)"
proof -
  have "map rr_result rs = map p xs"
    using assms by (induction xs arbitrary: rs) (auto simp: bind_res_Inr_iff)
  then have "list_all id (map rr_result rs) = list_all id (map p xs)"
    "list_ex id (map rr_result rs) = list_ex id (map p xs)" by simp_all
  then show "list_all rr_result rs \<longleftrightarrow> (\<forall>x\<in>set xs. p x)" "list_ex rr_result rs \<longleftrightarrow> (\<exists>x\<in>set xs. p x)"
    by (simp_all add: list_all_iff list_ex_iff)
qed

lemma match_selection:
  "match_events X (dict_get node ''match'') events anchor w = Inr out \<Longrightarrow>
   set out = selection X events anchor node w"
  by (auto simp: selection_def set_match_events)

lemma eval_rule_node_holds:
  "eval_rule_node X events (by_id events) n v anchor = Inr r \<Longrightarrow>
   rr_result r = rule_holds X events n v anchor"
proof (induction n arbitrary: v anchor r)
  case (Suc n)
  from Suc.prems show ?case
  proof (cases rule: eval_rule_node_cases)
    case (and_or node)
    from and_or(3) show ?thesis
    proof (rule eval_and_or_Inr)
      fix rules rs
      assume "dict_get node ''rules'' = VList rules"
        and t: "traverse (\<lambda>c. eval_rule_node X events (by_id events) n c anchor) rules = Inr rs"
        and "r = \<lparr>rr_result = (if dict_get node ''op'' = VStr ''and'' then list_all rr_result rs
              else list_ex rr_result rs),
            rr_matched = dedupe (concat (map rr_matched rs)),
            rr_failing = (if (if dict_get node ''op'' = VStr ''and'' then list_all rr_result rs
                           else list_ex rr_result rs) then []
            else dedupe (concat (map (\<lambda>r. rr_matched r @ rr_failing r) (filter (\<lambda>r. \<not> rr_result r) rs)))),
          rr_value = None\<rparr>"
      then show ?thesis using and_or(1,2) list_all2_results [OF t Suc.IH] by (auto simp: Let_def)
    qed
  next
    case (neg node)
    from neg(3) show ?thesis
      by (rule eval_not_Inr) (use neg(1,2) Suc.IH in \<open>simp add: Let_def\<close>)
  next
    case (implies node)
    from implies(3) show ?thesis
      by (rule eval_implies_Inr) (use implies(1,2) Suc.IH in \<open>simp add: Let_def\<close>)
  next
    case (for_all node)
    from for_all(3) show ?thesis
    proof (rule eval_for_all_Inr)
      fix out rs
      assume m: "match_events X (dict_get node ''match'') events anchor (as_int (dict_get node ''within_ms'')) = Inr out"
        and t: "traverse (\<lambda>e. eval_rule_node X events (by_id events) n (dict_get node ''assert'') (Some e)) out = Inr rs"
        and r: "r = \<lparr>rr_result = (filter (\<lambda>r. \<not> rr_result r) rs = []), rr_matched = ids out,
          rr_failing = (if filter (\<lambda>r. \<not> rr_result r) rs = [] then []
            else dedupe (concat (map (\<lambda>r. rr_matched r @ rr_failing r) (filter (\<lambda>r. \<not> rr_result r) rs)))),
          rr_value = None\<rparr>"
      have "rr_result r = list_all rr_result rs" using r by (simp add: filter_empty_conv list_all_iff)
      also have "\<dots> = (\<forall>e\<in>set out. rule_holds X events n (dict_get node ''assert'') (Some e))"
        by (rule list_all2_results(1) [OF t Suc.IH])
      finally show ?thesis using for_all(1,2) match_selection [OF m] by (simp add: Let_def)
    qed
  next
    case (within node)
    from within(3) show ?thesis
      by (rule eval_within_ms_Inr) (use within(1,2) match_selection in \<open>fastforce simp: Let_def\<close>)
  next
    case (anchored node)
    from anchored(3) show ?thesis
    proof (rule eval_anchored_Inr)
      fix a out
      assume "anchor = Some a"
        and m: "match_events X (dict_get node ''match'') events anchor (as_int (dict_get node ''within_ms'')) = Inr out"
        and "r = \<lparr>rr_result = (satisfying events (by_id events) (dict_get node ''op'') a out \<noteq> []),
          rr_matched = ids (satisfying events (by_id events) (dict_get node ''op'') a out),
          rr_failing = (if satisfying events (by_id events) (dict_get node ''op'') a out \<noteq> [] then [] else ids out),
          rr_value = None\<rparr>"
      then show ?thesis using anchored(1,2) match_selection [OF m]
        by (auto simp: Let_def satisfying_def immediate_predecessors_eq follows_precedes filter_empty_conv)
    qed
  next
    case (bearing node)
    from bearing(3) show ?thesis
    proof (rule eval_match_bearing_Inr)
      fix out
      assume m: "match_events X (dict_get node ''match'') events anchor (as_int (dict_get node ''within_ms'')) = Inr out"
        and "rr_result r = (if dict_get node ''op'' = VStr ''exists'' then out \<noteq> []
                   else if dict_get node ''op'' = VStr ''never'' then out = [] else True)"
      then show ?thesis using bearing(1,2) match_selection [OF m] by (auto simp: Let_def)
    qed
  qed
qed simp

text \<open>
  C16. Rule evaluation computes the meaning of the rule: whenever it returns, the verdict at the root is
  the set-based meaning of the rule over the events, for every operator and every nesting the depth
  cap allows.
\<close>

theorem evaluate_rule_refines:
  assumes "evaluate_rule X rule events anchor = Inr r"
  shows "rr_result r \<longleftrightarrow> rule_holds X events (MAX_RULE_DEPTH + 1) rule anchor"
  using assms unfolding evaluate_rule_def by (auto simp del: eval_rule_node.simps rule_holds.simps
      split: if_splits dest: eval_rule_node_holds)

theorem evaluate_rule_refines_witness:
  "rule_holds no_externals [default_event\<lparr>event_id := ''e2'', timestamp := 4\<rparr>, default_event] 101
     (VDict [(''op'', VStr ''for_all''), (''match'', VDict [(''event'', VStr ''llm_call'')]),
       (''assert'', VDict [(''op'', VStr ''or''), (''rules'', VList [
          VDict [(''op'', VStr ''exists_after''), (''match'', VDict [(''event'', VStr ''llm_call'')])],
          VDict [(''op'', VStr ''exists_before''), (''match'', VDict [(''event'', VStr ''llm_call'')])]])])])
     None"
proof -
  have "evaluate_rule no_externals
     (VDict [(''op'', VStr ''for_all''), (''match'', VDict [(''event'', VStr ''llm_call'')]),
       (''assert'', VDict [(''op'', VStr ''or''), (''rules'', VList [
          VDict [(''op'', VStr ''exists_after''), (''match'', VDict [(''event'', VStr ''llm_call'')])],
          VDict [(''op'', VStr ''exists_before''), (''match'', VDict [(''event'', VStr ''llm_call'')])]])])])
     [default_event\<lparr>event_id := ''e2'', timestamp := 4\<rparr>, default_event] None
   = Inr \<lparr>rr_result = True, rr_matched = [''e1'', ''e2''], rr_failing = [], rr_value = None\<rparr>"
    by code_simp
  from evaluate_rule_refines [OF this] show ?thesis by (simp add: MAX_RULE_DEPTH_def del: rule_holds.simps)
qed

section \<open>Evidence\<close>

definition evidence_in :: "trace_event list \<Rightarrow> rule_result \<Rightarrow> bool" where
  "evidence_in events r = (set (rr_matched r) \<union> set (rr_failing r) \<subseteq> event_id ` set events)"

lemma evidence_dedupe: "set (dedupe xs) = set xs"
  by (simp add: dedupe_def set_dedupe_from)

lemma match_events_ids:
  "match_events X nm events anchor w = Inr out \<Longrightarrow> set (ids out) \<subseteq> event_id ` set events"
  by (auto simp: ids_def set_match_events)

lemma satisfying_subset: "set (satisfying events d op a out) \<subseteq> set out"
  by (auto simp: satisfying_def immediate_predecessors_eq)

lemma traverse_evidence:
  assumes "traverse f xs = Inr rs" and "\<And>x r. f x = Inr r \<Longrightarrow> evidence_in events r"
  shows "\<forall>r\<in>set rs. set (rr_matched r) \<subseteq> event_id ` set events \<and> set (rr_failing r) \<subseteq> event_id ` set events"
  using traverse_set [OF assms(1)] assms(2) unfolding evidence_in_def by blast

lemma eval_rule_node_evidence:
  "eval_rule_node X events d n v anchor = Inr r \<Longrightarrow> evidence_in events r"
proof (induction n arbitrary: v anchor r)
  case (Suc n)
  from Suc.prems show ?case
  proof (cases rule: eval_rule_node_cases)
    case (and_or node)
    from and_or(3) show ?thesis
    proof (rule eval_and_or_Inr)
      fix rules rs
      assume t: "traverse (\<lambda>c. eval_rule_node X events d n c anchor) rules = Inr rs"
        and r: "r = \<lparr>rr_result = (if dict_get node ''op'' = VStr ''and'' then list_all rr_result rs
              else list_ex rr_result rs),
            rr_matched = dedupe (concat (map rr_matched rs)),
            rr_failing = (if (if dict_get node ''op'' = VStr ''and'' then list_all rr_result rs
                           else list_ex rr_result rs) then []
            else dedupe (concat (map (\<lambda>r. rr_matched r @ rr_failing r) (filter (\<lambda>r. \<not> rr_result r) rs)))),
          rr_value = None\<rparr>"
      then show ?thesis using traverse_evidence [OF t Suc.IH]
        unfolding evidence_in_def by (auto simp: evidence_dedupe UN_subset_iff)
    qed
  next
    case (neg node)
    from neg(3) show ?thesis
      by (rule eval_not_Inr) (use Suc.IH in \<open>auto simp: evidence_in_def evidence_dedupe dest: subsetD\<close>)
  next
    case (implies node)
    from implies(3) show ?thesis
      by (rule eval_implies_Inr)
        (use Suc.IH in \<open>auto simp: evidence_in_def evidence_dedupe dest: subsetD\<close>)
  next
    case (for_all node)
    from for_all(3) show ?thesis
    proof (rule eval_for_all_Inr)
      fix out rs
      assume m: "match_events X (dict_get node ''match'') events anchor (as_int (dict_get node ''within_ms'')) = Inr out"
        and t: "traverse (\<lambda>e. eval_rule_node X events d n (dict_get node ''assert'') (Some e)) out = Inr rs"
        and r: "r = \<lparr>rr_result = (filter (\<lambda>r. \<not> rr_result r) rs = []), rr_matched = ids out,
          rr_failing = (if filter (\<lambda>r. \<not> rr_result r) rs = [] then []
            else dedupe (concat (map (\<lambda>r. rr_matched r @ rr_failing r) (filter (\<lambda>r. \<not> rr_result r) rs)))),
          rr_value = None\<rparr>"
      then show ?thesis using traverse_evidence [OF t Suc.IH] match_events_ids [OF m]
        unfolding evidence_in_def by (auto simp: evidence_dedupe UN_subset_iff)
    qed
  next
    case (within node)
    from within(3) show ?thesis
      by (rule eval_within_ms_Inr) (use match_events_ids in \<open>fastforce simp: evidence_in_def\<close>)
  next
    case (anchored node)
    from anchored(3) show ?thesis
    proof (rule eval_anchored_Inr)
      fix a out
      assume m: "match_events X (dict_get node ''match'') events anchor (as_int (dict_get node ''within_ms'')) = Inr out"
        and "r = \<lparr>rr_result = (satisfying events d (dict_get node ''op'') a out \<noteq> []),
          rr_matched = ids (satisfying events d (dict_get node ''op'') a out),
          rr_failing = (if satisfying events d (dict_get node ''op'') a out \<noteq> [] then [] else ids out),
          rr_value = None\<rparr>"
      then show ?thesis
        using match_events_ids [OF m] satisfying_subset [of events d "dict_get node ''op''" a out]
        unfolding evidence_in_def ids_def by (simp add: image_subset_iff) blast
    qed
  next
    case (bearing node)
    from bearing(3) show ?thesis
      by (rule eval_match_bearing_Inr) (use match_events_ids in \<open>fastforce simp: evidence_in_def\<close>)
  qed
qed simp

text \<open>
  Evidence is never fabricated: every id a rule result reports, matched or failing, is the id of an
  event of the attempt.
\<close>

theorem evidence_is_real:
  assumes "evaluate_rule X rule events anchor = Inr r"
  shows "set (rr_matched r) \<union> set (rr_failing r) \<subseteq> event_id ` set events"
  using assms eval_rule_node_evidence
  by (auto simp: evaluate_rule_def evidence_in_def simp del: eval_rule_node.simps split: if_splits)

theorem evidence_is_real_witness:
  "''e1'' \<in> event_id ` set [default_event]"
proof -
  have "evaluate_rule no_externals
     (VDict [(''op'', VStr ''never''), (''match'', VDict [(''event'', VStr ''llm_call'')])])
     [default_event] None
   = Inr \<lparr>rr_result = False, rr_matched = [''e1''], rr_failing = [''e1''], rr_value = None\<rparr>"
    by code_simp
  from evidence_is_real [OF this] show ?thesis by simp
qed

text \<open>
  The failure evidence of \<open>not\<close> is inverted: a \<open>not\<close> that fails reports no failing evidence, and a
  \<open>not\<close> that passes reports its child's matched events as failing, where the contract of a rule result
  says failing evidence is empty when the node passed.
\<close>

theorem not_failing_is_inverted:
  assumes "evaluate_rule X (VDict [(''op'', VStr ''not''), (''rule'', child)]) events anchor = Inr r"
  shows "(\<not> rr_result r \<longrightarrow> rr_failing r = [])
    \<and> (rr_result r \<longrightarrow> set (rr_matched r) \<subseteq> set (rr_failing r))"
proof -
  let ?node = "[(''op'', VStr ''not''), (''rule'', child)]"
  have "eval_rule_node X events (by_id events) (Suc MAX_RULE_DEPTH) (VDict ?node) anchor = Inr r"
    using assms by (simp add: evaluate_rule_def del: eval_rule_node.simps)
  then have "eval_not (eval_rule_node X events (by_id events) MAX_RULE_DEPTH) ?node anchor = Inr r"
    by (simp add: dict_get_def TRACE_RULE_OPS_def)
  then show ?thesis
    by (rule eval_not_Inr) (auto simp: evidence_dedupe)
qed

theorem not_failing_is_inverted_witness:
  "\<exists>r. evaluate_rule no_externals (VDict [(''op'', VStr ''not''), (''rule'',
     VDict [(''op'', VStr ''never''), (''match'', VDict [(''event'', VStr ''llm_call'')])])])
     [default_event] None = Inr r \<and> rr_result r \<and> rr_failing r \<noteq> []"
proof -
  let ?r = "\<lparr>rr_result = True, rr_matched = [''e1''], rr_failing = [''e1''], rr_value = None\<rparr>"
  have *: "evaluate_rule no_externals (VDict [(''op'', VStr ''not''), (''rule'',
     VDict [(''op'', VStr ''never''), (''match'', VDict [(''event'', VStr ''llm_call'')])])])
     [default_event] None = Inr ?r"
    by code_simp
  have "set (rr_matched ?r) \<subseteq> set (rr_failing ?r)"
    using not_failing_is_inverted [OF *] by simp
  then show ?thesis using * by auto
qed

section \<open>Exceptions\<close>

definition rule_error :: "exn \<Rightarrow> bool" where
  "rule_error e = (e \<in> {TraceRuleError, TypeError, ValueError, UnmodelledCodePoint})"

lemma compile_where_Inl: "compile_where X w = Inl e \<Longrightarrow> rule_error e"
  by (cases w) (auto simp: compile_where_def rule_error_def dest: compile_errors split: sum.splits if_splits)

lemma compile_where_Inr:
  "compile_where X w = Inr p \<Longrightarrow> \<exists>text version. compile_predicate X text version = Inr p"
  by (cases w) (auto simp: compile_where_def split: sum.splits)

lemma match_event_Inl: "match_event X m e = Inl x \<Longrightarrow> rule_error x"
  by (auto simp: match_event_def bind_res_Inl_iff rule_error_def [of TypeError] split: if_splits
      dest!: compile_where_Inl compile_where_Inr evaluate_compiled_Inl)

lemma match_events_Inl: "match_events X nm events anchor w = Inl e \<Longrightarrow> rule_error e"
  by (cases nm) (auto simp: match_events_def bind_res_Inl_iff rule_error_def [of TraceRuleError] Let_def
      split: if_splits dest!: filter_res_Inl dest: match_event_Inl)

lemma rule_error_TraceRuleError [simp]: "rule_error TraceRuleError"
  by (simp add: rule_error_def)

lemma operators_Inl:
  assumes "\<And>v a e. rec v a = Inl e \<Longrightarrow> rule_error e"
  shows "eval_and_or rec node anchor = Inl e \<Longrightarrow> rule_error e"
    and "eval_not rec node anchor = Inl e \<Longrightarrow> rule_error e"
    and "eval_implies rec node anchor = Inl e \<Longrightarrow> rule_error e"
    and "eval_for_all X events rec node anchor = Inl e \<Longrightarrow> rule_error e"
    and "eval_within_ms X events node anchor = Inl e \<Longrightarrow> rule_error e"
    and "eval_anchored X events d node anchor = Inl e \<Longrightarrow> rule_error e"
    and "eval_match_bearing X events node anchor = Inl e \<Longrightarrow> rule_error e"
  using assms
  by (auto simp: eval_and_or_def eval_not_def eval_implies_def eval_for_all_def eval_within_ms_def
      eval_anchored_def eval_match_bearing_def Let_def bind_res_Inl_iff
      dest!: traverse_Inl window_of_Inl dest: match_events_Inl
      split: pyval.splits list.splits option.splits if_splits)

lemma eval_rule_node_Inl: "eval_rule_node X events d n v anchor = Inl e \<Longrightarrow> rule_error e"
proof (induction n arbitrary: v anchor e)
  case (Suc n)
  show ?case
  proof (cases v)
    case (VDict node)
    then show ?thesis using Suc.prems operators_Inl [of "eval_rule_node X events d n", OF Suc.IH]
      by (auto simp: Let_def split: if_splits)
  qed (use Suc.prems in auto)
qed simp

text \<open>
  Containment of exceptions: whatever JSON the rule holds, evaluation returns or raises
  \<open>TraceRuleError\<close>, the \<open>TypeError\<close> of a non-string \<open>where\<close> or of naive timestamps, or the \<open>ValueError\<close>
  of a malformed number in a \<open>where\<close>; no missing key, attribute or index escapes, and the recursion
  is bounded.
\<close>

theorem evaluate_rule_contained:
  "case evaluate_rule X rule events anchor of
     Inr r \<Rightarrow> is_dict rule
   | Inl e \<Rightarrow> e \<in> {TraceRuleError, TypeError, ValueError, UnmodelledCodePoint}"
  using eval_rule_node_Inl unfolding rule_error_def
  by (auto simp: evaluate_rule_def simp del: eval_rule_node.simps split: sum.split)

section \<open>Independence of the order of events\<close>

text \<open>Two lists of the same events, with distinct ids and distinct fallback keys.\<close>

definition same_attempt :: "trace_event list \<Rightarrow> trace_event list \<Rightarrow> bool" where
  "same_attempt es es' =
     (mset es = mset es' \<and> distinct (map event_id es) \<and> distinct (map fallback_key es))"

lemma same_attempt_set: "same_attempt es es' \<Longrightarrow> set es' = set es"
  by (metis same_attempt_def set_mset_mset)

lemma same_attempt_distinct:
  assumes "same_attempt es es'"
  shows "distinct (map event_id es')" and "distinct (map fallback_key es')"
proof -
  have "mset (map event_id es') = mset (map event_id es)" "mset (map fallback_key es') = mset (map fallback_key es)"
    using assms by (simp_all add: same_attempt_def)
  then show "distinct (map event_id es')" "distinct (map fallback_key es')"
    using assms unfolding same_attempt_def by (metis mset_eq_imp_distinct_iff)+
qed

lemma same_attempt_key: "same_attempt es es' \<Longrightarrow> inj_on fallback_key (set es)"
  by (simp add: same_attempt_def distinct_map)

lemma same_attempt_by_id:
  assumes "same_attempt es es'"
  shows "map_of (by_id es') = map_of (by_id es)" and "length (by_id es') = length (by_id es)"
proof -
  have "map_of (by_id es') i = Some e \<longleftrightarrow> map_of (by_id es) i = Some e" for i e
    using by_id_lookup same_attempt_distinct [OF assms] same_attempt_set [OF assms] assms
    unfolding same_attempt_def by metis
  then show "map_of (by_id es') = map_of (by_id es)" by (metis ext not_None_eq)
  show "length (by_id es') = length (by_id es)" by (simp add: length_by_id same_attempt_set [OF assms])
qed

lemma same_attempt_ancestor:
  assumes "same_attempt es es'"
  shows "is_ancestor (by_id es') a e = is_ancestor (by_id es) a e"
proof -
  have "parent_of (by_id es') e = parent_of (by_id es) e" for e
    by (cases "parent_event_id e") (simp_all add: parent_of_def same_attempt_by_id(1) [OF assms])
  then have "parent_rel (by_id es') = parent_rel (by_id es)" by (simp add: parent_rel_def)
  then show ?thesis by (simp add: is_ancestor_iff)
qed

lemma same_attempt_start: "same_attempt es es' \<Longrightarrow> attempt_start es' = attempt_start es"
proof -
  assume s: "same_attempt es es'"
  have "es' = [] \<longleftrightarrow> es = []" using same_attempt_set [OF s] by (metis set_empty)
  then have "attempt_start es' = Some t \<longleftrightarrow> attempt_start es = Some t" for t
    by (simp add: attempt_start_least same_attempt_set [OF s])
  then show ?thesis by (metis not_None_eq)
qed

lemma same_attempt_match:
  assumes "same_attempt es es'"
    and "match_events X nm es anchor w = Inr out" and "match_events X nm es' anchor w = Inr out'"
  shows "out = out'"
proof -
  have at: "anchor_time es' anchor = anchor_time es anchor"
    by (cases anchor) (simp_all add: anchor_time_def same_attempt_start [OF assms(1)])
  have sel: "selects X es' anchor nm w = selects X es anchor nm w"
    unfolding selects_def [abs_def] at by (rule refl)
  note out = match_events_eq [OF assms(2)] match_events_eq [OF assms(3)]
  have sub: "set out = set out'" "set out \<subseteq> set es"
    unfolding out sel by (auto simp: same_attempt_set [OF assms(1)])
  have d: "distinct (map fallback_key (sort_key fallback_key (filter p xs)))"
    if "distinct (map fallback_key xs)" for p and xs :: "trace_event list"
    using that by (auto simp: distinct_map intro: inj_on_subset)
  have dist: "distinct (map fallback_key out)" "distinct (map fallback_key out')"
    unfolding out using d assms(1) same_attempt_distinct(2) [OF assms(1)] unfolding same_attempt_def by blast+
  show ?thesis
  proof (rule map_sorted_distinct_set_unique [of fallback_key])
    show "inj_on fallback_key (set out \<union> set out')"
      using same_attempt_key [OF assms(1)] sub by (auto intro: inj_on_subset)
    show "sorted (map fallback_key out)" "sorted (map fallback_key out')" unfolding out by simp_all
  qed (use dist sub in auto)
qed

lemma first_max_unique:
  assumes "inj_on f (set xs)" and "set ys = set xs"
  shows "first_max p f ys = first_max p f xs"
proof (cases "first_max p f xs")
  case None
  then have "first_max p f ys = None" unfolding first_max_None assms(2) .
  then show ?thesis using None by simp
next
  case (Some b)
  note b = first_max_Some [OF Some]
  then obtain c where c: "first_max p f ys = Some c" using assms(2) first_max_None [of p f ys] by fastforce
  note c' = first_max_Some [OF c]
  have "f b = f c" using b c' assms(2) by (intro antisym) auto
  then show ?thesis using b c' c Some assms by (auto dest: inj_onD)
qed

lemma same_attempt_satisfying:
  assumes "same_attempt es es'"
  shows "satisfying es' (by_id es') op a out = satisfying es (by_id es) op a out"
proof -
  have p: "precedes (by_id es') e1 e2 = precedes (by_id es) e1 e2" for e1 e2
    by (simp add: precedes_def same_attempt_ancestor [OF assms])
  have e: "earlier_event (by_id es') a = earlier_event (by_id es) a"
    by (simp add: fun_eq_iff earlier_event_def same_attempt_ancestor [OF assms])
  have i: "immediately_before es' (by_id es') a = immediately_before es (by_id es) a"
    unfolding immediately_before_def [abs_def] e
      first_max_unique [OF same_attempt_key [OF assms] same_attempt_set [OF assms]] by (rule refl)
  show ?thesis by (simp add: satisfying_def p i follows_precedes immediate_predecessors_eq)
qed

lemma traverse_unique:
  "traverse f xs = Inr rs \<Longrightarrow> traverse g xs = Inr rs' \<Longrightarrow>
   (\<And>x r r'. f x = Inr r \<Longrightarrow> g x = Inr r' \<Longrightarrow> r = r') \<Longrightarrow> rs = rs'"
  by (induction xs arbitrary: rs rs') (auto simp: bind_res_Inr_iff)

lemma eval_rule_node_same:
  assumes s: "same_attempt es es'"
  shows "eval_rule_node X es (by_id es) n v anchor = Inr r \<Longrightarrow>
    eval_rule_node X es' (by_id es') n v anchor = Inr r' \<Longrightarrow> r = r'"
proof (induction n arbitrary: v anchor r r')
  case (Suc n)
  from Suc.prems(1) show ?case
  proof (cases rule: eval_rule_node_cases)
    case (and_or node)
    then have "eval_and_or (eval_rule_node X es' (by_id es') n) node anchor = Inr r'"
      using Suc.prems(2) by (auto simp: Let_def TRACE_RULE_OPS_def)
    with and_or(3) show ?thesis
      by (elim eval_and_or_Inr) (auto dest: traverse_unique [OF _ _ Suc.IH] split del: if_split)
  next
    case (neg node)
    then have "eval_not (eval_rule_node X es' (by_id es') n) node anchor = Inr r'"
      using Suc.prems(2) by (auto simp: Let_def TRACE_RULE_OPS_def)
    with neg(3) show ?thesis
      by (elim eval_not_Inr) (auto dest: Suc.IH split del: if_split)
  next
    case (implies node)
    then have "eval_implies (eval_rule_node X es' (by_id es') n) node anchor = Inr r'"
      using Suc.prems(2) by (auto simp: Let_def TRACE_RULE_OPS_def)
    with implies(3) show ?thesis
      by (elim eval_implies_Inr) (auto dest: Suc.IH split del: if_split)
  next
    case (for_all node)
    then have "eval_for_all X es' (eval_rule_node X es' (by_id es') n) node anchor = Inr r'"
      using Suc.prems(2) by (auto simp: Let_def TRACE_RULE_OPS_def)
    with for_all(3) show ?thesis
      by (elim eval_for_all_Inr)
        (auto dest!: same_attempt_match [OF s] dest: traverse_unique [OF _ _ Suc.IH] split del: if_split)
  next
    case (within node)
    then have "eval_within_ms X es' node anchor = Inr r'"
      using Suc.prems(2) by (auto simp: Let_def TRACE_RULE_OPS_def)
    with within(3) show ?thesis
      by (elim eval_within_ms_Inr) (auto dest!: same_attempt_match [OF s])
  next
    case (anchored node)
    then have "eval_anchored X es' (by_id es') node anchor = Inr r'"
      using Suc.prems(2) by (auto simp: Let_def TRACE_RULE_OPS_def)
    with anchored(3) show ?thesis
      by (elim eval_anchored_Inr)
        (auto dest!: same_attempt_match [OF s] simp: same_attempt_satisfying [OF s] split del: if_split)
  next
    case (bearing node)
    then have "eval_match_bearing X es' node anchor = Inr r'"
      using Suc.prems(2) by (auto simp: Let_def TRACE_RULE_OPS_def)
    with bearing(3) show ?thesis
      by (elim eval_match_bearing_Inr)
        (auto dest!: same_attempt_match [OF s] intro!: rule_result.equality split del: if_split)
  qed
qed simp



end
