(* ===== verification/SpecProps.thy ===== *)
theory SpecProps
  imports SpecModel TraceRuleProps
begin

text \<open>
  Properties of specification validation: what an accepted specification satisfies, that validation
  changes nothing but the provisional flag of judge metrics, and how far a validated trace rule is
  from one that evaluates.
\<close>

section \<open>Accepted specifications\<close>

definition metric_ok :: "metric \<Rightarrow> bool" where
  "metric_ok m =
     ((tg_type (mt_target m) = T_run \<or> tg_on_missing (mt_target m) \<noteq> None)
      \<and> (tg_type (mt_target m) \<in> set TOOL_SCOPED_TARGETS \<longrightarrow> tg_tool (mt_target m) \<noteq> None)
      \<and> (sc_type (mt_scoring m) \<noteq> S_categorical \<longrightarrow> sc_range (mt_scoring m) \<noteq> None)
      \<and> (\<forall>lo hi. sc_range (mt_scoring m) = Some (lo, hi) \<longrightarrow> \<not> flt_lt hi lo)
      \<and> (\<forall>g. mt_gate m = Some g \<longrightarrow> gt_min g \<noteq> None \<or> gt_max g \<noteq> None)
      \<and> (\<forall>g lo hi. mt_gate m = Some g \<and> gt_min g = Some lo \<and> gt_max g = Some hi \<longrightarrow> \<not> flt_lt hi lo)
      \<and> (mt_type m = M_judge \<longrightarrow> mt_judge_binding m \<noteq> None \<and> el_type (mt_evaluator m) = E_llm_judge)
      \<and> (sc_type (mt_scoring m) = S_binary \<and> numeric_producing (mt_evaluator m) \<longrightarrow>
           given (sc_condition (mt_scoring m)))
      \<and> (el_type (mt_evaluator m) = E_trace_rule \<longrightarrow>
           (\<exists>r. el_rule (mt_evaluator m) = Some r \<and> validate_rule (VDict r) = Inr ())))"

lemma validate_target_Inr:
  "validate_target t = Inr u \<Longrightarrow>
   (tg_type t = T_run \<or> tg_on_missing t \<noteq> None) \<and> (tg_type t \<in> set TOOL_SCOPED_TARGETS \<longrightarrow> tg_tool t \<noteq> None)"
  by (auto simp: validate_target_def ensure_Inr_iff split: if_splits)

lemma validate_scoring_Inr:
  "validate_scoring s = Inr u \<Longrightarrow>
   (sc_type s \<noteq> S_categorical \<longrightarrow> sc_range s \<noteq> None) \<and> (\<forall>lo hi. sc_range s = Some (lo, hi) \<longrightarrow> \<not> flt_lt hi lo)"
  by (cases "sc_type s") (auto simp: validate_scoring_def ensure_Inr_iff split: if_splits)

lemma validate_gate_Inr:
  "validate_gate g = Inr u \<Longrightarrow>
   (gt_min g \<noteq> None \<or> gt_max g \<noteq> None)
   \<and> (\<forall>lo hi. gt_min g = Some lo \<and> gt_max g = Some hi \<longrightarrow> \<not> flt_lt hi lo)"
  by (auto simp: validate_gate_def ensure_Inr_iff split: if_splits)

lemma validate_metric_parts:
  assumes "validate_metric X b m = Inr m'"
  shows "validate_target (mt_target m) = Inr ()" and "validate_evaluator X (mt_evaluator m) = Inr ()"
    and "validate_scoring (mt_scoring m) = Inr ()"
    and "\<forall>g. mt_gate m = Some g \<longrightarrow> validate_gate g = Inr ()"
    and "judge_requires_binding b m = Inr m'" and "scoring_condition_required m' = Inr ()"
  using assms by (auto simp: validate_metric_def bind_res_Inr_iff split: option.splits)

lemma judge_requires_binding_Inr:
  "judge_requires_binding b m = Inr m' \<Longrightarrow>
   (m' = (if mt_type m = M_judge \<and> \<not> b then m\<lparr>mt_provisional := True\<rparr> else m))
   \<and> (mt_type m = M_judge \<longrightarrow> mt_judge_binding m \<noteq> None \<and> el_type (mt_evaluator m) = E_llm_judge)"
  by (auto simp: judge_requires_binding_def split: if_splits)

lemma validate_metric_ok:
  assumes "validate_metric X b m = Inr m'"
  shows "metric_ok m'"
proof -
  note p = validate_metric_parts [OF assms]
  note j = judge_requires_binding_Inr [OF p(5)]
  have same: "mt_target m' = mt_target m" "mt_evaluator m' = mt_evaluator m" "mt_scoring m' = mt_scoring m"
    "mt_gate m' = mt_gate m" "mt_type m' = mt_type m" "mt_judge_binding m' = mt_judge_binding m"
    using j by (auto split: if_splits)
  have "el_type (mt_evaluator m) = E_trace_rule \<longrightarrow>
      (\<exists>r. el_rule (mt_evaluator m) = Some r \<and> validate_rule (VDict r) = Inr ())"
    using p(2) by (auto simp: validate_evaluator_def split: option.splits)
  moreover have "sc_type (mt_scoring m) = S_binary \<and> numeric_producing (mt_evaluator m) \<longrightarrow>
      given (sc_condition (mt_scoring m))"
    using p(6) by (auto simp: scoring_condition_required_def ensure_Inr_iff same)
  ultimately show ?thesis
    unfolding metric_ok_def same
    using validate_target_Inr [OF p(1)] validate_scoring_Inr [OF p(3)] p(4) validate_gate_Inr j by auto
qed

lemma duplicates_Nil: "duplicates xs = [] \<longleftrightarrow> distinct xs"
proof
  assume none: "duplicates xs = []"
  have le: "count_list xs x \<le> 1" for x
    using none by (cases "x \<in> set xs") (auto simp: duplicates_def filter_empty_conv not_less count_notin)
  show "distinct xs"
  proof (rule ccontr)
    assume "\<not> distinct xs"
    then obtain as bs cs y where "xs = as @ [y] @ bs @ [y] @ cs"
      using not_distinct_decomp by blast
    then show False using le [of y] by simp
  qed
next
  assume "distinct xs"
  then have "count_list xs x \<le> 1" for x by (induction xs) (auto simp: count_notin)
  then show "duplicates xs = []" by (auto simp: duplicates_def filter_empty_conv not_less)
qed

definition spec_ok :: "evaluation_spec \<Rightarrow> bool" where
  "spec_ok s =
     (distinct (map tc_case_id (sp_cases s)) \<and> distinct (map mt_metric_id (sp_metrics s))
      \<and> list_all metric_ok (sp_metrics s)
      \<and> list_all (\<lambda>c. tc_case_id c \<noteq> [] \<and> list_all (\<lambda>st. ss_kind st = Wait_for_input \<longrightarrow> ss_provided_input st = None)
          (tc_script c)) (sp_cases s))"

text \<open>
  C22. What acceptance guarantees: an accepted specification has unique case and metric ids, every metric
  declares what a missing observation means unless it observes the run, every range and gate is in
  order, judge metrics carry a binding and an LLM judge, binary scoring of a number has its
  condition, and trace rules are structurally valid.
\<close>

theorem accepted_spec_ok:
  assumes "validate_spec X given_provisional s = Inr s'"
  shows "spec_ok s'"
proof -
  obtain ms where c: "each_res validate_test_case (sp_cases s) = Inr ()"
    and ms: "traverse (\<lambda>m. validate_metric X (given_provisional m) m) (sp_metrics s) = Inr ms"
    and u: "unique_ids (s\<lparr>sp_metrics := ms\<rparr>) = Inr ()" and s': "s' = s\<lparr>sp_metrics := ms\<rparr>"
    using assms by (auto simp: validate_spec_def bind_res_Inr_iff)
  have "\<forall>m\<in>set ms. metric_ok m" using traverse_set [OF ms] validate_metric_ok by blast
  moreover have "\<forall>x\<in>set (sp_cases s). validate_test_case x = Inr ()" using c by (simp add: each_res_Inr)
  then have "\<forall>x\<in>set (sp_cases s). tc_case_id x \<noteq> [] \<and> (\<forall>st\<in>set (tc_script x).
      ss_kind st = Wait_for_input \<longrightarrow> ss_provided_input st = None)"
    by (fastforce simp: validate_test_case_def bind_res_Inr_iff ensure_Inr_iff each_res_Inr
        validate_script_step_def split: if_splits)
  ultimately show ?thesis
    using u by (auto simp: spec_ok_def s' unique_ids_def ensure_Inr_iff duplicates_Nil list_all_iff split: if_splits)
qed

text \<open>A small accepted specification.\<close>

definition plain_metric :: metric where
  "plain_metric = \<lparr>mt_metric_id = ''m1'', mt_name = ''no llm call'', mt_type = M_trace_rule,
     mt_target = \<lparr>tg_type = T_trace, tg_tool = None, tg_selector = None, tg_occurrence = None,
       tg_on_missing = Some OM_fail\<rparr>,
     mt_evaluator = \<lparr>el_type = E_trace_rule, el_expected = VNull, el_tolerance = None, el_pattern = None,
       el_schema = None, el_predicate = None, el_language_version = None,
       el_rule = Some [(''op'', VStr ''never''), (''match'', VDict [(''event'', VStr ''llm_call'')])],
       el_rubric_version_id = None, el_k = None, el_evidence = None\<rparr>,
     mt_scoring = \<lparr>sc_type = S_binary, sc_range = Some (Fin 0, Fin 1), sc_categories = None, sc_condition = None\<rparr>,
     mt_aggregation = \<lparr>ag_method = A_pass_rate, ag_on_error = OE_fail\<rparr>,
     mt_gate = Some \<lparr>gt_min = Some (Fin 1), gt_max = None\<rparr>, mt_weight = Fin 1, mt_judge_binding = None,
     mt_provisional = False\<rparr>"

definition plain_spec :: evaluation_spec where
  "plain_spec = \<lparr>sp_spec_version = ''1'', sp_name = ''s'', sp_dataset_version = ''d'',
     sp_cases = [\<lparr>tc_case_id = ''c1'', tc_name = ''case'', tc_description = [], tc_input = [],
       tc_expected = [], tc_metadata = [], tc_script = []\<rparr>],
     sp_metrics = [plain_metric], sp_run_tier = None\<rparr>"

lemma plain_spec_accepted: "validate_spec no_externals (\<lambda>_. False) plain_spec = Inr plain_spec"
  by code_simp

theorem accepted_spec_ok_witness: "spec_ok plain_spec"
  using accepted_spec_ok [OF plain_spec_accepted] .

text \<open>
  Validation rejects, it never adjusts: an accepted specification is the given one, except that a
  judge metric whose author did not set the flag becomes provisional.
\<close>

theorem validation_never_adjusts:
  assumes "validate_spec X given_provisional s = Inr s'"
  shows "s' = s\<lparr>sp_metrics := map (\<lambda>m. if mt_type m = M_judge \<and> \<not> given_provisional m
                                     then m\<lparr>mt_provisional := True\<rparr> else m) (sp_metrics s)\<rparr>"
proof -
  obtain ms where ms: "traverse (\<lambda>m. validate_metric X (given_provisional m) m) (sp_metrics s) = Inr ms"
    and s': "s' = s\<lparr>sp_metrics := ms\<rparr>"
    using assms by (auto simp: validate_spec_def bind_res_Inr_iff)
  have "m' = (if mt_type m = M_judge \<and> \<not> b then m\<lparr>mt_provisional := True\<rparr> else m)"
    if "validate_metric X b m = Inr m'" for b m m'
    using judge_requires_binding_Inr [OF validate_metric_parts(5) [OF that]] by blast
  then have "ms = map (\<lambda>m. if mt_type m = M_judge \<and> \<not> given_provisional m
      then m\<lparr>mt_provisional := True\<rparr> else m) (sp_metrics s)"
    using ms by (induction "sp_metrics s" arbitrary: ms s) (auto simp: traverse_Inr_iff list_all2_conv_all_nth intro!: nth_equalityI)
  then show ?thesis by (simp add: s')
qed

theorem validation_never_adjusts_witness:
  "plain_spec = plain_spec\<lparr>sp_metrics := [plain_metric]\<rparr>"
  using validation_never_adjusts [OF plain_spec_accepted] by (simp add: plain_spec_def plain_metric_def)

section \<open>Validated rules and evaluation\<close>

definition matches_total :: "externals \<Rightarrow> trace_event list \<Rightarrow> pydict \<Rightarrow> bool" where
  "matches_total X events node =
     (case dict_get node ''match'' of
        VDict m \<Rightarrow> (\<forall>e\<in>set events. \<exists>b. match_event X m e = Inr b) | _ \<Rightarrow> False)"

text \<open>
  What a rule needs beyond structural validity: an anchor wherever an anchored operator stands, exactly
  one valid consequent under each \<open>implies\<close>, and \<open>where\<close> predicates that compile and evaluate on the
  events.
\<close>

fun evaluable :: "externals \<Rightarrow> trace_event list \<Rightarrow> nat \<Rightarrow> bool \<Rightarrow> pyval \<Rightarrow> bool" where
  "evaluable X events 0 anchored v = False"
| "evaluable X events (Suc n) anchored v =
     (case v of
        VDict node \<Rightarrow>
          let op = dict_get node ''op'';
              children = (case dict_get node ''rules'' of VList rs \<Rightarrow> rs | _ \<Rightarrow> []) in
          if op = VStr ''and'' \<or> op = VStr ''or'' then list_all (evaluable X events n anchored) children
          else if op = VStr ''not'' then evaluable X events n anchored (dict_get node ''rule'')
          else if op = VStr ''implies'' then
            evaluable X events n anchored (dict_get node ''rule'')
            \<and> (\<exists>c. children = [c] \<and> validate_trace_rule_body n False c = Inr () \<and> evaluable X events n anchored c)
          else if op = VStr ''for_all'' then
            matches_total X events node \<and> evaluable X events n True (dict_get node ''assert'')
          else if op \<in> {VStr ''exists_before'', VStr ''exists_after'', VStr ''immediately_precedes''} then
            anchored \<and> matches_total X events node
          else matches_total X events node
      | _ \<Rightarrow> False)"

lemma match_events_total:
  assumes "validate_match m = Inr u" and "\<forall>e\<in>set events. \<exists>b. match_event X m e = Inr b"
  shows "\<exists>out. match_events X (VDict m) events anchor w = Inr out"
proof -
  have "dict_get m ''source'' = VNull \<or> dict_get m ''source'' \<in> set (map VStr SOURCES)"
    using assms(1) by (auto simp: validate_match_def ensure_Inr_iff split: if_splits)
  moreover obtain out where "filter_res (match_event X m) events = Inr out"
    using filter_res_ex [of events "match_event X m"] assms(2) by blast
  ultimately show ?thesis by (simp add: match_events_def Let_def)
qed

lemma window_of_total: "dict_get node ''within_ms'' = VNull \<or> is_int (dict_get node ''within_ms'') \<Longrightarrow>
  \<exists>w. window_of node = Inr w"
  by (cases "dict_get node ''within_ms''") (auto simp: window_of_def is_int_def)

text \<open>The structural facts a validated match-bearing node gives.\<close>

lemma validated_match_node:
  assumes "validate_rule_node rec r node = Inr ()" and "dict_get node ''op'' \<notin> set (map VStr (COMPOUND_OPS @ UNARY_OPS))"
    and "matches_total X events node"
  shows "is_dict (dict_get node ''match'')" and "\<exists>w. window_of node = Inr w"
    and "\<exists>out. match_events X (dict_get node ''match'') events anchor w = Inr out"
    and "dict_get node ''op'' = VStr ''within_ms'' \<Longrightarrow> \<exists>ms. as_int (dict_get node ''ms'') = Some ms"
    and "dict_get node ''op'' = VStr ''for_all'' \<Longrightarrow>
      is_dict (dict_get node ''assert'') \<and> rec (dict_get node ''assert'') = Inr ()"
proof -
  obtain m where m: "dict_get node ''match'' = VDict m"
    using assms(3) by (auto simp: matches_total_def split: pyval.splits)
  have v: "validate_match m = Inr ()"
    and w: "dict_get node ''within_ms'' = VNull \<or> is_int (dict_get node ''within_ms'')"
    using assms(1,2) by (auto simp: validate_rule_node_def Let_def m bind_res_Inr_iff split: if_splits)
  show "is_dict (dict_get node ''match'')" by (simp add: m)
  show "\<exists>w. window_of node = Inr w" using w by (rule window_of_total)
  show "\<exists>out. match_events X (dict_get node ''match'') events anchor w = Inr out"
    using match_events_total [OF v] assms(3) by (simp add: m matches_total_def)
  show "\<exists>ms. as_int (dict_get node ''ms'') = Some ms" if "dict_get node ''op'' = VStr ''within_ms''"
    using assms(1,2) that by (auto simp: validate_rule_node_def Let_def m is_int_def split: if_splits)
  show "is_dict (dict_get node ''assert'') \<and> rec (dict_get node ''assert'') = Inr ()"
    if "dict_get node ''op'' = VStr ''for_all''"
    using assms(1,2) that by (auto simp: validate_rule_node_def Let_def m bind_res_Inr_iff split: if_splits)
qed

lemma validated_compound_node:
  assumes "validate_rule_node rec r node = Inr ()" "dict_get node ''op'' = VStr ''and'' \<or> dict_get node ''op'' = VStr ''or''"
  obtains rules where "dict_get node ''rules'' = VList rules" "rules \<noteq> []" "\<forall>x\<in>set rules. rec x = Inr ()"
proof -
  have ops: "dict_get node ''op'' \<in> set (map VStr TRACE_RULE_OPS)" "dict_get node ''op'' \<in> set (map VStr COMPOUND_OPS)"
    using assms(2) by (auto simp: TRACE_RULE_OPS_def COMPOUND_OPS_def)
  have "(case dict_get node ''rules'' of
      VList rules \<Rightarrow> if rules = [] then Inl ValueError else each_res rec rules | _ \<Rightarrow> Inl ValueError) = Inr ()"
    using assms(1) unfolding validate_rule_node_def Let_def by (simp only: ops not_True_eq_False if_False if_True)
  then show thesis
    using that by (cases "dict_get node ''rules''") (auto simp: each_res_Inr split: if_splits)
qed

lemma eval_rule_node_total:
  "validate_trace_rule_body n r v = Inr () \<Longrightarrow> evaluable X events n anchored v \<Longrightarrow> (anchored \<Longrightarrow> anchor \<noteq> None) \<Longrightarrow>
   \<exists>res. eval_rule_node X events d n v anchor = Inr res"
proof (induction n arbitrary: r v anchored anchor)
  case (Suc n)
  note IH = Suc.IH
  obtain node where v: "v = VDict node" using Suc.prems(1) by (cases v) auto
  let ?op = "dict_get node ''op''" and ?rec = "eval_rule_node X events d n"
  have val: "validate_rule_node (validate_trace_rule_body n False) r node = Inr ()"
    using Suc.prems(1) by (simp add: v)
  then have op: "?op \<in> set (map VStr TRACE_RULE_OPS)" by (auto simp: validate_rule_node_def Let_def split: if_splits)
  have ev: "evaluable X events (Suc n) anchored (VDict node)" using Suc.prems(2) by (simp only: v)
  consider (c) "?op = VStr ''and'' \<or> ?op = VStr ''or''" | (n) "?op = VStr ''not''" | (i) "?op = VStr ''implies''"
    | (m) "?op \<in> {VStr ''for_all'', VStr ''within_ms'', VStr ''exists_before'', VStr ''exists_after'',
        VStr ''immediately_precedes'', VStr ''exists'', VStr ''never'', VStr ''count''}"
    using op by (auto simp: TRACE_RULE_OPS_def)
  then show ?case
  proof cases
    case c
    then obtain rules where rules: "dict_get node ''rules'' = VList rules" "rules \<noteq> []"
      "\<forall>x\<in>set rules. validate_trace_rule_body n False x = Inr ()"
      using validated_compound_node [OF val] by metis
    have "\<forall>x\<in>set rules. evaluable X events n anchored x" using ev c rules by (auto simp: list_all_iff Let_def)
    then obtain rs where "traverse (\<lambda>x. ?rec x anchor) rules = Inr rs"
      using traverse_ex [of rules "\<lambda>x. ?rec x anchor"] IH rules(3) Suc.prems(3) by blast
    then have "\<exists>res. eval_and_or ?rec node anchor = Inr res" using rules by (simp add: eval_and_or_def Let_def)
    then show ?thesis using c by (auto simp: v Let_def TRACE_RULE_OPS_def)
  next
    case n
    then have "is_dict (dict_get node ''rule'')" "validate_trace_rule_body n False (dict_get node ''rule'') = Inr ()"
      using val by (auto simp: validate_rule_node_def Let_def COMPOUND_OPS_def UNARY_OPS_def TRACE_RULE_OPS_def
          split: if_splits)
    moreover have "evaluable X events n anchored (dict_get node ''rule'')" using ev n by (simp add: Let_def)
    ultimately have "\<exists>res. eval_not ?rec node anchor = Inr res"
      using IH [of False "dict_get node ''rule''" anchored anchor] Suc.prems(3) by (auto simp: eval_not_def Let_def)
    then show ?thesis using n by (auto simp: v Let_def TRACE_RULE_OPS_def)
  next
    case i
    then have a: "is_dict (dict_get node ''rule'')" "validate_trace_rule_body n False (dict_get node ''rule'') = Inr ()"
      using val by (auto simp: validate_rule_node_def Let_def COMPOUND_OPS_def UNARY_OPS_def TRACE_RULE_OPS_def
          split: if_splits)
    obtain c where c: "dict_get node ''rules'' = VList [c]" "validate_trace_rule_body n False c = Inr ()"
      "evaluable X events n anchored c" "evaluable X events n anchored (dict_get node ''rule'')"
      using ev i by (auto simp: Let_def split: pyval.splits)
    obtain ar where "?rec (dict_get node ''rule'') anchor = Inr ar" using IH [OF a(2) c(4) Suc.prems(3)] by blast
    moreover obtain br where "?rec c anchor = Inr br" using IH [OF c(2,3) Suc.prems(3)] by blast
    ultimately have "\<exists>res. eval_implies ?rec node anchor = Inr res" using a(1) c(1) by (simp add: eval_implies_def Let_def)
    then show ?thesis using i by (auto simp: v Let_def TRACE_RULE_OPS_def)
  next
    case m
    then have nc: "?op \<notin> set (map VStr (COMPOUND_OPS @ UNARY_OPS))" by (auto simp: COMPOUND_OPS_def UNARY_OPS_def)
    have tot: "matches_total X events node" using ev m by (auto simp: Let_def)
    note node = validated_match_node [OF val nc tot]
    obtain w where w: "window_of node = Inr w" using node(2) by blast
    obtain out where out: "match_events X (dict_get node ''match'') events anchor w = Inr out" using node(3) by blast
    show ?thesis
    proof (cases "?op = VStr ''for_all''")
      case True
      have ea: "evaluable X events n True (dict_get node ''assert'')" using ev True by (simp add: Let_def)
      have "\<exists>rs. traverse (\<lambda>e. ?rec (dict_get node ''assert'') (Some e)) out = Inr rs"
        using node(5) [OF True] IH [OF _ ea] by (intro traverse_ex) blast
      then have "\<exists>res. eval_for_all X events ?rec node anchor = Inr res"
        using node(1) node(5) [OF True] w out by (auto simp: eval_for_all_def Let_def)
      then show ?thesis using True by (simp add: v Let_def TRACE_RULE_OPS_def)
    next
      case False
      consider (w) "?op = VStr ''within_ms''"
        | (a) "?op \<in> {VStr ''exists_before'', VStr ''exists_after'', VStr ''immediately_precedes''}"
        | (b) "?op \<in> {VStr ''exists'', VStr ''never'', VStr ''count''}"
        using m False by blast
      then show ?thesis
      proof cases
        case w
        then obtain ms where ms: "as_int (dict_get node ''ms'') = Some ms" using node(4) by blast
        obtain out' where "match_events X (dict_get node ''match'') events anchor (Some ms) = Inr out'"
          using node(3) by blast
        then have "\<exists>res. eval_within_ms X events node anchor = Inr res"
          using node(1) ms by (simp add: eval_within_ms_def)
        then show ?thesis using w by (simp add: v Let_def TRACE_RULE_OPS_def)
      next
        case a
        then have "anchored" using ev by (auto simp: Let_def)
        then obtain an where "anchor = Some an" using Suc.prems(3) by auto
        then have "\<exists>res. eval_anchored X events d node anchor = Inr res"
          using node(1) w out by (simp add: eval_anchored_def Let_def)
        then show ?thesis using a by (auto simp: v Let_def TRACE_RULE_OPS_def)
      next
        case b
        have "\<exists>res. eval_match_bearing X events node anchor = Inr res"
          using node(1) w out by (simp add: eval_match_bearing_def Let_def)
        then show ?thesis using b by (auto simp: v Let_def TRACE_RULE_OPS_def)
      qed
    qed
  qed
qed simp



text \<open>
  The gap is real: the validator accepts an \<open>implies\<close> without a consequent and an anchored operator
  at the root, and neither ever evaluates, on any events.
\<close>

theorem validated_rules_never_evaluate:
  "validate_rule (VDict [(''op'', VStr ''implies''), (''rule'', VDict [(''op'', VStr ''exists''),
       (''match'', VDict [(''event'', VStr ''tool_call'')])])]) = Inr ()
   \<and> evaluate_rule X (VDict [(''op'', VStr ''implies''), (''rule'', VDict [(''op'', VStr ''exists''),
       (''match'', VDict [(''event'', VStr ''tool_call'')])])]) events anchor = Inl TraceRuleError
   \<and> validate_rule (VDict [(''op'', VStr ''exists_before''), (''match'', VDict [(''event'', VStr ''tool_call'')])]) = Inr ()
   \<and> evaluate_rule X (VDict [(''op'', VStr ''exists_before''), (''match'', VDict [(''event'', VStr ''tool_call'')])])
       events None = Inl TraceRuleError"
proof (intro conjI)
  show "evaluate_rule X (VDict [(''op'', VStr ''implies''), (''rule'', VDict [(''op'', VStr ''exists''),
       (''match'', VDict [(''event'', VStr ''tool_call'')])])]) events anchor = Inl TraceRuleError"
    by (simp add: evaluate_rule_def dict_get_def TRACE_RULE_OPS_def eval_implies_def)
  show "evaluate_rule X (VDict [(''op'', VStr ''exists_before''), (''match'', VDict [(''event'', VStr ''tool_call'')])])
       events None = Inl TraceRuleError"
    by (simp add: evaluate_rule_def dict_get_def TRACE_RULE_OPS_def eval_anchored_def)
qed code_simp+

end
