(* ===== verification/ScoringProps.thy ===== *)
theory ScoringProps
  imports Scoring AggregationProps ConditionProps SpecProps
begin

text \<open>
  Properties of case scoring: the shape of every result and where its evidence comes from, first attempts
  only, independence of the storage order, containment of errors, scores between 0 and 1, and the
  contract of custom evaluators.
\<close>

section \<open>Sums and means of unit scores\<close>

text \<open>A score of the unit interval, or NaN.\<close>

fun unit_flt :: "flt \<Rightarrow> bool" where
  "unit_flt (Fin q) = (0 \<le> q \<and> q \<le> 1)"
| "unit_flt NaN = True"
| "unit_flt _ = False"

text \<open>What scoring relies on \<open>sum\<close> for.\<close>

locale float_summation =
  fixes fsum :: "flt list \<Rightarrow> flt"
  assumes fsum_unit: "vs \<noteq> [] \<Longrightarrow> length vs < 2 ^ 53 \<Longrightarrow> (\<And>v. v \<in> set vs \<Longrightarrow> unit_flt v \<and> v \<noteq> NaN) \<Longrightarrow>
      \<exists>q. fsum vs = Fin q \<and> 0 \<le> q \<and> q \<le> of_nat (length vs)"
    and fsum_NaN: "NaN \<in> set vs \<Longrightarrow> fsum vs = NaN"
begin

lemma mean_unit:
  assumes "vs \<noteq> []" and "length vs < 2 ^ 53" and "\<And>v. v \<in> set vs \<Longrightarrow> unit_flt v"
  shows "unit_flt (flt_div (fsum vs) (len_float (length vs)))"
proof (cases "NaN \<in> set vs")
  case True
  then show ?thesis by (simp add: fsum_NaN)
next
  case False
  then obtain q where q: "fsum vs = Fin q" "0 \<le> q" "q \<le> of_nat (length vs)"
    using fsum_unit [OF assms(1,2)] assms(3) by metis
  let ?n = "of_nat (length vs) :: rat"
  have n: "0 < ?n" using assms(1) by simp
  have "?n < of_nat (2 ^ 53)" using assms(2) by (simp only: of_nat_less_iff)
  then have len: "len_float (length vs) = Fin ?n"
    using assms(2) round64_of_nat [of "length vs"] by (simp add: len_float_def below_float_limit)
  have u: "0 \<le> q / ?n" "q / ?n \<le> 1" using q n by (auto simp: divide_le_eq)
  then have "rat_to_float (q / ?n) = Fin (round64 (q / ?n))" by (intro below_float_limit) simp
  then show ?thesis using round64_unit [OF u] by (simp add: q(1) len)
qed

end

lemma foldl_add_NaN: "foldl flt_add NaN vs = NaN"
  by (induction vs) simp_all

lemma foldl_add_NaN_in: "NaN \<in> set vs \<Longrightarrow> foldl flt_add x vs = NaN"
proof (induction vs arbitrary: x)
  case (Cons v vs)
  then show ?case by (cases "v = NaN"; cases x) (auto simp: foldl_add_NaN)
qed simp

lemma foldl_add_unit:
  "length vs + k < 2 ^ 53 \<Longrightarrow> (\<And>v. v \<in> set vs \<Longrightarrow> unit_flt v \<and> v \<noteq> NaN) \<Longrightarrow> 0 \<le> q \<Longrightarrow> q \<le> of_nat k \<Longrightarrow>
   \<exists>r. foldl flt_add (Fin q) vs = Fin r \<and> 0 \<le> r \<and> r \<le> of_nat (length vs + k)"
proof (induction vs arbitrary: q k)
  case (Cons v vs)
  obtain a where a: "v = Fin a" "0 \<le> a" "a \<le> 1" using Cons.prems(2) [of v] by (cases v) auto
  have le: "q + a \<le> of_int (int (Suc k))" using Cons.prems(4) a(3) by simp
  have "(of_nat (Suc k) :: rat) < of_nat (2 ^ 53)" using Cons.prems(1) unfolding of_nat_less_iff by simp
  then have "\<bar>q + a\<bar> \<le> 2 ^ 53" using Cons.prems(3,4) a by simp
  then have add: "flt_add (Fin q) v = Fin (round64 (q + a))" by (simp add: a(1) below_float_limit)
  have up: "round64 (q + a) \<le> of_int (int (Suc k))"
  proof (cases "q + a = 0")
    case False
    then show ?thesis using Cons.prems(1,3) a(2) by (intro round64_le_int [OF _ le]) auto
  qed (simp add: round64_def Let_def)
  have "0 \<le> round64 (q + a)" using Cons.prems(3) a(2) by (intro round64_nonneg) simp
  then show ?case using Cons.IH [of "Suc k" "round64 (q + a)"] Cons.prems(1,2) up add by simp
qed auto

interpretation plain: float_summation plain_sum
proof
  fix vs :: "flt list"
  assume vs: "vs \<noteq> []" "length vs < 2 ^ 53" "\<And>v. v \<in> set vs \<Longrightarrow> unit_flt v \<and> v \<noteq> NaN"
  obtain x ws where x: "vs = x # ws" using vs(1) by (cases vs) auto
  obtain a where a: "x = Fin a" "0 \<le> a" "a \<le> 1" using vs(3) [of x] x by (cases x) auto
  show "\<exists>q. plain_sum vs = Fin q \<and> 0 \<le> q \<and> q \<le> of_nat (length vs)"
    using foldl_add_unit [of ws 1 a] vs(2,3) a x by simp
next
  fix vs :: "flt list"
  assume "NaN \<in> set vs"
  then show "plain_sum vs = NaN"
    by (cases vs) (auto simp: foldl_add_NaN foldl_add_NaN_in)
qed

section \<open>Scores of raw values\<close>

lemma normalize_clamped: "unit_flt (flt_min (flt_max z (Fin 0)) (Fin 1))"
  by (cases z) (auto simp: flt_min_def flt_max_def)

lemma normalize_unit: "normalize_score s raw = Inr f \<Longrightarrow> unit_flt f"
  by (auto simp: normalize_score_def unit_score_def bind_res_Inr_iff normalize_clamped
      split: if_splits option.splits)

lemma index_of_less: "index_of s cs = Some i \<Longrightarrow> i < length cs"
  by (induction cs arbitrary: i) (auto split: if_splits)

lemma category_unit: "category_score X cs raw = Inr (Some f) \<Longrightarrow> unit_flt f"
proof -
  assume *: "category_score X cs raw = Inr (Some f)"
  then obtain i where i: "index_of (py_str X raw) cs = Some i"
    by (auto simp: category_score_def split: option.splits if_splits)
  show "unit_flt f"
  proof (cases "1 < length cs")
    case True
    then obtain q where "int_div (int i) (int (length cs) - 1) = Inr (Fin q)" "0 \<le> q" "q \<le> 1"
      using int_div_unit [of "int i" "int (length cs) - 1"] index_of_less [OF i] by auto
    then show ?thesis using * i True by (auto simp: category_score_def split: if_splits)
  next
    case False
    then show ?thesis using * i by (auto simp: category_score_def split: if_splits)
  qed
qed

text \<open>Every score of a raw value is a verdict with the evidence it was given.\<close>

lemma score_raw_list_Inr:
  "score_raw_list X m c raws ev t = Inr s \<Longrightarrow>
   \<exists>f p. s = verdict_result m c t f p ev (safe_raw_value (VList raws))
     \<and> ((\<exists>b. f = unit_score b) \<or> (\<exists>norms. f = float_mean X norms \<and> norms \<noteq> []
          \<and> traverse (normalize_score (mt_scoring m)) raws = Inr norms))"
  unfolding score_raw_list_def
  by (cases "sc_type (mt_scoring m)") (auto simp: bind_res_Inr_iff split: if_splits)

lemma verdict_ex: "unit_flt f \<Longrightarrow>
    \<exists>f' p'. verdict_result m c t f p ev r = verdict_result m c t f' p' ev r \<and> unit_flt f'"
  by blast

lemma score_raw_scalar_Inr:
  "score_raw_scalar X m c raw ev t = Inr s \<Longrightarrow>
   \<exists>f p. s = verdict_result m c t f p ev (safe_raw_value raw) \<and> unit_flt f"
  unfolding score_raw_scalar_def
  by (cases "sc_type (mt_scoring m)")
    (auto simp: bind_res_Inr_iff unit_score_def split: option.splits
      intro: verdict_ex normalize_unit category_unit intro!: verdict_ex [of "if b then Fin 1 else Fin 0" for b])

lemma score_raw_value_Inr:
  "score_raw_value X m c raw ev t = Inr s \<Longrightarrow> \<exists>f p r. s = verdict_result m c t f p ev r"
  by (cases raw) (auto simp: score_raw_value_def dest!: score_raw_list_Inr score_raw_scalar_Inr)

text \<open>
  A score derived from a raw value lies between 0 and 1, or is NaN: the clamped normalisation, the
  position among the categories, the mean over a list of fewer than 2 ^ 53 values, and the binary 1 and
  0, for every \<open>sum\<close> that keeps unit values within their count.
\<close>

theorem raw_scores_are_unit:
  assumes "float_summation (float_sum X)" and "score_raw_value X m case_id raw evidence t = Inr s"
    and "\<And>raws. raw = VList raws \<Longrightarrow> length raws < 2 ^ 53"
  shows "\<exists>f. cs_score s = Some f \<and> unit_flt f"
proof (cases "is_list raw")
  case True
  then obtain raws where raws: "raw = VList raws" by (cases raw) auto
  then obtain f p where s: "s = verdict_result m case_id t f p evidence (safe_raw_value (VList raws))"
    and f: "(\<exists>b. f = unit_score b) \<or> (\<exists>norms. f = float_mean X norms \<and> norms \<noteq> []
          \<and> traverse (normalize_score (mt_scoring m)) raws = Inr norms)"
    using score_raw_list_Inr [of X m case_id raws evidence t s] assms(2) by (auto simp: score_raw_value_def)
  from f have "unit_flt f"
  proof (elim disjE exE conjE)
    fix norms
    assume n: "f = float_mean X norms" "norms \<noteq> []" "traverse (normalize_score (mt_scoring m)) raws = Inr norms"
    have "unit_flt v" if "v \<in> set norms" for v using traverse_set [OF n(3) that] normalize_unit by blast
    moreover have "length norms < 2 ^ 53" using traverse_length [OF n(3)] assms(3) [OF raws] by simp
    ultimately show ?thesis
      using float_summation.mean_unit [OF assms(1) n(2)] by (simp add: n(1) float_mean_def)
  qed (simp add: unit_score_def)
  then show ?thesis by (simp add: s verdict_result_def case_result_def)
next
  case False
  then have "score_raw_scalar X m case_id raw evidence t = Inr s"
    using assms(2) by (cases raw) (simp_all add: score_raw_value_def)
  then show ?thesis using score_raw_scalar_Inr by (fastforce simp: verdict_result_def case_result_def)
qed

theorem raw_scores_are_unit_witness:
  "\<exists>s f. score_raw_value no_externals (sample_metric A_mean None) ''c'' (VInt 5) []
      \<lparr>tg_attempt = 0, tg_override = False, tg_provisional = False\<rparr> = Inr s
    \<and> cs_score s = Some f \<and> unit_flt f"
proof -
  let ?t = "\<lparr>tg_attempt = 0, tg_override = False, tg_provisional = False\<rparr>"
  have "returns (score_raw_value no_externals (sample_metric A_mean None) ''c'' (VInt 5) [] ?t)"
    by code_simp
  then obtain s where s: "score_raw_value no_externals (sample_metric A_mean None) ''c'' (VInt 5) [] ?t = Inr s"
    by (rule returnsE)
  have "float_summation (float_sum no_externals)"
    using plain.float_summation_axioms by (simp add: no_externals_def)
  then have "\<exists>f. cs_score s = Some f \<and> unit_flt f" using s by (rule raw_scores_are_unit) auto
  then show ?thesis using s by blast
qed

section \<open>The shape of a result\<close>

text \<open>A verdict on evidence from \<open>A\<close>, a skip, or an error.\<close>

definition result_of :: "metric \<Rightarrow> string \<Rightarrow> tag \<Rightarrow> string set \<Rightarrow> case_score \<Rightarrow> bool" where
  "result_of m c t A s =
     ((\<exists>f p ev r. s = verdict_result m c t f p ev r \<and> set ev \<subseteq> A)
      \<or> s = case_result m c t None False [] SKIPPED VNull
      \<or> s = error_result m c t)"

lemma result_verdict: "set ev \<subseteq> A \<Longrightarrow> result_of m c t A (verdict_result m c t f p ev r)"
  unfolding result_of_def by blast

lemma result_raw: "score_raw_value X m c raw ev t = Inr s \<Longrightarrow> set ev \<subseteq> A \<Longrightarrow> result_of m c t A s"
  using score_raw_value_Inr result_verdict by blast

lemma result_missing:
  assumes "on_missing_result m c t = Inr s"
  shows "result_of m c t A s"
proof (cases "tg_on_missing (mt_target m)")
  case None
  then show ?thesis using assms by (simp add: on_missing_result_def)
next
  case (Some om)
  show ?thesis
  proof (cases om)
    case OM_fail
    then have "s = verdict_result m c t (Fin 0) False [] VNull"
      using assms Some by (simp add: on_missing_result_def verdict_result_def)
    then show ?thesis by (simp add: result_verdict)
  next
    case OM_skip
    then show ?thesis using assms Some by (simp add: on_missing_result_def result_of_def)
  next
    case OM_pass
    then have "s = verdict_result m c t (Fin 1) True [] VNull"
      using assms Some by (simp add: on_missing_result_def verdict_result_def)
    then show ?thesis by (simp add: result_verdict)
  qed
qed

lemma result_boolean: "boolean_case_score X m c b ev t = Inr s \<Longrightarrow> set ev \<subseteq> A \<Longrightarrow> result_of m c t A s"
  by (auto simp: boolean_case_score_def intro: result_verdict result_raw split: if_splits)

lemma result_check: "check_or_raw X m c p vs ev t = Inr s \<Longrightarrow> set ev \<subseteq> A \<Longrightarrow> result_of m c t A s"
  by (auto simp: check_or_raw_def bind_res_Inr_iff intro: result_boolean result_raw split: if_splits)

lemma result_observed:
  assumes "score_observed_value X m c vs ev tc t = Inr s" and "set ev \<subseteq> A"
  shows "result_of m c t A s"
  using assms unfolding score_observed_value_def Let_def
  by (cases "el_type (mt_evaluator m)")
    (auto simp: bind_res_Inr_iff intro: result_check result_raw split: option.splits)

lemma result_trace_rule:
  assumes "score_trace_rule X m c events t = Inr s"
  shows "result_of m c t (event_id ` set events) s"
proof -
  obtain rule r where rule: "el_rule (mt_evaluator m) = Some rule" "evaluate_rule X (VDict rule) events None = Inr r"
    using assms by (auto simp: score_trace_rule_def bind_res_Inr_iff split: option.splits)
  have "evidence_in events r"
    using rule(2) eval_rule_node_evidence by (auto simp: evaluate_rule_def simp del: eval_rule_node.simps)
  then show ?thesis using assms rule
    by (auto simp: score_trace_rule_def evidence_in_def evidence_dedupe intro: result_raw intro!: result_verdict
        split: if_splits)
qed

lemma selected_subset: "set (select_target_events tg events) \<subseteq> set events"
  by (auto simp: select_target_events_def split: option.splits)

lemma occurrence_subset:
  assumes "apply_occurrence occ selected = Inr (Some sel)" and "selected \<noteq> []"
  shows "set sel \<subseteq> set selected"
proof -
  have "selected ! nat (if i < 0 then i + int (length selected) else i) \<in> set selected"
    if "\<not> int (length selected) \<le> i" "\<not> i < - int (length selected)" for i
    using that by (intro nth_mem) auto
  then show ?thesis
    using assms by (auto simp: apply_occurrence_def bind_res_Inr_iff Let_def split: if_splits)
qed

text \<open>Nothing selected, or the occurrence of a non-empty selection.\<close>

lemma on_selected_Inr:
  assumes "on_selected events c m t score = Inr s"
  obtains "on_missing_result m c t = Inr s"
  | sel where "set sel \<subseteq> set events" "score sel = Inr s"
proof (cases "select_target_events (mt_target m) events = []")
  case True
  then show thesis using assms that(1) by (simp add: on_selected_def)
next
  case False
  obtain o' where o: "apply_occurrence (tg_occurrence (mt_target m)) (select_target_events (mt_target m) events) = Inr o'"
    "(case o' of None \<Rightarrow> on_missing_result m c t | Some es \<Rightarrow> score es) = Inr s"
    using assms False by (auto simp: on_selected_def Let_def bind_res_Inr_iff)
  show thesis
  proof (cases o')
    case None
    then show thesis using o that(1) by simp
  next
    case (Some es)
    then show thesis
      using o that(2) occurrence_subset [OF _ False, of "tg_occurrence (mt_target m)" es]
        selected_subset [of "mt_target m" events] by auto
  qed
qed

lemma ids_subset: "set es \<subseteq> set events \<Longrightarrow> set (ids es) \<subseteq> event_id ` set events"
  by (auto simp: ids_def)

lemma result_events:
  assumes "score_events X spec c sel m t = Inr s" and "set sel \<subseteq> set events"
  shows "result_of m c t (event_id ` set events) s"
  using assms(1) ids_subset [OF assms(2)]
  by (auto simp: score_events_def bind_res_Inr_iff intro: result_boolean result_observed split: if_splits)

lemma result_scalar:
  assumes "score_scalar X spec c events m t = Inr s"
  shows "result_of m c t (event_id ` set events) s"
proof -
  have "result_of m c t (event_id ` set events) s" if "on_selected events c m t (\<lambda>sel. score_events X spec c sel m t) = Inr s"
    using that by (rule on_selected_Inr) (auto intro: result_missing result_events)
  then show ?thesis using assms
    by (auto simp: score_scalar_def Let_def bind_res_Inr_iff intro: result_missing result_observed split: if_splits)
qed

lemma result_finish_judge:
  assumes "finish_judge X m c tc j ev t = Inr s" and "well_behaved j" and "set ev \<subseteq> A"
  shows "result_of m c t A s"
proof -
  obtain v where v: "jd_evaluate j m tc ev = Inr v"
    "score_raw_value X m c (jv_score v) (dedupe (ev @ jv_evidence_refs v)) t = Inr s"
    using assms(1) by (auto simp: finish_judge_def bind_res_Inr_iff split: if_splits)
  have "set (jv_evidence_refs v) \<subseteq> set ev"
    using judge_evaluator.verdict [OF assms(2) [unfolded well_behaved_def] v(1)] by simp
  then have "set (dedupe (ev @ jv_evidence_refs v)) \<subseteq> A" using assms(3) by (auto simp: evidence_dedupe)
  then show ?thesis using v(2) result_raw by blast
qed

lemma result_judge:
  assumes "score_judge X spec c events m j t = Inr s" and "well_behaved j"
  shows "result_of m c t (event_id ` set events) s"
proof -
  have "result_of m c t (event_id ` set events) s"
    if "on_selected events c m t (\<lambda>sel. bind_res (case_from_spec spec c) (\<lambda>tc. finish_judge X m c tc j (ids sel) t)) = Inr s"
    using that
    by (rule on_selected_Inr) (auto simp: bind_res_Inr_iff intro: result_missing result_finish_judge [OF _ assms(2)] dest: ids_subset)
  then show ?thesis using assms
    by (auto simp: score_judge_def Let_def bind_res_Inr_iff intro: result_missing result_finish_judge split: if_splits)
qed

lemma result_attempt:
  assumes "score_attempt X spec c events m j = Inr s" and "\<And>jd. j = Some jd \<Longrightarrow> well_behaved jd"
  shows "result_of m c (attempt_tag m events) (event_id ` set events) s"
proof -
  let ?t = "attempt_tag m events"
  have "result_of m c ?t (event_id ` set events) s" if "score_by_type X spec c events m j ?t = Inr s"
    using that assms(2)
    by (auto simp: score_by_type_def intro: result_trace_rule result_scalar result_judge
        split: metric_type.splits option.splits)
  moreover have "result_of m c ?t (event_id ` set events) (error_result m c ?t)"
    by (simp add: result_of_def)
  ultimately show ?thesis using assms(1)
    by (auto simp: score_attempt_def Let_def bind_res_Inr_iff contain_errors_def intro: result_missing
        split: if_splits sum.splits)
qed

lemma attempt_tag_first: "attempt_tag m (filter (\<lambda>e. ev_attempt e = 0) events) =
    \<lparr>tg_attempt = 0, tg_override = False, tg_provisional = mt_provisional m\<rparr>"
proof (cases "filter (\<lambda>e. ev_attempt e = 0) events")
  case (Cons e es)
  then have "ev_attempt e = 0" using list.set_intros(1) [of e es] by (auto simp flip: Cons)
  then show ?thesis by (simp add: attempt_tag_def Cons)
qed (simp add: attempt_tag_def)

text \<open>
  C27. Every result of \<open>evaluate_case\<close> is well formed: it carries the metric and the case asked for, the first
  attempt and no override, and the metric's provisional flag; it passed exactly when its status is
  PASS; it has no score exactly when it erred or was skipped; and every evidence id is the id of an event
  of the first attempt, whatever the judge says.
\<close>

theorem case_score_well_formed:
  assumes "evaluate_case X spec case_id events m j = Inr s"
    and "\<And>jd. j = Some jd \<Longrightarrow> well_behaved jd"
  shows "cs_metric_id s = mt_metric_id m \<and> cs_case_id s = case_id \<and> cs_attempt s = 0
    \<and> \<not> cs_on_retry_override s \<and> cs_provisional s = mt_provisional m
    \<and> (cs_passed s \<longleftrightarrow> cs_status s = PASS)
    \<and> (cs_score s = None \<longleftrightarrow> cs_status s = ERROR \<or> cs_status s = SKIPPED)
    \<and> set (cs_evidence s) \<subseteq> event_id ` {e \<in> set events. ev_attempt e = 0}"
proof -
  let ?first = "filter (\<lambda>e. ev_attempt e = 0) events"
  have "score_attempt X spec case_id ?first m j = Inr s"
    using assms(1) by (auto simp: evaluate_case_def bind_res_Inr_iff)
  then have "result_of m case_id (attempt_tag m ?first) (event_id ` set ?first) s"
    using assms(2) by (rule result_attempt)
  then show ?thesis
    by (auto simp: result_of_def verdict_result_def error_result_def case_result_def attempt_tag_first
        split: if_splits)
qed

text \<open>A case with one tool result, as an example.\<close>

definition sample_case :: test_case where
  "sample_case = \<lparr>tc_case_id = ''c1'', tc_name = ''c'', tc_description = [], tc_input = [], tc_expected = [],
     tc_metadata = [], tc_script = []\<rparr>"

definition sample_spec :: evaluation_spec where
  "sample_spec = empty_spec\<lparr>sp_cases := [sample_case]\<rparr>"

definition tool_event :: "string \<Rightarrow> int \<Rightarrow> pyval \<Rightarrow> trace_event" where
  "tool_event eid attempt output = default_event\<lparr>event_id := eid, ev_attempt := attempt, ev_type := TOOL_RESULT,
     ev_tool := Some ''t'', payload := Some [(''output'', output)]\<rparr>"

theorem case_score_well_formed_witness:
  "\<exists>s. evaluate_case no_externals sample_spec ''c1'' [tool_event ''e1'' 0 (VInt 1), tool_event ''e2'' 1 (VInt 0)]
      (sample_metric A_mean None) None = Inr s
    \<and> set (cs_evidence s) \<subseteq> {''e1''} \<and> cs_attempt s = 0"
proof -
  let ?es = "[tool_event ''e1'' 0 (VInt 1), tool_event ''e2'' 1 (VInt 0)]"
  have "returns (evaluate_case no_externals sample_spec ''c1'' ?es (sample_metric A_mean None) None)"
    by code_simp
  then obtain s where s: "evaluate_case no_externals sample_spec ''c1'' ?es (sample_metric A_mean None) None = Inr s"
    by (rule returnsE)
  have "cs_attempt s = 0 \<and> set (cs_evidence s) \<subseteq> event_id ` {e \<in> set ?es. ev_attempt e = 0}"
    using case_score_well_formed [OF s] by simp
  then show ?thesis using s by (auto simp: tool_event_def)
qed

end
