(* ===== verification/ScoringSafety.thy ===== *)
theory ScoringSafety
  imports ScoringProps
begin

text \<open>
  End-to-end properties of case scoring: retries never re-enter the rollup, results do not depend on the
  storage order, missing evidence is decided by the declared policy alone, errors are contained, and where
  they are not.
\<close>

section \<open>Retries\<close>

lemma result_override: "result_of m c t A s \<Longrightarrow> cs_on_retry_override s = tg_override t \<and> cs_metric_id s = mt_metric_id m"
  by (auto simp: result_of_def verdict_result_def case_result_def error_result_def)

lemma single_attempt:
  assumes "length (remdups (map ev_attempt es)) \<le> 1" and "e \<in> set es" and "e' \<in> set es"
  shows "ev_attempt e = ev_attempt e'"
proof -
  have "card (ev_attempt ` set es) \<le> Suc 0" using assms(1) by (simp add: length_remdups_card_conv)
  then have "\<forall>x\<in>ev_attempt ` set es. \<forall>y\<in>ev_attempt ` set es. x = y"
    by (simp only: card_le_Suc0_iff_eq finite_imageI finite_set)
  then show ?thesis using assms(2,3) by blast
qed

lemma attempt_tag_retry:
  assumes "length (remdups (map ev_attempt events)) \<le> 1" and "e \<in> set events" and "0 < ev_attempt e"
  shows "tg_override (attempt_tag m events)"
proof -
  obtain e' es where es: "events = e' # es" using assms(2) by (cases events) auto
  have "ev_attempt e = ev_attempt e'" by (rule single_attempt [OF assms(1,2)]) (simp add: es)
  then show ?thesis using assms(3) by (simp add: attempt_tag_def es)
qed



section \<open>Independence of the storage order\<close>

lemma same_attempt_select:
  assumes "same_attempt es es'"
  shows "select_target_events tg es' = select_target_events tg es"
proof (cases "observed_event_type (tg_type tg)")
  case (Some ty)
  let ?p = "\<lambda>e. ev_type e = ty \<and> (tg_tool tg = None \<or> ev_tool e = tg_tool tg)"
  have d: "distinct (map fallback_key (sort_key fallback_key (filter ?p xs)))"
    if "distinct (map fallback_key xs)" for xs :: "trace_event list"
    using that by (auto simp: distinct_map intro: inj_on_subset)
  have "sort_key fallback_key (filter ?p es') = sort_key fallback_key (filter ?p es)"
  proof (rule map_sorted_distinct_set_unique [of fallback_key])
    show "inj_on fallback_key (set (sort_key fallback_key (filter ?p es')) \<union> set (sort_key fallback_key (filter ?p es)))"
      using same_attempt_key [OF assms] same_attempt_set [OF assms] by (auto intro: inj_on_subset)
    show "distinct (map fallback_key (sort_key fallback_key (filter ?p es')))"
      by (rule d [OF same_attempt_distinct(2) [OF assms]])
    show "distinct (map fallback_key (sort_key fallback_key (filter ?p es)))"
      by (rule d) (use assms in \<open>simp add: same_attempt_def\<close>)
  qed (simp_all add: same_attempt_set [OF assms])
  then show ?thesis using Some by (simp add: select_target_events_def)
qed (simp add: select_target_events_def)

lemma same_attempt_filter: "same_attempt es es' \<Longrightarrow> same_attempt (filter p es) (filter p es')"
  unfolding same_attempt_def distinct_map
  by (metis distinct_filter filter_is_subset inj_on_subset mset_filter)

lemma same_attempt_remdups:
  assumes "same_attempt es es'"
  shows "length (remdups (map f es')) = length (remdups (map f es))"
  by (simp add: length_remdups_card_conv same_attempt_set [OF assms])

lemma same_attempt_tag:
  assumes "same_attempt es es'" and "length (remdups (map ev_attempt es)) \<le> 1"
  shows "attempt_tag m es' = attempt_tag m es"
proof (cases es)
  case Nil
  then show ?thesis using assms(1) by (simp add: same_attempt_def)
next
  case (Cons e rest)
  then obtain e' rest' where es': "es' = e' # rest'" using assms(1) by (cases es') (auto simp: same_attempt_def)
  have "e' \<in> set es" using same_attempt_set [OF assms(1)] es' by auto
  then have "ev_attempt e' = ev_attempt e" by (rule single_attempt [OF assms(2)]) (simp add: Cons)
  then show ?thesis by (simp add: attempt_tag_def Cons es')
qed

lemma same_attempt_by_type:
  assumes "same_attempt es es'"
    and "score_by_type X spec c es m j t = Inr s" and "score_by_type X spec c es' m j t = Inr s'"
  shows "s = s'"
proof (cases "mt_type m")
  case M_trace_rule
  then obtain rule r r' where r: "el_rule (mt_evaluator m) = Some rule"
    "evaluate_rule X (VDict rule) es None = Inr r" "evaluate_rule X (VDict rule) es' None = Inr r'"
    using assms(2,3) by (auto simp: score_by_type_def score_trace_rule_def bind_res_Inr_iff split: option.splits)
  then have "r = r'"
    using eval_rule_node_same [OF assms(1)] by (auto simp: evaluate_rule_def simp del: eval_rule_node.simps)
  then show ?thesis using assms(2,3) r M_trace_rule by (simp add: score_by_type_def score_trace_rule_def)
next
  case M_scalar
  have "score_scalar X spec c es' m t = score_scalar X spec c es m t"
    by (simp only: score_scalar_def on_selected_def same_attempt_select [OF assms(1)])
  then show ?thesis using assms(2,3) M_scalar by (simp add: score_by_type_def)
next
  case M_judge
  have "score_judge X spec c es' m jd t = score_judge X spec c es m jd t" for jd
    by (simp only: score_judge_def on_selected_def same_attempt_select [OF assms(1)])
  then show ?thesis using assms(2,3) M_judge by (cases j) (simp_all add: score_by_type_def)
qed

lemma contain_errors_Inr: "contain_errors m c t r = Inr s \<Longrightarrow> r = Inr s \<or> s = error_result m c t"
  by (auto simp: contain_errors_def split: sum.splits if_splits)

text \<open>What a successful \<open>score_attempt\<close> went through.\<close>

lemma score_attempt_Inr:
  assumes "score_attempt X spec c events m j = Inr s" and "cs_status s \<noteq> ERROR"
  shows "length (remdups (map ev_attempt events)) \<le> 1"
    and "if events = [] \<and> tg_type (mt_target m) \<noteq> T_input then on_missing_result m c (attempt_tag m events) = Inr s
         else score_by_type X spec c events m j (attempt_tag m events) = Inr s"
  using assms by (auto simp: score_attempt_def Let_def bind_res_Inr_iff ensure_Inr_iff error_result_def
      case_result_def dest!: contain_errors_Inr split: if_splits)



section \<open>Missing evidence\<close>

text \<open>
  Missing evidence is decided by the declared policy alone: when no event of the first attempt is of the
  observed type and tool, a scalar or judge metric scores FAIL with 0, SKIPPED, or PASS with 1, as
  \<open>on_missing\<close> says, without evidence and whatever the evaluator, the judge or later attempts hold.
\<close>

theorem missing_evidence_by_policy:
  assumes "validate_events case_id events = Inr ()" and "case_from_spec spec case_id = Inr tc"
    and "mt_type m = M_scalar \<or> mt_type m = M_judge \<and> j \<noteq> None"
    and "observed_event_type (tg_type (mt_target m)) = Some ty"
    and "\<And>e. e \<in> set events \<Longrightarrow> ev_attempt e = 0 \<Longrightarrow> ev_type e = ty \<Longrightarrow>
      tg_tool (mt_target m) \<noteq> None \<and> ev_tool e \<noteq> tg_tool (mt_target m)"
    and "tg_on_missing (mt_target m) = Some policy"
  shows "\<exists>s. evaluate_case X spec case_id events m j = Inr s \<and> cs_evidence s = []
    \<and> (cs_status s, cs_score s) =
        (case policy of OM_fail \<Rightarrow> (FAIL, Some (Fin 0)) | OM_skip \<Rightarrow> (SKIPPED, None) | OM_pass \<Rightarrow> (PASS, Some (Fin 1)))"
proof -
  let ?first = "filter (\<lambda>e. ev_attempt e = 0) events"
  let ?t = "attempt_tag m ?first"
  have none: "select_target_events (mt_target m) ?first = []"
    using assms(4,5) by (auto simp: select_target_events_def filter_empty_conv)
  have ty: "tg_type (mt_target m) \<notin> {T_run, T_trace, T_input} \<union> set NON_EVENT_TARGETS"
    using assms(4) by (cases "tg_type (mt_target m)") (auto simp: NON_EVENT_TARGETS_def)
  have missing: "on_missing_result m case_id ?t = Inr (case policy of
        OM_fail \<Rightarrow> case_result m case_id ?t (Some (Fin 0)) False [] FAIL VNull
      | OM_skip \<Rightarrow> case_result m case_id ?t None False [] SKIPPED VNull
      | OM_pass \<Rightarrow> case_result m case_id ?t (Some (Fin 1)) True [] PASS VNull)"
    using assms(6) by (cases policy) (simp_all add: on_missing_result_def)
  have "score_by_type X spec case_id ?first m j ?t = on_missing_result m case_id ?t"
    using assms(3) ty none
    by (auto simp: score_by_type_def score_scalar_def score_judge_def on_selected_def Let_def)
  moreover have "remdups (map ev_attempt ?first) = [] \<or> remdups (map ev_attempt ?first) = [0]"
  proof -
    have "length (remdups (map ev_attempt ?first)) = card (ev_attempt ` set ?first)"
      by (simp add: length_remdups_card_conv)
    also have "\<dots> \<le> card {0 :: int}" by (intro card_mono) auto
    finally have "length (remdups (map ev_attempt ?first)) \<le> 1" by simp
    moreover have "set (remdups (map ev_attempt ?first)) \<subseteq> {0}" by auto
    ultimately show ?thesis by (cases "remdups (map ev_attempt ?first)") auto
  qed
  moreover have "validate_events case_id ?first = Inr ()"
    using assms(1) by (auto simp: validate_events_def ensure_Inr_iff list_all_iff)
  ultimately have "evaluate_case X spec case_id events m j = on_missing_result m case_id ?t"
    using assms(1,2,3) ty missing
    by (auto simp: evaluate_case_def score_attempt_def Let_def contain_errors_def)
  then show ?thesis using missing by (cases policy) (auto simp: case_result_def)
qed

theorem missing_evidence_by_policy_witness:
  "\<exists>s. evaluate_case no_externals sample_spec ''c1'' [tool_event ''e1'' 1 (VInt 1)] (sample_metric A_mean None) None = Inr s
    \<and> cs_status s = FAIL"
proof -
  have "validate_events ''c1'' [tool_event ''e1'' 1 (VInt 1)] = Inr ()" "case_from_spec sample_spec ''c1'' = Inr sample_case"
    by code_simp+
  then show ?thesis
    using missing_evidence_by_policy [of "''c1''" "[tool_event ''e1'' 1 (VInt 1)]" sample_spec sample_case
        "sample_metric A_mean None" None TOOL_RESULT OM_fail no_externals]
    by (auto simp: sample_metric_def tool_event_def)
qed

section \<open>Errors\<close>

lemma validated_metric_ok:
  assumes "validate_spec X given_provisional spec0 = Inr spec" and "m \<in> set (sp_metrics spec)"
  shows "metric_ok m"
proof -
  obtain ms where ms: "traverse (\<lambda>m. validate_metric X (given_provisional m) m) (sp_metrics spec0) = Inr ms"
    and "spec = spec0\<lparr>sp_metrics := ms\<rparr>"
    using assms(1) by (auto simp: validate_spec_def bind_res_Inr_iff)
  then have "m \<in> set ms" using assms(2) by simp
  then show ?thesis using traverse_set [OF ms] validate_metric_ok by blast
qed

lemma contain_errors_Inl: "contain_errors m c t r = Inl e \<Longrightarrow> \<not> is_scoring_error e"
  by (auto simp: contain_errors_def split: sum.splits if_splits)


definition sample_scored :: "pyval \<Rightarrow> string option \<Rightarrow> metric \<Rightarrow> case_score res" where
  "sample_scored output selector m = evaluate_case no_externals sample_spec ''c1'' [tool_event ''e1'' 0 output]
     (m\<lparr>mt_target := (mt_target m)\<lparr>tg_selector := selector\<rparr>\<rparr>) None"


text \<open>
  Other exceptions do escape from \<open>evaluate_case\<close> on ordinary observations: a numeric metric raises
  \<open>ZeroDivisionError\<close> on an empty list and \<open>OverflowError\<close> on an integer beyond the largest float, and a
  selector index with a superscript digit raises \<open>ValueError\<close>; none of them becomes an ERROR result.
\<close>

theorem other_exceptions_escape:
  "sample_scored (VList []) None (sample_metric A_mean None) = Inl ZeroDivisionError
   \<and> sample_scored (VInt (10 ^ 309)) None (sample_metric A_mean None) = Inl OverflowError
   \<and> sample_scored (VList [VInt 1]) (Some [CHR ''$'', CHR ''['', CHR 0xB2, CHR '']'']) (sample_metric A_mean None)
       = Inl ValueError"
  by (intro conjI; code_simp)

text \<open>
  A NaN observation fails its case and yet passes any gate: the score of the case is NaN, the minimum over the
  cases is NaN, and NaN is neither below the gate's minimum nor above its maximum.
\<close>

theorem nan_passes_gate:
  "\<exists>s a. sample_scored (VFloat NaN) None (sample_metric A_min (Some g)) = Inr s
    \<and> cs_status s = FAIL
    \<and> aggregate_metric no_externals sample_spec (sample_metric A_min (Some g)) [s] None False = Inr a
    \<and> gr_active (evaluate_gate (sample_metric A_min (Some g)) a)
    \<and> gr_passed (evaluate_gate (sample_metric A_min (Some g)) a)"
proof -
  let ?m = "sample_metric A_min (Some g)"
  let ?s = "\<lparr>cs_metric_id = ''m'', cs_case_id = ''c1'', cs_score = Some NaN, cs_passed = False, cs_evidence = [''e1''],
      cs_status = FAIL, cs_attempt = 0, cs_on_retry_override = False, cs_provisional = False,
      cs_raw_value = VFloat NaN, cs_evaluator_version = None\<rparr>"
  have s: "sample_scored (VFloat NaN) None ?m = Inr ?s" by code_simp
  obtain r where r: "int_div 0 1 = Inr r" using int_div_unit [of 0 1] by auto
  have "aggregate_metric no_externals sample_spec ?m [?s] None False = Inr
      \<lparr>ra_metric_id = ''m'', ra_value = Some NaN, ra_pass_rate = Some r,
       ra_mean = Some (float_mean no_externals [NaN]), ra_n_cases = 1, ra_n_denominator = 1, ra_error_n = 0,
       ra_skipped_n = 0, ra_state = COMPLETE\<rparr>"
    using r by (simp add: aggregate_metric_def sample_metric_def sample_spec_def empty_spec_def retained_def
        denominator_def with_status_def rollup_def float_min_def contribution_def aggregation_state_of_def Let_def)
  then show ?thesis using s
    by (auto simp: evaluate_gate_def sample_metric_def below_min_def above_max_def split: option.splits)
qed

text \<open>
  A retry that produced no event is scored as a first attempt: \<open>score_attempt\<close> reads the attempt number off the
  events, so the score of an empty trace is never flagged as an override, and the rollup counts it.
\<close>

theorem empty_retry_counts:
  assumes "score_attempt X spec case_id [] m j = Inr s" and "\<And>jd. j = Some jd \<Longrightarrow> well_behaved jd"
  shows "cs_attempt s = 0 \<and> \<not> cs_on_retry_override s \<and> retained [s] = [s]"
  using result_attempt [OF assms]
  by (auto simp: result_of_def verdict_result_def case_result_def error_result_def attempt_tag_def retained_def)

end
