(* ===== verification/ObservationProps.thy ===== *)
theory ObservationProps
  imports ScoringProps
begin

text \<open>
  Properties of what scoring observes: selectors survive printing and parsing, a JSON Schema of declared keyword
  types decides every instance, and a custom evaluator's result is checked before it counts.
\<close>

section \<open>Selectors\<close>

fun show_token :: "selector_token \<Rightarrow> string" where
  "show_token Every = ''.*''"
| "show_token (At i) = ''['' @ decimal_digits (nat i) @ '']''"
| "show_token (Key k) = CHR ''.'' # k"

fun printable :: "selector_token \<Rightarrow> bool" where
  "printable Every = True"
| "printable (At i) = (0 \<le> i \<and> length (decimal_digits (nat i)) \<le> 4300)"
| "printable (Key k) = (k \<noteq> [] \<and> list_all is_key_char k)"

definition show_selector :: "selector_token list \<Rightarrow> string" where
  "show_selector ts = concat (map show_token ts)"

lemma code_char_of: "n < 256 \<Longrightarrow> code (char_of n) = n"
  by (simp add: code_def)

lemma digit_char:
  assumes "d < 10"
  shows "digit_val (char_of (48 + d)) = d \<and> is_decimal (char_of (48 + d)) \<and> \<not> is_space (char_of (48 + d))"
  using assms code_char_of [of "48 + d"] by (auto simp: digit_val_def is_decimal_def is_space_def Let_def)

lemma decimal_digits_val: "digits_val (decimal_digits n) = n"
proof (induction n rule: decimal_digits.induct)
  case (1 n)
  show ?case
  proof (cases "n < 10")
    case True
    then show ?thesis using digit_char [OF True] by (simp add: decimal_digits.simps [of n] digits_val_def)
  next
    case False
    have "digits_val (s @ [c]) = 10 * digits_val s + digit_val c" for s c by (simp add: digits_val_def)
    then show ?thesis
      using 1 [OF False] False digit_char [of "n mod 10"] by (simp add: decimal_digits.simps [of n])
  qed
qed

lemma decimal_digits_decimal: "list_all (\<lambda>c. is_decimal c \<and> \<not> is_space c) (decimal_digits n)"
proof (induction n rule: decimal_digits.induct)
  case (1 n)
  show ?case
    using 1 digit_char [of n] digit_char [of "n mod 10"] by (cases "n < 10") (simp_all add: decimal_digits.simps [of n])
qed

lemma decimal_digits_ne: "decimal_digits n \<noteq> []"
  by (subst decimal_digits.simps) simp

lemma decimal_not_sign: "is_decimal c \<Longrightarrow> c \<noteq> CHR ''-'' \<and> c \<noteq> CHR '']'' \<and> c \<noteq> CHR ''*''"
  by (auto simp: is_decimal_def code_def)

lemma parse_decimal_digits:
  assumes "length (decimal_digits n) \<le> 4300"
  shows "parse_int (decimal_digits n) = Inr (int n)"
proof -
  have d: "list_all is_decimal (decimal_digits n)"
    using decimal_digits_decimal [of n] by (simp add: list_all_iff)
  then have "hd (decimal_digits n) \<noteq> CHR ''-''"
    using decimal_digits_ne [of n] decimal_not_sign by (cases "decimal_digits n") auto
  then show ?thesis using d assms decimal_digits_ne [of n] by (simp add: parse_int_def Let_def decimal_digits_val)
qed

lemma strip_decimal_digits: "strip (decimal_digits n) = decimal_digits n"
proof -
  have h: "dropWhile is_space s = s" if "list_all (\<lambda>c. is_decimal c \<and> \<not> is_space c) s" for s
    using that by (cases s) auto
  have "list_all (\<lambda>c. is_decimal c \<and> \<not> is_space c) (rev (decimal_digits n))"
    using decimal_digits_decimal [of n] by (simp only: list_all_rev)
  from h [OF this] h [OF decimal_digits_decimal [of n]] show ?thesis by (simp only: strip_def rev_rev_ident)
qed

lemma bracket_decimal_digits:
  assumes "length (decimal_digits n) \<le> 4300"
  shows "bracket_token (decimal_digits n) = Inr (At (int n))"
proof -
  have "\<not> is_decimal (CHR ''*'')" by code_simp
  then have "decimal_digits n \<noteq> ''*''"
    using decimal_digits_decimal [of n] by (cases "decimal_digits n = ''*''") simp_all
  moreover have "list_all is_digit (decimal_digits n)"
    using decimal_digits_decimal [of n] by (auto simp: list_all_iff is_digit_def)
  ultimately show ?thesis
    using decimal_digits_ne parse_decimal_digits [OF assms] by (simp add: bracket_token_def)
qed

lemma key_chars: "\<not> is_key_char (CHR ''.'')" "\<not> is_key_char (CHR ''['')" "\<not> is_key_char (CHR ''*'')"
  by code_simp+

text \<open>What follows a printed token.\<close>

definition boundary :: "string \<Rightarrow> bool" where
  "boundary s = (s = [] \<or> hd s = CHR ''.'' \<or> hd s = CHR ''['')"

lemma boundary_selector: "boundary (show_selector ts)"
proof (cases ts)
  case (Cons t ts')
  then show ?thesis by (cases t) (simp_all add: boundary_def show_selector_def)
qed (simp add: boundary_def show_selector_def)

lemma takeWhile_key:
  assumes "list_all is_key_char k" and "boundary s"
  shows "takeWhile is_key_char (k @ s) = k" and "dropWhile is_key_char (k @ s) = s"
proof -
  have "takeWhile is_key_char s = []" "dropWhile is_key_char s = s"
    using assms(2) key_chars by (cases s; auto simp: boundary_def)+
  then show "takeWhile is_key_char (k @ s) = k" "dropWhile is_key_char (k @ s) = s"
    using assms(1) by (simp_all add: list_all_iff)
qed

lemma selector_token_step:
  assumes "printable t" and "boundary s"
  shows "selector_tokens (show_token t @ s) = bind_res (selector_tokens s) (\<lambda>ts. Inr (t # ts))"
proof (cases t)
  case Every
  then show ?thesis by (simp add: selector_tokens.simps(2))
next
  case (At i)
  let ?d = "decimal_digits (nat i)"
  have "\<forall>c\<in>set ?d. c \<noteq> CHR '']''"
    using decimal_digits_decimal [of "nat i"] decimal_not_sign by (auto simp: list_all_iff)
  then have "takeWhile (\<lambda>c. c \<noteq> CHR '']'') (?d @ '']'' @ s) = ?d" "dropWhile (\<lambda>c. c \<noteq> CHR '']'') (?d @ '']'' @ s) = '']'' @ s"
    by (simp_all add: takeWhile_append2 dropWhile_append2)
  then show ?thesis
    using At assms(1) bracket_decimal_digits [of "nat i"]
    by (simp add: selector_tokens.simps(2) strip_decimal_digits)
next
  case (Key k)
  then have k: "k \<noteq> []" "list_all is_key_char k" using assms(1) by auto
  then have "hd (k @ s) \<noteq> CHR ''.''" "hd (k @ s) \<noteq> CHR ''*''" using key_chars by (cases k; auto)+
  then show ?thesis
    using Key k takeWhile_key [OF k(2) assms(2)] by (simp add: selector_tokens.simps(2))
qed

lemma selector_tokens_show: "list_all printable ts \<Longrightarrow> selector_tokens (show_selector ts) = Inr ts"
proof (induction ts)
  case (Cons t ts)
  then show ?case
    using selector_token_step [of t "show_selector ts"] boundary_selector by (simp add: show_selector_def)
qed (simp add: show_selector_def selector_tokens.simps)

text \<open>
  Selectors round-trip: every path of wildcards, non-negative indexes and keys, printed after the dollar, is
  parsed back and walked as that path.
\<close>

theorem selector_roundtrip:
  assumes "list_all printable ts"
  shows "select_from context (Some (CHR ''$'' # show_selector ts)) = Inr (select_walk context ts)"
  using selector_tokens_show [OF assms] by (simp add: select_from_def)

theorem selector_roundtrip_witness:
  "show_selector [Key ''items'', At 12, Every, Key ''x_1''] = ''.items[12].*.x_1''
   \<and> select_from VNull (Some (CHR ''$'' # show_selector [Key ''items'', At 12, Every, Key ''x_1''])) = Inr VMissing"
proof
  show "show_selector [Key ''items'', At 12, Every, Key ''x_1''] = ''.items[12].*.x_1''" by code_simp
  have "list_all printable [Key ''items'', At 12, Every, Key ''x_1'']" by code_simp
  then have "select_from VNull (Some (CHR ''$'' # show_selector [Key ''items'', At 12, Every, Key ''x_1'']))
      = Inr (select_walk VNull [Key ''items'', At 12, Every, Key ''x_1''])"
    by (rule selector_roundtrip)
  then show "select_from VNull (Some (CHR ''$'' # show_selector [Key ''items'', At 12, Every, Key ''x_1''])) = Inr VMissing"
    by simp
qed

section \<open>JSON Schema\<close>

text \<open>Schemas whose keywords hold values of the types the code computes with.\<close>

definition number_or_null :: "pyval \<Rightarrow> bool" where
  "number_or_null v = (v = VNull \<or> num_of v \<noteq> None)"

fun wf_schema :: "externals \<Rightarrow> pyval \<Rightarrow> bool"
  and wf_keywords :: "externals \<Rightarrow> pydict \<Rightarrow> bool"
  and wf_values :: "externals \<Rightarrow> pydict \<Rightarrow> bool" where
  "wf_schema X (VDict s) = wf_keywords X s"
| "wf_schema X _ = True"
| "wf_keywords X [] = True"
| "wf_keywords X ((k, v) # s) =
     ((k = ''enum'' \<longrightarrow> is_list v)
      \<and> (k \<in> {''minimum'', ''maximum'', ''minLength'', ''maxLength''} \<longrightarrow> number_or_null v)
      \<and> (k = ''pattern'' \<longrightarrow> (case v of VStr p \<Rightarrow> re_search X p \<noteq> None | VNull \<Rightarrow> True | _ \<Rightarrow> False))
      \<and> (k = ''required'' \<longrightarrow> string_list v \<noteq> None)
      \<and> (k = ''properties'' \<longrightarrow> (case v of VDict ps \<Rightarrow> wf_values X ps | VNull \<Rightarrow> True | _ \<Rightarrow> False))
      \<and> (k = ''items'' \<longrightarrow> wf_schema X v)
      \<and> wf_keywords X s)"
| "wf_values X [] = True"
| "wf_values X ((k, v) # ps) = (wf_schema X v \<and> wf_values X ps)"

lemma wf_keywords_lookup:
  "wf_keywords X s \<Longrightarrow> map_of s k = Some v \<Longrightarrow> wf_keywords X [(k, v)]"
  by (induction s) (auto split: if_splits)

lemma wf_values_lookup: "wf_values X ps \<Longrightarrow> p \<in> set ps \<Longrightarrow> wf_schema X (snd p)"
  by (induction ps) auto

lemma dict_get_wf: "wf_keywords X s \<Longrightarrow> dict_get s k = VNull \<or> wf_keywords X [(k, dict_get s k)]"
  by (cases "map_of s k") (simp_all only: dict_get_def option.case wf_keywords_lookup simp_thms)

definition decides :: "bool res \<Rightarrow> bool" where
  "decides r = (\<exists>b. r = Inr b)"

lemma decides_Inr [simp]: "decides (Inr b)"
  by (simp add: decides_def)

lemma decides_both: "decides a \<Longrightarrow> (a = Inr True \<Longrightarrow> decides b) \<Longrightarrow> decides (both a b)"
  by (auto simp: decides_def both_def)

lemma decides_keyword: "(dict_get s k \<noteq> VNull \<Longrightarrow> decides (f (dict_get s k))) \<Longrightarrow> decides (keyword s k f)"
  by (simp add: keyword_def)

lemma decides_negate: "decides a \<Longrightarrow> decides (negate a)"
  by (auto simp: decides_def negate_def)

lemma decides_number: "num_of a \<noteq> None \<Longrightarrow> num_of b \<noteq> None \<Longrightarrow> decides (number_le a b) \<and> decides (number_lt a b)"
  by (auto simp: number_le_def number_lt_def)

lemma decides_all: "(\<And>x. x \<in> set xs \<Longrightarrow> decides (f x)) \<Longrightarrow> decides (all_res f xs)"
proof (induction xs)
  case (Cons x xs)
  then obtain b where "f x = Inr b" by (auto simp: decides_def)
  then show ?case using Cons by simp
qed simp

lemma as_strings_map: "as_strings vs = Some ss \<Longrightarrow> vs = map VStr ss"
  by (induction vs arbitrary: ss rule: as_strings.induct) auto

lemma bounds_decide: "wf_keywords X s \<Longrightarrow> decides (bounds_ok s v)"
  using dict_get_wf [of X s "''minimum''"] dict_get_wf [of X s "''maximum''"]
  by (auto simp: bounds_ok_def is_number_def number_or_null_def decides_number intro!: decides_both decides_keyword)

lemma string_decides: "wf_keywords X s \<Longrightarrow> decides (string_ok X s v)"
  using dict_get_wf [of X s "''minLength''"] dict_get_wf [of X s "''maxLength''"] dict_get_wf [of X s "''pattern''"]
  by (auto simp: string_ok_def Let_def number_or_null_def decides_number pattern_ok_def
      intro!: decides_both decides_keyword decides_negate split: pyval.splits)

lemma enum_decides: "wf_keywords X s \<Longrightarrow> decides (enum_ok s v)"
  using wf_keywords_lookup [of X s "''enum''"]
  by (auto simp: enum_ok_def iterate_def split: option.split pyval.split)

lemma flat_decides: "wf_keywords X s \<Longrightarrow> decides (flat_ok X s v)"
  by (auto simp: flat_ok_def intro!: decides_both enum_decides bounds_decide string_decides)

lemma required_decides: "wf_keywords X s \<Longrightarrow> decides (required_ok s d)"
proof (cases "map_of s ''required''")
  case (Some r)
  assume "wf_keywords X s"
  then have "string_list r \<noteq> None" using wf_keywords_lookup [OF _ Some] by simp
  then obtain ss where "r = VList (map VStr ss)"
    using as_strings_map by (cases r) (auto simp: string_list_def)
  then show ?thesis using Some by (auto simp: required_ok_def iterate_def has_key_def intro!: decides_all)
qed (simp add: required_ok_def)

lemma properties_decide:
  "wf_keywords X s \<Longrightarrow> \<exists>ps. property_schemas s = Inr ps \<and> wf_values X ps"
  using dict_get_wf [of X s "''properties''"] by (auto simp: property_schemas_def split: pyval.splits)

lemma with_schema_decides:
  "wf_schema X schema \<Longrightarrow> (\<And>s. wf_keywords X s \<Longrightarrow> decides (f s)) \<Longrightarrow> decides (with_schema schema f)"
  by (cases schema) (auto simp: with_schema_def)

lemma json_decides:
  "wf_schema X schema \<Longrightarrow> decides (json_ok X schema v)"
  "wf_schema X items \<Longrightarrow> decides (json_items_ok X items xs)"
  "wf_schema X sub \<Longrightarrow> decides (json_property_ok X sub d key)"
proof (induction X schema v and X items xs and X sub d key rule: json_ok_json_items_ok_json_property_ok.induct)
  case (1 X schema d)
  show ?case
    unfolding json_ok.simps
  proof (rule with_schema_decides [OF 1(2)])
    fix s
    assume s: "wf_keywords X s"
    obtain ps where ps: "property_schemas s = Inr ps" "wf_values X ps" using properties_decide [OF s] by blast
    have "decides (all_res (\<lambda>p. json_property_ok X (snd p) d (fst p)) ps)"
      using 1(1) [OF ps(1)] wf_values_lookup [OF ps(2)] by (intro decides_all) auto
    then show "decides (both (flat_ok X s (VDict d)) (both (required_ok s d)
       (bind_res (property_schemas s) (all_res (\<lambda>p. json_property_ok X (snd p) d (fst p))))))"
      using ps(1) by (intro decides_both flat_decides [OF s] required_decides [OF s]) simp
  qed
next
  case (2 X schema xs)
  show ?case
    unfolding json_ok.simps
    using 2(1) dict_get_wf [of X _ "''items''"]
    by (intro with_schema_decides [OF 2(2)] decides_both decides_keyword flat_decides) auto
qed (auto intro!: with_schema_decides flat_decides decides_both)

text \<open>
  A JSON Schema whose keywords hold values of their declared types (an enumeration is a list, bounds are
  numbers, a pattern compiles, required keys are strings, properties and items are schemas) decides
  every instance: validation terminates in a yes or a no and raises nothing.
\<close>

theorem schema_decides:
  assumes "wf_schema X (VDict s)"
  shows "\<exists>b. validate_json_schema X (Some s) v = Inr b"
  using json_decides(1) [OF assms, of v] by (simp add: validate_json_schema_def decides_def)

theorem schema_decides_witness:
  "\<exists>b. validate_json_schema no_externals
     (Some [(''type'', VStr ''object''), (''required'', VList [VStr ''a'']),
        (''properties'', VDict [(''a'', VDict [(''minimum'', VInt 3)])])]) (VDict [(''a'', VStr ''x'')]) = Inr b"
  by (rule schema_decides) code_simp

section \<open>Custom evaluators\<close>

text \<open>An accepted result: what the callback returned and what became of it.\<close>

definition accepted_result :: "metric \<Rightarrow> string list \<Rightarrow> flt \<Rightarrow> pyval res \<Rightarrow> case_score \<Rightarrow> bool" where
  "accepted_result m known threshold answer s =
     (\<exists>d f r. answer = Inr (VDict d) \<and> to_float (dict_get d ''score'') = Inr f \<and> is_finite f
        \<and> sc_range (mt_scoring m) = Some r \<and> in_scale r (dict_get d ''score'')
        \<and> cs_passed s = flt_le threshold f \<and> cs_status s = (if flt_le threshold f then PASS else FAIL)
        \<and> (\<exists>u. cs_score s = Some u \<and> unit_flt u)
        \<and> set (cs_evidence s) \<subseteq> set known \<and> distinct (cs_evidence s))"

lemma custom_result_Inr:
  assumes "bind_res answer (custom_result m c t known threshold version) = Inr s"
  shows "accepted_result m known threshold answer s \<and> cs_evaluator_version s = Some version"
proof -
  obtain result d raw f where answer: "answer = Inr result" and cs: "custom_score m result = Inr (d, raw, f)"
    and cr: "bind_res (custom_refs known d) (\<lambda>refs. bind_res (normalize_score (mt_scoring m) raw) (\<lambda>score.
       Inr ((verdict_result m c t score (flt_le threshold f) (dedupe refs) (safe_raw_value raw))
              \<lparr>cs_evaluator_version := Some version\<rparr>))) = Inr s"
    using assms by (auto simp: bind_res_Inr_iff custom_result_def)
  obtain refs u where refs: "custom_refs known d = Inr refs" and u: "normalize_score (mt_scoring m) raw = Inr u"
    and s: "s = (verdict_result m c t u (flt_le threshold f) (dedupe refs) (safe_raw_value raw))
              \<lparr>cs_evaluator_version := Some version\<rparr>"
    using cr by (auto simp: bind_res_Inr_iff)
  have d: "result = VDict d" "raw = dict_get d ''score''" "to_float raw = Inr f" "is_finite f"
    "\<exists>r. sc_range (mt_scoring m) = Some r \<and> in_scale r raw"
    using cs by (auto simp: custom_score_def Let_def bind_res_Inr_iff split: pyval.splits if_splits option.splits)
  have "set refs \<subseteq> set known" using refs by (auto simp: custom_refs_def split: option.splits if_splits)
  then have "set (dedupe refs) \<subseteq> set known \<and> distinct (dedupe refs)"
    by (simp add: dedupe_def set_dedupe_from distinct_dedupe_from)
  then show ?thesis using answer d normalize_unit [OF u]
    by (auto simp: accepted_result_def s verdict_result_def case_result_def)
qed

text \<open>
  A custom evaluator never earns a score by accident: unless evidence is missing, its result counts only when
  it is an object with a finite number in the declared range and cites known evidence; it passes exactly
  at or above the threshold; everything else, and every caught exception of the callback, is an ERROR
  without score or evidence. Both carry the evaluator's version.
\<close>

theorem custom_evaluator_contract:
  assumes "score_custom spec case_id events m dump evaluate version threshold evidence_ids output t = Inr s"
    and "case_from_spec spec case_id = Inr c"
    and "\<not> custom_missing (tg_type (mt_target m)) (custom_selected (mt_target m) events) output"
  shows "cs_evaluator_version s = Some version \<and>
    (accepted_result m
       (if evidence_ids \<noteq> [] then evidence_ids else ids (custom_selected (mt_target m) events)) threshold
       (evaluate (custom_evidence dump (custom_selected (mt_target m) events) output) (custom_reference c)) s
     \<or> cs_status s = ERROR \<and> cs_score s = None \<and> \<not> cs_passed s \<and> cs_evidence s = [])"
proof -
  let ?selected = "custom_selected (mt_target m) events"
  let ?known = "if evidence_ids \<noteq> [] then evidence_ids else ids ?selected"
  let ?answer = "evaluate (custom_evidence dump ?selected output) (custom_reference c)"
  have "(case bind_res ?answer (custom_result m case_id t ?known threshold version) of
           Inr s \<Rightarrow> Inr s
         | Inl e \<Rightarrow> if is_custom_error e then Inr ((error_result m case_id t)\<lparr>cs_evaluator_version := Some version\<rparr>)
             else Inl e) = Inr s"
    using assms unfolding score_custom_def Let_def by (auto simp: bind_res_Inr_iff)
  then consider "bind_res ?answer (custom_result m case_id t ?known threshold version) = Inr s"
    | "s = (error_result m case_id t)\<lparr>cs_evaluator_version := Some version\<rparr>"
    by (auto split: sum.splits if_splits)
  then show ?thesis
  proof cases
    case 1
    from custom_result_Inr [OF this] show ?thesis by blast
  next
    case 2
    then show ?thesis by (simp add: error_result_def case_result_def)
  qed
qed

theorem custom_evaluator_contract_witness:
  "\<exists>s. score_custom sample_spec ''c1'' [tool_event ''e1'' 0 (VInt 1)] (sample_metric A_mean None) (\<lambda>_. VNull)
      (\<lambda>_ _. Inr (VDict [(''score'', VInt 7)])) ''v1'' (Fin 1) [] VNull
      \<lparr>tg_attempt = 0, tg_override = False, tg_provisional = False\<rparr> = Inr s
    \<and> cs_evaluator_version s = Some ''v1''"
proof -
  let ?t = "\<lparr>tg_attempt = 0, tg_override = False, tg_provisional = False\<rparr>"
  let ?run = "score_custom sample_spec ''c1'' [tool_event ''e1'' 0 (VInt 1)] (sample_metric A_mean None) (\<lambda>_. VNull)
      (\<lambda>_ _. Inr (VDict [(''score'', VInt 7)])) ''v1'' (Fin 1) [] VNull ?t"
  have "returns ?run" by code_simp
  then obtain s where s: "?run = Inr s" by (rule returnsE)
  have "case_from_spec sample_spec ''c1'' = Inr sample_case"
    "\<not> custom_missing (tg_type (mt_target (sample_metric A_mean None)))
        (custom_selected (mt_target (sample_metric A_mean None)) [tool_event ''e1'' 0 (VInt 1)]) VNull"
    by code_simp+
  from custom_evaluator_contract [OF s this] s show ?thesis by blast
qed

end
