(* ===== verification/JobQueue.thy ===== *)
theory JobQueue
  imports PyValues
begin

text \<open>
  The durable job queue (\<open>jobs.py\<close>): jobs with fenced leases and a transactional outbox, as operations on
  the two tables of the database.

  Each method runs one transaction, so an operation is a function from the tables to a result and the
  tables after commit; a raised exception leaves them as they were. A timestamp is its instant in
  microseconds: the code compares the ISO texts of UTC instants, whose order is theirs. The clock,
  the uuids, the redaction and the fingerprint of a command are parameters (\<open>job_env\<close>). On
  PostgreSQL a transaction may skip rows another one locks; that is a transaction that comes later.
\<close>

section \<open>Actors\<close>

record actor =
  ac_actor_id :: string
  ac_workspace_id :: string
  ac_role :: string

text \<open>\<open>Actor.require\<close>\<close>

definition require_actor :: "actor \<Rightarrow> bool \<Rightarrow> string option \<Rightarrow> unit res" where
  "require_actor a write workspace =
     (if ac_actor_id a = [] \<or> ac_workspace_id a = [] \<or> ac_role a \<notin> {''owner'', ''editor'', ''viewer''}
      then Inl (WorkflowError ''unauthorized'')
      else if workspace \<noteq> None \<and> workspace \<noteq> Some (ac_workspace_id a) then Inl (WorkflowError ''forbidden'')
      else ensure (\<not> write \<or> ac_role a \<in> {''owner'', ''editor''}) (WorkflowError ''forbidden''))"

section \<open>Tables\<close>

datatype job_status = Queued | Leased | Completed | Failed | Cancelled

fun job_status_value :: "job_status \<Rightarrow> string" where
  "job_status_value Queued = ''queued''"
| "job_status_value Leased = ''leased''"
| "job_status_value Completed = ''completed''"
| "job_status_value Failed = ''failed''"
| "job_status_value Cancelled = ''cancelled''"

record job =
  jo_id :: string
  jo_workspace :: string
  jo_command :: pyval
  jo_digest :: string
  jo_key :: string
  jo_status :: job_status
  jo_attempts :: int
  jo_max_attempts :: int
  jo_fence :: int
  jo_worker :: "string option"
  jo_expires :: "int option"
  jo_cancel :: bool
  jo_result :: "pyval option"
  jo_error :: "pyval option"
  jo_command_redaction :: pyval
  jo_result_redaction :: "pyval option"
  jo_created :: int
  jo_updated :: int

record outbox_event =
  ob_id :: string
  ob_workspace :: string
  ob_job :: string
  ob_type :: string
  ob_created :: int
  ob_published :: "int option"

text \<open>The outbox is in order of insertion; \<open>q_next\<close> counts the uuids drawn.\<close>

record queue =
  q_jobs :: "job list"
  q_outbox :: "outbox_event list"
  q_next :: nat

record job_env =
  je_redact :: "pyval \<Rightarrow> pyval \<times> pyval"
  je_digest :: "pyval \<Rightarrow> string"
  je_uuid :: "nat \<Rightarrow> string"
  je_lease :: int

text \<open>The checks of \<open>JobQueue.__init__\<close> on the lease seconds and the length of the key.\<close>

definition open_queue :: "int \<Rightarrow> nat \<Rightarrow> unit res" where
  "open_queue lease_seconds key_length =
     bind_res (ensure (0 < lease_seconds) ValueError) (\<lambda>_. ensure (32 \<le> key_length) ValueError)"

definition is_job :: "string \<Rightarrow> string \<Rightarrow> job \<Rightarrow> bool" where
  "is_job ws jid j = (jo_workspace j = ws \<and> jo_id j = jid)"

text \<open>\<open>SELECT * FROM jobs WHERE workspace_id=? AND job_id=?\<close>, and \<open>_row\<close>.\<close>

definition find_job :: "string \<Rightarrow> string \<Rightarrow> queue \<Rightarrow> job option" where
  "find_job ws jid q = find (is_job ws jid) (q_jobs q)"

definition job_row :: "string \<Rightarrow> string \<Rightarrow> queue \<Rightarrow> job res" where
  "job_row ws jid q = (case find_job ws jid q of None \<Rightarrow> Inl NotFound | Some j \<Rightarrow> Inr j)"

text \<open>\<open>UPDATE jobs SET ... WHERE workspace_id=? AND job_id=? AND p\<close>\<close>

definition matches_row :: "string \<Rightarrow> string \<Rightarrow> (job \<Rightarrow> bool) \<Rightarrow> job \<Rightarrow> bool" where
  "matches_row ws jid p j = (is_job ws jid j \<and> p j)"

definition update_jobs :: "string \<Rightarrow> string \<Rightarrow> (job \<Rightarrow> bool) \<Rightarrow> (job \<Rightarrow> job) \<Rightarrow> queue \<Rightarrow> queue" where
  "update_jobs ws jid p f q = q\<lparr>q_jobs := map (\<lambda>j. if matches_row ws jid p j then f j else j) (q_jobs q)\<rparr>"

definition updates_row :: "string \<Rightarrow> string \<Rightarrow> (job \<Rightarrow> bool) \<Rightarrow> queue \<Rightarrow> bool" where
  "updates_row ws jid p q = list_ex (matches_row ws jid p) (q_jobs q)"

text \<open>\<open>_outbox\<close>\<close>

definition add_outbox :: "job_env \<Rightarrow> string \<Rightarrow> string \<Rightarrow> string \<Rightarrow> int \<Rightarrow> queue \<Rightarrow> queue" where
  "add_outbox env ws jid ty now q =
     q\<lparr>q_outbox := q_outbox q @ [\<lparr>ob_id = je_uuid env (q_next q), ob_workspace = ws, ob_job = jid,
          ob_type = ty, ob_created = now, ob_published = None\<rparr>],
       q_next := Suc (q_next q)\<rparr>"

section \<open>Enqueue\<close>

definition new_job :: "job_env \<Rightarrow> string \<Rightarrow> string \<Rightarrow> pyval \<Rightarrow> string \<Rightarrow> int \<Rightarrow> int \<Rightarrow> job" where
  "new_job env ws jid command key max_attempts now =
     \<lparr>jo_id = jid, jo_workspace = ws, jo_command = fst (je_redact env command), jo_digest = je_digest env command,
      jo_key = key, jo_status = Queued, jo_attempts = 0, jo_max_attempts = max_attempts, jo_fence = 0,
      jo_worker = None, jo_expires = None, jo_cancel = False, jo_result = None, jo_error = None,
      jo_command_redaction = snd (je_redact env command), jo_result_redaction = None, jo_created = now,
      jo_updated = now\<rparr>"

definition enqueue ::
  "job_env \<Rightarrow> actor \<Rightarrow> pyval \<Rightarrow> string \<Rightarrow> int \<Rightarrow> int \<Rightarrow> queue \<Rightarrow> (job \<times> queue) res" where
  "enqueue env a command key max_attempts now q =
     (let ws = ac_workspace_id a in
      bind_res (require_actor a True (Some ws)) (\<lambda>_.
      bind_res (ensure (is_dict command \<and> command \<noteq> VDict []) (WorkflowError ''validation_error'')) (\<lambda>_.
      bind_res (ensure (key \<noteq> [] \<and> length key \<le> 255) (WorkflowError ''validation_error'')) (\<lambda>_.
      bind_res (ensure (1 \<le> max_attempts \<and> max_attempts \<le> 20) (WorkflowError ''validation_error'')) (\<lambda>_.
        case find (\<lambda>j. jo_workspace j = ws \<and> jo_key j = key) (q_jobs q) of
          Some j \<Rightarrow>
            if jo_digest j \<noteq> je_digest env command then Inl (WorkflowError ''idempotency_conflict'')
            else Inr (j, q)
        | None \<Rightarrow>
            let jid = je_uuid env (q_next q);
                q1 = q\<lparr>q_jobs := q_jobs q @ [new_job env ws jid command key max_attempts now],
                       q_next := Suc (q_next q)\<rparr>;
                q2 = add_outbox env ws jid ''queued'' now q1 in
            bind_res (job_row ws jid q2) (\<lambda>j. Inr (j, q2)))))))"

section \<open>Leases\<close>

definition lease_expired :: "int \<Rightarrow> job \<Rightarrow> bool" where
  "lease_expired now j = (case jo_expires j of None \<Rightarrow> False | Some t \<Rightarrow> t \<le> now)"

definition expired_status :: "job \<Rightarrow> job_status" where
  "expired_status j =
     (if jo_cancel j then Cancelled else if jo_max_attempts j \<le> jo_attempts j then Failed else Queued)"

text \<open>The loop body of \<open>_expire_and_cancel\<close> on one selected row.\<close>

definition expire_row :: "job_env \<Rightarrow> string \<Rightarrow> int \<Rightarrow> job \<Rightarrow> queue \<Rightarrow> queue" where
  "expire_row env ws now r q =
     (let st = expired_status r in
      add_outbox env ws (jo_id r) (job_status_value st) now
        (update_jobs ws (jo_id r) (\<lambda>j. jo_status j = Leased)
          (\<lambda>j. j\<lparr>jo_status := st, jo_worker := None, jo_expires := None,
             jo_error := (if st = Failed then Some (VDict [(''code'', VStr ''retry_exhausted'')]) else None),
             jo_updated := now\<rparr>) q))"

definition expire_and_cancel :: "job_env \<Rightarrow> string \<Rightarrow> int \<Rightarrow> queue \<Rightarrow> queue" where
  "expire_and_cancel env ws now q =
     fold (expire_row env ws now)
       (filter (\<lambda>j. jo_workspace j = ws \<and> jo_status j = Leased \<and> lease_expired now j) (q_jobs q)) q"

definition claimable :: "job \<Rightarrow> bool" where
  "claimable j = (jo_status j = Queued \<and> \<not> jo_cancel j)"

definition take_lease :: "string \<Rightarrow> int \<Rightarrow> int \<Rightarrow> job \<Rightarrow> job" where
  "take_lease worker until now j =
     j\<lparr>jo_status := Leased, jo_attempts := jo_attempts j + 1, jo_fence := jo_fence j + 1,
       jo_worker := Some worker, jo_expires := Some until, jo_updated := now\<rparr>"

text \<open>\<open>ORDER BY created_at,job_id LIMIT 1\<close>\<close>

definition earlier_job :: "job \<Rightarrow> job \<Rightarrow> bool" where
  "earlier_job j k =
     (jo_created j < jo_created k \<or> jo_created j = jo_created k \<and> str_less (jo_id j) (jo_id k))"

fun first_job :: "job list \<Rightarrow> job option" where
  "first_job [] = None"
| "first_job (j # js) =
     (case first_job js of None \<Rightarrow> Some j | Some k \<Rightarrow> if earlier_job k j then Some k else Some j)"

text \<open>The second half of both claims: the guarded update, its outbox event and the row read back.\<close>

definition lease_row ::
  "job_env \<Rightarrow> string \<Rightarrow> string \<Rightarrow> string \<Rightarrow> int \<Rightarrow> queue \<Rightarrow> (job option \<times> queue) res" where
  "lease_row env ws jid worker now q =
     (if \<not> updates_row ws jid claimable q then Inr (None, q)
      else
        let q' = add_outbox env ws jid ''leased'' now
              (update_jobs ws jid claimable (take_lease worker (now + je_lease env) now) q) in
        bind_res (job_row ws jid q') (\<lambda>j. Inr (Some j, q')))"

definition claim :: "job_env \<Rightarrow> actor \<Rightarrow> string \<Rightarrow> int \<Rightarrow> queue \<Rightarrow> (job option \<times> queue) res" where
  "claim env a worker now q =
     (if worker = [] then Inl ValueError
      else bind_res (require_actor a True (Some (ac_workspace_id a))) (\<lambda>_.
        let ws = ac_workspace_id a;
            q1 = expire_and_cancel env ws now q in
        case first_job (filter (\<lambda>j. jo_workspace j = ws \<and> claimable j) (q_jobs q1)) of
          None \<Rightarrow> Inr (None, q1)
        | Some r \<Rightarrow> lease_row env ws (jo_id r) worker now q1))"

definition claim_specific ::
  "job_env \<Rightarrow> actor \<Rightarrow> string \<Rightarrow> string \<Rightarrow> int \<Rightarrow> queue \<Rightarrow> (job option \<times> queue) res" where
  "claim_specific env a jid worker now q =
     (if jid = [] \<or> worker = [] then Inl ValueError
      else bind_res (require_actor a True (Some (ac_workspace_id a))) (\<lambda>_.
        lease_row env (ac_workspace_id a) jid worker now (expire_and_cancel env (ac_workspace_id a) now q)))"

section \<open>Fenced operations\<close>

abbreviation StaleLease :: exn where
  "StaleLease \<equiv> WorkflowError ''stale_lease''"

abbreviation WorkerCancelled :: exn where
  "WorkerCancelled \<equiv> WorkflowError ''job_cancelled''"

definition holds_fence :: "int \<Rightarrow> job \<Rightarrow> bool" where
  "holds_fence fence j = (jo_status j = Leased \<and> jo_fence j = fence)"

text \<open>\<open>status='leased' AND fence=? AND lease_expires_at>? AND cancellation_requested=0\<close>\<close>

definition live_lease :: "int \<Rightarrow> int \<Rightarrow> job \<Rightarrow> bool" where
  "live_lease fence now j =
     (holds_fence fence j \<and> (case jo_expires j of None \<Rightarrow> False | Some t \<Rightarrow> now < t) \<and> \<not> jo_cancel j)"

text \<open>A guarded update that raises \<open>StaleLease\<close> when it matches no row, with its outbox event, if any.\<close>

definition fenced_update ::
  "job_env \<Rightarrow> string \<Rightarrow> string \<Rightarrow> (job \<Rightarrow> bool) \<Rightarrow> (job \<Rightarrow> job) \<Rightarrow> string option \<Rightarrow> int \<Rightarrow> queue \<Rightarrow> (job \<times> queue) res" where
  "fenced_update env ws jid p f event now q =
     (if \<not> updates_row ws jid p q then Inl StaleLease
      else
        let q1 = update_jobs ws jid p f q;
            q2 = (case event of None \<Rightarrow> q1 | Some ty \<Rightarrow> add_outbox env ws jid ty now q1) in
        bind_res (job_row ws jid q2) (\<lambda>j. Inr (j, q2)))"

definition assert_active :: "actor \<Rightarrow> job \<Rightarrow> int \<Rightarrow> queue \<Rightarrow> job res" where
  "assert_active a lease now q =
     bind_res (require_actor a True (Some (ac_workspace_id a))) (\<lambda>_.
       case find_job (ac_workspace_id a) (jo_id lease) q of
         None \<Rightarrow> Inl StaleLease
       | Some j \<Rightarrow>
           if jo_status j \<noteq> Leased \<or> jo_fence j \<noteq> jo_fence lease \<or> jo_worker j \<noteq> jo_worker lease
           then Inl StaleLease
           else
             (case jo_expires j of
                None \<Rightarrow> Inl TypeError
              | Some t \<Rightarrow>
                  if t \<le> now then Inl StaleLease
                  else if jo_cancel j then Inl WorkerCancelled
                  else Inr j))"

text \<open>The publication block: \<open>body\<close> is what the \<open>with\<close> statement runs on the queue and the rest of the
  database, between the check on entry at \<open>now\<close> and the one before commit at \<open>later\<close>.\<close>

definition publication ::
  "actor \<Rightarrow> job \<Rightarrow> bool \<Rightarrow> int \<Rightarrow> int \<Rightarrow> (queue \<times> 'db \<Rightarrow> (queue \<times> 'db) res) \<Rightarrow> queue \<times> 'db \<Rightarrow> (queue \<times> 'db) res" where
  "publication a lease completing now later body s =
     bind_res (assert_active a lease now (fst s)) (\<lambda>_.
     bind_res (body s) (\<lambda>s'.
       if completing then
         bind_res (job_row (ac_workspace_id a) (jo_id lease) (fst s')) (\<lambda>j.
           if jo_status j \<noteq> Completed \<or> jo_fence j \<noteq> jo_fence lease then Inl StaleLease else Inr s')
       else bind_res (assert_active a lease later (fst s')) (\<lambda>_. Inr s')))"

definition acknowledge_cancel :: "job_env \<Rightarrow> actor \<Rightarrow> string \<Rightarrow> int \<Rightarrow> int \<Rightarrow> queue \<Rightarrow> (job \<times> queue) res" where
  "acknowledge_cancel env a jid fence now q =
     bind_res (require_actor a True None) (\<lambda>_.
       fenced_update env (ac_workspace_id a) jid (\<lambda>j. holds_fence fence j \<and> jo_cancel j)
         (\<lambda>j. j\<lparr>jo_status := Cancelled, jo_worker := None, jo_expires := None, jo_updated := now\<rparr>)
         (Some ''cancelled'') now q)"

definition abandon :: "job_env \<Rightarrow> actor \<Rightarrow> string \<Rightarrow> int \<Rightarrow> int \<Rightarrow> queue \<Rightarrow> (job \<times> queue) res" where
  "abandon env a jid fence now q =
     bind_res (require_actor a True None) (\<lambda>_.
       fenced_update env (ac_workspace_id a) jid (holds_fence fence)
         (\<lambda>j. j\<lparr>jo_expires := Some now, jo_updated := now\<rparr>) None now q)"

definition heartbeat :: "job_env \<Rightarrow> actor \<Rightarrow> string \<Rightarrow> int \<Rightarrow> int \<Rightarrow> queue \<Rightarrow> (job \<times> queue) res" where
  "heartbeat env a jid fence now q =
     bind_res (require_actor a True (Some (ac_workspace_id a))) (\<lambda>_.
       fenced_update env (ac_workspace_id a) jid (live_lease fence now)
         (\<lambda>j. j\<lparr>jo_expires := Some (now + je_lease env), jo_updated := now\<rparr>) None now q)"

definition complete_job :: "job_env \<Rightarrow> actor \<Rightarrow> string \<Rightarrow> int \<Rightarrow> pyval \<Rightarrow> int \<Rightarrow> queue \<Rightarrow> (job \<times> queue) res" where
  "complete_job env a jid fence result now q =
     bind_res (require_actor a True (Some (ac_workspace_id a))) (\<lambda>_.
       fenced_update env (ac_workspace_id a) jid (live_lease fence now)
         (\<lambda>j. j\<lparr>jo_status := Completed, jo_result := Some (fst (je_redact env result)),
            jo_result_redaction := Some (snd (je_redact env result)), jo_worker := None,
            jo_expires := None, jo_updated := now\<rparr>)
         (Some ''completed'') now q)"

definition fail_job :: "job_env \<Rightarrow> actor \<Rightarrow> string \<Rightarrow> int \<Rightarrow> pyval \<Rightarrow> int \<Rightarrow> queue \<Rightarrow> (job \<times> queue) res" where
  "fail_job env a jid fence error now q =
     bind_res (require_actor a True (Some (ac_workspace_id a))) (\<lambda>_.
     bind_res (ensure (case error of VDict d \<Rightarrow> is_str (dict_get d ''code'') | _ \<Rightarrow> False)
         (WorkflowError ''validation_error'')) (\<lambda>_.
       fenced_update env (ac_workspace_id a) jid (live_lease fence now)
         (\<lambda>j. j\<lparr>jo_status := Failed, jo_error := Some (fst (je_redact env error)),
            jo_result_redaction := Some (snd (je_redact env error)), jo_worker := None,
            jo_expires := None, jo_updated := now\<rparr>)
         (Some ''failed'') now q))"

section \<open>Cancellation and outbox\<close>

definition is_job_terminal :: "job_status \<Rightarrow> bool" where
  "is_job_terminal st = (st \<in> {Completed, Failed, Cancelled})"

definition cancel_job :: "int \<Rightarrow> job_status \<Rightarrow> job \<Rightarrow> job" where
  "cancel_job now st j =
     j\<lparr>jo_cancel := True, jo_status := st, jo_worker := (if st = Cancelled then None else jo_worker j),
       jo_expires := (if st = Cancelled then None else jo_expires j), jo_updated := now\<rparr>"

definition request_cancel :: "job_env \<Rightarrow> actor \<Rightarrow> string \<Rightarrow> int \<Rightarrow> queue \<Rightarrow> (job \<times> queue) res" where
  "request_cancel env a jid now q =
     (let ws = ac_workspace_id a in
      bind_res (require_actor a True (Some ws)) (\<lambda>_.
      bind_res (job_row ws jid q) (\<lambda>r.
        if is_job_terminal (jo_status r) then Inr (r, q)
        else
          let st = (if jo_status r = Queued then Cancelled else jo_status r);
              q' = add_outbox env ws jid (if st \<noteq> Cancelled then ''cancellation_requested'' else ''cancelled'') now
                (update_jobs ws jid (\<lambda>_. True) (cancel_job now st) q) in
          bind_res (job_row ws jid q') (\<lambda>j. Inr (j, q')))))"

definition get_job :: "actor \<Rightarrow> string \<Rightarrow> queue \<Rightarrow> job res" where
  "get_job a jid q =
     bind_res (require_actor a False (Some (ac_workspace_id a))) (\<lambda>_. job_row (ac_workspace_id a) jid q)"

definition outbox_before :: "outbox_event \<Rightarrow> outbox_event \<Rightarrow> bool" where
  "outbox_before e f = (ob_created e < ob_created f \<or> ob_created e = ob_created f \<and> \<not> str_less (ob_id f) (ob_id e))"

fun insert_event :: "outbox_event \<Rightarrow> outbox_event list \<Rightarrow> outbox_event list" where
  "insert_event e [] = [e]"
| "insert_event e (f # fs) = (if outbox_before e f then e # f # fs else f # insert_event e fs)"

definition pending_outbox :: "actor \<Rightarrow> queue \<Rightarrow> outbox_event list res" where
  "pending_outbox a q =
     bind_res (require_actor a False (Some (ac_workspace_id a))) (\<lambda>_.
       Inr (foldr insert_event
         (filter (\<lambda>e. ob_workspace e = ac_workspace_id a \<and> ob_published e = None) (q_outbox q)) []))"

definition acknowledge_outbox :: "actor \<Rightarrow> string \<Rightarrow> int \<Rightarrow> queue \<Rightarrow> queue res" where
  "acknowledge_outbox a eid now q =
     bind_res (require_actor a True (Some (ac_workspace_id a))) (\<lambda>_.
       Inr (q\<lparr>q_outbox := map (\<lambda>e.
           if ob_workspace e = ac_workspace_id a \<and> ob_id e = eid \<and> ob_published e = None
           then e\<lparr>ob_published := Some now\<rparr> else e) (q_outbox q)\<rparr>))"

end
