(* ===== verification/Worker.thy ===== *)
theory Worker
  imports JobQueue
begin

text \<open>
  The worker service (\<open>worker_service.py\<close>) and the fair choice among workspaces (\<open>worker.py\<close>).

  A run of a worker interleaves its own transactions with everything else that happens to the database:
  other workers and users, its own heartbeat thread and the guarded transactions of its handler. What
  the others commit before the \<open>n\<close>-th access, the clock then and the stop flag then are parameters
  (\<open>world\<close>), and so is the handler, the code of the job kinds. The state is the queue and the rest of the
  database, with the number of accesses so far.
\<close>

section \<open>Worlds\<close>

record 'db world =
  wd_env :: job_env
  wd_actor :: actor
  wd_now :: "nat \<Rightarrow> int"
  wd_stop :: "nat \<Rightarrow> bool"
  wd_others :: "nat \<Rightarrow> queue \<times> 'db \<Rightarrow> queue \<times> 'db"

type_synonym 'db wstate = "(queue \<times> 'db) \<times> nat"

text \<open>What a handler returns: a result, or a \<open>PreparedResult\<close> with its publisher.\<close>

datatype 'db handled =
    Plain pyval
  | Prepared "'db \<Rightarrow> (pyval \<times> 'db) res"

text \<open>One transaction on the queue: the others first; a raised exception rolls back.\<close>

definition transact ::
  "'db world \<Rightarrow> (int \<Rightarrow> queue \<Rightarrow> ('a \<times> queue) res) \<Rightarrow> 'db wstate \<Rightarrow> 'a res \<times> 'db wstate" where
  "transact w op s =
     (let n = snd s; t = wd_others w n (fst s) in
      case op (wd_now w n) (fst t) of
        Inl e \<Rightarrow> (Inl e, (t, Suc n))
      | Inr (x, q) \<Rightarrow> (Inr x, ((q, snd t), Suc n)))"

text \<open>A transaction that only reads.\<close>

definition observe :: "(int \<Rightarrow> queue \<Rightarrow> 'a res) \<Rightarrow> int \<Rightarrow> queue \<Rightarrow> ('a \<times> queue) res" where
  "observe f now q = bind_res (f now q) (\<lambda>x. Inr (x, q))"

section \<open>One job\<close>

definition checkpoint :: "'db world \<Rightarrow> job \<Rightarrow> 'db wstate \<Rightarrow> job res \<times> 'db wstate" where
  "checkpoint w lease s =
     (if wd_stop w (snd s) then (Inl WorkerStopping, (fst s, Suc (snd s)))
      else transact w (observe (assert_active (wd_actor w) lease)) s)"

text \<open>The heartbeat thread, once: part of what the others of the main thread do.\<close>

definition maintain_lease :: "'db world \<Rightarrow> job \<Rightarrow> 'db wstate \<Rightarrow> job res \<times> 'db wstate" where
  "maintain_lease w lease s =
     bind_w (checkpoint w lease s) (\<lambda>_.
       transact w (heartbeat (wd_env w) (wd_actor w) (jo_id lease) (jo_fence lease)))"

text \<open>The body of the completing publication; its last component is the value of the \<open>return\<close>.\<close>

definition completion ::
  "'db world \<Rightarrow> job \<Rightarrow> 'db handled \<Rightarrow> nat \<Rightarrow> queue \<times> 'db \<times> job \<Rightarrow> (queue \<times> 'db \<times> job) res" where
  "completion w lease h n t =
     (case t of (q, db, _) \<Rightarrow>
        bind_res (case h of Plain v \<Rightarrow> Inr (v, db) | Prepared publish \<Rightarrow> publish db) (\<lambda>(v, db').
        bind_res (ensure (\<not> wd_stop w (n + 1)) WorkerStopping) (\<lambda>_.
        bind_res (assert_active (wd_actor w) lease (wd_now w (n + 1)) q) (\<lambda>_.
        bind_res (complete_job (wd_env w) (wd_actor w) (jo_id lease) (jo_fence lease) v (wd_now w (n + 2)) q) (\<lambda>(j, q').
          Inr (q', db', j))))))"

definition publish_result ::
  "'db world \<Rightarrow> job \<Rightarrow> 'db handled \<Rightarrow> 'db wstate \<Rightarrow> job res \<times> 'db wstate" where
  "publish_result w lease h s =
     (let n = snd s; t = wd_others w n (fst s) in
      case publication (wd_actor w) lease True (wd_now w n) (wd_now w (n + 3)) (completion w lease h n)
             (fst t, snd t, lease) of
        Inl e \<Rightarrow> (Inl e, (t, n + 4))
      | Inr (q, db, j) \<Rightarrow> (Inr j, ((q, db), n + 4)))"

text \<open>The \<open>try\<close> block of \<open>run_once\<close>.\<close>

definition attempt ::
  "'db world \<Rightarrow> (pyval \<Rightarrow> 'db handled res) \<Rightarrow> job \<Rightarrow> 'db wstate \<Rightarrow> job res \<times> 'db wstate" where
  "attempt w handler lease s =
     bind_w (checkpoint w lease s) (\<lambda>_ s.
     bind_w (handler (jo_command lease), s) (\<lambda>h s.
     bind_w (checkpoint w lease s) (\<lambda>_ s.
       publish_result w lease h s)))"

definition reread :: "'db world \<Rightarrow> job \<Rightarrow> 'db wstate \<Rightarrow> job res \<times> 'db wstate" where
  "reread w lease s = transact w (observe (\<lambda>_. get_job (wd_actor w) (jo_id lease))) s"

definition settle :: "'db world \<Rightarrow> job \<Rightarrow> bool \<Rightarrow> 'db wstate \<Rightarrow> job res \<times> 'db wstate" where
  "settle w lease stopped s =
     bind_w (reread w lease s) (\<lambda>cur s.
       if jo_status cur \<noteq> Leased \<or> jo_fence cur \<noteq> jo_fence lease then (Inr cur, s)
       else if \<not> jo_cancel cur \<and> \<not> stopped then reread w lease s
       else
         (case transact w
                 (if jo_cancel cur then acknowledge_cancel (wd_env w) (wd_actor w) (jo_id lease) (jo_fence lease)
                  else abandon (wd_env w) (wd_actor w) (jo_id lease) (jo_fence lease)) s of
            (Inr j, s') \<Rightarrow> (Inr j, s')
          | (Inl e, s') \<Rightarrow> if e = StaleLease then reread w lease s' else (Inl e, s')))"

fun exn_code :: "exn \<Rightarrow> string" where
  "exn_code (WorkflowError c) = c"
| "exn_code _ = ''job_failed''"

text \<open>The \<open>except\<close> clauses of \<open>run_once\<close> around the failure of a job, and all of them.\<close>

definition land_stop :: "'db world \<Rightarrow> job \<Rightarrow> exn \<Rightarrow> 'db wstate \<Rightarrow> job res \<times> 'db wstate" where
  "land_stop w lease e s =
     (if e = WorkerStopping then settle w lease True s
      else if e = StaleLease \<or> e = WorkerCancelled then settle w lease False s
      else (Inl e, s))"

definition land_failure :: "'db world \<Rightarrow> job \<Rightarrow> exn \<Rightarrow> 'db wstate \<Rightarrow> job res \<times> 'db wstate" where
  "land_failure w lease e s =
     (if e = WorkerStopping \<or> e = StaleLease \<or> e = WorkerCancelled then land_stop w lease e s
      else
        (case bind_w (checkpoint w lease s) (\<lambda>_.
                transact w (fail_job (wd_env w) (wd_actor w) (jo_id lease) (jo_fence lease)
                  (VDict [(''code'', VStr (exn_code e))]))) of
           (Inr j, s') \<Rightarrow> (Inr j, s')
         | (Inl e', s') \<Rightarrow> land_stop w lease e' s'))"

definition claim_either :: "job_env \<Rightarrow> actor \<Rightarrow> string \<Rightarrow> string option \<Rightarrow> int \<Rightarrow> queue \<Rightarrow> (job option \<times> queue) res" where
  "claim_either env a worker jid now =
     (case jid of None \<Rightarrow> claim env a worker now | Some i \<Rightarrow> claim_specific env a i worker now)"

definition run_once ::
  "'db world \<Rightarrow> (pyval \<Rightarrow> 'db handled res) \<Rightarrow> string \<Rightarrow> string option \<Rightarrow> 'db wstate \<Rightarrow> job option res \<times> 'db wstate" where
  "run_once w handler worker jid s =
     (if wd_stop w (snd s) then (Inr None, (fst s, Suc (snd s)))
      else
        bind_w
          (transact w (claim_either (wd_env w) (wd_actor w) worker jid) s)
          (\<lambda>r s. case r of
             None \<Rightarrow> (Inr None, s)
           | Some lease \<Rightarrow>
               bind_w
                 (case attempt w handler lease s of
                    (Inr j, s') \<Rightarrow> (Inr j, s')
                  | (Inl e, s') \<Rightarrow> land_failure w lease e s')
                 (\<lambda>j s. (Inr (Some j), s))))"

section \<open>Many workspaces\<close>

text \<open>
  \<open>_fair_start\<close>: SQLite keeps the caller's cursor; on PostgreSQL the cursor of the worker pool is a row
  with the digest of the actor list it was made for.
\<close>

definition fair_start :: "bool \<Rightarrow> nat \<Rightarrow> nat \<Rightarrow> string \<Rightarrow> (string \<times> nat) option \<Rightarrow> nat \<times> (string \<times> nat) option" where
  "fair_start postgres n cursor digest row =
     (if \<not> postgres then (cursor mod n, row)
      else
        let start = (case row of None \<Rightarrow> 0 | Some (d, c) \<Rightarrow> if d \<noteq> digest then 0 else c mod n) in
        (start, Some (digest, (start + 1) mod n)))"

text \<open>The loop over the offsets from \<open>k\<close> on; \<open>poll i\<close> is \<open>run_once\<close> for the \<open>i\<close>-th actor.\<close>

fun fair_loop :: "(nat \<Rightarrow> 's \<Rightarrow> 'r option res \<times> 's) \<Rightarrow> nat \<Rightarrow> nat \<Rightarrow> nat list \<Rightarrow> 's \<Rightarrow> ('r option \<times> nat) res \<times> 's" where
  "fair_loop poll n start [] s = (Inr (None, (start + 1) mod n), s)"
| "fair_loop poll n start (k # ks) s =
     bind_w (poll ((start + k) mod n) s) (\<lambda>r s.
       if r \<noteq> None then (Inr (r, (start + k + 1) mod n), s) else fair_loop poll n start ks s)"

definition run_fair_once ::
  "(nat \<Rightarrow> 's \<Rightarrow> 'r option res \<times> 's) \<Rightarrow> nat \<Rightarrow> nat \<Rightarrow> 's \<Rightarrow> ('r option \<times> nat) res \<times> 's" where
  "run_fair_once poll n start s =
     (if n = 0 then (Inl ValueError, s) else fair_loop poll n start [0..<n] s)"

end
