(* ===== verification/JobQueueProps.thy ===== *)
theory JobQueueProps
  imports JobQueue
begin

text \<open>
  Correctness of the durable job queue. Every operation is shown to be a sequence of elementary row
  steps (\<open>row_step\<close>): a job is inserted with its first event, one row moves together with its event,
  or an event is acknowledged. The invariant, the fencing laws and the isolation of workspaces are
  proved for row steps only, and the fencing argument itself in a locale.
\<close>

section \<open>Fencing tokens\<close>

locale fencing =
  fixes step :: "'s \<Rightarrow> 's \<Rightarrow> bool" and token :: "'s \<Rightarrow> int" and held :: "'s \<Rightarrow> bool"
  assumes token_mono: "step s s' \<Longrightarrow> token s \<le> token s'"
    and held_anew: "step s s' \<Longrightarrow> token s' = token s \<Longrightarrow> held s' \<Longrightarrow> held s"
begin

definition dead :: "int \<Rightarrow> 's \<Rightarrow> bool" where
  "dead t s = (t < token s \<or> t = token s \<and> \<not> held s)"

lemma steps_mono: "step\<^sup>*\<^sup>* s s' \<Longrightarrow> token s \<le> token s'"
  by (induction rule: rtranclp_induct) (auto dest: token_mono)

lemma steps_held: "step\<^sup>*\<^sup>* s s' \<Longrightarrow> token s' = token s \<Longrightarrow> held s' \<Longrightarrow> held s"
proof (induction rule: rtranclp_induct)
  case (step u v)
  then have "token s \<le> token u" "token u \<le> token v"
    by (auto dest: steps_mono token_mono)
  with step show ?case
    by (auto dest: held_anew)
qed simp

lemma dead_forever: "step\<^sup>*\<^sup>* s s' \<Longrightarrow> dead t s \<Longrightarrow> dead t s'"
  using steps_mono [of s s'] steps_held [of s s'] by (auto simp: dead_def)

lemma dead_not_live: "dead t s \<Longrightarrow> \<not> (held s \<and> token s = t)"
  by (auto simp: dead_def)

lemma between:
  assumes "step\<^sup>*\<^sup>* s u" "step\<^sup>*\<^sup>* u s'" "token s' = token s"
  shows "token u = token s" "held s' \<Longrightarrow> held u"
  using assms steps_mono [of s u] steps_mono [of u s'] steps_held [of u s'] by auto

end

section \<open>Rows\<close>

definition same_job :: "job \<Rightarrow> job \<Rightarrow> bool" where
  "same_job j k =
     (jo_id k = jo_id j \<and> jo_workspace k = jo_workspace j \<and> jo_key k = jo_key j \<and> jo_digest k = jo_digest j \<and>
      jo_command k = jo_command j \<and> jo_max_attempts k = jo_max_attempts j \<and> jo_created k = jo_created j)"

text \<open>What a row always satisfies.\<close>

definition job_ok :: "job \<Rightarrow> bool" where
  "job_ok j =
     (jo_fence j = jo_attempts j \<and> 0 \<le> jo_attempts j \<and> jo_attempts j \<le> jo_max_attempts j \<and>
      1 \<le> jo_max_attempts j \<and> jo_max_attempts j \<le> 20 \<and>
      (jo_status j = Leased \<longleftrightarrow> jo_worker j \<noteq> None) \<and> (jo_status j = Leased \<longleftrightarrow> jo_expires j \<noteq> None) \<and>
      (jo_status j = Queued \<longrightarrow> jo_attempts j < jo_max_attempts j) \<and>
      (jo_cancel j \<longrightarrow> jo_status j \<in> {Leased, Cancelled}) \<and> (jo_status j = Cancelled \<longrightarrow> jo_cancel j) \<and>
      (jo_status j = Completed \<longleftrightarrow> jo_result j \<noteq> None) \<and> (jo_status j = Failed \<longleftrightarrow> jo_error j \<noteq> None))"

text \<open>The event that announces the state of a row.\<close>

definition told :: "job \<Rightarrow> string" where
  "told j =
     (if jo_status j = Leased \<and> jo_cancel j then ''cancellation_requested'' else job_status_value (jo_status j))"

text \<open>A legal change of one row with its event.\<close>

definition evolves :: "job \<Rightarrow> job \<Rightarrow> bool" where
  "evolves j k =
     (same_job j k \<and> jo_fence j \<le> jo_fence k \<and> (is_job_terminal (jo_status j) \<longrightarrow> k = j) \<and>
      (jo_fence k = jo_fence j \<and> jo_status k = Leased \<longrightarrow> jo_status j = Leased) \<and> (jo_cancel j \<longrightarrow> jo_cancel k) \<and>
      (jo_fence k = jo_fence j \<and> jo_status k = Completed \<longrightarrow> jo_status j \<in> {Leased, Completed}))"

definition moves :: "job \<Rightarrow> job \<Rightarrow> string option \<Rightarrow> bool" where
  "moves j k ev =
     (evolves j k \<and> job_ok k \<and>
      (case ev of
         None \<Rightarrow> told k = told j \<and> jo_attempts k = jo_attempts j
       | Some ty \<Rightarrow> told k = ty \<and> jo_attempts k = jo_attempts j + (if ty = ''leased'' then 1 else 0)))"

lemma evolves_refl [simp]: "evolves j j"
  by (simp add: evolves_def same_job_def)

lemma evolvesD:
  assumes "evolves j k"
  shows "same_job j k" "jo_fence j \<le> jo_fence k" "is_job_terminal (jo_status j) \<Longrightarrow> k = j"
    "jo_fence k = jo_fence j \<Longrightarrow> jo_status k = Leased \<Longrightarrow> jo_status j = Leased" "jo_cancel j \<Longrightarrow> jo_cancel k"
    "jo_fence k = jo_fence j \<Longrightarrow> jo_status k = Completed \<Longrightarrow> jo_status j \<in> {Leased, Completed}"
  using assms unfolding evolves_def by blast+

lemmas move_defs = moves_def evolves_def same_job_def job_ok_def told_def is_job_terminal_def

lemma movesD:
  assumes "moves j k ev"
  shows "evolves j k" "job_ok k"
  using assms unfolding moves_def by blast+

lemma evolves_trans:
  assumes "evolves j k" "evolves k l"
  shows "evolves j l"
proof -
  have "same_job j l"
    using evolvesD(1) [OF assms(1)] evolvesD(1) [OF assms(2)] by (simp add: same_job_def)
  moreover have "jo_fence j \<le> jo_fence l"
    using evolvesD(2) [OF assms(1)] evolvesD(2) [OF assms(2)] by simp
  moreover have "is_job_terminal (jo_status j) \<longrightarrow> l = j"
    using evolvesD(3) [OF assms(1)] evolvesD(3) [OF assms(2)] by blast
  moreover have "jo_status j = Leased" if "jo_fence l = jo_fence j" "jo_status l = Leased"
    using evolvesD(2,4) [OF assms(1)] evolvesD(2,4) [OF assms(2)] that by simp
  moreover have "jo_status j \<in> {Leased, Completed}" if "jo_fence l = jo_fence j" "jo_status l = Completed"
  proof -
    have "jo_fence k = jo_fence j" "jo_fence l = jo_fence k"
      using evolvesD(2) [OF assms(1)] evolvesD(2) [OF assms(2)] that(1) by simp_all
    with evolvesD(4,6) [OF assms(1)] evolvesD(6) [OF assms(2)] that(2) show ?thesis
      by auto
  qed
  moreover have "jo_cancel j \<longrightarrow> jo_cancel l"
    using evolvesD(5) [OF assms(1)] evolvesD(5) [OF assms(2)] by blast
  ultimately show ?thesis
    unfolding evolves_def by blast
qed

lemma move_lease:
  assumes "job_ok j" "claimable j"
  shows "moves j (take_lease w t now j) (Some ''leased'')"
  using assms by (simp add: move_defs take_lease_def claimable_def)

lemma move_expire:
  assumes "job_ok j" "jo_status j = Leased"
  shows "moves j (j\<lparr>jo_status := expired_status j, jo_worker := None, jo_expires := None,
      jo_error := (if expired_status j = Failed then Some e else None), jo_updated := now\<rparr>)
    (Some (job_status_value (expired_status j)))"
  using assms by (simp add: move_defs expired_status_def)

lemma move_heartbeat:
  assumes "job_ok j" "jo_status j = Leased"
  shows "moves j (j\<lparr>jo_expires := Some t, jo_updated := now\<rparr>) None"
  using assms by (simp add: move_defs)

lemma move_acknowledge:
  assumes "job_ok j" "jo_status j = Leased" "jo_cancel j"
  shows "moves j (j\<lparr>jo_status := Cancelled, jo_worker := None, jo_expires := None, jo_updated := now\<rparr>)
    (Some ''cancelled'')"
  using assms by (simp add: move_defs)

lemma move_complete:
  assumes "job_ok j" "jo_status j = Leased" "\<not> jo_cancel j"
  shows "moves j (j\<lparr>jo_status := Completed, jo_result := Some r, jo_result_redaction := Some d,
      jo_worker := None, jo_expires := None, jo_updated := now\<rparr>) (Some ''completed'')"
  using assms by (simp add: move_defs)

lemma move_fail:
  assumes "job_ok j" "jo_status j = Leased" "\<not> jo_cancel j"
  shows "moves j (j\<lparr>jo_status := Failed, jo_error := Some r, jo_result_redaction := Some d,
      jo_worker := None, jo_expires := None, jo_updated := now\<rparr>) (Some ''failed'')"
  using assms by (simp add: move_defs)

lemma move_cancel:
  assumes "job_ok j"
  shows "jo_status j = Queued \<Longrightarrow> moves j (cancel_job now Cancelled j) (Some ''cancelled'')"
    and "jo_status j = Leased \<Longrightarrow> moves j (cancel_job now Leased j) (Some ''cancellation_requested'')"
  using assms by (simp_all add: move_defs cancel_job_def)

lemma new_job_sel [simp]:
  "jo_id (new_job env ws jid c k m now) = jid" "jo_workspace (new_job env ws jid c k m now) = ws"
  "jo_key (new_job env ws jid c k m now) = k" "jo_digest (new_job env ws jid c k m now) = je_digest env c"
  by (simp_all add: new_job_def)

lemma new_job_ok: "1 \<le> m \<Longrightarrow> m \<le> 20 \<Longrightarrow> job_ok (new_job env ws jid c k m now)"
  by (simp add: job_ok_def new_job_def)

section \<open>Lookups\<close>

text \<open>A guarded update of one row with its event.\<close>

definition write_row ::
  "job_env \<Rightarrow> string \<Rightarrow> string \<Rightarrow> (job \<Rightarrow> bool) \<Rightarrow> (job \<Rightarrow> job) \<Rightarrow> string option \<Rightarrow> int \<Rightarrow> queue \<Rightarrow> queue" where
  "write_row env ws jid p f ev now q =
     (case ev of
        None \<Rightarrow> update_jobs ws jid p f q
      | Some ty \<Rightarrow> add_outbox env ws jid ty now (update_jobs ws jid p f q))"

lemma find_job_SomeD:
  "find_job ws jid q = Some j \<Longrightarrow> j \<in> set (q_jobs q) \<and> jo_workspace j = ws \<and> jo_id j = jid"
  by (auto simp: find_job_def is_job_def find_Some_iff)

lemma find_job_None: "find_job ws jid q = None \<longleftrightarrow> (\<forall>j\<in>set (q_jobs q). \<not> is_job ws jid j)"
  by (auto simp: find_job_def find_None_iff)

lemma find_job_cong [simp]:
  "find_job ws jid (q\<lparr>q_next := n\<rparr>) = find_job ws jid q"
  "find_job ws jid (q\<lparr>q_outbox := es\<rparr>) = find_job ws jid q"
  "find_job ws jid (add_outbox env ws' jid' ty now q) = find_job ws jid q"
  by (simp_all add: find_job_def add_outbox_def)

lemma find_map_id:
  "(\<And>j. P (g j) = P j) \<Longrightarrow> find P (map g js) = map_option g (find P js)"
  by (induction js) auto

lemma find_update_jobs:
  assumes "\<And>j. is_job ws jid j \<Longrightarrow> p j \<Longrightarrow> is_job ws jid (f j)"
  shows "find_job ws' jid' (update_jobs ws jid p f q) =
    map_option (\<lambda>j. if matches_row ws jid p j then f j else j) (find_job ws' jid' q)"
  unfolding find_job_def update_jobs_def
proof (simp, rule find_map_id)
  fix j
  show "is_job ws' jid' (if matches_row ws jid p j then f j else j) = is_job ws' jid' j"
    using assms [of j] by (auto simp: matches_row_def is_job_def)
qed

lemma find_write_row:
  assumes "\<And>j. is_job ws jid j \<Longrightarrow> p j \<Longrightarrow> is_job ws jid (f j)"
  shows "find_job ws' jid' (write_row env ws jid p f ev now q) =
    map_option (\<lambda>j. if matches_row ws jid p j then f j else j) (find_job ws' jid' q)"
  using find_update_jobs [OF assms] by (simp add: write_row_def split: option.split)

section \<open>Row steps\<close>

definition insert_job :: "job_env \<Rightarrow> string \<Rightarrow> pyval \<Rightarrow> string \<Rightarrow> int \<Rightarrow> int \<Rightarrow> queue \<Rightarrow> queue" where
  "insert_job env ws command key m now q =
     add_outbox env ws (je_uuid env (q_next q)) ''queued'' now
       (q\<lparr>q_jobs := q_jobs q @ [new_job env ws (je_uuid env (q_next q)) command key m now],
          q_next := Suc (q_next q)\<rparr>)"

definition acknowledge_event :: "string \<Rightarrow> string \<Rightarrow> int \<Rightarrow> outbox_event \<Rightarrow> outbox_event" where
  "acknowledge_event ws eid now e =
     (if ob_workspace e = ws \<and> ob_id e = eid \<and> ob_published e = None then e\<lparr>ob_published := Some now\<rparr> else e)"

inductive row_step :: "job_env \<Rightarrow> string \<Rightarrow> queue \<Rightarrow> queue \<Rightarrow> bool" for env ws where
  inserted: "find (\<lambda>j. jo_workspace j = ws \<and> jo_key j = key) (q_jobs q) = None \<Longrightarrow> 1 \<le> m \<Longrightarrow> m \<le> 20 \<Longrightarrow>
    row_step env ws q (insert_job env ws command key m now q)"
| moved: "find_job ws jid q = Some j \<Longrightarrow> p j \<Longrightarrow> moves j (f j) ev \<Longrightarrow>
    (\<And>k. jo_id (f k) = jo_id k \<and> jo_workspace (f k) = jo_workspace k) \<Longrightarrow>
    row_step env ws q (write_row env ws jid p f ev now q)"
| acknowledged: "row_step env ws q (q\<lparr>q_outbox := map (acknowledge_event ws eid now) (q_outbox q)\<rparr>)"

text \<open>A row step only inserts rows and lets rows evolve.\<close>

lemma row_step_evolves:
  assumes "row_step env ws q q'" "find_job ws' jid q = Some j"
  obtains j' where "find_job ws' jid q' = Some j'" "evolves j j'" "ws' \<noteq> ws \<Longrightarrow> j' = j"
  using assms(1)
proof cases
  case (inserted key m command now)
  have "find_job ws' jid q' = Some j"
    using assms(2) by (simp add: inserted insert_job_def find_job_def add_outbox_def find_append)
  then show thesis
    by (intro that) auto
next
  case (moved jid' k p f ev now)
  let ?j' = "if matches_row ws jid' p j then f j else j"
  have "find_job ws' jid q' = Some ?j'"
    using assms(2) moved(5) unfolding moved(1) by (subst find_write_row) (auto simp: is_job_def)
  moreover have "evolves j ?j' \<and> (ws' \<noteq> ws \<longrightarrow> ?j' = j)"
    using assms(2) moved(2) movesD(1) [OF moved(4)] find_job_SomeD [OF assms(2)]
    by (auto simp: matches_row_def is_job_def)
  ultimately show thesis
    using that by blast
next
  case (acknowledged eid now)
  with assms(2) show thesis
    by (intro that) auto
qed

section \<open>Invariant\<close>

definition event_types :: "string \<Rightarrow> string \<Rightarrow> queue \<Rightarrow> string list" where
  "event_types ws jid q = map ob_type (filter (\<lambda>e. ob_workspace e = ws \<and> ob_job e = jid) (q_outbox q))"

text \<open>The events of a job end with the one that announces its state, and count its leases.\<close>

definition row_told :: "queue \<Rightarrow> job \<Rightarrow> bool" where
  "row_told q j =
     (let tys = event_types (jo_workspace j) (jo_id j) q in
      tys \<noteq> [] \<and> last tys = told j \<and> int (count_list tys ''leased'') = jo_attempts j)"

definition drawn :: "job_env \<Rightarrow> queue \<Rightarrow> string set" where
  "drawn env q = je_uuid env ` {..<q_next q}"

definition queue_ok :: "job_env \<Rightarrow> queue \<Rightarrow> bool" where
  "queue_ok env q =
     ((\<forall>j\<in>set (q_jobs q). job_ok j \<and> row_told q j \<and> jo_id j \<in> drawn env q) \<and>
      distinct (map (\<lambda>j. (jo_workspace j, jo_id j)) (q_jobs q)) \<and>
      distinct (map (\<lambda>j. (jo_workspace j, jo_key j)) (q_jobs q)) \<and>
      (\<forall>e\<in>set (q_outbox q). ob_id e \<in> drawn env q \<and> (\<exists>j\<in>set (q_jobs q). is_job (ob_workspace e) (ob_job e) j)) \<and>
      distinct (map ob_id (q_outbox q)))"

definition empty_queue :: queue where
  "empty_queue = \<lparr>q_jobs = [], q_outbox = [], q_next = 0\<rparr>"

lemma empty_queue_ok: "queue_ok env empty_queue"
  by (simp add: queue_ok_def empty_queue_def)

lemma find_job_ok:
  assumes "queue_ok env q" "find_job ws jid q = Some j"
  shows "job_ok j" "row_told q j"
  using assms find_job_SomeD [OF assms(2)] by (auto simp: queue_ok_def)

lemma find_job_iff:
  assumes "queue_ok env q"
  shows "find_job ws jid q = Some j \<longleftrightarrow> j \<in> set (q_jobs q) \<and> jo_workspace j = ws \<and> jo_id j = jid"
proof
  assume r: "j \<in> set (q_jobs q) \<and> jo_workspace j = ws \<and> jo_id j = jid"
  then obtain k where k: "find_job ws jid q = Some k"
    using find_job_None [of ws jid q] by (cases "find_job ws jid q") (auto simp: is_job_def)
  have "inj_on (\<lambda>j. (jo_workspace j, jo_id j)) (set (q_jobs q))"
    using assms by (simp add: queue_ok_def distinct_map)
  then have "k = j"
    using find_job_SomeD [OF k] r by (auto dest: inj_onD)
  with k show "find_job ws jid q = Some j"
    by simp
qed (use find_job_SomeD in blast)

lemma queue_ok_outbox:
  assumes "queue_ok env q"
  shows "\<forall>e\<in>set (q_outbox q). ob_id e \<in> drawn env q" "distinct (map ob_id (q_outbox q))"
    "\<forall>e\<in>set (q_outbox q). \<exists>j\<in>set (q_jobs q). is_job (ob_workspace e) (ob_job e) j"
  using assms unfolding queue_ok_def by blast+

lemma queue_ok_rows:
  assumes "queue_ok env q"
  shows "\<forall>j\<in>set (q_jobs q). job_ok j \<and> row_told q j \<and> jo_id j \<in> drawn env q"
    "distinct (map (\<lambda>j. (jo_workspace j, jo_id j)) (q_jobs q))"
    "distinct (map (\<lambda>j. (jo_workspace j, jo_key j)) (q_jobs q))"
  using assms unfolding queue_ok_def by blast+

lemma find_job_unique:
  assumes "queue_ok env q" "find_job ws jid q = Some j" "k \<in> set (q_jobs q)"
  shows "is_job ws jid k \<longleftrightarrow> k = j"
proof -
  have "is_job ws jid k \<longleftrightarrow> find_job ws jid q = Some k"
    using assms(3) by (simp add: find_job_iff [OF assms(1)] is_job_def)
  then show ?thesis
    using assms(2) by auto
qed

lemma updates_row_iff:
  assumes "queue_ok env q"
  shows "updates_row ws jid p q \<longleftrightarrow> (\<exists>j. find_job ws jid q = Some j \<and> p j)"
  using find_job_iff [OF assms] by (auto simp: updates_row_def matches_row_def is_job_def list_ex_iff)

lemma drawn_fresh: "inj (je_uuid env) \<Longrightarrow> je_uuid env (q_next q) \<notin> drawn env q"
  by (auto simp: drawn_def dest: injD)

lemma add_outbox_ok:
  fixes ws jid ty now
  assumes "inj (je_uuid env)"
    and ids: "\<forall>e\<in>set (q_outbox q). ob_id e \<in> drawn env q" "distinct (map ob_id (q_outbox q))"
  defines "q' \<equiv> add_outbox env ws jid ty now q"
  shows "\<forall>e\<in>set (q_outbox q'). ob_id e \<in> drawn env q'" "distinct (map ob_id (q_outbox q'))"
    "drawn env q \<subseteq> drawn env q'"
proof -
  show sub: "drawn env q \<subseteq> drawn env q'"
    by (auto simp: drawn_def q'_def add_outbox_def)
  have "je_uuid env (q_next q) \<in> drawn env q'"
    by (auto simp: drawn_def q'_def add_outbox_def)
  then show "\<forall>e\<in>set (q_outbox q'). ob_id e \<in> drawn env q'"
    using ids(1) sub by (auto simp: q'_def add_outbox_def)
  have "je_uuid env (q_next q) \<notin> ob_id ` set (q_outbox q)"
    using ids(1) drawn_fresh [OF assms(1), of q] by auto
  then show "distinct (map ob_id (q_outbox q'))"
    using ids(2) by (simp add: q'_def add_outbox_def)
qed

lemma event_types_add [simp]:
  "event_types ws' jid' (add_outbox env ws jid ty now q) =
     event_types ws' jid' q @ (if ws' = ws \<and> jid' = jid then [ty] else [])"
  by (simp add: event_types_def add_outbox_def)

lemma event_types_jobs [simp]: "event_types ws jid (q\<lparr>q_jobs := js\<rparr>) = event_types ws jid q"
  "event_types ws jid (q\<lparr>q_jobs := js, q_next := n\<rparr>) = event_types ws jid q"
  "event_types ws jid (update_jobs ws' jid' p f q) = event_types ws jid q"
  by (simp_all add: event_types_def update_jobs_def)

lemma event_types_write [simp]:
  "event_types ws' jid' (write_row env ws jid p f ev now q) =
     event_types ws' jid' q @ (if ws' = ws \<and> jid' = jid then case_option [] (\<lambda>ty. [ty]) ev else [])"
  by (simp add: write_row_def split: option.split)

lemma event_types_other:
  "\<not> (ws' = ws \<and> jid' = jid) \<Longrightarrow>
    event_types ws' jid' (write_row env ws jid p f ev now q) = event_types ws' jid' q"
  by (subst event_types_write) (rule trans [OF arg_cong2 [where f = append, OF refl if_not_P] append_Nil2])

lemma moved_told:
  assumes "row_told q j" "moves j k ev"
  defines "tys \<equiv> event_types (jo_workspace j) (jo_id j) q @ case_option [] (\<lambda>ty. [ty]) ev"
  shows "tys \<noteq> [] \<and> last tys = told k \<and> int (count_list tys ''leased'') = jo_attempts k"
  using assms(1,2) unfolding tys_def by (cases ev) (auto simp: row_told_def moves_def Let_def)

lemma write_row_ok:
  assumes inj: "inj (je_uuid env)" and ok: "queue_ok env q"
    and j: "find_job ws jid q = Some j" "p j" and mv: "moves j (f j) ev"
    and ids: "\<And>k. jo_id (f k) = jo_id k \<and> jo_workspace (f k) = jo_workspace k"
  shows "queue_ok env (write_row env ws jid p f ev now q)"
proof -
  let ?g = "\<lambda>k. if matches_row ws jid p k then f k else k"
  let ?q = "write_row env ws jid p f ev now q"
  have jobs: "q_jobs ?q = map ?g (q_jobs q)"
    by (simp add: write_row_def update_jobs_def add_outbox_def split: option.split)
  have self: "j \<in> set (q_jobs q)" "jo_workspace j = ws" "jo_id j = jid"
    using j(1) find_job_iff [OF ok] by auto
  have g: "?g k = (if k = j then f j else k)" if "k \<in> set (q_jobs q)" for k
    using find_job_unique [OF ok j(1) that] j(2) by (cases "k = j") (simp_all add: matches_row_def)
  have same: "same_job j (f j)"
    using movesD(1) [OF mv] by (rule evolvesD(1))
  have out: "\<forall>e\<in>set (q_outbox ?q). ob_id e \<in> drawn env ?q" "distinct (map ob_id (q_outbox ?q))" "drawn env q \<subseteq> drawn env ?q"
  proof -
    let ?u = "update_jobs ws jid p f q"
    have "\<forall>e\<in>set (q_outbox ?u). ob_id e \<in> drawn env ?u" "distinct (map ob_id (q_outbox ?u))" "drawn env ?u = drawn env q"
      using queue_ok_outbox(1,2) [OF ok] by (simp_all add: update_jobs_def drawn_def)
    note u = this
    show "\<forall>e\<in>set (q_outbox ?q). ob_id e \<in> drawn env ?q" "distinct (map ob_id (q_outbox ?q))" "drawn env q \<subseteq> drawn env ?q"
      using u add_outbox_ok [OF inj u(1,2)] by (cases ev; simp add: write_row_def)+
  qed
  have "job_ok k' \<and> row_told ?q k' \<and> jo_id k' \<in> drawn env ?q" if k': "k' \<in> set (q_jobs ?q)" for k'
  proof -
    obtain k where k: "k \<in> set (q_jobs q)" "k' = ?g k"
      using k' jobs by auto
    show ?thesis
    proof (cases "k = j")
      case True
      then have "k' = f j"
        using k(2) g [OF k(1)] by simp
      then show ?thesis
        using movesD(2) [OF mv] same self queue_ok_rows(1) [OF ok] out(3) moved_told [OF _ mv, of q]
        by (auto simp: row_told_def Let_def same_job_def)
    next
      case False
      then have "k' = k"
        using k(2) g [OF k(1)] by simp
      have row: "job_ok k" "row_told q k" "jo_id k \<in> drawn env ?q"
        using k(1) queue_ok_rows(1) [OF ok] out(3) by blast+
      have "\<not> (jo_workspace k = ws \<and> jo_id k = jid)"
        using False find_job_unique [OF ok j(1) k(1)] unfolding is_job_def by blast
      note other = event_types_other [OF this]
      have "row_told ?q k"
        using row(2) unfolding row_told_def other .
      with row \<open>k' = k\<close> show ?thesis
        by simp
    qed
  qed
  moreover have "distinct (map h (q_jobs ?q))" if "distinct (map h (q_jobs q))" "h (f j) = h j" for h :: "job \<Rightarrow> string \<times> string"
  proof -
    have "map h (q_jobs ?q) = map h (q_jobs q)"
      unfolding jobs using g that(2) by (auto simp: comp_def)
    with that(1) show ?thesis
      by simp
  qed
  moreover have "\<exists>k\<in>set (q_jobs ?q). is_job (ob_workspace e) (ob_job e) k" if "e \<in> set (q_outbox ?q)" for e
  proof -
    have "(\<exists>k\<in>set (q_jobs q). is_job (ob_workspace e) (ob_job e) k)"
      using that queue_ok_outbox(3) [OF ok] self
      by (cases ev) (auto simp: write_row_def update_jobs_def add_outbox_def is_job_def)
    then obtain k where k: "k \<in> set (q_jobs q)" "is_job (ob_workspace e) (ob_job e) k"
      by blast
    have "is_job (ob_workspace e) (ob_job e) (?g k)"
      using k(2) ids [of k] by (simp add: is_job_def)
    then show ?thesis
      unfolding jobs list.set_map by (rule bexI [OF _ imageI [OF k(1)]])
  qed
  ultimately show ?thesis
    using queue_ok_rows(2,3) [OF ok] same out(1,2) unfolding queue_ok_def same_job_def by simp
qed

lemma no_events:
  assumes "queue_ok env q" "jid \<notin> drawn env q"
  shows "event_types ws jid q = []"
proof -
  have "ob_job e \<noteq> jid" if "e \<in> set (q_outbox q)" for e
    using that queue_ok_outbox(3) [OF assms(1)] queue_ok_rows(1) [OF assms(1)] assms(2)
    by (fastforce simp: is_job_def)
  then show ?thesis
    by (auto simp: event_types_def filter_empty_conv)
qed

lemma insert_job_ok:
  assumes inj: "inj (je_uuid env)" and ok: "queue_ok env q"
    and key: "find (\<lambda>j. jo_workspace j = ws \<and> jo_key j = key) (q_jobs q) = None" and m: "1 \<le> m" "m \<le> 20"
  shows "queue_ok env (insert_job env ws c key m now q)"
proof -
  let ?jid = "je_uuid env (q_next q)"
  let ?n = "new_job env ws ?jid c key m now"
  let ?u = "q\<lparr>q_jobs := q_jobs q @ [?n], q_next := Suc (q_next q)\<rparr>"
  let ?q = "add_outbox env ws ?jid ''queued'' now ?u"
  have sub: "drawn env q \<subseteq> drawn env ?u" "?jid \<in> drawn env ?u"
    by (auto simp: drawn_def)
  have u: "\<forall>e\<in>set (q_outbox ?u). ob_id e \<in> drawn env ?u" "distinct (map ob_id (q_outbox ?u))"
    using queue_ok_outbox(1,2) [OF ok] sub(1) by auto
  note out = add_outbox_ok [OF inj u, of ws ?jid "''queued''" now]
  have jobs: "q_jobs ?q = q_jobs q @ [?n]"
    by (simp add: add_outbox_def)
  have fresh: "?jid \<notin> drawn env q"
    by (rule drawn_fresh [OF inj])
  have old: "job_ok j \<and> row_told ?q j \<and> jo_id j \<in> drawn env ?q \<and> jo_id j \<noteq> ?jid" if "j \<in> set (q_jobs q)" for j
  proof -
    have j: "job_ok j" "row_told q j" "jo_id j \<in> drawn env q"
      using queue_ok_rows(1) [OF ok] that by blast+
    then have "jo_id j \<noteq> ?jid"
      using fresh by auto
    with j out(3) sub(1) show ?thesis
      by (auto simp: row_told_def)
  qed
  have new: "job_ok ?n \<and> row_told ?q ?n \<and> jo_id ?n \<in> drawn env ?q"
    using new_job_ok [OF m] no_events [OF ok fresh] sub(2) out(3)
    by (auto simp: row_told_def new_job_def told_def)
  have "distinct (map (\<lambda>j. (jo_workspace j, jo_id j)) (q_jobs ?q))"
    using queue_ok_rows(2) [OF ok] old by (fastforce simp: jobs)
  moreover have "distinct (map (\<lambda>j. (jo_workspace j, jo_key j)) (q_jobs ?q))"
    using queue_ok_rows(3) [OF ok] key by (fastforce simp: jobs find_None_iff)
  moreover have "\<exists>k\<in>set (q_jobs ?q). is_job (ob_workspace e) (ob_job e) k" if "e \<in> set (q_outbox ?q)" for e
    using that queue_ok_outbox(3) [OF ok] by (auto simp: add_outbox_def is_job_def)
  ultimately show ?thesis
    using old new out(1,2) unfolding queue_ok_def insert_job_def by (auto simp: jobs)
qed

lemma acknowledge_ok:
  assumes "queue_ok env q"
  shows "queue_ok env (q\<lparr>q_outbox := map (acknowledge_event ws eid now) (q_outbox q)\<rparr>)"
proof -
  let ?a = "acknowledge_event ws eid now"
  let ?q = "q\<lparr>q_outbox := map ?a (q_outbox q)\<rparr>"
  have a: "ob_id (?a e) = ob_id e" "ob_workspace (?a e) = ob_workspace e" "ob_job (?a e) = ob_job e" "ob_type (?a e) = ob_type e" for e
    by (simp_all add: acknowledge_event_def)
  have "event_types ws' jid ?q = event_types ws' jid q" for ws' jid
    using a by (simp add: event_types_def filter_map comp_def)
  then have "row_told ?q = row_told q"
    by (simp add: row_told_def fun_eq_iff)
  moreover have "drawn env ?q = drawn env q"
    by (simp add: drawn_def)
  moreover have "map ob_id (q_outbox ?q) = map ob_id (q_outbox q)"
    using a by simp
  ultimately show ?thesis
    using queue_ok_rows [OF assms] queue_ok_outbox [OF assms] unfolding queue_ok_def by (simp add: a comp_def)
qed

lemma row_step_ok:
  assumes "row_step env ws q q'" "queue_ok env q" "inj (je_uuid env)"
  shows "queue_ok env q'"
  using assms(1)
proof cases
  case inserted
  then show ?thesis
    using insert_job_ok [OF assms(3,2)] by simp
next
  case moved
  then show ?thesis
    using write_row_ok [OF assms(3,2)] by simp
next
  case acknowledged
  then show ?thesis
    using acknowledge_ok [OF assms(2)] by simp
qed

section \<open>Operations as row steps\<close>

lemma row_steps_ok:
  assumes "(row_step env ws)\<^sup>*\<^sup>* q q'" "queue_ok env q" "inj (je_uuid env)"
  shows "queue_ok env q'"
  using assms by (induction rule: rtranclp_induct) (auto intro: row_step_ok)

lemma row_steps_evolve:
  assumes "(row_step env ws)\<^sup>*\<^sup>* q q'" "find_job ws' jid q = Some j"
  obtains j' where "find_job ws' jid q' = Some j'" "evolves j j'" "ws' \<noteq> ws \<Longrightarrow> j' = j"
proof -
  have "\<exists>j'. find_job ws' jid q' = Some j' \<and> evolves j j' \<and> (ws' \<noteq> ws \<longrightarrow> j' = j)"
    using assms
  proof (induction rule: rtranclp_induct)
    case (step u v)
    then obtain k where k: "find_job ws' jid u = Some k" "evolves j k" "ws' \<noteq> ws \<longrightarrow> k = j"
      by blast
    from row_step_evolves [OF step.hyps(2) k(1)] obtain l where
      "find_job ws' jid v = Some l" "evolves k l" "ws' \<noteq> ws \<Longrightarrow> l = k"
      by blast
    with k evolves_trans [OF k(2)] show ?case
      by blast
  qed simp
  then show thesis
    using that by blast
qed

lemma job_row_write:
  assumes "find_job ws jid q = Some j" "p j" "\<And>k. jo_id (f k) = jo_id k \<and> jo_workspace (f k) = jo_workspace k"
  shows "job_row ws jid (write_row env ws jid p f ev now q) = Inr (f j)"
proof -
  have "matches_row ws jid p j"
    using assms(2) find_job_SomeD [OF assms(1)] by (simp add: matches_row_def is_job_def)
  moreover have "find_job ws jid (write_row env ws jid p f ev now q) =
      map_option (\<lambda>j. if matches_row ws jid p j then f j else j) (find_job ws jid q)"
    by (rule find_write_row) (simp add: is_job_def assms(3))
  ultimately show ?thesis
    using assms(1) by (simp add: job_row_def)
qed

lemma fenced_update_cases:
  assumes "queue_ok env q" "\<And>k. jo_id (f k) = jo_id k \<and> jo_workspace (f k) = jo_workspace k"
  shows "fenced_update env ws jid p f ev now q =
    (case find_job ws jid q of
       None \<Rightarrow> Inl StaleLease
     | Some j \<Rightarrow> if p j then Inr (f j, write_row env ws jid p f ev now q) else Inl StaleLease)"
proof (cases "updates_row ws jid p q")
  case True
  then obtain j where j: "find_job ws jid q = Some j" "p j"
    using updates_row_iff [OF assms(1)] by blast
  have "fenced_update env ws jid p f ev now q =
      bind_res (job_row ws jid (write_row env ws jid p f ev now q)) (\<lambda>j. Inr (j, write_row env ws jid p f ev now q))"
    using True by (simp add: fenced_update_def write_row_def Let_def split: option.split)
  also have "\<dots> = Inr (f j, write_row env ws jid p f ev now q)"
    by (subst job_row_write [where p = p and f = f, OF j assms(2)]) simp
  finally show ?thesis
    using j by simp
next
  case False
  then show ?thesis
    using updates_row_iff [OF assms(1), of ws jid p] by (auto simp: fenced_update_def split: option.split)
qed

lemma lease_row_cases:
  assumes "queue_ok env q"
  defines "f \<equiv> \<lambda>worker now. take_lease worker (now + je_lease env) now"
  shows "lease_row env ws jid worker now q =
    (case find_job ws jid q of
       None \<Rightarrow> Inr (None, q)
     | Some j \<Rightarrow>
         if claimable j
         then Inr (Some (f worker now j), write_row env ws jid claimable (f worker now) (Some ''leased'') now q)
         else Inr (None, q))"
proof (cases "updates_row ws jid claimable q")
  case True
  then obtain j where j: "find_job ws jid q = Some j" "claimable j"
    using updates_row_iff [OF assms(1)] by blast
  let ?q = "write_row env ws jid claimable (f worker now) (Some ''leased'') now q"
  have "lease_row env ws jid worker now q = bind_res (job_row ws jid ?q) (\<lambda>j. Inr (Some j, ?q))"
    using True by (simp add: lease_row_def write_row_def f_def Let_def)
  also have "\<dots> = Inr (Some (f worker now j), ?q)"
    by (subst job_row_write [where p = claimable, OF j]) (simp_all add: f_def take_lease_def)
  finally show ?thesis
    using j by simp
next
  case False
  then show ?thesis
    using updates_row_iff [OF assms(1), of ws jid claimable] by (auto simp: lease_row_def split: option.split)
qed

lemma lease_row_step:
  assumes "queue_ok env q" "lease_row env ws jid worker now q = Inr (r, q')"
  shows "(row_step env ws)\<^sup>*\<^sup>* q q'"
proof (cases "\<exists>j. find_job ws jid q = Some j \<and> claimable j")
  case True
  then obtain j where j: "find_job ws jid q = Some j" "claimable j"
    by blast
  let ?f = "take_lease worker (now + je_lease env) now"
  have "q' = write_row env ws jid claimable ?f (Some ''leased'') now q"
    using assms(2) j by (simp add: lease_row_cases [OF assms(1)])
  moreover have "moves j (?f j) (Some ''leased'')"
    using move_lease [OF find_job_ok(1) [OF assms(1) j(1)] j(2)] .
  ultimately have "row_step env ws q q'"
    using row_step.moved [where p = claimable, OF j] by (simp add: take_lease_def)
  then show ?thesis
    by blast
next
  case False
  then show ?thesis
    using assms(2) by (auto simp: lease_row_cases [OF assms(1)] split: option.splits)
qed

lemma expire_rows_step:
  assumes "queue_ok env q" "inj (je_uuid env)" "distinct (map jo_id rs)"
    and "\<And>r. r \<in> set rs \<Longrightarrow> find_job ws (jo_id r) q = Some r \<and> jo_status r = Leased"
  shows "(row_step env ws)\<^sup>*\<^sup>* q (fold (expire_row env ws now) rs q)"
  using assms
proof (induction rs arbitrary: q)
  case (Cons r rs)
  let ?st = "expired_status r"
  let ?f = "\<lambda>j. j\<lparr>jo_status := ?st, jo_worker := None, jo_expires := None,
      jo_error := (if ?st = Failed then Some (VDict [(''code'', VStr ''retry_exhausted'')]) else None),
      jo_updated := now\<rparr>"
  let ?q = "expire_row env ws now r q"
  have r: "find_job ws (jo_id r) q = Some r" "jo_status r = Leased"
    using Cons.prems(4) [of r] by simp_all
  have eq: "?q = write_row env ws (jo_id r) (\<lambda>j. jo_status j = Leased) ?f (Some (job_status_value ?st)) now q"
    by (simp add: expire_row_def write_row_def Let_def)
  have step: "row_step env ws q ?q"
    unfolding eq using r move_expire [OF find_job_ok(1) [OF Cons.prems(1) r(1)] r(2)]
    by (intro row_step.moved [OF r(1)]) simp_all
  have "find_job ws (jo_id s) ?q = Some s \<and> jo_status s = Leased" if "s \<in> set rs" for s
  proof -
    have "jo_id s \<in> jo_id ` set rs" "jo_id r \<notin> jo_id ` set rs"
      using that Cons.prems(3) by simp_all
    then have s: "find_job ws (jo_id s) q = Some s" "jo_status s = Leased" "jo_id s \<noteq> jo_id r"
      using that Cons.prems(4) [of s] by (simp_all, metis)
    have "find_job ws (jo_id s) ?q =
        map_option (\<lambda>j. if matches_row ws (jo_id r) (\<lambda>j. jo_status j = Leased) j then ?f j else j) (find_job ws (jo_id s) q)"
      unfolding eq by (rule find_write_row) (simp add: is_job_def)
    with s show ?thesis
      by (simp add: matches_row_def is_job_def)
  qed
  then have "(row_step env ws)\<^sup>*\<^sup>* ?q (fold (expire_row env ws now) rs ?q)"
    using Cons.IH [OF row_step_ok [OF step Cons.prems(1,2)] Cons.prems(2)] Cons.prems(3) by simp
  with step show ?case
    by (simp add: converse_rtranclp_into_rtranclp)
qed simp

definition expired_jobs :: "string \<Rightarrow> int \<Rightarrow> queue \<Rightarrow> job list" where
  "expired_jobs ws now q =
     filter (\<lambda>j. jo_workspace j = ws \<and> jo_status j = Leased \<and> lease_expired now j) (q_jobs q)"

lemma expired_jobs_distinct:
  assumes "queue_ok env q"
  shows "distinct (map jo_id (expired_jobs ws now q))"
proof -
  have "inj_on (\<lambda>j. (jo_workspace j, jo_id j)) (set (q_jobs q))"
    using queue_ok_rows(2) [OF assms] by (simp add: distinct_map)
  then have "inj_on jo_id (set (expired_jobs ws now q))"
    by (auto simp: inj_on_def expired_jobs_def)
  moreover have "distinct (q_jobs q)"
    using queue_ok_rows(2) [OF assms] by (simp add: distinct_map)
  ultimately show ?thesis
    by (simp add: distinct_map expired_jobs_def)
qed

lemma expire_and_cancel_steps:
  assumes "queue_ok env q" "inj (je_uuid env)"
  shows "(row_step env ws)\<^sup>*\<^sup>* q (expire_and_cancel env ws now q)"
  unfolding expire_and_cancel_def expired_jobs_def [symmetric]
proof (rule expire_rows_step [OF assms expired_jobs_distinct [OF assms(1)]])
  fix r
  assume "r \<in> set (expired_jobs ws now q)"
  then show "find_job ws (jo_id r) q = Some r \<and> jo_status r = Leased"
    by (auto simp: find_job_iff [OF assms(1)] expired_jobs_def)
qed

section \<open>Steps of the queue\<close>

inductive queue_step :: "job_env \<Rightarrow> actor \<Rightarrow> queue \<Rightarrow> queue \<Rightarrow> bool" for env a where
  "enqueue env a command key m now q = Inr (j, q') \<Longrightarrow> queue_step env a q q'"
| "claim env a worker now q = Inr (r, q') \<Longrightarrow> queue_step env a q q'"
| "claim_specific env a jid worker now q = Inr (r, q') \<Longrightarrow> queue_step env a q q'"
| "acknowledge_cancel env a jid fence now q = Inr (j, q') \<Longrightarrow> queue_step env a q q'"
| "abandon env a jid fence now q = Inr (j, q') \<Longrightarrow> queue_step env a q q'"
| "heartbeat env a jid fence now q = Inr (j, q') \<Longrightarrow> queue_step env a q q'"
| "complete_job env a jid fence result now q = Inr (j, q') \<Longrightarrow> queue_step env a q q'"
| "fail_job env a jid fence error now q = Inr (j, q') \<Longrightarrow> queue_step env a q q'"
| "request_cancel env a jid now q = Inr (j, q') \<Longrightarrow> queue_step env a q q'"
| "acknowledge_outbox a eid now q = Inr q' \<Longrightarrow> queue_step env a q q'"

lemma fenced_update_step:
  assumes ok: "queue_ok env q" and r: "fenced_update env ws jid p f ev now q = Inr (j', q')"
    and ids: "\<And>k. jo_id (f k) = jo_id k \<and> jo_workspace (f k) = jo_workspace k"
    and mv: "\<And>j. job_ok j \<Longrightarrow> p j \<Longrightarrow> moves j (f j) ev"
  shows "(row_step env ws)\<^sup>*\<^sup>* q q'"
proof -
  obtain j where j: "find_job ws jid q = Some j" "p j" "q' = write_row env ws jid p f ev now q"
    using r by (auto simp: fenced_update_cases [OF ok ids] split: option.splits if_splits)
  have "row_step env ws q q'"
    unfolding j(3) by (rule row_step.moved [where p = p and f = f, OF j(1,2) mv [OF find_job_ok(1) [OF ok j(1)] j(2)] ids])
  then show ?thesis
    by blast
qed

lemma live_lease_leased: "live_lease fence now j \<Longrightarrow> jo_status j = Leased \<and> \<not> jo_cancel j"
  by (simp add: live_lease_def holds_fence_def)

lemma request_cancel_steps:
  assumes ok: "queue_ok env q" and r: "request_cancel env a jid now q = Inr (j', q')"
  shows "(row_step env (ac_workspace_id a))\<^sup>*\<^sup>* q q'"
proof -
  let ?ws = "ac_workspace_id a"
  obtain j where j: "find_job ?ws jid q = Some j"
    using r by (auto simp: request_cancel_def job_row_def Let_def bind_res_Inr_iff split: option.splits)
  show ?thesis
  proof (cases "is_job_terminal (jo_status j)")
    case True
    then show ?thesis
      using r j by (auto simp: request_cancel_def job_row_def Let_def bind_res_Inr_iff)
  next
    case False
    let ?st = "if jo_status j = Queued then Cancelled else jo_status j"
    let ?ev = "Some (if ?st \<noteq> Cancelled then ''cancellation_requested'' else ''cancelled'')"
    have q': "q' = write_row env ?ws jid (\<lambda>_. True) (cancel_job now ?st) ?ev now q"
      using r j False by (auto simp: request_cancel_def job_row_def Let_def bind_res_Inr_iff write_row_def)
    have "moves j (cancel_job now ?st j) ?ev"
      using False move_cancel [OF find_job_ok(1) [OF ok j]] by (cases "jo_status j") (simp_all add: is_job_terminal_def)
    then have "row_step env ?ws q q'"
      unfolding q' by (rule row_step.moved [where p = "\<lambda>_. True", OF j TrueI]) (simp add: cancel_job_def)
    then show ?thesis
      by blast
  qed
qed

lemma enqueue_cases:
  assumes "enqueue env a c key m now q = Inr (j, q')"
  obtains "find (\<lambda>j. jo_workspace j = ac_workspace_id a \<and> jo_key j = key) (q_jobs q) = Some j"
      "jo_digest j = je_digest env c" "q' = q"
    | "find (\<lambda>j. jo_workspace j = ac_workspace_id a \<and> jo_key j = key) (q_jobs q) = None"
      "1 \<le> m" "m \<le> 20" "q' = insert_job env (ac_workspace_id a) c key m now q"
  using assms
  by (auto simp: enqueue_def Let_def bind_res_Inr_iff ensure_Inr_iff insert_job_def
      split: option.splits if_splits)

lemma require_actor_Inr:
  "require_actor a True (Some (ac_workspace_id a)) = Inr u \<longleftrightarrow>
     ac_actor_id a \<noteq> [] \<and> ac_workspace_id a \<noteq> [] \<and> ac_role a \<in> {''owner'', ''editor''}"
  "require_actor a True None = Inr u \<longleftrightarrow> require_actor a True (Some (ac_workspace_id a)) = Inr u"
  by (auto simp: require_actor_def ensure_Inr_iff)

lemma claim_steps:
  assumes ok: "queue_ok env q" "inj (je_uuid env)" and r: "claim env a worker now q = Inr (r, q')"
  shows "(row_step env (ac_workspace_id a))\<^sup>*\<^sup>* q q'"
proof -
  let ?q = "expire_and_cancel env (ac_workspace_id a) now q"
  have steps: "(row_step env (ac_workspace_id a))\<^sup>*\<^sup>* q ?q"
    by (rule expire_and_cancel_steps [OF ok])
  have "(row_step env (ac_workspace_id a))\<^sup>*\<^sup>* ?q q'"
    using r lease_row_step [OF row_steps_ok [OF steps ok]]
    by (auto simp: claim_def bind_res_Inr_iff Let_def split: if_splits option.splits)
  with steps show ?thesis
    by simp
qed

lemma claim_specific_steps:
  assumes ok: "queue_ok env q" "inj (je_uuid env)" and r: "claim_specific env a jid worker now q = Inr (r, q')"
  shows "(row_step env (ac_workspace_id a))\<^sup>*\<^sup>* q q'"
proof -
  let ?q = "expire_and_cancel env (ac_workspace_id a) now q"
  have steps: "(row_step env (ac_workspace_id a))\<^sup>*\<^sup>* q ?q"
    by (rule expire_and_cancel_steps [OF ok])
  have "(row_step env (ac_workspace_id a))\<^sup>*\<^sup>* ?q q'"
    using r lease_row_step [OF row_steps_ok [OF steps ok]]
    by (auto simp: claim_specific_def bind_res_Inr_iff split: if_splits)
  with steps show ?thesis
    by simp
qed

text \<open>Each operation is a sequence of row steps in the actor's workspace.\<close>

lemma queue_step_refines:
  assumes ok: "queue_ok env q" and inj: "inj (je_uuid env)" and step: "queue_step env a q q'"
  shows "(row_step env (ac_workspace_id a))\<^sup>*\<^sup>* q q'"
  using step
proof cases
  case (1 command key m now j)
  from enqueue_cases [OF this] show ?thesis
    by cases (auto intro: row_step.inserted)
next
  case (2 worker now r)
  then show ?thesis
    by (rule claim_steps [OF ok inj])
next
  case (3 jid worker now r)
  then show ?thesis
    by (rule claim_specific_steps [OF ok inj])
next
  case (4 jid fence now j)
  then show ?thesis
    unfolding acknowledge_cancel_def bind_res_Inr_iff
    by (elim exE conjE) (erule fenced_update_step [OF ok]; simp add: holds_fence_def move_acknowledge)
next
  case (5 jid fence now j)
  then show ?thesis
    unfolding abandon_def bind_res_Inr_iff
    by (elim exE conjE) (erule fenced_update_step [OF ok]; simp add: holds_fence_def move_heartbeat)
next
  case (6 jid fence now j)
  then show ?thesis
    unfolding heartbeat_def bind_res_Inr_iff
    by (elim exE conjE) (erule fenced_update_step [OF ok]; simp add: live_lease_leased move_heartbeat)
next
  case (7 jid fence result now j)
  then show ?thesis
    unfolding complete_job_def bind_res_Inr_iff
    by (elim exE conjE) (erule fenced_update_step [OF ok]; simp add: live_lease_leased move_complete)
next
  case (8 jid fence error now j)
  then show ?thesis
    unfolding fail_job_def bind_res_Inr_iff
    by (elim exE conjE) (erule fenced_update_step [OF ok]; simp add: live_lease_leased move_fail)
next
  case (9 jid now j)
  then show ?thesis
    by (rule request_cancel_steps [OF ok])
next
  case (10 eid now)
  then have "q' = q\<lparr>q_outbox := map (acknowledge_event (ac_workspace_id a) eid now) (q_outbox q)\<rparr>"
    by (auto simp: acknowledge_outbox_def bind_res_Inr_iff acknowledge_event_def)
  then show ?thesis
    using row_step.acknowledged by blast
qed

lemma queue_step_ok:
  "queue_step env a q q' \<Longrightarrow> queue_ok env q \<Longrightarrow> inj (je_uuid env) \<Longrightarrow> queue_ok env q'"
  using queue_step_refines row_steps_ok by blast

text \<open>Runs: any sequence of operations of any actors.\<close>

definition queue_run :: "job_env \<Rightarrow> queue \<Rightarrow> queue \<Rightarrow> bool" where
  "queue_run env = (\<lambda>u v. \<exists>a. queue_step env a u v)\<^sup>*\<^sup>*"

definition rows_run :: "job_env \<Rightarrow> queue \<Rightarrow> queue \<Rightarrow> bool" where
  "rows_run env u v = (\<exists>ws. row_step env ws u v)"

lemma queue_run_ok:
  assumes "queue_run env q q'" "queue_ok env q" "inj (je_uuid env)"
  shows "queue_ok env q'"
  using assms(1) unfolding queue_run_def
  by (induction rule: rtranclp_induct) (use assms(2,3) queue_step_ok in blast)+

lemma queue_run_rows:
  assumes "queue_run env q q'" "queue_ok env q" "inj (je_uuid env)"
  shows "(rows_run env)\<^sup>*\<^sup>* q q'"
  using assms(1) unfolding queue_run_def
proof (induction rule: rtranclp_induct)
  case (step u v)
  then obtain a where "queue_step env a u v"
    by blast
  moreover have "queue_ok env u"
    using queue_run_ok [OF _ assms(2,3)] step.hyps(1) by (simp add: queue_run_def)
  ultimately have "(row_step env (ac_workspace_id a))\<^sup>*\<^sup>* u v"
    using queue_step_refines [OF _ assms(3)] by blast
  then have "(rows_run env)\<^sup>*\<^sup>* u v"
    by (rule mono_rtranclp [rule_format, rotated]) (auto simp: rows_run_def)
  with step.IH show ?case
    by simp
qed simp

end
