(* ===== verification/JobQueueSafety.thy ===== *)
theory JobQueueSafety
  imports JobQueueProps
begin

text \<open>
  The promises of the job queue: the invariant of reachable tables, fencing of stale leases, finality
  of terminal jobs, idempotent submission, reclaiming of expired leases, claims in order of age,
  publication under a held lease and isolation of workspaces.
\<close>

definition queue_reachable :: "job_env \<Rightarrow> queue \<Rightarrow> bool" where
  "queue_reachable env q = queue_run env empty_queue q"

lemma reachable_ok: "queue_reachable env q \<Longrightarrow> inj (je_uuid env) \<Longrightarrow> queue_ok env q"
  unfolding queue_reachable_def using queue_run_ok empty_queue_ok by blast

lemma queue_run_refl [simp]: "queue_run env q q"
  by (simp add: queue_run_def)

lemma queue_run_step: "queue_run env q u \<Longrightarrow> queue_step env a u v \<Longrightarrow> queue_run env q v"
  unfolding queue_run_def by (blast intro: rtranclp.rtrancl_into_rtrancl)

lemma rows_run_evolve:
  assumes "(rows_run env)\<^sup>*\<^sup>* q q'" "find_job ws jid q = Some j"
  obtains j' where "find_job ws jid q' = Some j'" "evolves j j'"
proof -
  have "\<exists>j'. find_job ws jid q' = Some j' \<and> evolves j j'"
    using assms
  proof (induction rule: rtranclp_induct)
    case (step u v)
    then obtain k where k: "find_job ws jid u = Some k" "evolves j k"
      by blast
    obtain ws' where "row_step env ws' u v"
      using step.hyps(2) by (auto simp: rows_run_def)
    from row_step_evolves [OF this k(1)] obtain l where "find_job ws jid v = Some l" "evolves k l"
      by blast
    with evolves_trans [OF k(2)] show ?case
      by blast
  qed simp
  then show thesis
    using that by blast
qed

section \<open>The queue as a fencing protocol\<close>

definition fence_of :: "string \<Rightarrow> string \<Rightarrow> queue \<Rightarrow> int" where
  "fence_of ws jid q = (case find_job ws jid q of None \<Rightarrow> - 1 | Some j \<Rightarrow> jo_fence j)"

definition leased_at :: "string \<Rightarrow> string \<Rightarrow> queue \<Rightarrow> bool" where
  "leased_at ws jid q = (case find_job ws jid q of None \<Rightarrow> False | Some j \<Rightarrow> jo_status j = Leased)"

lemma find_inserted:
  assumes "find_job ws jid q = None"
  shows "find_job ws jid (insert_job env ws' c key m now q) \<in>
    {None, Some (new_job env ws' (je_uuid env (q_next q)) c key m now)}"
  using assms by (auto simp: insert_job_def find_job_def add_outbox_def find_append)

lemma row_step_fence:
  assumes "rows_run env q q'"
  shows "fence_of ws jid q \<le> fence_of ws jid q'"
    "fence_of ws jid q' = fence_of ws jid q \<Longrightarrow> leased_at ws jid q' \<Longrightarrow> leased_at ws jid q"
proof -
  obtain ws' where step: "row_step env ws' q q'"
    using assms by (auto simp: rows_run_def)
  have "fence_of ws jid q \<le> fence_of ws jid q' \<and>
    (fence_of ws jid q' = fence_of ws jid q \<longrightarrow> leased_at ws jid q' \<longrightarrow> leased_at ws jid q)"
  proof (cases "find_job ws jid q")
    case None
    have "find_job ws jid q' = None \<or> (\<exists>n. find_job ws jid q' = Some n \<and> jo_fence n = 0)"
      using step
    proof cases
      case (inserted key m command now)
      then show ?thesis
        using find_inserted [OF None, of env ws' command key m now] by (auto simp: new_job_def)
    next
      case (moved jid' k p f ev now)
      have "find_job ws jid q' = map_option (\<lambda>j. if matches_row ws' jid' p j then f j else j) (find_job ws jid q)"
        unfolding moved(1) by (rule find_write_row) (simp add: is_job_def moved(5))
      with None show ?thesis
        by simp
    next
      case (acknowledged eid now)
      with None show ?thesis
        by simp
    qed
    with None show ?thesis
      by (auto simp: fence_of_def leased_at_def)
  next
    case (Some j)
    obtain k where "find_job ws jid q' = Some k" "evolves j k"
      using row_step_evolves [OF step Some] by blast
    with Some evolvesD(2,4) [OF \<open>evolves j k\<close>] show ?thesis
      by (simp add: fence_of_def leased_at_def)
  qed
  then show "fence_of ws jid q \<le> fence_of ws jid q'"
    "fence_of ws jid q' = fence_of ws jid q \<Longrightarrow> leased_at ws jid q' \<Longrightarrow> leased_at ws jid q"
    by blast+
qed

interpretation job_fence: fencing "rows_run env" "fence_of ws jid" "leased_at ws jid" for env ws jid
  by unfold_locales (fact row_step_fence)+

lemma stale_lookup:
  assumes "job_fence.dead ws jid t q" "find_job ws jid q = Some j"
  shows "\<not> holds_fence t j"
  using assms by (auto simp: job_fence.dead_def fence_of_def leased_at_def holds_fence_def)

lemma fenced_update_stale:
  assumes "queue_ok env q" "\<And>k. jo_id (f k) = jo_id k \<and> jo_workspace (f k) = jo_workspace k"
    and "\<And>j. find_job ws jid q = Some j \<Longrightarrow> \<not> p j"
  shows "fenced_update env ws jid p f ev now q = Inl StaleLease"
  using assms(3) by (simp add: fenced_update_cases [OF assms(1,2)] split: option.split)

definition may_write :: "actor \<Rightarrow> bool" where
  "may_write a = (ac_actor_id a \<noteq> [] \<and> ac_workspace_id a \<noteq> [] \<and> ac_role a \<in> {''owner'', ''editor''})"

lemma may_write_require:
  "may_write a \<Longrightarrow> require_actor a True (Some (ac_workspace_id a)) = Inr ()"
  "may_write a \<Longrightarrow> require_actor a True None = Inr ()"
  by (simp_all add: may_write_def require_actor_Inr)

section \<open>A sample run\<close>

definition demo_env :: job_env where
  "demo_env = \<lparr>je_redact = (\<lambda>v. (v, VNull)), je_digest = (\<lambda>v. case v of VDict ((k, _) # _) \<Rightarrow> k | _ \<Rightarrow> ''''),
     je_uuid = (\<lambda>n. replicate (Suc n) (CHR ''u'')), je_lease = 30\<rparr>"

definition demo_actor :: actor where
  "demo_actor = \<lparr>ac_actor_id = ''a'', ac_workspace_id = ''w'', ac_role = ''editor''\<rparr>"

definition table :: "('a \<times> queue) res \<Rightarrow> queue" where
  "table r = (case r of Inl e \<Rightarrow> empty_queue | Inr (x, q) \<Rightarrow> q)"

definition demo_command :: pyval where
  "demo_command = VDict [(''run'', VNull)]"

definition demo_queued :: queue where
  "demo_queued = table (enqueue demo_env demo_actor demo_command ''k'' 2 0 empty_queue)"

definition demo_leased :: queue where
  "demo_leased = table (claim demo_env demo_actor ''worker'' 0 demo_queued)"

definition demo_reclaimed :: queue where
  "demo_reclaimed = table (claim_specific demo_env demo_actor ''u'' ''other'' 30 demo_leased)"

definition demo_completed :: queue where
  "demo_completed = table (complete_job demo_env demo_actor ''u'' 1 VNull 10 demo_leased)"

definition demo_lease :: job where
  "demo_lease = the (find_job ''w'' ''u'' demo_leased)"

lemma demo_inj: "inj (je_uuid demo_env)"
  by (auto simp: demo_env_def inj_def dest: arg_cong [where f = length])

fun found :: "'a option \<Rightarrow> bool" where
  "found None = False"
| "found (Some x) = True"

lemma found_the: "found x \<Longrightarrow> x = Some (the x)"
  by (cases x) auto

lemma table_returns: "returns r \<Longrightarrow> \<exists>x. r = Inr (x, table r)"
  by (auto simp: table_def elim!: returnsE)

lemma demo_find: "find_job ''w'' ''u'' demo_leased = Some demo_lease"
  unfolding demo_lease_def by (rule found_the) code_simp

lemma demo_lease_simps [simp]:
  "jo_fence demo_lease = 1" "jo_status demo_lease = Leased" "jo_expires demo_lease = Some 30"
  "jo_cancel demo_lease = False" "jo_attempts demo_lease = 1" "jo_max_attempts demo_lease = 2"
  by code_simp+

lemma demo_steps:
  "queue_step demo_env demo_actor empty_queue demo_queued"
  "queue_step demo_env demo_actor demo_queued demo_leased"
  "queue_step demo_env demo_actor demo_leased demo_reclaimed"
  "queue_step demo_env demo_actor demo_leased demo_completed"
proof -
  have "returns (enqueue demo_env demo_actor demo_command ''k'' 2 0 empty_queue)"
    "returns (claim demo_env demo_actor ''worker'' 0 demo_queued)"
    "returns (claim_specific demo_env demo_actor ''u'' ''other'' 30 demo_leased)"
    "returns (complete_job demo_env demo_actor ''u'' 1 VNull 10 demo_leased)"
    by code_simp+
  note r = this [THEN table_returns]
  show "queue_step demo_env demo_actor empty_queue demo_queued"
    using r(1) unfolding demo_queued_def by (blast intro: queue_step.intros)
  show "queue_step demo_env demo_actor demo_queued demo_leased"
    using r(2) unfolding demo_leased_def by (blast intro: queue_step.intros)
  show "queue_step demo_env demo_actor demo_leased demo_reclaimed"
    using r(3) unfolding demo_reclaimed_def by (blast intro: queue_step.intros)
  show "queue_step demo_env demo_actor demo_leased demo_completed"
    using r(4) unfolding demo_completed_def by (blast intro: queue_step.intros)
qed

lemma reachable_step: "queue_reachable env q \<Longrightarrow> queue_step env a q q' \<Longrightarrow> queue_reachable env q'"
  unfolding queue_reachable_def by (rule queue_run_step)

lemma demo_reachable:
  "queue_reachable demo_env demo_leased" "queue_reachable demo_env demo_reclaimed"
  "queue_reachable demo_env demo_completed" "queue_reachable demo_env demo_queued"
proof -
  show queued: "queue_reachable demo_env demo_queued"
    using reachable_step [OF _ demo_steps(1)] by (simp add: queue_reachable_def)
  show leased: "queue_reachable demo_env demo_leased"
    by (rule reachable_step [OF queued demo_steps(2)])
  show "queue_reachable demo_env demo_reclaimed" "queue_reachable demo_env demo_completed"
    by (rule reachable_step [OF leased demo_steps(3)], rule reachable_step [OF leased demo_steps(4)])
qed

lemma demo_may_write: "may_write demo_actor" "ac_workspace_id demo_actor = ''w''"
  by (simp_all add: may_write_def demo_actor_def)

section \<open>Invariant\<close>

text \<open>
  C31. In every reachable state of the tables, jobs have unique ids and idempotency keys per workspace; a
  job's fence counts its leases, never exceeds \<open>max_attempts\<close>, and equals the number of its
  \<open>leased\<close> events; exactly a leased job has a worker and an expiry, exactly a completed one a
  result and a failed one an error; and the last event of the outbox about a job announces its status.
\<close>

theorem queue_invariant:
  assumes "inj (je_uuid env)" "queue_reachable env q"
  shows "queue_ok env q"
  using reachable_ok [OF assms(2,1)] .

theorem queue_invariant_witness: "queue_ok demo_env demo_leased"
  by (rule queue_invariant [OF demo_inj demo_reachable(1)])

section \<open>Fencing\<close>

text \<open>
  C32. A worker whose fence is over (the job was leased again since, or the lease with that fence has
  ended) can never again change the job or publish: whatever happens afterwards, each of its
  heartbeats, completions, failures, abandonments, cancellation acknowledgements, activity checks and
  publications raises \<open>StaleLease\<close>.
\<close>

theorem stale_fence_rejected:
  assumes inj: "inj (je_uuid env)" and reach: "queue_reachable env q"
    and j: "find_job (ac_workspace_id a) jid q = Some j"
    and over: "fence < jo_fence j \<or> fence = jo_fence j \<and> jo_status j \<noteq> Leased"
    and run: "queue_run env q q'" and w: "may_write a"
  shows "heartbeat env a jid fence now q' = Inl StaleLease \<and>
    complete_job env a jid fence result now q' = Inl StaleLease \<and>
    fail_job env a jid fence (VDict ((''code'', VStr kind) # d)) now q' = Inl StaleLease \<and>
    abandon env a jid fence now q' = Inl StaleLease \<and>
    acknowledge_cancel env a jid fence now q' = Inl StaleLease \<and>
    assert_active a (l\<lparr>jo_id := jid, jo_fence := fence\<rparr>) now q' = Inl StaleLease \<and>
    publication a (l\<lparr>jo_id := jid, jo_fence := fence\<rparr>) completing now later body (q', db) = Inl StaleLease"
proof -
  let ?ws = "ac_workspace_id a"
  have ok: "queue_ok env q"
    by (rule reachable_ok [OF reach inj])
  have ok': "queue_ok env q'"
    by (rule queue_run_ok [OF run ok inj])
  have "job_fence.dead ?ws jid fence q"
    using j over by (auto simp: job_fence.dead_def fence_of_def leased_at_def)
  then have dead: "job_fence.dead ?ws jid fence q'"
    using job_fence.dead_forever [OF queue_run_rows [OF run ok inj]] by blast
  have no: "\<not> holds_fence fence k" if "find_job ?ws jid q' = Some k" for k
    by (rule stale_lookup [OF dead that])
  have live: "\<not> live_lease fence now k" if "find_job ?ws jid q' = Some k" for k
    using no [OF that] by (simp add: live_lease_def)
  have active: "assert_active a (l\<lparr>jo_id := jid, jo_fence := fence\<rparr>) now q' = Inl StaleLease"
    using no by (auto simp: assert_active_def may_write_require [OF w] holds_fence_def split: option.split)
  show ?thesis
  proof (intro conjI)
    show "heartbeat env a jid fence now q' = Inl StaleLease"
      by (simp add: heartbeat_def may_write_require [OF w]) (rule fenced_update_stale [OF ok']; simp add: live)
    show "complete_job env a jid fence result now q' = Inl StaleLease"
      by (simp add: complete_job_def may_write_require [OF w]) (rule fenced_update_stale [OF ok']; simp add: live)
    show "fail_job env a jid fence (VDict ((''code'', VStr kind) # d)) now q' = Inl StaleLease"
      by (simp add: fail_job_def may_write_require [OF w] dict_get_def) (rule fenced_update_stale [OF ok']; simp add: live)
    show "abandon env a jid fence now q' = Inl StaleLease"
      by (simp add: abandon_def may_write_require [OF w]) (rule fenced_update_stale [OF ok']; simp add: no)
    show "acknowledge_cancel env a jid fence now q' = Inl StaleLease"
      by (simp add: acknowledge_cancel_def may_write_require [OF w]) (rule fenced_update_stale [OF ok']; simp add: no)
    show "publication a (l\<lparr>jo_id := jid, jo_fence := fence\<rparr>) completing now later body (q', db) = Inl StaleLease"
      by (simp add: publication_def active)
  qed (rule active)
qed

theorem stale_fence_rejected_witness:
  "complete_job demo_env demo_actor ''u'' 1 VNull 40 demo_reclaimed = Inl StaleLease"
proof -
  have j: "find_job (ac_workspace_id demo_actor) ''u'' demo_reclaimed = Some (the (find_job ''w'' ''u'' demo_reclaimed))"
    unfolding demo_may_write(2) by (rule found_the) code_simp
  have "1 < jo_fence (the (find_job ''w'' ''u'' demo_reclaimed)) \<or>
    1 = jo_fence (the (find_job ''w'' ''u'' demo_reclaimed)) \<and>
    jo_status (the (find_job ''w'' ''u'' demo_reclaimed)) \<noteq> Leased"
    by code_simp
  note stale = stale_fence_rejected [OF demo_inj demo_reachable(2) j this queue_run_refl demo_may_write(1)]
  show ?thesis
    by (rule stale [THEN conjunct2, THEN conjunct1])
qed

text \<open>
  A completed, failed or cancelled job never changes again, in any field, whatever any actor does.
\<close>

theorem terminal_absorbing:
  assumes inj: "inj (je_uuid env)" and reach: "queue_reachable env q"
    and j: "find_job ws jid q = Some j" "is_job_terminal (jo_status j)" and run: "queue_run env q q'"
  shows "find_job ws jid q' = Some j"
proof -
  obtain k where "find_job ws jid q' = Some k" "evolves j k"
    by (rule rows_run_evolve [OF queue_run_rows [OF run reachable_ok [OF reach inj] inj] j(1)])
  with evolvesD(3) j(2) show ?thesis
    by blast
qed

theorem terminal_absorbing_witness:
  "find_job ''w'' ''u'' (table (claim demo_env demo_actor ''worker'' 99 demo_completed)) =
     Some (the (find_job ''w'' ''u'' demo_completed))"
proof -
  have j: "find_job ''w'' ''u'' demo_completed = Some (the (find_job ''w'' ''u'' demo_completed))"
    by (rule found_the) code_simp
  have t: "is_job_terminal (jo_status (the (find_job ''w'' ''u'' demo_completed)))"
    by code_simp
  have "returns (claim demo_env demo_actor ''worker'' 99 demo_completed)"
    by code_simp
  then have "queue_step demo_env demo_actor demo_completed (table (claim demo_env demo_actor ''worker'' 99 demo_completed))"
    using table_returns queue_step.intros(2) by blast
  then show ?thesis
    by (rule terminal_absorbing [OF demo_inj demo_reachable(3) j t queue_run_step [OF queue_run_refl]])
qed

section \<open>Idempotent submission\<close>

lemma find_key:
  assumes "queue_ok env q" "j \<in> set (q_jobs q)"
  shows "find (\<lambda>k. jo_workspace k = jo_workspace j \<and> jo_key k = jo_key j) (q_jobs q) = Some j"
proof -
  have "find (\<lambda>k. jo_workspace k = jo_workspace j \<and> jo_key k = jo_key j) (q_jobs q) \<noteq> None"
    using assms(2) by (auto simp: find_None_iff)
  then obtain k where k: "find (\<lambda>k. jo_workspace k = jo_workspace j \<and> jo_key k = jo_key j) (q_jobs q) = Some k"
    by blast
  then have "k \<in> set (q_jobs q)" "jo_workspace k = jo_workspace j" "jo_key k = jo_key j"
    by (auto simp: find_Some_iff)
  moreover have "inj_on (\<lambda>j. (jo_workspace j, jo_key j)) (set (q_jobs q))"
    using queue_ok_rows(3) [OF assms(1)] by (simp add: distinct_map)
  ultimately have "k = j"
    using assms(2) by (auto dest: inj_onD)
  with k show ?thesis
    by simp
qed

lemma enqueued_row:
  assumes "queue_ok env q" "inj (je_uuid env)" "enqueue env a c key m now q = Inr (j, q')"
  shows "find_job (ac_workspace_id a) (jo_id j) q' = Some j" "jo_key j = key" "jo_digest j = je_digest env c"
proof -
  let ?ws = "ac_workspace_id a"
  have "find_job ?ws (jo_id j) q' = Some j \<and> jo_key j = key \<and> jo_digest j = je_digest env c"
    using enqueue_cases [OF assms(3)]
  proof cases
    case 1
    then have "j \<in> set (q_jobs q)" "jo_workspace j = ?ws" "jo_key j = key"
      by (auto simp: find_Some_iff)
    with 1 show ?thesis
      by (simp add: find_job_iff [OF assms(1)])
  next
    case 2
    let ?jid = "je_uuid env (q_next q)"
    have q': "queue_ok env q'"
      unfolding 2(4) by (rule insert_job_ok [OF assms(2,1) 2(1-3)])
    have "find_job ?ws ?jid q' = Some (new_job env ?ws ?jid c key m now)"
      unfolding find_job_iff [OF q'] by (simp add: 2(4) insert_job_def add_outbox_def)
    moreover have "job_row ?ws ?jid q' = Inr j"
      using assms(3) 2(1,4) by (auto simp: enqueue_def Let_def bind_res_Inr_iff insert_job_def)
    ultimately show ?thesis
      by (auto simp: job_row_def)
  qed
  then show "find_job ?ws (jo_id j) q' = Some j" "jo_key j = key" "jo_digest j = je_digest env c"
    by auto
qed

text \<open>
  Once a command was accepted under an idempotency key, every later submission with that key, by any
  writer of the workspace, finds the same job as it then is and changes nothing; if its command has
  another fingerprint it is refused with \<open>idempotency_conflict\<close>.
\<close>

theorem enqueue_idempotent:
  assumes inj: "inj (je_uuid env)" and reach: "queue_reachable env q"
    and first: "enqueue env a c key m now q = Inr (j, q1)" and run: "queue_run env q1 q2"
    and w: "may_write b" "ac_workspace_id b = ac_workspace_id a"
    and params: "is_dict c'" "c' \<noteq> VDict []" "1 \<le> m'" "m' \<le> 20"
  shows "\<exists>k. find_job (ac_workspace_id a) (jo_id j) q2 = Some k \<and> same_job j k \<and>
    enqueue env b c' key m' now' q2 =
      (if je_digest env c' = je_digest env c then Inr (k, q2) else Inl (WorkflowError ''idempotency_conflict''))"
proof -
  let ?ws = "ac_workspace_id a"
  have ok: "queue_ok env q"
    by (rule reachable_ok [OF reach inj])
  have ok1: "queue_ok env q1"
    by (rule queue_step_ok [OF queue_step.intros(1) [OF first] ok inj])
  note row = enqueued_row [OF ok inj first]
  have key: "key \<noteq> [] \<and> length key \<le> 255"
    using first by (auto simp: enqueue_def Let_def bind_res_Inr_iff ensure_Inr_iff)
  obtain k where k: "find_job ?ws (jo_id j) q2 = Some k" "evolves j k"
    by (rule rows_run_evolve [OF queue_run_rows [OF run ok1 inj] row(1)])
  note same = evolvesD(1) [OF k(2)]
  have "find (\<lambda>i. jo_workspace i = jo_workspace k \<and> jo_key i = jo_key k) (q_jobs q2) = Some k"
    using find_key [OF queue_run_ok [OF run ok1 inj]] find_job_SomeD [OF k(1)] by blast
  moreover have k': "jo_workspace k = ac_workspace_id b" "jo_key k = key" "jo_digest k = je_digest env c"
    using same row(2,3) find_job_SomeD [OF k(1)] by (simp_all add: same_job_def w(2))
  ultimately have f: "find (\<lambda>i. jo_workspace i = ac_workspace_id b \<and> jo_key i = key) (q_jobs q2) = Some k"
    by simp
  have "enqueue env b c' key m' now' q2 =
      (if je_digest env c' = je_digest env c then Inr (k, q2) else Inl (WorkflowError ''idempotency_conflict''))"
    unfolding enqueue_def Let_def may_write_require [OF w(1)] bind_res_simps f
    using params key k'(3) by (simp add: ensure_def)
  with k same show ?thesis
    by blast
qed

theorem enqueue_idempotent_witness:
  "(\<exists>k. find_job ''w'' ''u'' demo_leased = Some k \<and>
     enqueue demo_env demo_actor demo_command ''k'' 3 50 demo_leased = Inr (k, demo_leased)) \<and>
   enqueue demo_env demo_actor (VDict [(''other'', VNull)]) ''k'' 3 50 demo_leased =
     Inl (WorkflowError ''idempotency_conflict'')"
proof -
  have "returns (enqueue demo_env demo_actor demo_command ''k'' 2 0 empty_queue)"
    by code_simp
  then obtain j where j: "enqueue demo_env demo_actor demo_command ''k'' 2 0 empty_queue = Inr (j, demo_queued)"
    unfolding demo_queued_def using table_returns by blast
  have reach: "queue_reachable demo_env empty_queue"
    by (simp add: queue_reachable_def)
  have "(case enqueue demo_env demo_actor demo_command ''k'' 2 0 empty_queue of Inr (j, q) \<Rightarrow> jo_id j = ''u'' | _ \<Rightarrow> False)"
    by code_simp
  with j have u: "jo_id j = ''u''"
    by simp
  note again = enqueue_idempotent [OF demo_inj reach j queue_run_step [OF queue_run_refl demo_steps(2)]
      demo_may_write(1) refl, unfolded u demo_may_write(2)]
  have "is_dict demo_command" "demo_command \<noteq> VDict []" "1 \<le> (3::int)" "(3::int) \<le> 20"
    by (simp_all add: demo_command_def)
  note same = again [OF this]
  have "is_dict (VDict [(''other'', VNull)])" "VDict [(''other'', VNull)] \<noteq> VDict []" "1 \<le> (3::int)" "(3::int) \<le> 20"
    by simp_all
  note other = again [OF this, of 50]
  have "je_digest demo_env (VDict [(''other'', VNull)]) \<noteq> je_digest demo_env demo_command"
    by (simp add: demo_env_def demo_command_def)
  then show ?thesis
    using same [of 50] other by auto
qed

section \<open>Expiry and claims\<close>

definition expire_job :: "int \<Rightarrow> job \<Rightarrow> job" where
  "expire_job now j =
     j\<lparr>jo_status := expired_status j, jo_worker := None, jo_expires := None,
       jo_error := (if expired_status j = Failed then Some (VDict [(''code'', VStr ''retry_exhausted'')]) else None),
       jo_updated := now\<rparr>"

lemma find_expire_row:
  assumes "find_job ws (jo_id r) q = Some r" "jo_status r = Leased"
  shows "find_job ws' jid (expire_row env ws now r q) =
    (if ws' = ws \<and> jid = jo_id r then Some (expire_job now r) else find_job ws' jid q)"
proof -
  let ?f = "\<lambda>j. j\<lparr>jo_status := expired_status r, jo_worker := None, jo_expires := None,
      jo_error := (if expired_status r = Failed then Some (VDict [(''code'', VStr ''retry_exhausted'')]) else None),
      jo_updated := now\<rparr>"
  have "find_job ws' jid (update_jobs ws (jo_id r) (\<lambda>j. jo_status j = Leased) ?f q) =
      map_option (\<lambda>j. if matches_row ws (jo_id r) (\<lambda>j. jo_status j = Leased) j then ?f j else j) (find_job ws' jid q)"
    by (rule find_update_jobs) (simp add: is_job_def)
  moreover have "matches_row ws (jo_id r) (\<lambda>j. jo_status j = Leased) r"
    using assms(2) find_job_SomeD [OF assms(1)] by (simp add: matches_row_def is_job_def)
  moreover have "\<not> matches_row ws (jo_id r) (\<lambda>j. jo_status j = Leased) k"
    if "find_job ws' jid q = Some k" "\<not> (ws' = ws \<and> jid = jo_id r)" for k
    using find_job_SomeD [OF that(1)] that(2) by (auto simp: matches_row_def is_job_def)
  ultimately show ?thesis
    using assms(1) by (cases "find_job ws' jid q") (auto simp: expire_row_def Let_def expire_job_def)
qed

lemma find_expire_rows:
  assumes "distinct (map jo_id rs)"
    and "\<And>r. r \<in> set rs \<Longrightarrow> find_job ws (jo_id r) q = Some r \<and> jo_status r = Leased"
  shows "find_job ws' jid (fold (expire_row env ws now) rs q) =
    map_option (\<lambda>j. if j \<in> set rs then expire_job now j else j) (find_job ws' jid q)"
  using assms
proof (induction rs arbitrary: q)
  case Nil
  then show ?case
    by (simp add: option.map_ident)
next
  case (Cons r rs)
  let ?q = "expire_row env ws now r q"
  have r: "find_job ws (jo_id r) q = Some r" "jo_status r = Leased"
    using Cons.prems(2) [of r] by simp_all
  have other: "jo_id s \<noteq> jo_id r" if "s \<in> set rs" for s
    using Cons.prems(1) imageI [OF that, of jo_id] by auto
  have "find_job ws (jo_id s) ?q = Some s \<and> jo_status s = Leased" if "s \<in> set rs" for s
    using Cons.prems(2) [of s] that other [OF that] by (simp add: find_expire_row [OF r])
  then have "find_job ws' jid (fold (expire_row env ws now) rs ?q) =
      map_option (\<lambda>j. if j \<in> set rs then expire_job now j else j) (find_job ws' jid ?q)"
    using Cons.IH [of ?q] Cons.prems(1) by simp
  moreover have "expire_job now r \<notin> set rs"
    using other [of "expire_job now r"] by (auto simp: expire_job_def)
  moreover have "r \<notin> set rs"
    using other [of r] by blast
  moreover have "k \<noteq> r" if "find_job ws' jid q = Some k" "\<not> (ws' = ws \<and> jid = jo_id r)" for k
    using that find_job_SomeD [OF that(1)] find_job_SomeD [OF r(1)] by auto
  ultimately show ?case
    using r(1) by (cases "find_job ws' jid q") (auto simp: find_expire_row [OF r])
qed

lemma find_expire_and_cancel:
  assumes "queue_ok env q"
  shows "find_job ws' jid (expire_and_cancel env ws now q) =
    map_option (\<lambda>j. if ws' = ws \<and> jo_status j = Leased \<and> lease_expired now j then expire_job now j else j)
      (find_job ws' jid q)"
proof -
  have "find_job ws' jid (expire_and_cancel env ws now q) =
      map_option (\<lambda>j. if j \<in> set (expired_jobs ws now q) then expire_job now j else j) (find_job ws' jid q)"
    unfolding expire_and_cancel_def expired_jobs_def [symmetric]
  proof (rule find_expire_rows [OF expired_jobs_distinct [OF assms]])
    fix r
    assume "r \<in> set (expired_jobs ws now q)"
    then show "find_job ws (jo_id r) q = Some r \<and> jo_status r = Leased"
      by (auto simp: find_job_iff [OF assms] expired_jobs_def)
  qed
  moreover have "j \<in> set (expired_jobs ws now q) \<longleftrightarrow> ws' = ws \<and> jo_status j = Leased \<and> lease_expired now j"
    if "find_job ws' jid q = Some j" for j
    using find_job_SomeD [OF that] by (auto simp: expired_jobs_def)
  ultimately show ?thesis
    by (cases "find_job ws' jid q") simp_all
qed

text \<open>
  A crashed worker does not lose a job: when a lease has expired, was not cancelled and has an attempt
  left, any writer of the workspace can lease that job again at once, under the next fence, for a full
  lease; the old worker's fence is then stale and the new one is active.
\<close>

theorem expired_lease_reclaimed:
  assumes inj: "inj (je_uuid env)" and reach: "queue_reachable env q" and lease: "0 < je_lease env"
    and j: "find_job (ac_workspace_id a) jid q = Some j" "jo_status j = Leased" "jo_expires j = Some t" "t \<le> now"
    and retry: "\<not> jo_cancel j" "jo_attempts j < jo_max_attempts j"
    and w: "may_write a" "worker \<noteq> []" "jid \<noteq> []"
  shows "\<exists>k q'. claim_specific env a jid worker now q = Inr (Some k, q') \<and>
    find_job (ac_workspace_id a) jid q' = Some k \<and> jo_fence k = jo_fence j + 1 \<and>
    jo_attempts k = jo_attempts j + 1 \<and> jo_worker k = Some worker \<and> jo_expires k = Some (now + je_lease env) \<and>
    assert_active a k now q' = Inr k \<and> heartbeat env a jid (jo_fence j) later q' = Inl StaleLease"
proof -
  let ?ws = "ac_workspace_id a"
  let ?q = "expire_and_cancel env ?ws now q"
  let ?k = "take_lease worker (now + je_lease env) now (expire_job now j)"
  let ?q' = "write_row env ?ws jid claimable (take_lease worker (now + je_lease env) now) (Some ''leased'') now ?q"
  have ok: "queue_ok env q"
    by (rule reachable_ok [OF reach inj])
  have ok1: "queue_ok env ?q"
    by (rule row_steps_ok [OF expire_and_cancel_steps [OF ok inj] ok inj])
  have e: "find_job ?ws jid ?q = Some (expire_job now j)"
    using j by (simp add: find_expire_and_cancel [OF ok] lease_expired_def)
  have c: "claimable (expire_job now j)"
    using retry by (simp add: claimable_def expire_job_def expired_status_def)
  have r: "claim_specific env a jid worker now q = Inr (Some ?k, ?q')"
    using w by (simp add: claim_specific_def may_write_require lease_row_cases [OF ok1] e c)
  have row: "job_row ?ws jid ?q' = Inr ?k"
    by (rule job_row_write [where p = claimable, OF e c]) (simp add: take_lease_def)
  have f: "find_job ?ws jid ?q' = Some ?k"
    using row by (simp add: job_row_def split: option.splits)
  have k: "jo_id ?k = jid" "jo_fence ?k = jo_fence j + 1" "jo_attempts ?k = jo_attempts j + 1" "jo_status ?k = Leased"
    "jo_worker ?k = Some worker" "jo_expires ?k = Some (now + je_lease env)" "\<not> jo_cancel ?k"
    using retry(1) find_job_SomeD [OF j(1)] by (simp_all add: take_lease_def expire_job_def)
  have active: "assert_active a ?k now ?q' = Inr ?k"
    using f k lease by (simp add: assert_active_def may_write_require [OF w(1)])
  have ok': "queue_ok env ?q'"
    using r by (intro queue_step_ok [OF queue_step.intros(3) ok inj])
  have stale: "heartbeat env a jid (jo_fence j) later ?q' = Inl StaleLease"
    using f k(2) by (simp add: heartbeat_def may_write_require [OF w(1)])
      (rule fenced_update_stale [OF ok']; simp add: live_lease_def holds_fence_def)
  show ?thesis
    using r f k(2,3,5,6) active stale by blast
qed

theorem expired_lease_reclaimed_witness:
  "\<exists>k q'. claim_specific demo_env demo_actor ''u'' ''other'' 30 demo_leased = Inr (Some k, q') \<and> jo_fence k = 2"
proof -
  have "0 < je_lease demo_env" "(30::int) \<le> 30"
    by (simp_all add: demo_env_def)
  moreover have "\<not> jo_cancel demo_lease" "jo_attempts demo_lease < jo_max_attempts demo_lease" "''other'' \<noteq> ''''" "''u'' \<noteq> ''''"
    by simp_all
  ultimately show ?thesis
    using expired_lease_reclaimed [OF demo_inj demo_reachable(1) _ demo_find [folded demo_may_write(2)]
        demo_lease_simps(2,3) _ _ _ demo_may_write(1), of 30 "''other''" 0]
    by auto
qed

section \<open>Publication\<close>

lemma assert_active_Inr:
  assumes "assert_active a lease now q = Inr j"
  shows "find_job (ac_workspace_id a) (jo_id lease) q = Some j \<and> jo_status j = Leased \<and> jo_fence j = jo_fence lease \<and>
    jo_worker j = jo_worker lease \<and> \<not> jo_cancel j"
  using assms by (auto simp: assert_active_def bind_res_Inr_iff split: option.splits if_splits)

text \<open>
  A publication that commits was made under one held lease: at every moment between its two checks,
  whatever operations were run on the tables meanwhile, the job had the fence of the publisher's lease,
  and it was leased or, for a completing publication, possibly already completed.
\<close>

theorem publication_excludes_reclaim:
  assumes inj: "inj (je_uuid env)" and reach: "queue_reachable env q"
    and pub: "publication a lease completing now later body (q, db) = Inr (q', db')"
    and runs: "queue_run env q u" "queue_run env u q'"
  shows "\<exists>k. find_job (ac_workspace_id a) (jo_id lease) u = Some k \<and> jo_fence k = jo_fence lease \<and>
    (jo_status k = Leased \<or> completing \<and> jo_status k = Completed)"
proof -
  let ?ws = "ac_workspace_id a" and ?jid = "jo_id lease"
  have ok: "queue_ok env q"
    by (rule reachable_ok [OF reach inj])
  obtain j where "assert_active a lease now q = Inr j"
    using pub by (auto simp: publication_def bind_res_Inr_iff)
  then have j: "find_job ?ws ?jid q = Some j" "jo_fence j = jo_fence lease"
    using assert_active_Inr by blast+
  obtain l where l: "find_job ?ws ?jid q' = Some l" "jo_fence l = jo_fence lease"
      "jo_status l = (if completing then Completed else Leased)"
  proof (cases completing)
    case True
    then show thesis
      using pub that by (auto simp: publication_def bind_res_Inr_iff job_row_def split: option.splits if_splits)
  next
    case False
    then obtain l where "assert_active a lease later q' = Inr l"
      using pub by (auto simp: publication_def bind_res_Inr_iff)
    then show thesis
      using assert_active_Inr [of a lease later q' l] that False by auto
  qed
  have uok: "queue_ok env u"
    by (rule queue_run_ok [OF runs(1) ok inj])
  obtain k where k: "find_job ?ws ?jid u = Some k" "evolves j k"
    by (rule rows_run_evolve [OF queue_run_rows [OF runs(1) ok inj] j(1)])
  obtain l' where "find_job ?ws ?jid q' = Some l'" "evolves k l'"
    by (rule rows_run_evolve [OF queue_run_rows [OF runs(2) uok inj] k(1)])
  then have kl: "evolves k l"
    using l(1) by simp
  have f: "jo_fence k = jo_fence lease"
    using evolvesD(2) [OF k(2)] evolvesD(2) [OF kl] j(2) l(2) by simp
  have "jo_status k = Leased \<or> completing \<and> jo_status k = Completed"
  proof (cases "is_job_terminal (jo_status k)")
    case True
    then have "l = k"
      by (rule evolvesD(3) [OF kl])
    then show ?thesis
      using l(3) True by (auto simp: is_job_terminal_def split: if_splits)
  next
    case False
    have "jo_status k = Leased"
      using evolvesD(4,6) [OF kl] l(2,3) f False by (cases completing) (auto simp: is_job_terminal_def)
    then show ?thesis ..
  qed
  with k(1) f show ?thesis
    by blast
qed

definition demo_body :: "queue \<times> unit \<Rightarrow> (queue \<times> unit) res" where
  "demo_body s = bind_res (complete_job demo_env demo_actor ''u'' 1 VNull 10 (fst s)) (\<lambda>(j, q). Inr (q, snd s))"

theorem publication_excludes_reclaim_witness:
  "\<exists>k. find_job ''w'' (jo_id demo_lease) demo_leased = Some k \<and> jo_fence k = jo_fence demo_lease \<and>
    (jo_status k = Leased \<or> True \<and> jo_status k = Completed)"
proof -
  have "returns (publication demo_actor demo_lease True 5 10 demo_body (demo_leased, ()))"
    by code_simp
  then obtain s where s: "publication demo_actor demo_lease True 5 10 demo_body (demo_leased, ()) = Inr s"
    by (rule returnsE)
  then have "demo_body (demo_leased, ()) = Inr s"
    by (auto simp: publication_def bind_res_Inr_iff split: if_splits)
  then have "s = (demo_completed, ())"
    by (auto simp: demo_body_def bind_res_Inr_iff demo_completed_def table_def)
  with s have pub: "publication demo_actor demo_lease True 5 10 demo_body (demo_leased, ()) = Inr (demo_completed, ())"
    by simp
  show ?thesis
    using publication_excludes_reclaim [OF demo_inj demo_reachable(1) pub queue_run_refl
        queue_run_step [OF queue_run_refl demo_steps(4)]]
    unfolding demo_may_write(2) .
qed

section \<open>Claims in order of age\<close>

lemma str_less_trans: "str_less s t \<Longrightarrow> str_less t u \<Longrightarrow> str_less s u"
proof (induction s t arbitrary: u rule: str_less.induct)
  case (2 d ds)
  then show ?case
    by (cases u) auto
next
  case (3 c cs d ds)
  then show ?case
    by (cases u) (auto split: if_splits)
qed simp

lemma not_earlier_job: "\<not> earlier_job j k \<longleftrightarrow> earlier_job k j \<or> jo_created j = jo_created k \<and> jo_id j = jo_id k"
  using str_less_total [of "jo_id j" "jo_id k"] by (auto simp: earlier_job_def dest: str_less_asym)

lemma earlier_job_trans: "earlier_job i j \<Longrightarrow> earlier_job j k \<Longrightarrow> earlier_job i k"
  by (auto simp: earlier_job_def dest: str_less_trans)

lemma not_earlier_job_trans:
  assumes "\<not> earlier_job k j" "\<not> earlier_job i k"
  shows "\<not> earlier_job i j"
  using assms earlier_job_trans [of j k i] unfolding not_earlier_job by (auto simp: earlier_job_def)

lemma first_job_None: "first_job js = None \<longleftrightarrow> js = []"
  by (cases js) (auto split: option.splits)

lemma first_job_Some:
  "first_job js = Some j \<Longrightarrow> j \<in> set js \<and> (\<forall>i\<in>set js. \<not> earlier_job i j)"
proof (induction js arbitrary: j)
  case (Cons x js)
  have irrefl: "\<not> earlier_job i i" for i
    by (simp add: earlier_job_def)
  show ?case
  proof (cases "first_job js")
    case None
    with Cons.prems irrefl show ?thesis
      by (simp add: first_job_None)
  next
    case (Some k)
    note k = Cons.IH [OF Some]
    show ?thesis
    proof (cases "earlier_job k x")
      case True
      with Cons.prems Some have "j = k"
        by simp
      moreover have "\<not> earlier_job x k"
        using True not_earlier_job by blast
      ultimately show ?thesis
        using k by auto
    next
      case False
      with Cons.prems Some have "j = x"
        by simp
      with k False irrefl show ?thesis
        using not_earlier_job_trans by auto
    qed
  qed
qed simp

text \<open>
  A claim leases the oldest job that can be leased after expired leases were put back (ties by id),
  and comes back empty only when there is none.
\<close>

theorem claim_takes_oldest:
  assumes inj: "inj (je_uuid env)" and reach: "queue_reachable env q"
    and r: "claim env a worker now q = Inr (r, q')"
  defines "ws \<equiv> ac_workspace_id a" and "back \<equiv> expire_and_cancel env (ac_workspace_id a) now q"
  shows "case r of
      None \<Rightarrow> \<not> list_ex (\<lambda>i. jo_workspace i = ws \<and> claimable i) (q_jobs back)
    | Some k \<Rightarrow> \<exists>j. find_job ws (jo_id k) back = Some j \<and> claimable j \<and>
        k = take_lease worker (now + je_lease env) now j \<and> find_job ws (jo_id k) q' = Some k \<and>
        \<not> list_ex (\<lambda>i. jo_workspace i = ws \<and> claimable i \<and> earlier_job i j) (q_jobs back)"
proof -
  have ok: "queue_ok env q"
    by (rule reachable_ok [OF reach inj])
  have ok1: "queue_ok env back"
    unfolding back_def by (rule row_steps_ok [OF expire_and_cancel_steps [OF ok inj] ok inj])
  let ?js = "filter (\<lambda>i. jo_workspace i = ws \<and> claimable i) (q_jobs back)"
  show ?thesis
  proof (cases "first_job ?js")
    case None
    then show ?thesis
      using r by (auto simp: claim_def bind_res_Inr_iff Let_def ws_def back_def first_job_None filter_empty_conv
          list_ex_iff split: if_splits)
  next
    case (Some j)
    note j = first_job_Some [OF Some]
    let ?f = "take_lease worker (now + je_lease env) now"
    let ?q' = "write_row env ws (jo_id j) claimable ?f (Some ''leased'') now back"
    have f: "find_job ws (jo_id j) back = Some j" "claimable j"
      using j by (simp_all add: find_job_iff [OF ok1])
    have "lease_row env ws (jo_id j) worker now back = Inr (r, q')"
      using r Some by (auto simp: claim_def bind_res_Inr_iff Let_def ws_def back_def split: if_splits)
    then have rq: "r = Some (?f j)" "q' = ?q'"
      using f by (simp_all add: lease_row_cases [OF ok1])
    have id: "jo_id (?f j) = jo_id j"
      by (simp add: take_lease_def)
    have "job_row ws (jo_id j) ?q' = Inr (?f j)"
      by (rule job_row_write [where p = claimable, OF f]) (simp add: take_lease_def)
    then have "find_job ws (jo_id j) q' = Some (?f j)"
      unfolding rq(2) by (simp add: job_row_def split: option.splits)
    with f j show ?thesis
      unfolding rq(1) option.case id by (auto simp: list_ex_iff)
  qed
qed

theorem claim_takes_oldest_witness:
  "\<exists>j. find_job ''w'' (jo_id demo_lease) (expire_and_cancel demo_env ''w'' 0 demo_queued) = Some j \<and> claimable j"
proof -
  have "returns (claim demo_env demo_actor ''worker'' 0 demo_queued)"
    by code_simp
  then obtain r where r: "claim demo_env demo_actor ''worker'' 0 demo_queued = Inr (r, demo_leased)"
    unfolding demo_leased_def using table_returns by blast
  have "case claim demo_env demo_actor ''worker'' 0 demo_queued of Inr (Some k, _) \<Rightarrow> jo_id k = jo_id demo_lease | _ \<Rightarrow> False"
    by code_simp
  with r obtain k where "r = Some k" "jo_id k = jo_id demo_lease"
    by (auto split: option.splits)
  with claim_takes_oldest [OF demo_inj demo_reachable(4) r] show ?thesis
    by (auto simp: demo_may_write)
qed

section \<open>Workspaces\<close>

lemma row_step_frame:
  assumes "row_step env ws q q'"
  shows "filter (\<lambda>j. jo_workspace j \<noteq> ws) (q_jobs q') = filter (\<lambda>j. jo_workspace j \<noteq> ws) (q_jobs q)"
    "filter (\<lambda>e. ob_workspace e \<noteq> ws) (q_outbox q') = filter (\<lambda>e. ob_workspace e \<noteq> ws) (q_outbox q)"
proof -
  have jobs: "filter (\<lambda>j. jo_workspace j \<noteq> ws) (map (\<lambda>j. if matches_row ws jid p j then f j else j) js) =
      filter (\<lambda>j. jo_workspace j \<noteq> ws) js" if "\<And>k. jo_workspace (f k) = jo_workspace k" for jid p f js
    using that by (induction js) (auto simp: matches_row_def is_job_def)
  have acks: "filter (\<lambda>e. ob_workspace e \<noteq> ws) (map (acknowledge_event ws eid now) es) =
      filter (\<lambda>e. ob_workspace e \<noteq> ws) es" for eid now es
    by (induction es) (auto simp: acknowledge_event_def)
  show "filter (\<lambda>j. jo_workspace j \<noteq> ws) (q_jobs q') = filter (\<lambda>j. jo_workspace j \<noteq> ws) (q_jobs q)"
    using assms
    by cases (simp_all add: insert_job_def add_outbox_def write_row_def update_jobs_def jobs split: option.split)
  show "filter (\<lambda>e. ob_workspace e \<noteq> ws) (q_outbox q') = filter (\<lambda>e. ob_workspace e \<noteq> ws) (q_outbox q)"
    using assms
    by cases (simp_all add: insert_job_def add_outbox_def write_row_def update_jobs_def acks split: option.split)
qed

text \<open>
  An operation of the queue that returns was made by an identified owner or editor, and leaves every
  job and every event of the other workspaces as it was.
\<close>

theorem workspace_isolation:
  assumes inj: "inj (je_uuid env)" and reach: "queue_reachable env q" and step: "queue_step env a q q'"
  defines "ws \<equiv> ac_workspace_id a"
  shows "may_write a \<and>
    filter (\<lambda>j. jo_workspace j \<noteq> ws) (q_jobs q') = filter (\<lambda>j. jo_workspace j \<noteq> ws) (q_jobs q) \<and>
    filter (\<lambda>e. ob_workspace e \<noteq> ws) (q_outbox q') = filter (\<lambda>e. ob_workspace e \<noteq> ws) (q_outbox q)"
proof (intro conjI)
  have steps: "(row_step env ws)\<^sup>*\<^sup>* q q'"
    unfolding ws_def by (rule queue_step_refines [OF reachable_ok [OF reach inj] inj step])
  show "may_write a"
    unfolding may_write_def require_actor_Inr(1) [symmetric, of _ "()"] using step
    by cases (auto simp: enqueue_def claim_def claim_specific_def acknowledge_cancel_def abandon_def heartbeat_def
        complete_job_def fail_job_def request_cancel_def acknowledge_outbox_def Let_def bind_res_Inr_iff
        require_actor_Inr(2) split: if_splits)
  show "filter (\<lambda>j. jo_workspace j \<noteq> ws) (q_jobs q') = filter (\<lambda>j. jo_workspace j \<noteq> ws) (q_jobs q)"
    using steps by (induction rule: rtranclp_induct) (simp_all add: row_step_frame(1))
  show "filter (\<lambda>e. ob_workspace e \<noteq> ws) (q_outbox q') = filter (\<lambda>e. ob_workspace e \<noteq> ws) (q_outbox q)"
    using steps by (induction rule: rtranclp_induct) (simp_all add: row_step_frame(2))
qed

theorem workspace_isolation_witness:
  "filter (\<lambda>j. jo_workspace j \<noteq> ''w'') (q_jobs demo_completed) = filter (\<lambda>j. jo_workspace j \<noteq> ''w'') (q_jobs demo_leased)"
  using workspace_isolation [OF demo_inj demo_reachable(1) demo_steps(4)] by (simp add: demo_may_write)

end
