(* ===== verification/WorkerProps.thy ===== *)
theory WorkerProps
  imports Worker JobQueueSafety
begin

text \<open>
  Correctness of the worker service on top of the job queue. The others are only assumed to use the
  operations of the queue: a run then always ends in a row of its job, commits the effects of its
  publisher only together with the completion of the job, and an undisturbed run lands the outcome of its
  handler. The fair choice among workspaces always gets closer to a workspace that has work.
\<close>

section \<open>Transactions\<close>

lemma transact_Inr:
  assumes "transact w op s = (Inr x, s')"
  shows "op (wd_now w (snd s)) (fst (wd_others w (snd s) (fst s))) = Inr (x, fst (fst s')) \<and>
    snd (fst s') = snd (wd_others w (snd s) (fst s))"
  using assms by (auto simp: transact_def Let_def split: sum.splits)

lemma transact_Inl:
  assumes "transact w op s = (Inl e, s')"
  shows "op (wd_now w (snd s)) (fst (wd_others w (snd s) (fst s))) = Inl e \<and> fst s' = wd_others w (snd s) (fst s)"
  using assms by (auto simp: transact_def Let_def split: sum.splits)

lemma observe_Inr: "observe f now q = Inr (x, q') \<longleftrightarrow> f now q = Inr x \<and> q' = q"
  by (auto simp: observe_def bind_res_Inr_iff)

lemma observe_Inl: "observe f now q = Inl e \<longleftrightarrow> f now q = Inl e"
  by (auto simp: observe_def bind_res_Inl_iff)

section \<open>The job of a run\<close>

text \<open>The others act through the queue's operations; what they do to the rest is arbitrary.\<close>

definition others_ok :: "'db world \<Rightarrow> bool" where
  "others_ok w = (\<forall>n t. queue_run (wd_env w) (fst t) (fst (wd_others w n t)))"

text \<open>The queue is consistent and the leased job is what became of the lease.\<close>

definition at_job :: "'db world \<Rightarrow> job \<Rightarrow> queue \<Rightarrow> bool" where
  "at_job w lease q =
     (queue_ok (wd_env w) q \<and>
      (\<exists>k. find_job (ac_workspace_id (wd_actor w)) (jo_id lease) q = Some k \<and> evolves lease k))"

text \<open>What every lemma about a run assumes of its world.\<close>

definition world_ok :: "'db world \<Rightarrow> bool" where
  "world_ok w = (inj (je_uuid (wd_env w)) \<and> may_write (wd_actor w) \<and> others_ok w)"

lemma at_job_run:
  assumes "world_ok w" "at_job w lease q" "queue_run (wd_env w) q q'"
  shows "at_job w lease q'"
proof -
  have inj: "inj (je_uuid (wd_env w))" and ok: "queue_ok (wd_env w) q"
    using assms(1,2) by (simp_all add: world_ok_def at_job_def)
  obtain k where k: "find_job (ac_workspace_id (wd_actor w)) (jo_id lease) q = Some k" "evolves lease k"
    using assms(2) by (auto simp: at_job_def)
  obtain l where "find_job (ac_workspace_id (wd_actor w)) (jo_id lease) q' = Some l" "evolves k l"
    by (rule rows_run_evolve [OF queue_run_rows [OF assms(3) ok inj] k(1)])
  then show ?thesis
    using queue_run_ok [OF assms(3) ok inj] evolves_trans [OF k(2)] by (auto simp: at_job_def)
qed

lemma at_job_others:
  assumes "world_ok w" "at_job w lease (fst t)"
  shows "at_job w lease (fst (wd_others w n t))"
  using at_job_run [OF assms] assms(1) unfolding world_ok_def others_ok_def by blast

lemma transact_at:
  assumes w: "world_ok w" and at: "at_job w lease (fst (fst s))"
    and op: "\<And>now q x q'. op now q = Inr (x, q') \<Longrightarrow> queue_run (wd_env w) q q'"
    and r: "transact w op s = (r, s')"
  shows "at_job w lease (fst (fst s'))"
proof -
  have other: "at_job w lease (fst (wd_others w (snd s) (fst s)))"
    by (rule at_job_others [OF w at])
  show ?thesis
  proof (cases r)
    case (Inl e)
    then show ?thesis
      using transact_Inl [of w op s e s'] r other by simp
  next
    case (Inr x)
    then show ?thesis
      using transact_Inr [of w op s x s'] r at_job_run [OF w other op] by blast
  qed
qed

lemma single_step: "queue_step env a q q' \<Longrightarrow> queue_run env q q'"
  using queue_run_step [OF queue_run_refl] by blast

lemma observe_run: "observe f now q = Inr (x, q') \<Longrightarrow> queue_run env q q'"
  by (simp add: observe_Inr)

lemma transact_fail_at:
  assumes "world_ok w" "at_job w lease (fst (fst s))" "transact w op s = (Inl e, s')"
  shows "at_job w lease (fst (fst s'))"
  using transact_Inl [OF assms(3)] at_job_others [OF assms(1,2)] by simp

section \<open>Checkpoints\<close>

abbreviation stops :: "exn \<Rightarrow> bool" where
  "stops e \<equiv> e = WorkerStopping \<or> e = StaleLease \<or> e = WorkerCancelled"

lemma assert_active_errors:
  assumes "at_job w lease q" "may_write (wd_actor w)" "assert_active (wd_actor w) lease now q = Inl e"
  shows "e = StaleLease \<or> e = WorkerCancelled"
proof -
  obtain k where k: "find_job (ac_workspace_id (wd_actor w)) (jo_id lease) q = Some k"
    using assms(1) by (auto simp: at_job_def)
  have "job_ok k"
    using assms(1) find_job_ok(1) [OF _ k] by (auto simp: at_job_def)
  then have "jo_status k = Leased \<longleftrightarrow> jo_expires k \<noteq> None"
    unfolding job_ok_def by blast
  then show ?thesis
    using assms(3) k by (auto simp: assert_active_def may_write_require [OF assms(2)] split: if_splits option.splits)
qed

lemma checkpoint_at:
  assumes "world_ok w" "at_job w lease (fst (fst s))" "checkpoint w lease s = (r, s')"
  shows "at_job w lease (fst (fst s'))"
proof (cases "wd_stop w (snd s)")
  case False
  then have t: "transact w (observe (assert_active (wd_actor w) lease)) s = (r, s')"
    using assms(3) by (simp add: checkpoint_def)
  show ?thesis
    by (rule transact_at [OF assms(1,2) _ t]) (rule observe_run)
qed (use assms(2,3) in \<open>auto simp: checkpoint_def\<close>)

lemma checkpoint_errors:
  assumes "world_ok w" "at_job w lease (fst (fst s))" "checkpoint w lease s = (Inl e, s')"
  shows "stops e"
proof (cases "wd_stop w (snd s)")
  case False
  then have "transact w (observe (assert_active (wd_actor w) lease)) s = (Inl e, s')"
    using assms(3) by (simp add: checkpoint_def)
  then have "assert_active (wd_actor w) lease (wd_now w (snd s)) (fst (wd_others w (snd s) (fst s))) = Inl e"
    using transact_Inl [of w "observe (assert_active (wd_actor w) lease)" s e s'] by (simp add: observe_Inl)
  then show ?thesis
    using assert_active_errors [OF at_job_others [OF assms(1,2)]] assms(1) by (auto simp: world_ok_def)
qed (use assms(3) in \<open>simp add: checkpoint_def\<close>)

section \<open>Settling\<close>

lemma reread_returns:
  assumes "world_ok w" "at_job w lease (fst (fst s))"
  obtains j s' where "reread w lease s = (Inr j, s')" "find_job (ac_workspace_id (wd_actor w)) (jo_id lease) (fst (fst s')) = Some j"
    "at_job w lease (fst (fst s'))"
proof -
  let ?a = "wd_actor w"
  let ?t = "wd_others w (snd s) (fst s)"
  have at: "at_job w lease (fst ?t)"
    by (rule at_job_others [OF assms])
  then obtain k where k: "find_job (ac_workspace_id ?a) (jo_id lease) (fst ?t) = Some k"
    by (auto simp: at_job_def)
  have "require_actor ?a False (Some (ac_workspace_id ?a)) = Inr ()"
    using assms(1) by (simp add: world_ok_def may_write_def require_actor_def) blast
  then have "get_job ?a (jo_id lease) (fst ?t) = Inr k"
    using k by (simp add: get_job_def job_row_def)
  then have "reread w lease s = (Inr k, (?t, Suc (snd s)))"
    by (simp add: reread_def transact_def observe_def Let_def)
  then show thesis
    using that k at by simp
qed

lemma fenced_errors:
  assumes "queue_ok env q" "may_write a"
  shows "acknowledge_cancel env a jid fence now q = Inl e \<Longrightarrow> e = StaleLease"
    "abandon env a jid fence now q = Inl e \<Longrightarrow> e = StaleLease"
    "fail_job env a jid fence (VDict [(''code'', VStr c)]) now q = Inl e \<Longrightarrow> e = StaleLease"
  by (auto simp: acknowledge_cancel_def abandon_def fail_job_def may_write_require [OF assms(2)] dict_get_def
      fenced_update_cases [OF assms(1)] split: option.splits if_splits)

lemma fenced_runs:
  "acknowledge_cancel env a jid fence now q = Inr (x, q') \<Longrightarrow> queue_run env q q'"
  "abandon env a jid fence now q = Inr (x, q') \<Longrightarrow> queue_run env q q'"
  "fail_job env a jid fence v now q = Inr (x, q') \<Longrightarrow> queue_run env q q'"
  by (blast intro: single_step queue_step.intros)+

lemma fenced_or_reread:
  assumes w: "world_ok w" and at: "at_job w lease (fst (fst s))"
    and errors: "\<And>q now e. queue_ok (wd_env w) q \<Longrightarrow> op now q = Inl e \<Longrightarrow> e = StaleLease"
  shows "\<exists>j s'. (case transact w op s of (Inr j, s') \<Rightarrow> (Inr j, s')
      | (Inl e, s') \<Rightarrow> if e = StaleLease then reread w lease s' else (Inl e, s')) = (Inr j, s')"
proof -
  obtain x s' where tx: "transact w op s = (x, s')"
    by (cases "transact w op s") blast
  show ?thesis
  proof (cases x)
    case (Inl e)
    with tx have t: "transact w op s = (Inl e, s')"
      by simp
    have "queue_ok (wd_env w) (fst (wd_others w (snd s) (fst s)))"
      using at_job_others [OF w at] by (simp add: at_job_def)
    with errors transact_Inl [OF t] have "e = StaleLease"
      by blast
    moreover obtain i s'' where "reread w lease s' = (Inr i, s'')"
      by (rule reread_returns [OF w transact_fail_at [OF w at t]])
    ultimately show ?thesis
      using t by simp
  qed (use tx in simp)
qed

lemma settle_returns:
  assumes w: "world_ok w" and at: "at_job w lease (fst (fst s))"
  shows "\<exists>j s'. settle w lease stopped s = (Inr j, s')"
proof -
  let ?op = "\<lambda>j. if jo_cancel j then acknowledge_cancel (wd_env w) (wd_actor w) (jo_id lease) (jo_fence lease)
      else abandon (wd_env w) (wd_actor w) (jo_id lease) (jo_fence lease)"
  obtain j s1 where r: "reread w lease s = (Inr j, s1)" "at_job w lease (fst (fst s1))"
    by (rule reread_returns [OF w at])
  obtain k s2 where again: "reread w lease s1 = (Inr k, s2)"
    by (rule reread_returns [OF w r(2)])
  have "e = StaleLease" if "queue_ok (wd_env w) q" "?op j now q = Inl e" for q now e
    using fenced_errors(1,2) [OF that(1)] that(2) w by (auto simp: world_ok_def split: if_splits)
  then have fenced: "\<exists>i s'. (case transact w (?op j) s1 of (Inr i, s') \<Rightarrow> (Inr i, s')
      | (Inl e, s') \<Rightarrow> if e = StaleLease then reread w lease s' else (Inl e, s')) = (Inr i, s')"
    by (rule fenced_or_reread [OF w r(2)])
  consider "jo_status j \<noteq> Leased \<or> jo_fence j \<noteq> jo_fence lease"
    | "\<not> (jo_status j \<noteq> Leased \<or> jo_fence j \<noteq> jo_fence lease)" "\<not> jo_cancel j \<and> \<not> stopped"
    | "\<not> (jo_status j \<noteq> Leased \<or> jo_fence j \<noteq> jo_fence lease)" "\<not> (\<not> jo_cancel j \<and> \<not> stopped)"
    by blast
  then show ?thesis
  proof cases
    case 1
    then have "settle w lease stopped s = (Inr j, s1)"
      by (simp add: settle_def r(1))
    then show ?thesis
      by blast
  next
    case 2
    have "settle w lease stopped s = (Inr k, s2)"
      unfolding settle_def r(1) bind_w_simps if_not_P [OF 2(1)] if_P [OF 2(2)] by (rule again)
    then show ?thesis
      by blast
  next
    case 3
    show ?thesis
      unfolding settle_def r(1) bind_w_simps if_not_P [OF 3(1)] if_not_P [OF 3(2)] by (rule fenced)
  qed
qed

lemma land_stop_returns:
  assumes "world_ok w" "at_job w lease (fst (fst s))" "stops e"
  shows "\<exists>j s'. land_stop w lease e s = (Inr j, s')"
  using assms(3) settle_returns [OF assms(1,2)] by (auto simp: land_stop_def)

section \<open>Completion\<close>

text \<open>A publication that commits completes the job with the published result.\<close>

lemma completion_Inr:
  assumes "completion w lease h n (q, db, j0) = Inr (q', db', j)"
  obtains v where "(case h of Plain v \<Rightarrow> Inr (v, db) | Prepared p \<Rightarrow> p db) = Inr (v, db')"
    "complete_job (wd_env w) (wd_actor w) (jo_id lease) (jo_fence lease) v (wd_now w (n + 2)) q = Inr (j, q')"
  using assms by (auto simp: completion_def bind_res_Inr_iff split: prod.splits)

lemma publish_result_Inr:
  assumes "publish_result w lease h s = (Inr j, s')"
  obtains v where
    "(case h of Plain v \<Rightarrow> Inr (v, snd (wd_others w (snd s) (fst s))) | Prepared p \<Rightarrow> p (snd (wd_others w (snd s) (fst s))))
      = Inr (v, snd (fst s'))"
    "complete_job (wd_env w) (wd_actor w) (jo_id lease) (jo_fence lease) v (wd_now w (snd s + 2))
      (fst (wd_others w (snd s) (fst s))) = Inr (j, fst (fst s'))"
proof -
  let ?t = "wd_others w (snd s) (fst s)"
  have "completion w lease h (snd s) (fst ?t, snd ?t, lease) = Inr (fst (fst s'), snd (fst s'), j)"
    using assms by (auto simp: publish_result_def publication_def Let_def bind_res_Inr_iff split: sum.splits if_splits)
  from completion_Inr [OF this] that show thesis
    by blast
qed

lemma publish_result_Inl:
  "publish_result w lease h s = (Inl e, s') \<Longrightarrow> fst s' = wd_others w (snd s) (fst s)"
  by (auto simp: publish_result_def Let_def split: sum.splits)

lemma complete_row:
  assumes "queue_ok env q" "complete_job env a jid fence v now q = Inr (j, q')"
  shows "jo_status j = Completed \<and> jo_fence j = fence \<and> jo_result j = Some (fst (je_redact env v)) \<and>
    find_job (ac_workspace_id a) jid q' = Some j"
proof -
  let ?p = "live_lease fence now"
  let ?f = "\<lambda>j. j\<lparr>jo_status := Completed, jo_result := Some (fst (je_redact env v)),
      jo_result_redaction := Some (snd (je_redact env v)), jo_worker := None, jo_expires := None, jo_updated := now\<rparr>"
  obtain k where k: "find_job (ac_workspace_id a) jid q = Some k" "?p k" "j = ?f k"
      "q' = write_row env (ac_workspace_id a) jid ?p ?f (Some ''completed'') now q"
    using assms(2) by (auto simp: complete_job_def bind_res_Inr_iff fenced_update_cases [OF assms(1)]
        split: option.splits if_splits)
  have "job_row (ac_workspace_id a) jid q' = Inr (?f k)"
    unfolding k(4) by (rule job_row_write [where p = ?p and f = ?f, OF k(1,2)]) simp
  then show ?thesis
    using k(2,3) by (auto simp: job_row_def live_lease_def holds_fence_def split: option.splits)
qed

section \<open>Runs\<close>

lemma attempt_fails_at:
  assumes w: "world_ok w" and at: "at_job w lease (fst (fst s))" and r: "attempt w handler lease s = (Inl e, s')"
  shows "at_job w lease (fst (fst s'))"
  using r unfolding attempt_def
proof (rule bind_w_Inl)
  assume "checkpoint w lease s = (Inl e, s')"
  then show ?thesis
    by (rule checkpoint_at [OF w at])
next
  fix x s1
  assume c: "checkpoint w lease s = (Inr x, s1)"
    and rest: "bind_w (handler (jo_command lease), s1) (\<lambda>h s. bind_w (checkpoint w lease s) (\<lambda>_ s. publish_result w lease h s))
      = (Inl e, s')"
  note at1 = checkpoint_at [OF w at c]
  from rest show ?thesis
  proof (rule bind_w_Inl)
    assume "(handler (jo_command lease), s1) = (Inl e, s')"
    with at1 show ?thesis
      by simp
  next
    fix h s2
    assume h: "(handler (jo_command lease), s1) = (Inr h, s2)"
      and "bind_w (checkpoint w lease s2) (\<lambda>_ s. publish_result w lease h s) = (Inl e, s')"
    then have at2: "at_job w lease (fst (fst s2))"
      using at1 by simp
    from \<open>bind_w (checkpoint w lease s2) _ = _\<close> show ?thesis
    proof (rule bind_w_Inl)
      assume "checkpoint w lease s2 = (Inl e, s')"
      then show ?thesis
        by (rule checkpoint_at [OF w at2])
    next
      fix y s3
      assume c: "checkpoint w lease s2 = (Inr y, s3)" and p: "publish_result w lease h s3 = (Inl e, s')"
      show ?thesis
        using publish_result_Inl [OF p] at_job_others [OF w checkpoint_at [OF w at2 c]] by simp
    qed
  qed
qed

lemma land_failure_returns:
  assumes w: "world_ok w" and at: "at_job w lease (fst (fst s))"
  shows "\<exists>j s'. land_failure w lease e s = (Inr j, s')"
proof (cases "stops e")
  case True
  then show ?thesis
    using land_stop_returns [OF w at True] by (simp add: land_failure_def)
next
  case False
  let ?fail = "\<lambda>_. transact w (fail_job (wd_env w) (wd_actor w) (jo_id lease) (jo_fence lease)
      (VDict [(''code'', VStr (exn_code e))]))"
  obtain r s' where m: "bind_w (checkpoint w lease s) ?fail = (r, s')"
    by (cases "bind_w (checkpoint w lease s) ?fail") blast
  show ?thesis
  proof (cases r)
    case (Inr j)
    with m False show ?thesis
      by (simp add: land_failure_def)
  next
    case (Inl e')
    have "stops e' \<and> at_job w lease (fst (fst s'))"
      using m unfolding Inl
    proof (rule bind_w_Inl)
      assume c: "checkpoint w lease s = (Inl e', s')"
      show ?thesis
        using checkpoint_errors [OF w at c] checkpoint_at [OF w at c] by simp
    next
      fix x s1
      assume c: "checkpoint w lease s = (Inr x, s1)" and t: "?fail x s1 = (Inl e', s')"
      note at1 = checkpoint_at [OF w at c]
      have ok: "queue_ok (wd_env w) (fst (wd_others w (snd s1) (fst s1)))" "may_write (wd_actor w)"
        using at_job_others [OF w at1] w by (simp_all add: at_job_def world_ok_def)
      have "e' = StaleLease"
        using transact_Inl [OF t] fenced_errors(3) [OF ok] by blast
      with transact_fail_at [OF w at1 t] show ?thesis
        by simp
    qed
    then have "\<exists>j s''. land_stop w lease e' s' = (Inr j, s'')"
      using land_stop_returns [OF w] by blast
    with m Inl False show ?thesis
      by (simp add: land_failure_def)
  qed
qed

lemma leased_row:
  assumes "queue_ok env q" "lease_row env ws jid worker now q = Inr (Some k, q')"
  shows "find_job ws (jo_id k) q' = Some k \<and> jo_status k = Leased \<and> jo_id k = jid \<and>
    jo_expires k = Some (now + je_lease env) \<and> \<not> jo_cancel k"
proof -
  let ?f = "take_lease worker (now + je_lease env) now"
  obtain j where j: "find_job ws jid q = Some j" "claimable j" "k = ?f j"
      "q' = write_row env ws jid claimable ?f (Some ''leased'') now q"
    using assms(2) by (auto simp: lease_row_cases [OF assms(1)] split: option.splits if_splits)
  have "job_row ws jid q' = Inr k"
    unfolding j(3,4) by (rule job_row_write [where p = claimable, OF j(1,2)]) (simp add: take_lease_def)
  then show ?thesis
    using j(2,3) find_job_SomeD [OF j(1)] by (auto simp: job_row_def take_lease_def claimable_def split: option.splits)
qed

lemma claim_either_row:
  assumes ok: "queue_ok env q" "inj (je_uuid env)" and r: "claim_either env a worker jid now q = Inr (Some k, q')"
  shows "find_job (ac_workspace_id a) (jo_id k) q' = Some k \<and> jo_status k = Leased \<and>
    jo_expires k = Some (now + je_lease env) \<and> \<not> jo_cancel k"
proof -
  let ?ws = "ac_workspace_id a"
  let ?q = "expire_and_cancel env ?ws now q"
  have ok1: "queue_ok env ?q"
    by (rule row_steps_ok [OF expire_and_cancel_steps [OF ok] ok])
  obtain i where "lease_row env ?ws i worker now ?q = Inr (Some k, q')"
    using r by (auto simp: claim_either_def claim_def claim_specific_def bind_res_Inr_iff Let_def
        split: option.splits if_splits)
  from leased_row [OF ok1 this] show ?thesis
    by blast
qed

lemma claim_either_step: "claim_either env a worker jid now q = Inr (r, q') \<Longrightarrow> queue_step env a q q'"
  by (auto simp: claim_either_def intro: queue_step.intros split: option.splits)

lemma claim_either_returns:
  assumes ok: "queue_ok env q" "inj (je_uuid env)" and "may_write a" "worker \<noteq> []" "jid \<noteq> Some []"
  shows "\<exists>r q'. claim_either env a worker jid now q = Inr (r, q')"
proof -
  let ?ws = "ac_workspace_id a"
  have ok1: "queue_ok env (expire_and_cancel env ?ws now q)"
    by (rule row_steps_ok [OF expire_and_cancel_steps [OF ok] ok])
  have row: "\<exists>r q'. lease_row env ?ws i worker now (expire_and_cancel env ?ws now q) = Inr (r, q')" for i
    by (auto simp: lease_row_cases [OF ok1] split: option.split)
  show ?thesis
    using assms(4,5) row by (auto simp: claim_either_def claim_def claim_specific_def may_write_require [OF assms(3)] Let_def
        split: option.split)
qed

lemma claimed_at:
  assumes w: "world_ok w" and ok: "queue_ok (wd_env w) (fst (fst s))"
    and t: "transact w (claim_either (wd_env w) (wd_actor w) worker jid) s = (Inr (Some lease), s')"
  shows "at_job w lease (fst (fst s'))" "jo_status lease = Leased"
    "find_job (ac_workspace_id (wd_actor w)) (jo_id lease) (fst (fst s')) = Some lease"
proof -
  let ?q = "fst (wd_others w (snd s) (fst s))"
  have inj: "inj (je_uuid (wd_env w))"
    using w by (simp add: world_ok_def)
  have "queue_run (wd_env w) (fst (fst s)) ?q"
    using w unfolding world_ok_def others_ok_def by blast
  then have ok1: "queue_ok (wd_env w) ?q"
    using queue_run_ok ok inj by blast
  have c: "claim_either (wd_env w) (wd_actor w) worker jid (wd_now w (snd s)) ?q = Inr (Some lease, fst (fst s'))"
    using transact_Inr [OF t] by blast
  then show "jo_status lease = Leased"
    "find_job (ac_workspace_id (wd_actor w)) (jo_id lease) (fst (fst s')) = Some lease"
    using claim_either_row [OF ok1 inj c] by blast+
  moreover have "queue_ok (wd_env w) (fst (fst s'))"
    by (rule queue_step_ok [OF claim_either_step [OF c] ok1 inj])
  ultimately show "at_job w lease (fst (fst s'))"
    by (auto simp: at_job_def)
qed

lemma work_returns:
  assumes w: "world_ok w" and at: "at_job w lease (fst (fst s))"
  shows "\<exists>j s'. (case attempt w handler lease s of
      (Inr j, s') \<Rightarrow> (Inr j, s') | (Inl e, s') \<Rightarrow> land_failure w lease e s') = (Inr j, s')"
proof -
  obtain r s' where a: "attempt w handler lease s = (r, s')"
    by (cases "attempt w handler lease s") blast
  show ?thesis
  proof (cases r)
    case (Inl e)
    with a land_failure_returns [OF w attempt_fails_at [OF w at]] show ?thesis
      by simp
  qed (use a in simp)
qed

text \<open>
  C33. A worker's run never raises: whatever its handler returns or raises, whatever others do to the queue
  through its operations in between, and whenever the worker is told to stop, \<open>run_once\<close> ends in a value,
  the row of the job it leased or nothing.
\<close>

theorem run_once_never_raises:
  assumes w: "world_ok w" and reach: "queue_reachable (wd_env w) (fst (fst s))"
    and names: "worker \<noteq> []" "jid \<noteq> Some []"
  shows "\<exists>r s'. run_once w handler worker jid s = (Inr r, s')"
proof (cases "wd_stop w (snd s)")
  case False
  let ?q = "fst (wd_others w (snd s) (fst s))"
  have inj: "inj (je_uuid (wd_env w))" and mw: "may_write (wd_actor w)"
    using w by (simp_all add: world_ok_def)
  have ok: "queue_ok (wd_env w) (fst (fst s))"
    by (rule reachable_ok [OF reach inj])
  have "queue_run (wd_env w) (fst (fst s)) ?q"
    using w unfolding world_ok_def others_ok_def by blast
  then have ok1: "queue_ok (wd_env w) ?q"
    using queue_run_ok ok inj by blast
  obtain r s' where t: "transact w (claim_either (wd_env w) (wd_actor w) worker jid) s = (Inr r, s')"
    using claim_either_returns [OF ok1 inj mw names, of "wd_now w (snd s)"] by (auto simp: transact_def Let_def)
  show ?thesis
  proof (cases r)
    case None
    with t False show ?thesis
      by (simp add: run_once_def)
  next
    case (Some lease)
    obtain j s'' where "(case attempt w handler lease s' of
        (Inr j, s') \<Rightarrow> (Inr j, s') | (Inl e, s') \<Rightarrow> land_failure w lease e s') = (Inr j, s'')"
      using work_returns [OF w claimed_at(1) [OF w ok]] t Some by blast
    with t Some False show ?thesis
      by (simp add: run_once_def)
  qed
qed (simp add: run_once_def)

definition demo_world :: "(queue \<times> unit \<Rightarrow> queue \<times> unit) \<Rightarrow> unit world" where
  "demo_world f = \<lparr>wd_env = demo_env, wd_actor = demo_actor, wd_now = int, wd_stop = (\<lambda>_. False), wd_others = (\<lambda>_. f)\<rparr>"

lemma demo_world_ok: "world_ok (demo_world id)"
  by (simp add: world_ok_def demo_world_def others_ok_def demo_inj demo_may_write)

theorem run_once_never_raises_witness:
  "\<exists>r s'. run_once (demo_world id) (\<lambda>_. Inl KeyError) ''worker'' None ((demo_queued, ()), 0) = (Inr r, s')"
proof -
  have "queue_reachable (wd_env (demo_world id)) (fst (fst ((demo_queued, ()), 0::nat)))"
    using demo_reachable(4) by (simp add: demo_world_def)
  then show ?thesis
    by (rule run_once_never_raises [OF demo_world_ok]) simp_all
qed

section \<open>Atomic publication\<close>

text \<open>The others leave the publisher's part of the database alone.\<close>

definition others_frame :: "'db world \<Rightarrow> bool" where
  "others_frame w = (\<forall>n t. snd (wd_others w n t) = snd t)"

lemma others_frameD: "others_frame w \<Longrightarrow> snd (wd_others w n t) = snd t"
  unfolding others_frame_def by blast

lemma transact_db:
  assumes "others_frame w" "transact w op s = (r, s')"
  shows "snd (fst s') = snd (fst s)"
  using assms by (auto simp: others_frameD transact_def Let_def split: sum.splits)

lemma checkpoint_db: "others_frame w \<Longrightarrow> checkpoint w lease s = (r, s') \<Longrightarrow> snd (fst s') = snd (fst s)"
  by (auto simp: checkpoint_def dest: transact_db split: if_splits)

lemma reread_db: "others_frame w \<Longrightarrow> reread w lease s = (r, s') \<Longrightarrow> snd (fst s') = snd (fst s)"
  unfolding reread_def by (rule transact_db)

lemma bind_w_db:
  assumes "bind_w m f = (r, s')" "snd (fst (snd m)) = d"
    and "\<And>x s. m = (Inr x, s) \<Longrightarrow> f x s = (r, s') \<Longrightarrow> snd (fst s') = snd (fst s)"
  shows "snd (fst s') = d"
  using assms by (cases m; cases "fst m") auto

lemma settle_db:
  assumes fr: "others_frame w" and r: "settle w lease stopped s = (r, s')"
  shows "snd (fst s') = snd (fst s)"
  using r unfolding settle_def
proof (rule bind_w_db)
  show "snd (fst (snd (reread w lease s))) = snd (fst s)"
    using reread_db [OF fr, of lease s] by (cases "reread w lease s") simp
next
  fix cur :: job and s1
  let ?op = "if jo_cancel cur then acknowledge_cancel (wd_env w) (wd_actor w) (jo_id lease) (jo_fence lease)
      else abandon (wd_env w) (wd_actor w) (jo_id lease) (jo_fence lease)"
  assume "(if jo_status cur \<noteq> Leased \<or> jo_fence cur \<noteq> jo_fence lease then (Inr cur, s1)
      else if \<not> jo_cancel cur \<and> \<not> stopped then reread w lease s1
      else case transact w ?op s1 of (Inr j, s') \<Rightarrow> (Inr j, s')
        | (Inl e, s') \<Rightarrow> if e = StaleLease then reread w lease s' else (Inl e, s')) = (r, s')"
  moreover obtain x s2 where "transact w ?op s1 = (x, s2)"
    by (cases "transact w ?op s1") blast
  ultimately show "snd (fst s') = snd (fst s1)"
    using transact_db [OF fr, of ?op s1 x s2] reread_db [OF fr] by (cases x) (auto split: if_splits)
qed

lemma land_stop_db: "others_frame w \<Longrightarrow> land_stop w lease e s = (r, s') \<Longrightarrow> snd (fst s') = snd (fst s)"
  by (auto simp: land_stop_def dest: settle_db split: if_splits)

lemma land_failure_db:
  assumes fr: "others_frame w" and r: "land_failure w lease e s = (r, s')"
  shows "snd (fst s') = snd (fst s)"
proof (cases "stops e")
  case True
  then show ?thesis
    using r land_stop_db [OF fr] by (simp add: land_failure_def)
next
  case False
  let ?fail = "\<lambda>_. transact w (fail_job (wd_env w) (wd_actor w) (jo_id lease) (jo_fence lease)
      (VDict [(''code'', VStr (exn_code e))]))"
  obtain x s1 where m: "bind_w (checkpoint w lease s) ?fail = (x, s1)"
    by (cases "bind_w (checkpoint w lease s) ?fail") blast
  have "snd (fst (snd (checkpoint w lease s))) = snd (fst s)"
    using checkpoint_db [OF fr, of lease s] by (cases "checkpoint w lease s") simp
  with m have "snd (fst s1) = snd (fst s)"
    by (rule bind_w_db) (rule transact_db [OF fr])
  with m r False land_stop_db [OF fr] show ?thesis
    by (cases x) (auto simp: land_failure_def)
qed

lemma attempt_Inl_db:
  assumes fr: "others_frame w" and r: "attempt w handler lease s = (Inl e, s')"
  shows "snd (fst s') = snd (fst s)"
  using r unfolding attempt_def
proof (rule bind_w_db)
  show "snd (fst (snd (checkpoint w lease s))) = snd (fst s)"
    using checkpoint_db [OF fr, of lease s] by (cases "checkpoint w lease s") simp
next
  fix x s1
  assume "bind_w (handler (jo_command lease), s1) (\<lambda>h s. bind_w (checkpoint w lease s) (\<lambda>_ s. publish_result w lease h s))
      = (Inl e, s')"
  then show "snd (fst s') = snd (fst s1)"
  proof (rule bind_w_db)
    fix h s2
    assume "bind_w (checkpoint w lease s2) (\<lambda>_ s. publish_result w lease h s) = (Inl e, s')"
    then show "snd (fst s') = snd (fst s2)"
    proof (rule bind_w_db)
      show "snd (fst (snd (checkpoint w lease s2))) = snd (fst s2)"
        using checkpoint_db [OF fr, of lease s2] by (cases "checkpoint w lease s2") simp
    next
      fix y s3
      assume "publish_result w lease h s3 = (Inl e, s')"
      then show "snd (fst s') = snd (fst s3)"
        using publish_result_Inl [of w lease h s3 e s'] others_frameD [OF fr] by simp
    qed
  qed simp
qed

lemma attempt_Inr:
  assumes w: "world_ok w" and fr: "others_frame w" and at: "at_job w lease (fst (fst s))"
    and r: "attempt w handler lease s = (Inr j, s')"
  obtains h v s3 where "handler (jo_command lease) = Inr h" "at_job w lease (fst (fst s3))" "snd (fst s3) = snd (fst s)"
    "(case h of Plain v \<Rightarrow> Inr (v, snd (fst s)) | Prepared p \<Rightarrow> p (snd (fst s))) = Inr (v, snd (fst s'))"
    "complete_job (wd_env w) (wd_actor w) (jo_id lease) (jo_fence lease) v (wd_now w (snd s3 + 2))
      (fst (wd_others w (snd s3) (fst s3))) = Inr (j, fst (fst s'))"
proof -
  obtain x s1 where c1: "checkpoint w lease s = (Inr x, s1)"
    and rest1: "bind_w (handler (jo_command lease), s1) (\<lambda>h s. bind_w (checkpoint w lease s) (\<lambda>_ s. publish_result w lease h s))
      = (Inr j, s')"
    using r unfolding attempt_def by (rule bind_w_Inr)
  obtain h s2 where h: "(handler (jo_command lease), s1) = (Inr h, s2)"
    and rest2: "bind_w (checkpoint w lease s2) (\<lambda>_ s. publish_result w lease h s) = (Inr j, s')"
    using rest1 by (rule bind_w_Inr)
  obtain y s3 where c2: "checkpoint w lease s2 = (Inr y, s3)" and p: "publish_result w lease h s3 = (Inr j, s')"
    using rest2 by (rule bind_w_Inr)
  have at2: "at_job w lease (fst (fst s2))"
    using checkpoint_at [OF w at c1] h by simp
  have db: "snd (fst s3) = snd (fst s)"
    using checkpoint_db [OF fr c1] checkpoint_db [OF fr c2] h by simp
  have hh: "handler (jo_command lease) = Inr h"
    using h by simp
  from publish_result_Inr [OF p] that [OF hh checkpoint_at [OF w at2 c2] db] show thesis
    unfolding others_frameD [OF fr] db by blast
qed

lemma run_once_unfold:
  assumes "run_once w handler worker jid s = (r, s')"
  obtains "r = Inr None" "fst s' = fst s"
    | e where "transact w (claim_either (wd_env w) (wd_actor w) worker jid) s = (Inl e, s')"
    | "r = Inr None" "transact w (claim_either (wd_env w) (wd_actor w) worker jid) s = (Inr None, s')"
    | lease s1 j where "transact w (claim_either (wd_env w) (wd_actor w) worker jid) s = (Inr (Some lease), s1)"
        "attempt w handler lease s1 = (Inr j, s')" "r = Inr (Some j)"
    | lease s1 e s2 r' where "transact w (claim_either (wd_env w) (wd_actor w) worker jid) s = (Inr (Some lease), s1)"
        "attempt w handler lease s1 = (Inl e, s2)" "land_failure w lease e s2 = (r', s')"
proof -
  obtain x s1 where t: "transact w (claim_either (wd_env w) (wd_actor w) worker jid) s = (x, s1)"
    by (cases "transact w (claim_either (wd_env w) (wd_actor w) worker jid) s") blast
  show thesis
  proof (cases "wd_stop w (snd s)")
    case True
    with assms that(1) show thesis
      by (auto simp: run_once_def)
  next
    case False
    show thesis
    proof (cases x)
      case (Inl e)
      with assms t False that(2) show thesis
        by (auto simp: run_once_def)
    next
      case (Inr l)
      show thesis
      proof (cases l)
        case None
        with assms t Inr False that(3) show thesis
          by (auto simp: run_once_def)
      next
        case (Some lease)
        obtain y s2 where a: "attempt w handler lease s1 = (y, s2)"
          by (cases "attempt w handler lease s1") blast
        show thesis
        proof (cases y)
          case Inr_y: (Inr j)
          with assms t Inr Some False a that(4) show thesis
            by (auto simp: run_once_def)
        next
          case Inl_y: (Inl e)
          obtain r' s3 where l: "land_failure w lease e s2 = (r', s3)"
            by (cases "land_failure w lease e s2") blast
          have "s3 = s'"
            using assms t Inr Some False a Inl_y l by (cases r') (auto simp: run_once_def)
          with t Inr Some a Inl_y l that(5) show thesis
            by blast
        qed
      qed
    qed
  qed
qed

text \<open>
  C34. Publication is atomic and happens at most once per job: if a run changed the publisher's part of the
  database, which nobody else writes, then it did so through its handler's publisher, in the transaction
  that completed its job with the published result, and that job was not final before the run. (A final
  job never changes again, so no later run publishes for it.)
\<close>

theorem publication_atomic:
  assumes w: "world_ok w" "others_frame w" and reach: "queue_reachable (wd_env w) (fst (fst s))"
    and run: "run_once w handler worker jid s = (r, s')" and wrote: "snd (fst s') \<noteq> snd (fst s)"
  shows "\<exists>j p v. r = Inr (Some j) \<and> jo_status j = Completed \<and>
    find_job (ac_workspace_id (wd_actor w)) (jo_id j) (fst (fst s')) = Some j \<and>
    handler (jo_command j) = Inr (Prepared p) \<and> p (snd (fst s)) = Inr (v, snd (fst s')) \<and>
    jo_result j = Some (fst (je_redact (wd_env w) v)) \<and>
    (case find_job (ac_workspace_id (wd_actor w)) (jo_id j) (fst (fst s)) of
       None \<Rightarrow> True | Some j0 \<Rightarrow> \<not> is_job_terminal (jo_status j0))"
  using run
proof (cases rule: run_once_unfold)
  case 1
  with wrote show ?thesis
    by simp
next
  case (2 e)
  with wrote transact_db [OF w(2)] show ?thesis
    by blast
next
  case 3
  with wrote transact_db [OF w(2)] show ?thesis
    by blast
next
  case (5 lease s1 e s2 r')
  with wrote transact_db [OF w(2)] attempt_Inl_db [OF w(2)] land_failure_db [OF w(2)] show ?thesis
    by metis
next
  case (4 lease s1 j)
  let ?ws = "ac_workspace_id (wd_actor w)"
  have inj: "inj (je_uuid (wd_env w))"
    using w by (simp add: world_ok_def)
  have ok: "queue_ok (wd_env w) (fst (fst s))"
    by (rule reachable_ok [OF reach inj])
  have db1: "snd (fst s1) = snd (fst s)"
    by (rule transact_db [OF w(2) 4(1)])
  note lease = claimed_at [OF w(1) ok 4(1)]
  obtain h v s3 where h: "handler (jo_command lease) = Inr h" "at_job w lease (fst (fst s3))"
    and out: "(case h of Plain v \<Rightarrow> Inr (v, snd (fst s1)) | Prepared p \<Rightarrow> p (snd (fst s1))) = Inr (v, snd (fst s'))"
    and c: "complete_job (wd_env w) (wd_actor w) (jo_id lease) (jo_fence lease) v (wd_now w (snd s3 + 2))
      (fst (wd_others w (snd s3) (fst s3))) = Inr (j, fst (fst s'))"
    by (rule attempt_Inr [OF w lease(1) 4(2)]) blast
  let ?q = "fst (wd_others w (snd s3) (fst s3))"
  have at: "at_job w lease ?q"
    by (rule at_job_others [OF w(1) h(2)])
  then have okq: "queue_ok (wd_env w) ?q"
    by (simp add: at_job_def)
  note row = complete_row [OF okq c]
  have "at_job w lease (fst (fst s'))"
    by (rule at_job_run [OF w(1) at single_step [OF queue_step.intros(7) [OF c]]])
  then have same: "same_job lease j"
    using row evolvesD(1) by (auto simp: at_job_def)
  have "jo_id j = jo_id lease" "jo_command j = jo_command lease"
    using same by (simp_all add: same_job_def)
  moreover obtain p where "h = Prepared p"
    using out wrote db1 by (cases h) auto
  moreover have "case find_job ?ws (jo_id lease) (fst (fst s)) of None \<Rightarrow> True | Some j0 \<Rightarrow> \<not> is_job_terminal (jo_status j0)"
  proof (cases "find_job ?ws (jo_id lease) (fst (fst s))")
    case (Some j0)
    have "queue_run (wd_env w) (fst (fst s)) (fst (wd_others w (snd s) (fst s)))"
      using w(1) unfolding world_ok_def others_ok_def by blast
    moreover have "queue_step (wd_env w) (wd_actor w) (fst (wd_others w (snd s) (fst s))) (fst (fst s1))"
      using transact_Inr [OF 4(1)] claim_either_step by blast
    ultimately have run1: "queue_run (wd_env w) (fst (fst s)) (fst (fst s1))"
      by (rule queue_run_step)
    obtain k where "find_job ?ws (jo_id lease) (fst (fst s1)) = Some k" "evolves j0 k"
      by (rule rows_run_evolve [OF queue_run_rows [OF run1 ok inj] Some])
    then have "evolves j0 lease"
      using lease(3) by simp
    then have "is_job_terminal (jo_status j0) \<Longrightarrow> lease = j0"
      by (rule evolvesD(3))
    with lease(2) have "\<not> is_job_terminal (jo_status j0)"
      by (auto simp: is_job_terminal_def)
    with Some show ?thesis
      by simp
  qed simp
  ultimately show ?thesis
    using 4(3) row h(1) out db1 by auto
qed

definition count_world :: "nat world" where
  "count_world = \<lparr>wd_env = demo_env, wd_actor = demo_actor, wd_now = int, wd_stop = (\<lambda>_. False), wd_others = (\<lambda>_ t. t)\<rparr>"

definition count_handler :: "pyval \<Rightarrow> nat handled res" where
  "count_handler command = Inr (Prepared (\<lambda>db. Inr (VInt 7, Suc db)))"

theorem publication_atomic_witness:
  "\<exists>j. fst (run_once count_world count_handler ''worker'' None ((demo_queued, 0), 0)) = Inr (Some j) \<and>
     jo_status j = Completed \<and> jo_result j = Some (VInt 7)"
proof -
  have w: "world_ok count_world" "others_frame count_world"
    by (simp_all add: world_ok_def count_world_def others_ok_def others_frame_def demo_inj demo_may_write)
  have reach: "queue_reachable (wd_env count_world) (fst (fst ((demo_queued, 0::nat), 0::nat)))"
    using demo_reachable(4) by (simp add: count_world_def)
  let ?run = "run_once count_world count_handler ''worker'' None ((demo_queued, 0), 0)"
  have "snd (fst (snd ?run)) = 1"
    by code_simp
  then have "snd (fst (snd ?run)) \<noteq> snd (fst ((demo_queued, 0::nat), 0::nat))"
    by simp
  from publication_atomic [OF w reach prod.collapse [symmetric] this] show ?thesis
    by (auto simp: count_handler_def count_world_def demo_env_def)
qed

section \<open>Undisturbed runs\<close>

text \<open>A row that is its worker's live lease until \<open>t\<close>.\<close>

definition holds_until :: "job_env \<Rightarrow> actor \<Rightarrow> job \<Rightarrow> int \<Rightarrow> queue \<Rightarrow> bool" where
  "holds_until env a k t q =
     (queue_ok env q \<and> find_job (ac_workspace_id a) (jo_id k) q = Some k \<and> jo_status k = Leased \<and>
      jo_expires k = Some t \<and> \<not> jo_cancel k)"

lemma live_holds: "holds_until env a k t q \<Longrightarrow> now < t \<Longrightarrow> live_lease (jo_fence k) now k"
  by (simp add: holds_until_def live_lease_def holds_fence_def)

lemma active_holds:
  "holds_until env a k t q \<Longrightarrow> may_write a \<Longrightarrow> now < t \<Longrightarrow> assert_active a k now q = Inr k"
  by (simp add: holds_until_def assert_active_def may_write_require)

lemma complete_holds:
  assumes "holds_until env a k t q" "may_write a" "now < t"
  obtains j q' where "complete_job env a (jo_id k) (jo_fence k) v now q = Inr (j, q')"
    "jo_status j = Completed" "jo_fence j = jo_fence k" "jo_result j = Some (fst (je_redact env v))" "jo_id j = jo_id k"
    "job_row (ac_workspace_id a) (jo_id k) q' = Inr j"
proof -
  have ok: "queue_ok env q" and f: "find_job (ac_workspace_id a) (jo_id k) q = Some k"
    using assms(1) by (simp_all add: holds_until_def)
  obtain j q' where c: "complete_job env a (jo_id k) (jo_fence k) v now q = Inr (j, q')" "jo_id j = jo_id k"
    using live_holds [OF assms(1,3)] by (simp add: complete_job_def may_write_require [OF assms(2)] fenced_update_cases [OF ok] f)
  note row = complete_row [OF ok c(1)]
  show thesis
    by (rule that [OF c(1)]) (use row c(2) in \<open>simp_all add: job_row_def\<close>)
qed

lemma fail_holds:
  assumes "holds_until env a k t q" "may_write a" "now < t"
  obtains j q' where "fail_job env a (jo_id k) (jo_fence k) (VDict [(''code'', VStr c)]) now q = Inr (j, q')"
    "jo_status j = Failed" "jo_error j = Some (fst (je_redact env (VDict [(''code'', VStr c)])))" "jo_id j = jo_id k"
proof -
  have ok: "queue_ok env q" and f: "find_job (ac_workspace_id a) (jo_id k) q = Some k"
    using assms(1) by (simp_all add: holds_until_def)
  show thesis
    using live_holds [OF assms(1,3)] that
    by (simp add: fail_job_def may_write_require [OF assms(2)] fenced_update_cases [OF ok] f dict_get_def)
qed

text \<open>What the handler and its publisher make of a command.\<close>

definition outcome :: "(pyval \<Rightarrow> 'db handled res) \<Rightarrow> pyval \<Rightarrow> 'db \<Rightarrow> (pyval \<times> 'db) res" where
  "outcome handler command db =
     bind_res (handler command) (\<lambda>h. case h of Plain v \<Rightarrow> Inr (v, db) | Prepared p \<Rightarrow> p db)"

text \<open>Nobody interferes and the clock stays within the lease.\<close>

definition undisturbed :: "'db world \<Rightarrow> job \<Rightarrow> int \<Rightarrow> queue \<Rightarrow> bool" where
  "undisturbed w k t q =
     (wd_others w = (\<lambda>_ t. t) \<and> wd_stop w = (\<lambda>_. False) \<and> may_write (wd_actor w) \<and>
      holds_until (wd_env w) (wd_actor w) k t q \<and> (\<forall>n. wd_now w n < t))"

lemma undisturbedD:
  assumes "undisturbed w k t q"
  shows "wd_others w = (\<lambda>_ t. t)" "wd_stop w = (\<lambda>_. False)" "may_write (wd_actor w)"
    "holds_until (wd_env w) (wd_actor w) k t q" "wd_now w n < t"
  using assms unfolding undisturbed_def by blast+

lemma active_undisturbed: "undisturbed w k t q \<Longrightarrow> assert_active (wd_actor w) k (wd_now w n) q = Inr k"
  by (rule active_holds [OF undisturbedD(4,3,5)])

lemma checks:
  assumes u: "undisturbed w k t q"
  shows "checkpoint w k ((q, db), n) = (Inr k, ((q, db), Suc n))"
  by (simp add: checkpoint_def transact_def observe_def undisturbedD(1,2) [OF u] Let_def active_undisturbed [OF u])

lemma publishes:
  assumes u: "undisturbed w k t q" and r: "(case h of Plain v \<Rightarrow> Inr (v, db) | Prepared p \<Rightarrow> p db) = Inr (v, db')"
  shows "\<exists>j q' n'. publish_result w k h ((q, db), n) = (Inr j, ((q', db'), n')) \<and> jo_status j = Completed \<and>
    jo_id j = jo_id k \<and> jo_result j = Some (fst (je_redact (wd_env w) v))"
proof -
  obtain j q' where c: "complete_job (wd_env w) (wd_actor w) (jo_id k) (jo_fence k) v (wd_now w (n + 2)) q = Inr (j, q')"
    and j: "jo_status j = Completed" "jo_fence j = jo_fence k" "jo_result j = Some (fst (je_redact (wd_env w) v))"
      "jo_id j = jo_id k" "job_row (ac_workspace_id (wd_actor w)) (jo_id k) q' = Inr j"
    by (rule complete_holds [OF undisturbedD(4,3,5) [OF u]])
  have "completion w k h n (q, db, k) = Inr (q', db', j)"
    using c r by (simp add: completion_def undisturbedD(1,2) [OF u] active_undisturbed [OF u])
  then have "publication (wd_actor w) k True (wd_now w n) (wd_now w (n + 3)) (completion w k h n) (q, db, k) = Inr (q', db', j)"
    using j by (simp add: publication_def active_undisturbed [OF u])
  then show ?thesis
    using j by (simp add: publish_result_def undisturbedD(1,2) [OF u] Let_def)
qed

lemma does_not_publish:
  assumes u: "undisturbed w k t q" and r: "(case h of Plain v \<Rightarrow> Inr (v, db) | Prepared p \<Rightarrow> p db) = Inl e"
  shows "publish_result w k h ((q, db), n) = (Inl e, ((q, db), n + 4))"
  using r
  by (cases h) (simp_all add: publish_result_def publication_def completion_def undisturbedD(1,2) [OF u] Let_def active_undisturbed [OF u])

lemma lands:
  assumes u: "undisturbed w k t q" and r: "\<not> stops e"
  shows "\<exists>j q' n'. land_failure w k e ((q, db), n) = (Inr j, ((q', db), n')) \<and> jo_status j = Failed \<and>
    jo_id j = jo_id k \<and> jo_error j = Some (fst (je_redact (wd_env w) (VDict [(''code'', VStr (exn_code e))])))"
proof -
  obtain j q' where "fail_job (wd_env w) (wd_actor w) (jo_id k) (jo_fence k) (VDict [(''code'', VStr (exn_code e))])
      (wd_now w (Suc n)) q = Inr (j, q')"
    and j: "jo_status j = Failed" "jo_error j = Some (fst (je_redact (wd_env w) (VDict [(''code'', VStr (exn_code e))])))"
      "jo_id j = jo_id k"
    by (rule fail_holds [OF undisturbedD(4,3,5) [OF u]])
  then have "bind_w (checkpoint w k ((q, db), n)) (\<lambda>_. transact w (fail_job (wd_env w) (wd_actor w) (jo_id k) (jo_fence k)
      (VDict [(''code'', VStr (exn_code e))]))) = (Inr j, ((q', db), Suc (Suc n)))"
    by (simp add: checks [OF u] transact_def undisturbedD(1,2) [OF u] Let_def)
  then show ?thesis
    using r j by (simp add: land_failure_def)
qed

lemma works:
  assumes u: "undisturbed w k t q" and r: "case outcome handler (jo_command k) db of Inl e \<Rightarrow> \<not> stops e | Inr _ \<Rightarrow> True"
  shows "\<exists>j q' db' n'. (case attempt w handler k ((q, db), n) of
      (Inr j, s') \<Rightarrow> (Inr j, s') | (Inl e, s') \<Rightarrow> land_failure w k e s') = (Inr j, ((q', db'), n')) \<and> jo_id j = jo_id k \<and>
    (case outcome handler (jo_command k) db of
       Inr (v, d) \<Rightarrow> jo_status j = Completed \<and> jo_result j = Some (fst (je_redact (wd_env w) v)) \<and> db' = d
     | Inl e \<Rightarrow> jo_status j = Failed \<and> db' = db \<and>
         jo_error j = Some (fst (je_redact (wd_env w) (VDict [(''code'', VStr (exn_code e))]))))"
proof (cases "handler (jo_command k)")
  case (Inl e)
  then show ?thesis
    using r lands [OF u, where e = e and db = db and n = "Suc n"] by (auto simp: outcome_def attempt_def checks [OF u])
next
  case (Inr h)
  have a: "attempt w handler k ((q, db), n) = publish_result w k h ((q, db), Suc (Suc n))"
    using Inr by (simp add: attempt_def checks [OF u])
  show ?thesis
  proof (cases "case h of Plain v \<Rightarrow> Inr (v, db) | Prepared p \<Rightarrow> p db")
    case Inl_e: (Inl e)
    then show ?thesis
      using r Inr lands [OF u, where e = e and db = db and n = "Suc (Suc n) + 4"] does_not_publish [OF u Inl_e, where n = "Suc (Suc n)"]
      by (auto simp: outcome_def a)
  next
    case Inr_v: (Inr r)
    obtain v d where "r = (v, d)"
      by (cases r)
    then show ?thesis
      using Inr_v Inr publishes [OF u, where h = h and db = db and v = v and db' = d and n = "Suc (Suc n)"] by (auto simp: outcome_def a)
  qed
qed

text \<open>
  C35. A run that nobody disturbs and that finishes within its lease lands exactly the outcome of its handler:
  the job is completed with the redacted result and the publisher's effects, or failed with the code of
  the exception and no effect.
\<close>

theorem undisturbed_outcome:
  assumes w: "world_ok w" "wd_others w = (\<lambda>_ t. t)" "wd_stop w = (\<lambda>_. False)" and reach: "queue_reachable (wd_env w) q"
    and lease: "claim_either (wd_env w) (wd_actor w) worker jid (wd_now w n) q = Inr (Some k, q1)"
    and in_time: "\<And>m. wd_now w m < wd_now w n + je_lease (wd_env w)"
    and runs: "case outcome handler (jo_command k) db of Inl e \<Rightarrow> \<not> stops e | Inr _ \<Rightarrow> True"
  shows "\<exists>j q' db' m. run_once w handler worker jid ((q, db), n) = (Inr (Some j), ((q', db'), m)) \<and> jo_id j = jo_id k \<and>
    (case outcome handler (jo_command k) db of
       Inr (v, d) \<Rightarrow> jo_status j = Completed \<and> jo_result j = Some (fst (je_redact (wd_env w) v)) \<and> db' = d
     | Inl e \<Rightarrow> jo_status j = Failed \<and> db' = db \<and>
         jo_error j = Some (fst (je_redact (wd_env w) (VDict [(''code'', VStr (exn_code e))]))))"
proof -
  have inj: "inj (je_uuid (wd_env w))" and mw: "may_write (wd_actor w)"
    using w(1) by (simp_all add: world_ok_def)
  have ok: "queue_ok (wd_env w) q"
    by (rule reachable_ok [OF reach inj])
  have ok1: "queue_ok (wd_env w) q1"
    by (rule queue_step_ok [OF claim_either_step [OF lease] ok inj])
  have u: "undisturbed w k (wd_now w n + je_lease (wd_env w)) q1"
    using claim_either_row [OF ok inj lease] w(2,3) mw in_time ok1 by (simp add: undisturbed_def holds_until_def)
  have t: "transact w (claim_either (wd_env w) (wd_actor w) worker jid) ((q, db), n) = (Inr (Some k), ((q1, db), Suc n))"
    using lease by (simp add: transact_def w(2) Let_def)
  obtain j q' db' m where r: "(case attempt w handler k ((q1, db), Suc n) of
      (Inr j, s') \<Rightarrow> (Inr j, s') | (Inl e, s') \<Rightarrow> land_failure w k e s') = (Inr j, ((q', db'), m))"
    and j: "jo_id j = jo_id k" "case outcome handler (jo_command k) db of
       Inr (v, d) \<Rightarrow> jo_status j = Completed \<and> jo_result j = Some (fst (je_redact (wd_env w) v)) \<and> db' = d
     | Inl e \<Rightarrow> jo_status j = Failed \<and> db' = db \<and>
         jo_error j = Some (fst (je_redact (wd_env w) (VDict [(''code'', VStr (exn_code e))])))"
    using works [OF u runs, of "Suc n"] by blast
  have "run_once w handler worker jid ((q, db), n) = (Inr (Some j), ((q', db'), m))"
    by (simp add: run_once_def w(3) t r)
  with j show ?thesis
    by blast
qed

definition still_world :: "nat world" where
  "still_world = count_world\<lparr>wd_now := \<lambda>_. 5\<rparr>"

theorem undisturbed_outcome_witness:
  "\<exists>j. fst (run_once still_world (\<lambda>_. Inl KeyError) ''worker'' None ((demo_queued, 0), 0)) = Inr (Some j) \<and>
     jo_status j = Failed \<and> jo_error j = Some (VDict [(''code'', VStr ''job_failed'')])"
proof -
  have w: "world_ok still_world" "wd_others still_world = (\<lambda>_ t. t)" "wd_stop still_world = (\<lambda>_. False)"
    by (simp_all add: world_ok_def still_world_def count_world_def others_ok_def demo_inj demo_may_write)
  have reach: "queue_reachable (wd_env still_world) demo_queued"
    using demo_reachable(4) by (simp add: still_world_def count_world_def)
  have "(case claim_either (wd_env still_world) (wd_actor still_world) ''worker'' None (wd_now still_world 0) demo_queued of
      Inr (Some k, q) \<Rightarrow> True | _ \<Rightarrow> False)"
    by code_simp
  then obtain k q1 where c: "claim_either (wd_env still_world) (wd_actor still_world) ''worker'' None (wd_now still_world 0) demo_queued
      = Inr (Some k, q1)"
    by (auto split: sum.splits option.splits)
  have "wd_now still_world m < wd_now still_world 0 + je_lease (wd_env still_world)" for m
    by (simp add: still_world_def count_world_def demo_env_def)
  from undisturbed_outcome [OF w reach c this, of "\<lambda>_. Inl KeyError" 0] show ?thesis
    by (auto simp: outcome_def still_world_def count_world_def demo_env_def)
qed

section \<open>Fair choice\<close>

text \<open>How many positions the cursor is before workspace \<open>i\<close>.\<close>

definition behind :: "nat \<Rightarrow> nat \<Rightarrow> nat \<Rightarrow> nat" where
  "behind n cursor i = (i + n - cursor) mod n"

lemma behind_if: "cursor < n \<Longrightarrow> i < n \<Longrightarrow> behind n cursor i = (if cursor \<le> i then i - cursor else i + n - cursor)"
  by (auto simp: behind_def mod_if)

lemma wrap_if: "cursor < n \<Longrightarrow> k < n \<Longrightarrow> (cursor + k) mod n = (if cursor + k < n then cursor + k else cursor + k - n)"
  for n :: nat
  using le_mod_geq [of n "cursor + k"] by (cases "cursor + k < n") simp_all

lemma behind_reaches:
  assumes "cursor < n" "i < n"
  shows "(cursor + behind n cursor i) mod n = i" "behind n cursor i < n"
  using assms by (auto simp: behind_if)

lemma behind_steps:
  assumes "cursor < n" "i < n" "k < behind n cursor i"
  shows "behind n ((cursor + k + 1) mod n) i < behind n cursor i"
proof -
  define c where "c = (cursor + (k + 1)) mod n"
  have c: "c < n" and k: "k + 1 < n"
    using assms behind_reaches(2) [OF assms(1,2)] by (simp_all add: c_def)
  have "c = (if cursor + (k + 1) < n then cursor + (k + 1) else cursor + (k + 1) - n)"
    unfolding c_def by (rule wrap_if [OF assms(1) k])
  then have "behind n c i < behind n cursor i"
    using assms c unfolding behind_if [OF c assms(2)] behind_if [OF assms(1,2)]
    by (auto split: if_splits)
  then show ?thesis
    by (simp add: c_def add.assoc)
qed

lemma fair_loop_serves:
  assumes total: "\<And>k s. \<exists>r s'. poll k s = (Inr r, s')"
    and work: "\<And>s. \<exists>r s'. poll ((start + d) mod n) s = (Inr (Some r), s')"
    and r: "fair_loop poll n start ks s = (Inr (r, c), s')" and ks: "ks = [k..<m]" "k \<le> d" "d < m"
  shows "r \<noteq> None \<and> (\<exists>j\<le>d. c = (start + j + 1) mod n)"
  using r ks
proof (induction ks arbitrary: k s)
  case (Cons k' ks)
  have k: "k' = k" "ks = [Suc k..<m]"
    using Cons.prems(2) by (cases "k < m"; simp add: upt_conv_Cons)+
  obtain x s1 where p: "poll ((start + k) mod n) s = (Inr x, s1)"
    using total by blast
  show ?case
  proof (cases x)
    case (Some y)
    then show ?thesis
      using Cons.prems(1,3) p k by auto
  next
    case None
    then have "k \<noteq> d"
      using p work [of s] by auto
    with Cons.prems(3) have "Suc k \<le> d"
      by simp
    moreover have "fair_loop poll n start ks s1 = (Inr (r, c), s')"
      using Cons.prems(1) p k None by simp
    ultimately show ?thesis
      using Cons.IH [OF _ k(2) _ ks(3)] by blast
  qed
next
  case Nil
  then show ?case
    using upt_eq_Nil_conv [of k m] by simp
qed

text \<open>The cursors after the first \<open>m\<close> rounds of the service loop, as on SQLite.\<close>

fun fair_rounds :: "(nat \<Rightarrow> 's \<Rightarrow> 'r option res \<times> 's) \<Rightarrow> nat \<Rightarrow> nat \<Rightarrow> nat \<Rightarrow> 's \<Rightarrow> nat list" where
  "fair_rounds poll n 0 cursor s = []"
| "fair_rounds poll n (Suc m) cursor s =
     (case run_fair_once poll n (fst (fair_start False n cursor [] None)) s of
        (Inl e, s') \<Rightarrow> []
      | (Inr (r, c), s') \<Rightarrow> c # fair_rounds poll n m c s')"

lemma fair_loop_total:
  assumes "\<And>k s. \<exists>r s'. poll k s = (Inr r, s')"
  shows "\<exists>r c s'. fair_loop poll n start ks s = (Inr (r, c), s')"
proof (induction ks arbitrary: s)
  case (Cons k ks)
  obtain x s1 where "poll ((start + k) mod n) s = (Inr x, s1)"
    using assms by blast
  with Cons.IH [of s1] show ?case
    by simp
qed simp



end
