(* ===== verification/Versions.thy ===== *)
theory Versions
  imports JobQueue
begin

text \<open>
  Immutable authoring versions with a compare-and-swap head per parent (\<open>versions.py\<close>).

  The state are the tables of versions, heads and artifact links. Uuids, digests and the other tables
  (parents, artifacts) are parameters. The text of a JSON value is a parameter too; what reading it back
  gives is defined: dicts come back with sorted keys, and only finite JSON has a text.
\<close>

section \<open>JSON\<close>

fun flt_finite :: "flt \<Rightarrow> bool" where
  "flt_finite (Fin _) = True"
| "flt_finite _ = False"

text \<open>\<open>json.dumps(..., allow_nan=False)\<close> returns.\<close>

fun finite_json :: "pyval \<Rightarrow> bool" where
  "finite_json VNull = True"
| "finite_json (VBool _) = True"
| "finite_json (VInt _) = True"
| "finite_json (VFloat f) = flt_finite f"
| "finite_json (VStr _) = True"
| "finite_json (VList xs) = list_all finite_json xs"
| "finite_json (VDict d) = list_all (\<lambda>(k, v). finite_json v) d"
| "finite_json _ = False"

fun insert_key :: "string \<times> pyval \<Rightarrow> pydict \<Rightarrow> pydict" where
  "insert_key kv [] = [kv]"
| "insert_key kv (lw # d) = (if str_less (fst lw) (fst kv) then lw # insert_key kv d else kv # lw # d)"

text \<open>\<open>json.loads(json.dumps(v, sort_keys=True))\<close>\<close>

fun json_copy :: "pyval \<Rightarrow> pyval" where
  "json_copy (VList xs) = VList (map json_copy xs)"
| "json_copy (VDict d) = VDict (foldr insert_key (map (\<lambda>(k, v). (k, json_copy v)) d) [])"
| "json_copy v = v"

section \<open>Tables\<close>

record version =
  vr_id :: string
  vr_workspace :: string
  vr_kind :: string
  vr_parent :: string
  vr_previous :: "string option"
  vr_digest :: string
  vr_revision :: int
  vr_actor :: string
  vr_created :: int
  vr_content :: pydict
  vr_provenance :: pydict

record version_head =
  vh_workspace :: string
  vh_kind :: string
  vh_parent :: string
  vh_revision :: int
  vh_active :: "string option"

record version_store =
  vs_versions :: "version list"
  vs_heads :: "version_head list"
  vs_links :: "(string \<times> string \<times> string) list"
  vs_next :: nat

record version_env =
  ve_uuid :: "nat \<Rightarrow> string"
  ve_digest :: "pyval \<Rightarrow> string"
  ve_parent :: "string \<Rightarrow> string \<Rightarrow> bool"
  ve_artifact :: "string \<Rightarrow> string \<Rightarrow> bool"

definition VERSION_KINDS :: "string list" where
  "VERSION_KINDS =
     [''source'', ''knowledge'', ''evaluation'', ''dataset'', ''target'', ''connection'', ''dashboard'',
      ''evaluator'', ''model_profile'', ''model_selection'', ''judge_rubric'']"

definition is_head :: "string \<Rightarrow> string \<Rightarrow> string \<Rightarrow> version_head \<Rightarrow> bool" where
  "is_head ws kind parent h = (vh_workspace h = ws \<and> vh_kind h = kind \<and> vh_parent h = parent)"

definition find_head :: "string \<Rightarrow> string \<Rightarrow> string \<Rightarrow> version_store \<Rightarrow> version_head option" where
  "find_head ws kind parent s = find (is_head ws kind parent) (vs_heads s)"

definition find_version :: "string \<Rightarrow> string \<Rightarrow> version_store \<Rightarrow> version option" where
  "find_version ws vid s = find (\<lambda>v. vr_workspace v = ws \<and> vr_id v = vid) (vs_versions s)"

section \<open>Operations\<close>

abbreviation Conflict :: exn where
  "Conflict \<equiv> WorkflowError ''conflict''"

abbreviation Invalid :: exn where
  "Invalid \<equiv> WorkflowError ''validation_error''"

text \<open>\<open>INSERT INTO version_heads ... ON CONFLICT DO NOTHING\<close>\<close>

definition ensure_head :: "string \<Rightarrow> string \<Rightarrow> string \<Rightarrow> version_store \<Rightarrow> version_store" where
  "ensure_head ws kind parent s =
     (case find_head ws kind parent s of
        None \<Rightarrow> s\<lparr>vs_heads := vs_heads s @
          [\<lparr>vh_workspace = ws, vh_kind = kind, vh_parent = parent, vh_revision = 0, vh_active = None\<rparr>]\<rparr>
      | Some _ \<Rightarrow> s)"

fun strings_of :: "pyval list \<Rightarrow> string list option" where
  "strings_of [] = Some []"
| "strings_of (VStr s # vs) = map_option ((#) s) (strings_of vs)"
| "strings_of (_ # vs) = None"

definition artifact_ids_of :: "pydict \<Rightarrow> string list res" where
  "artifact_ids_of content =
     (case map_of content ''artifact_ids'' of
        None \<Rightarrow> Inr []
      | Some (VList vs) \<Rightarrow> (case strings_of vs of None \<Rightarrow> Inl Invalid | Some ids \<Rightarrow> Inr ids)
      | Some _ \<Rightarrow> Inl Invalid)"

definition provenance_of :: "actor \<Rightarrow> pydict \<Rightarrow> pydict res" where
  "provenance_of a content =
     (case map_of content ''authoring_provenance'' of
        None \<Rightarrow> Inr [(''type'', VStr ''human''), (''actor_id'', VStr (ac_actor_id a))]
      | Some (VDict p) \<Rightarrow> Inr p
      | Some _ \<Rightarrow> Inl Invalid)"

text \<open>The transaction of \<open>create\<close>, on checked arguments.\<close>

definition commit_version ::
  "version_env \<Rightarrow> actor \<Rightarrow> string \<Rightarrow> string \<Rightarrow> pydict \<Rightarrow> pydict \<Rightarrow> string list \<Rightarrow> int \<Rightarrow> int \<Rightarrow> version_store \<Rightarrow>
    (version \<times> version_store) res" where
  "commit_version env a kind parent content provenance artifacts expected now s =
     (let ws = ac_workspace_id a in
      bind_res (ensure (ve_parent env ws parent) NotFound) (\<lambda>_.
        let s1 = ensure_head ws kind parent s in
        case find_head ws kind parent s1 of
          None \<Rightarrow> Inl TypeError
        | Some h \<Rightarrow>
            bind_res (ensure (vh_revision h = expected) Conflict) (\<lambda>_.
            bind_res (ensure (list_all (ve_artifact env ws) artifacts) NotFound) (\<lambda>_.
              let v = \<lparr>vr_id = ve_uuid env (vs_next s), vr_workspace = ws, vr_kind = kind, vr_parent = parent,
                       vr_previous = vh_active h, vr_digest = ve_digest env (VDict content),
                       vr_revision = expected + 1, vr_actor = ac_actor_id a, vr_created = now,
                       vr_content = content, vr_provenance = provenance\<rparr> in
              Inr (v, s1\<lparr>vs_versions := vs_versions s1 @ [v],
                         vs_links := vs_links s1 @ map (\<lambda>i. (ws, vr_id v, i)) (remdups artifacts),
                         vs_heads := map (\<lambda>h. if is_head ws kind parent h \<and> vh_revision h = expected
                           then h\<lparr>vh_active := Some (vr_id v), vh_revision := expected + 1\<rparr> else h) (vs_heads s1),
                         vs_next := Suc (vs_next s)\<rparr>)))))"

definition create_version ::
  "version_env \<Rightarrow> actor \<Rightarrow> string \<Rightarrow> string \<Rightarrow> pyval \<Rightarrow> int \<Rightarrow> int \<Rightarrow> version_store \<Rightarrow> (version \<times> version_store) res" where
  "create_version env a kind parent content expected now s =
     bind_res (require_actor a True None) (\<lambda>_.
     bind_res (ensure (kind \<in> set VERSION_KINDS \<and> is_dict content) Invalid) (\<lambda>_.
     bind_res (ensure (0 \<le> expected) Invalid) (\<lambda>_.
     bind_res (ensure (case content of VDict d \<Rightarrow>
         list_all (\<lambda>(k, _). k \<notin> {''workspace_id'', ''actor_id'', ''created_at'', ''revision''}) d | _ \<Rightarrow> True) Invalid) (\<lambda>_.
     bind_res (ensure (finite_json content) Invalid) (\<lambda>_.
       case json_copy content of
         VDict d \<Rightarrow>
           bind_res (provenance_of a d) (\<lambda>provenance.
           bind_res (artifact_ids_of d) (\<lambda>artifacts.
             commit_version env a kind parent d provenance artifacts expected now s))
       | _ \<Rightarrow> Inl Invalid)))))"

definition get_version :: "actor \<Rightarrow> string \<Rightarrow> version_store \<Rightarrow> version res" where
  "get_version a vid s =
     bind_res (require_actor a False None) (\<lambda>_.
       case find_version (ac_workspace_id a) vid s of None \<Rightarrow> Inl NotFound | Some v \<Rightarrow> Inr v)"

fun insert_revision :: "version \<Rightarrow> version list \<Rightarrow> version list" where
  "insert_revision v [] = [v]"
| "insert_revision v (u # us) = (if vr_revision u < vr_revision v then u # insert_revision v us else v # u # us)"

text \<open>\<open>list\<close>: the versions of a parent in order of revision, and its head.\<close>

definition list_versions ::
  "version_env \<Rightarrow> actor \<Rightarrow> string \<Rightarrow> string \<Rightarrow> version_store \<Rightarrow> (version list \<times> string option \<times> int) res" where
  "list_versions env a kind parent s =
     (let ws = ac_workspace_id a in
      bind_res (require_actor a False None) (\<lambda>_.
      bind_res (ensure (ve_parent env ws parent) NotFound) (\<lambda>_.
        Inr (foldr insert_revision
               (filter (\<lambda>v. vr_workspace v = ws \<and> vr_kind v = kind \<and> vr_parent v = parent) (vs_versions s)) [],
             (case find_head ws kind parent s of None \<Rightarrow> None | Some h \<Rightarrow> vh_active h),
             (case find_head ws kind parent s of None \<Rightarrow> 0 | Some h \<Rightarrow> vh_revision h)))))"

end
