(* ===== verification/RunPlans.thy ===== *)
theory RunPlans
  imports Versions
begin

text \<open>
  Run plans and their authorization (\<open>run_plans.py\<close>, with the operations of \<open>storage.py\<close> it calls).

  Planning freezes version ids and limits and collects the reasons why the run may not start yet
  (blockers); an authorization binds a decision to the digest of one validated plan; a run is enqueued
  only with an unexpired authorization. Contents are dynamic JSON values, so a step that calls \<open>.get\<close>
  on something that is no dict raises \<open>AttributeError\<close>, and a set or dict lookup with an unhashable
  value raises \<open>TypeError\<close>.
\<close>

section \<open>Tables\<close>

datatype plan_state = Validated | Blocked

datatype authorization_state = Authorized | Expired | Revoked

record run_plan =
  rp_id :: string
  rp_workspace :: string
  rp_digest :: string
  rp_state :: plan_state
  rp_content :: pydict
  rp_blockers :: "string list"
  rp_actor :: string
  rp_created :: int

record authorization =
  au_id :: string
  au_workspace :: string
  au_plan :: string
  au_hash :: string
  au_actor :: string
  au_state :: authorization_state
  au_expires :: int
  au_created :: int

record plan_db =
  pd_versions :: version_store
  pd_plans :: "run_plan list"
  pd_authorizations :: "authorization list"
  pd_next :: nat

record plan_env =
  pe_externals :: externals
  pe_uuid :: "nat \<Rightarrow> string"
  pe_digest :: "pyval \<Rightarrow> string"
  pe_project :: "string \<Rightarrow> string \<Rightarrow> bool"

definition get_run_plan :: "string \<Rightarrow> string \<Rightarrow> plan_db \<Rightarrow> run_plan option" where
  "get_run_plan pid ws db = find (\<lambda>p. rp_workspace p = ws \<and> rp_id p = pid) (pd_plans db)"

definition get_run_authorization :: "string \<Rightarrow> string \<Rightarrow> plan_db \<Rightarrow> authorization option" where
  "get_run_authorization aid ws db = find (\<lambda>a. au_workspace a = ws \<and> au_id a = aid) (pd_authorizations db)"

text \<open>\<open>_digest\<close>: the text with sorted keys is a function of the value read back from it.\<close>

definition plan_digest :: "plan_env \<Rightarrow> pydict \<Rightarrow> string" where
  "plan_digest env content = pe_digest env (json_copy (VDict content))"

section \<open>Dynamic access\<close>

definition hashable :: "pyval \<Rightarrow> unit res" where
  "hashable v = ensure (\<not> is_list v \<and> \<not> is_dict v) TypeError"

text \<open>\<open>d.get(k) or {}\<close>, where the result is used through \<open>.get\<close>.\<close>

definition sub_dict :: "pydict \<Rightarrow> string \<Rightarrow> pydict res" where
  "sub_dict d k =
     (let v = dict_get d k in
      if truthy v then (case v of VDict e \<Rightarrow> Inr e | _ \<Rightarrow> Inl AttributeError) else Inr [])"

definition get_default :: "pydict \<Rightarrow> string \<Rightarrow> pyval \<Rightarrow> pyval" where
  "get_default d k v = (case map_of d k of None \<Rightarrow> v | Some w \<Rightarrow> w)"

text \<open>\<open>d[k] = v\<close>\<close>

fun dict_put :: "string \<Rightarrow> 'a \<Rightarrow> (string \<times> 'a) list \<Rightarrow> (string \<times> 'a) list" where
  "dict_put k v [] = [(k, v)]"
| "dict_put k v (e # d) = (if fst e = k then (k, v) # d else e # dict_put k v d)"

text \<open>\<open>for x in v\<close>\<close>

definition iterate :: "pyval \<Rightarrow> pyval list res" where
  "iterate v =
     (case v of
        VList xs \<Rightarrow> Inr xs
      | VStr s \<Rightarrow> Inr (map (\<lambda>c. VStr [c]) s)
      | VDict d \<Rightarrow> Inr (map (\<lambda>(k, _). VStr k) d)
      | _ \<Rightarrow> Inl TypeError)"

section \<open>Blockers\<close>

definition VERSION_REF_KEYS :: "string list" where
  "VERSION_REF_KEYS =
     [''project_id'', ''source_version_id'', ''knowledge_version_id'', ''evaluation_version_id'',
      ''dataset_version_id'', ''target_version_id'', ''connection_version_id'', ''dashboard_version_id'',
      ''world_version_id'', ''model_selection_version_id'']"

definition TIERS :: "string list" where
  "TIERS = [''quick'', ''standard'', ''full'']"

definition CAPABILITY_BY_TARGET :: "(string \<times> string) list" where
  "CAPABILITY_BY_TARGET =
     [(''final_response'', ''final_output''), (''model_output'', ''final_output''),
      (''tool_invocation'', ''tool_execution''), (''tool_arguments'', ''tool_execution''),
      (''tool_output'', ''tool_execution''), (''retrieval'', ''retrieval'')]"

definition UNKNOWN_CAPABILITIES :: pydict where
  "UNKNOWN_CAPABILITIES =
     [(''final_output'', VStr ''unknown''), (''retrieval'', VStr ''unknown''),
      (''tool_execution'', VStr ''unknown''), (''provider_cost'', VStr ''unknown'')]"

definition metric_capability :: "pyval \<Rightarrow> string option res" where
  "metric_capability metric =
     (case metric of
        VDict m \<Rightarrow> (case dict_get m ''target'' of
            VDict t \<Rightarrow> bind_res (hashable (dict_get t ''type'')) (\<lambda>_.
                Inr (case dict_get t ''type'' of VStr s \<Rightarrow> map_of CAPABILITY_BY_TARGET s | _ \<Rightarrow> None))
          | _ \<Rightarrow> Inr None)
      | _ \<Rightarrow> Inr None)"

text \<open>The checks of the reference keys and values, before any lookup.\<close>

fun bounded_refs :: "pydict \<Rightarrow> (string \<times> string) list res" where
  "bounded_refs [] = Inr []"
| "bounded_refs ((k, v) # d) =
     (case v of
        VStr s \<Rightarrow> bind_res (ensure (s \<noteq> [] \<and> length s \<le> 255) Invalid) (\<lambda>_.
                   bind_res (bounded_refs d) (\<lambda>refs. Inr ((k, s) # refs)))
      | _ \<Rightarrow> Inl Invalid)"

definition required_blockers :: "(string \<times> string) list \<Rightarrow> string list" where
  "required_blockers refs =
     (if map_of refs ''evaluation_version_id'' = None then [''evaluation_version_required''] else []) @
     (if map_of refs ''dataset_version_id'' = None then [''dataset_version_required''] else []) @
     (if map_of refs ''project_id'' = None then [''project_required''] else [])"

text \<open>\<open>datetime.fromisoformat(v) <= now\<close>, true when it raises.\<close>

definition expiry_stale :: "externals \<Rightarrow> int \<Rightarrow> pyval \<Rightarrow> bool" where
  "expiry_stale X now v =
     (case v of VStr s \<Rightarrow> (case fromisoformat X s of Some (Aware t) \<Rightarrow> t \<le> now | _ \<Rightarrow> True) | _ \<Rightarrow> True)"

definition declared_capabilities :: "pydict \<Rightarrow> pydict \<Rightarrow> pydict" where
  "declared_capabilities verification caps =
     (case dict_get verification ''capabilities'' of
        VDict d \<Rightarrow> fold (\<lambda>(k, v) c. dict_put k v c) (filter (\<lambda>(_, v). is_str v) d) caps
      | _ \<Rightarrow> caps)"

definition verification_blockers :: "externals \<Rightarrow> int \<Rightarrow> pydict \<Rightarrow> string list" where
  "verification_blockers X now verification =
     (if dict_get verification ''state'' \<noteq> VStr ''verified'' then [''target_verification_required'']
      else if expiry_stale X now (dict_get verification ''expires_at'') then [''target_verification_stale'']
      else [])"

text \<open>The body of the loop over the references; it also collects the target's declared capabilities.\<close>

definition check_ref ::
  "plan_env \<Rightarrow> plan_db \<Rightarrow> actor \<Rightarrow> int \<Rightarrow> string \<times> string \<Rightarrow> string list \<times> pydict \<Rightarrow> (string list \<times> pydict) res" where
  "check_ref env db a now kv acc =
     (case (kv, acc) of ((key, vid), blockers, caps) \<Rightarrow>
        if key = ''project_id''
        then bind_res (ensure (pe_project env (ac_workspace_id a) vid) NotFound) (\<lambda>_. Inr (blockers, caps))
        else case get_version a vid (pd_versions db) of
          Inl e \<Rightarrow> Inl (if e = NotFound then WorkflowError ''version_not_found'' else e)
        | Inr v \<Rightarrow>
            if key = ''source_version_id'' then
              Inr (blockers @ (if dict_get (vr_content v) ''readiness'' = VStr ''executable'' then []
                               else [''source_runtime_not_ready'']), caps)
            else if key = ''target_version_id'' then
              bind_res (sub_dict (vr_content v) ''verification'') (\<lambda>verification.
                Inr (blockers @ (if vr_kind v = ''target'' then [] else [''target_version_invalid'']) @
                       verification_blockers (pe_externals env) now verification,
                     declared_capabilities verification caps))
            else Inr (blockers, caps))"

fun check_refs ::
  "plan_env \<Rightarrow> plan_db \<Rightarrow> actor \<Rightarrow> int \<Rightarrow> (string \<times> string) list \<Rightarrow> string list \<times> pydict \<Rightarrow>
    (string list \<times> pydict) res" where
  "check_refs env db a now [] acc = Inr acc"
| "check_refs env db a now (kv # refs) acc =
     bind_res (check_ref env db a now kv acc) (check_refs env db a now refs)"

text \<open>The capabilities the metrics need: the loop over \<open>metrics\<close> and its body.\<close>

definition missing_capability :: "externals \<Rightarrow> pyval \<Rightarrow> string \<Rightarrow> string" where
  "missing_capability X metric c =
     ''target_capability_required:'' @
     py_str X (case metric of VDict m \<Rightarrow> get_default m ''metric_id'' (VStr ''unknown'') | _ \<Rightarrow> VStr ''unknown'') @
     '':'' @ c"

definition capability_blocker :: "externals \<Rightarrow> pydict res \<Rightarrow> pyval \<Rightarrow> string list res" where
  "capability_blocker X caps metric =
     bind_res (metric_capability metric) (\<lambda>capability.
       case capability of
         None \<Rightarrow> Inr []
       | Some c \<Rightarrow>
           bind_res caps (\<lambda>cs.
           bind_res (hashable (dict_get cs c)) (\<lambda>_.
             Inr (if dict_get cs c \<in> {VStr ''observed'', VStr ''declared''} then []
                  else [missing_capability X metric c]))))"

fun capability_blockers :: "externals \<Rightarrow> pydict res \<Rightarrow> pyval list \<Rightarrow> string list res" where
  "capability_blockers X caps [] = Inr []"
| "capability_blockers X caps (metric # metrics) =
     bind_res (capability_blocker X caps metric) (\<lambda>blockers.
     bind_res (capability_blockers X caps metrics) (\<lambda>rest. Inr (blockers @ rest)))"

definition spec_of :: "pydict \<Rightarrow> pydict" where
  "spec_of content = (case get_default content ''spec'' (VDict content) of VDict s \<Rightarrow> s | _ \<Rightarrow> [])"

definition target_fit_blockers :: "externals \<Rightarrow> pydict \<Rightarrow> pydict \<Rightarrow> string list res" where
  "target_fit_blockers X target evaluation =
     bind_res (sub_dict target ''verification'') (\<lambda>verification.
       case get_default (spec_of evaluation) ''metrics'' (VList []) of
         VList metrics \<Rightarrow> capability_blockers X (sub_dict verification ''capabilities'') metrics
       | _ \<Rightarrow> Inr [])"

text \<open>Custom evaluators: the metrics of \<open>spec\<close>, and one binding of a metric to an evaluator version.\<close>

definition bound_metrics :: "pydict \<Rightarrow> pydict list res" where
  "bound_metrics content =
     (case get_default content ''spec'' (VDict []) of
        VDict s \<Rightarrow> bind_res (iterate (get_default s ''metrics'' (VList []))) (\<lambda>ms.
                     Inr (concat (map (\<lambda>m. case m of VDict d \<Rightarrow> [d] | _ \<Rightarrow> []) ms)))
      | _ \<Rightarrow> Inr [])"

definition metric_range :: "pydict \<Rightarrow> pyval res" where
  "metric_range m =
     (case get_default m ''scoring'' (VDict []) of VDict s \<Rightarrow> Inr (dict_get s ''range'') | _ \<Rightarrow> Inl AttributeError)"

definition check_evaluator ::
  "string option \<Rightarrow> pydict list \<Rightarrow> string \<Rightarrow> version \<Rightarrow> string option res" where
  "check_evaluator project metrics mid v =
     (if vr_kind v \<noteq> ''evaluator'' then Inr (Some (''custom_evaluator_version_invalid:'' @ mid))
      else if Some (vr_parent v) \<noteq> project then Inr (Some (''custom_evaluator_project_mismatch:'' @ mid))
      else bind_res (sub_dict (vr_content v) ''review'') (\<lambda>review.
        if dict_get review ''state'' \<noteq> VStr ''approved''
        then Inr (Some (''custom_evaluator_approval_required:'' @ mid))
        else bind_res (case find (\<lambda>m. dict_get m ''metric_id'' = VStr mid) metrics of
                         None \<Rightarrow> Inr VNull | Some m \<Rightarrow> metric_range m) (\<lambda>range.
          Inr (if is_list range \<and> py_eq range (dict_get (vr_content v) ''score_range'') then None
               else Some (''custom_evaluator_score_range_mismatch:'' @ mid)))))"

text \<open>The body of the loop over the bindings: a blocker, or \<open>None\<close> and the evaluator version.\<close>

definition check_binding ::
  "plan_db \<Rightarrow> actor \<Rightarrow> string option \<Rightarrow> pydict list \<Rightarrow> string \<Rightarrow> pyval \<Rightarrow> (string + string) res" where
  "check_binding db a project metrics mid value =
     (if VStr mid \<notin> (\<lambda>m. dict_get m ''metric_id'') ` set metrics
      then Inr (Inl (''custom_evaluator_metric_invalid:'' @ mid))
      else case value of
        VStr vid \<Rightarrow>
          if vid = [] then Inr (Inl (''custom_evaluator_version_invalid:'' @ mid))
          else (case get_version a vid (pd_versions db) of
              Inl e \<Rightarrow> if e = NotFound then Inr (Inl (''custom_evaluator_version_missing:'' @ mid)) else Inl e
            | Inr v \<Rightarrow> bind_res (check_evaluator project metrics mid v) (\<lambda>b.
                Inr (case b of None \<Rightarrow> Inr vid | Some blocker \<Rightarrow> Inl blocker)))
      | _ \<Rightarrow> Inr (Inl (''custom_evaluator_version_invalid:'' @ mid)))"

fun check_bindings ::
  "plan_db \<Rightarrow> actor \<Rightarrow> string option \<Rightarrow> pydict list \<Rightarrow> pydict \<Rightarrow> (string list \<times> (string \<times> string) list) res" where
  "check_bindings db a project metrics [] = Inr ([], [])"
| "check_bindings db a project metrics ((mid, value) # bindings) =
     bind_res (check_binding db a project metrics mid value) (\<lambda>b.
     bind_res (check_bindings db a project metrics bindings) (\<lambda>(blockers, resolved).
       Inr (case b of Inl blocker \<Rightarrow> (blocker # blockers, resolved)
                    | Inr vid \<Rightarrow> (blockers, (mid, vid) # resolved))))"

definition evaluator_bindings ::
  "plan_db \<Rightarrow> actor \<Rightarrow> string option \<Rightarrow> pydict \<Rightarrow> (string list \<times> (string \<times> string) list) res" where
  "evaluator_bindings db a project content =
     (let bindings = get_default content ''custom_evaluators'' (VDict []) in
      case (if bindings = VNull then VDict [] else bindings) of
        VDict bs \<Rightarrow>
          bind_res (bound_metrics content) (\<lambda>metrics.
          bind_res (traverse (\<lambda>m. hashable (dict_get m ''metric_id'')) metrics) (\<lambda>_.
            check_bindings db a project metrics bs))
      | _ \<Rightarrow> Inr ([''custom_evaluator_bindings_invalid''], []))"

section \<open>Limits and the execution summary\<close>

definition in_tiers :: "pyval \<Rightarrow> bool res" where
  "in_tiers v = bind_res (hashable v) (\<lambda>_. Inr (case v of VStr s \<Rightarrow> s \<in> set TIERS | _ \<Rightarrow> False))"

definition valid_repeats :: "pyval \<Rightarrow> bool" where
  "valid_repeats v = (case v of VInt n \<Rightarrow> 1 \<le> n \<and> n \<le> 5 | _ \<Rightarrow> False)"

definition valid_budget :: "pyval \<Rightarrow> bool" where
  "valid_budget v = (case v of VInt n \<Rightarrow> 0 \<le> n | _ \<Rightarrow> False)"

definition limit_blockers :: "pydict \<Rightarrow> string list res" where
  "limit_blockers limits =
     bind_res (if dict_get limits ''tier'' = VNull then Inr True else in_tiers (dict_get limits ''tier'')) (\<lambda>tier_ok.
       Inr ((if tier_ok then [] else [''unsupported_tier'']) @
            (if valid_repeats (get_default limits ''repeats'' (VInt 1)) then [] else [''repeats_out_of_range'']) @
            (if valid_budget (get_default limits ''budget_usd_micros'' (VInt 0)) then [] else [''budget_invalid''])))"

definition estimate_tier :: "pyval \<Rightarrow> pydict \<Rightarrow> string res" where
  "estimate_tier tier spec =
     bind_res (in_tiers tier) (\<lambda>b.
       if b then (case tier of VStr s \<Rightarrow> Inr s | _ \<Rightarrow> Inl TypeError)
       else bind_res (in_tiers (dict_get spec ''run_tier'')) (\<lambda>c.
         Inr (if c then (case dict_get spec ''run_tier'' of VStr s \<Rightarrow> s | _ \<Rightarrow> ''quick'') else ''quick'')))"

definition estimate_seconds :: "string \<Rightarrow> int \<Rightarrow> int res" where
  "estimate_seconds tier attempts =
     (if tier = ''quick'' then Inr 120
      else bind_res (int_div attempts 10) (\<lambda>q. bind_res (flt_ceil (flt_mul q (Fin 60))) (\<lambda>c.
        Inr (max (if tier = ''standard'' then 600 else 28800) c))))"

definition execution_summary ::
  "string \<Rightarrow> int \<Rightarrow> int \<Rightarrow> int \<Rightarrow> pyval \<Rightarrow> pydict \<Rightarrow> string list \<Rightarrow> pydict" where
  "execution_summary tier cases repeats seconds budget caps blockers =
     [(''tier'', VStr tier), (''case_count'', VInt cases), (''repeats'', VInt repeats),
      (''repeat_multiplier'', VInt repeats), (''attempt_count'', VInt (cases * repeats)),
      (''estimated_duration_seconds'', VInt seconds),
      (''estimated_cost_usd'', VDict [(''state'', VStr ''unknown''), (''min'', VNull), (''max'', VNull),
         (''reason'', VStr ''price_table_not_bound_to_run_plan'')]),
      (''budget_usd_micros'', budget),
      (''quota'', VDict [(''state'', VStr ''enforced_at_dispatch''), (''budget_usd_micros'', budget),
         (''attempt_count'', VInt (cases * repeats))]),
      (''capabilities'', VDict caps),
      (''readiness'', VStr (if blockers = [] then ''ready'' else ''blocked'')),
      (''readiness_blockers'', VList (map VStr (dedupe_from [] blockers))),
      (''side_effect_policy'', VStr ''target_requests_may_have_external_side_effects''),
      (''retry_policy'', VStr ''no_remote_retry_by_default'')]"

section \<open>Planning\<close>

definition optional_version :: "actor \<Rightarrow> plan_db \<Rightarrow> string option \<Rightarrow> version option res" where
  "optional_version a db vid =
     (case vid of None \<Rightarrow> Inr None
      | Some i \<Rightarrow> bind_res (get_version a i (pd_versions db)) (\<lambda>v. Inr (Some v)))"

text \<open>Everything \<open>plan_run\<close> reads from the versions: the blockers in order, the target's capabilities
  and the resolved evaluators.\<close>

definition collect_blockers ::
  "plan_env \<Rightarrow> plan_db \<Rightarrow> actor \<Rightarrow> int \<Rightarrow> (string \<times> string) list \<Rightarrow>
    (string list \<times> pydict \<times> (string \<times> string) list) res" where
  "collect_blockers env db a now refs =
     bind_res (check_refs env db a now refs (required_blockers refs, UNKNOWN_CAPABILITIES)) (\<lambda>(blockers, caps).
     bind_res (optional_version a db (map_of refs ''target_version_id'')) (\<lambda>target.
     bind_res (optional_version a db (map_of refs ''evaluation_version_id'')) (\<lambda>evaluation.
     bind_res (case (target, evaluation) of
                 (Some t, Some e) \<Rightarrow> target_fit_blockers (pe_externals env) (vr_content t) (vr_content e)
               | _ \<Rightarrow> Inr []) (\<lambda>fit.
     bind_res (case evaluation of
                 Some e \<Rightarrow> evaluator_bindings db a (map_of refs ''project_id'') (vr_content e)
               | None \<Rightarrow> Inr ([], [])) (\<lambda>(bound, resolved).
       Inr (blockers @ fit @ bound, caps, resolved))))))"

definition case_count :: "actor \<Rightarrow> plan_db \<Rightarrow> (string \<times> string) list \<Rightarrow> int res" where
  "case_count a db refs =
     bind_res (optional_version a db (map_of refs ''dataset_version_id'')) (\<lambda>d.
       Inr (case d of None \<Rightarrow> 0
            | Some v \<Rightarrow> (case dict_get (vr_content v) ''cases'' of VList cs \<Rightarrow> int (length cs) | _ \<Rightarrow> 0)))"

definition plan_content ::
  "plan_db \<Rightarrow> actor \<Rightarrow> (string \<times> string) list \<Rightarrow> pydict \<Rightarrow> string list \<Rightarrow> pydict \<Rightarrow> (string \<times> string) list \<Rightarrow>
    pydict res" where
  "plan_content db a refs limits blockers caps resolved =
     bind_res (case_count a db refs) (\<lambda>cases.
     bind_res (optional_version a db (map_of refs ''evaluation_version_id'')) (\<lambda>evaluation.
     bind_res (estimate_tier (dict_get limits ''tier'')
                 (case evaluation of None \<Rightarrow> [] | Some e \<Rightarrow> spec_of (vr_content e))) (\<lambda>tier.
       let repeats = (case get_default limits ''repeats'' (VInt 1) of
                        VInt n \<Rightarrow> if 1 \<le> n \<and> n \<le> 5 then n else 1 | _ \<Rightarrow> 1) in
       bind_res (estimate_seconds tier (cases * repeats)) (\<lambda>seconds.
         Inr [(''version_refs'', VDict (map (\<lambda>(k, v). (k, VStr v)) refs)),
              (''limits'', VDict limits),
              (''evaluator_versions'', VDict (map (\<lambda>(k, v). (k, VStr v)) resolved)),
              (''execution'', VDict (execution_summary tier cases repeats seconds
                 (get_default limits ''budget_usd_micros'' (VInt 0)) caps blockers))]))))"

text \<open>\<open>create_run_plan\<close> of the storage: insert, and read back.\<close>

definition create_run_plan ::
  "plan_env \<Rightarrow> actor \<Rightarrow> pydict \<Rightarrow> string list \<Rightarrow> int \<Rightarrow> plan_db \<Rightarrow> (run_plan \<times> plan_db) res" where
  "create_run_plan env a content blockers now db =
     (let ws = ac_workspace_id a; pid = pe_uuid env (pd_next db);
          p = \<lparr>rp_id = pid, rp_workspace = ws, rp_digest = plan_digest env content,
               rp_state = (if blockers = [] then Validated else Blocked),
               rp_content = (case json_copy (VDict content) of VDict d \<Rightarrow> d | _ \<Rightarrow> []),
               rp_blockers = blockers, rp_actor = ac_actor_id a, rp_created = now\<rparr>;
          db' = db\<lparr>pd_plans := pd_plans db @ [p], pd_next := Suc (pd_next db)\<rparr> in
      case get_run_plan pid ws db' of None \<Rightarrow> Inl AttributeError | Some q \<Rightarrow> Inr (q, db'))"

definition plan_run ::
  "plan_env \<Rightarrow> actor \<Rightarrow> pyval \<Rightarrow> pyval \<Rightarrow> int \<Rightarrow> plan_db \<Rightarrow> (run_plan \<times> plan_db) res" where
  "plan_run env a version_refs limits now db =
     bind_res (require_actor a True None) (\<lambda>_.
       case (version_refs, limits) of
         (VDict vrefs, VDict lims) \<Rightarrow>
           bind_res (ensure (list_all (\<lambda>(k, _). k \<in> set VERSION_REF_KEYS) vrefs) Invalid) (\<lambda>_.
           bind_res (bounded_refs vrefs) (\<lambda>refs.
           bind_res (collect_blockers env db a now refs) (\<lambda>(blockers, caps, resolved).
           bind_res (ensure (finite_json (VDict lims)) Invalid) (\<lambda>_.
             case json_copy (VDict lims) of
               VDict normalized \<Rightarrow>
                 bind_res (limit_blockers normalized) (\<lambda>limited.
                 bind_res (plan_content db a refs normalized (blockers @ limited) caps resolved) (\<lambda>content.
                   create_run_plan env a content (blockers @ limited) now db))
             | _ \<Rightarrow> Inl Invalid))))
       | _ \<Rightarrow> Inl Invalid)"

definition get_plan :: "actor \<Rightarrow> string \<Rightarrow> plan_db \<Rightarrow> run_plan res" where
  "get_plan a pid db =
     bind_res (require_actor a False None) (\<lambda>_.
       case get_run_plan pid (ac_workspace_id a) db of None \<Rightarrow> Inl NotFound | Some p \<Rightarrow> Inr p)"

section \<open>Authorization\<close>

definition create_run_authorization ::
  "plan_env \<Rightarrow> actor \<Rightarrow> string \<Rightarrow> string \<Rightarrow> int \<Rightarrow> int \<Rightarrow> plan_db \<Rightarrow> (authorization \<times> plan_db) res" where
  "create_run_authorization env a pid plan_hash expires now db =
     (let aid = pe_uuid env (pd_next db);
          u = \<lparr>au_id = aid, au_workspace = ac_workspace_id a, au_plan = pid, au_hash = plan_hash,
               au_actor = ac_actor_id a, au_state = Authorized, au_expires = expires, au_created = now\<rparr>;
          db' = db\<lparr>pd_authorizations := pd_authorizations db @ [u], pd_next := Suc (pd_next db)\<rparr> in
      case get_run_authorization aid (ac_workspace_id a) db' of None \<Rightarrow> Inl AttributeError | Some q \<Rightarrow> Inr (q, db'))"

definition authorize ::
  "plan_env \<Rightarrow> actor \<Rightarrow> string \<Rightarrow> string \<Rightarrow> int \<Rightarrow> int \<Rightarrow> plan_db \<Rightarrow> (authorization \<times> plan_db) res" where
  "authorize env a pid plan_hash ttl_seconds now db =
     bind_res (require_actor a True None) (\<lambda>_.
     bind_res (ensure (length plan_hash = 64) Invalid) (\<lambda>_.
     bind_res (ensure (1 \<le> ttl_seconds \<and> ttl_seconds \<le> 3600) Invalid) (\<lambda>_.
     bind_res (get_plan a pid db) (\<lambda>p.
     bind_res (ensure (rp_digest p = plan_hash) (WorkflowError ''authorization_hash_mismatch'')) (\<lambda>_.
     bind_res (ensure (rp_state p = Validated) (WorkflowError ''run_plan_not_ready'')) (\<lambda>_.
       create_run_authorization env a (rp_id p) plan_hash (now + ttl_seconds * 1000000) now db))))))"

text \<open>\<open>UPDATE run_authorizations SET state='expired' WHERE ... AND state='authorized'\<close>\<close>

definition expire_run_authorization :: "string \<Rightarrow> string \<Rightarrow> plan_db \<Rightarrow> plan_db" where
  "expire_run_authorization aid ws db =
     db\<lparr>pd_authorizations := map (\<lambda>u. if au_workspace u = ws \<and> au_id u = aid \<and> au_state u = Authorized
          then u\<lparr>au_state := Expired\<rparr> else u) (pd_authorizations db)\<rparr>"

definition run_command :: "string \<Rightarrow> string \<Rightarrow> string \<Rightarrow> pyval" where
  "run_command pid plan_hash aid =
     VDict [(''kind'', VStr ''evaluation_run''), (''plan_id'', VStr pid), (''plan_hash'', VStr plan_hash),
            (''authorization_id'', VStr aid)]"

text \<open>\<open>enqueue_run\<close>, with the job queue of the workspace; the expiry is written although the call raises.\<close>

definition run_permit :: "actor \<Rightarrow> string \<Rightarrow> string \<Rightarrow> string \<Rightarrow> plan_db \<Rightarrow> authorization res" where
  "run_permit a pid aid plan_hash db =
     bind_res (require_actor a True None) (\<lambda>_.
     bind_res (get_plan a pid db) (\<lambda>p.
     bind_res (ensure (rp_digest p = plan_hash) (WorkflowError ''authorization_hash_mismatch'')) (\<lambda>_.
       case get_run_authorization aid (ac_workspace_id a) db of
         None \<Rightarrow> Inl NotFound
       | Some u \<Rightarrow>
           bind_res (ensure (au_plan u = pid) NotFound) (\<lambda>_.
           bind_res (ensure (au_hash u = plan_hash) (WorkflowError ''authorization_hash_mismatch'')) (\<lambda>_.
           bind_res (ensure (au_state u = Authorized) (WorkflowError ''authorization_unavailable'')) (\<lambda>_.
             Inr u))))))"

definition enqueue_run ::
  "job_env \<Rightarrow> actor \<Rightarrow> string \<Rightarrow> string \<Rightarrow> string \<Rightarrow> string \<Rightarrow> int \<Rightarrow> plan_db \<times> queue \<Rightarrow>
    job res \<times> plan_db \<times> queue" where
  "enqueue_run jenv a pid aid plan_hash key now s =
     (case s of (db, q) \<Rightarrow>
        case run_permit a pid aid plan_hash db of
          Inl e \<Rightarrow> (Inl e, db, q)
        | Inr u \<Rightarrow>
            if au_expires u \<le> now
            then (Inl (WorkflowError ''authorization_expired''),
                  expire_run_authorization aid (ac_workspace_id a) db, q)
            else (case enqueue jenv a (run_command pid plan_hash aid) key 3 now q of
                Inl e \<Rightarrow> (Inl e, db, q)
              | Inr (j, q') \<Rightarrow> (Inr j, db, q')))"

end
