(* ===== verification/Schedules.thy ===== *)
theory Schedules
  imports RunPlans
begin

text \<open>
  Recurring runs (\<open>schedules.py\<close>, with the schedule tables of \<open>storage.py\<close>): a schedule repeats a validated,
  authorized plan once a day at a local time; a sweep claims the slots that are due and enqueues a job for each.

  A date is its ordinal, a local time of day its microseconds since midnight, and a slot (an aware datetime of
  the code) its local time and its UTC offset, both in microseconds, so that the day of a slot is the date in
  its text. Time zones, the parsing of \<open>HH:MM\<close>, and the hash of a slot are parameters.
\<close>

section \<open>Due slots\<close>

text \<open>A zone gives the offset of a local time (with \<open>fold=0\<close>) and the one at an instant.\<close>

record zone =
  zo_local :: "int \<Rightarrow> int"
  zo_instant :: "int \<Rightarrow> int"

type_synonym slot = "int \<times> int"

definition DAY :: int where
  "DAY = 86400000000"

definition slot_day :: "slot \<Rightarrow> int" where
  "slot_day s = fst s div DAY"

text \<open>The local time does not exist: converting it to UTC and back gives another one.\<close>

definition in_gap :: "zone \<Rightarrow> int \<Rightarrow> bool" where
  "in_gap z naive =
     (let utc = naive - zo_local z naive in utc + zo_instant z utc \<noteq> naive)"

function due_loop :: "zone \<Rightarrow> int \<Rightarrow> string \<Rightarrow> int \<Rightarrow> int \<Rightarrow> slot list" where
  "due_loop z local_time dst_policy current end =
     (if end < current then []
      else
        let naive = current * DAY + local_time in
        if in_gap z naive \<and> dst_policy = ''skip'' then due_loop z local_time dst_policy (current + 1) end
        else (naive, zo_local z naive) # due_loop z local_time dst_policy (current + 1) end)"
  by auto
termination
  by (relation "measure (\<lambda>(_, _, _, current, end). nat (end + 1 - current))") auto

declare due_loop.simps [simp del]

definition due_daily_slots ::
  "(string \<Rightarrow> zone res) \<Rightarrow> int \<Rightarrow> int \<Rightarrow> int \<Rightarrow> string \<Rightarrow> string \<Rightarrow> slot list res" where
  "due_daily_slots zones start end local_time timezone dst_policy =
     (if end < start then Inr []
      else bind_res (zones timezone) (\<lambda>z.
           bind_res (ensure (dst_policy \<in> {''first'', ''skip''}) ValueError) (\<lambda>_.
             Inr (due_loop z local_time dst_policy start end))))"

section \<open>Tables\<close>

datatype schedule_mode = Active | Paused

datatype slot_state = Slot_claimed | Slot_queued | Slot_failed

record schedule =
  sc_id :: string
  sc_workspace :: string
  sc_project :: string
  sc_plan :: string
  sc_plan_hash :: string
  sc_authorization :: string
  sc_timezone :: string
  sc_local_time :: int
  sc_state :: schedule_mode
  sc_dst_policy :: string
  sc_version_policy :: string
  sc_request_limit :: int
  sc_budget :: int
  sc_created :: int
  sc_updated :: int

record schedule_slot =
  sl_schedule :: string
  sl_workspace :: string
  sl_key :: string
  sl_at :: slot
  sl_state :: slot_state
  sl_owner :: string
  sl_job :: "string option"
  sl_created :: int
  sl_updated :: int

text \<open>\<open>st_costs\<close> are the measured rows of \<open>cost_summaries\<close>: workspace, run and micro-dollars.\<close>

record schedule_db =
  st_plans :: plan_db
  st_queue :: queue
  st_schedules :: "schedule list"
  st_slots :: "schedule_slot list"
  st_costs :: "(string \<times> string \<times> int) list"
  st_next :: nat

record schedule_env =
  se_plan :: plan_env
  se_jobs :: job_env
  se_zone :: "string \<Rightarrow> zone res"
  se_time :: "string \<Rightarrow> (int \<times> bool) option"
  se_key :: "string \<Rightarrow> slot \<Rightarrow> string"
  se_uuid :: "nat \<Rightarrow> string"

definition get_schedule :: "string \<Rightarrow> string \<Rightarrow> schedule_db \<Rightarrow> schedule option" where
  "get_schedule sid ws st = find (\<lambda>c. sc_workspace c = ws \<and> sc_id c = sid) (st_schedules st)"

definition set_schedule_state :: "string \<Rightarrow> string \<Rightarrow> schedule_mode \<Rightarrow> int \<Rightarrow> schedule_db \<Rightarrow> (schedule \<times> schedule_db) res" where
  "set_schedule_state ws sid mode now st =
     (let st' = st\<lparr>st_schedules := map (\<lambda>c. if sc_workspace c = ws \<and> sc_id c = sid
                then c\<lparr>sc_state := mode, sc_updated := now\<rparr> else c) (st_schedules st)\<rparr> in
      case get_schedule sid ws st' of None \<Rightarrow> Inl KeyError | Some c \<Rightarrow> Inr (c, st'))"

definition is_slot :: "string \<Rightarrow> string \<Rightarrow> string \<Rightarrow> schedule_slot \<Rightarrow> bool" where
  "is_slot ws sid key r = (sl_workspace r = ws \<and> sl_schedule r = sid \<and> sl_key r = key)"

text \<open>\<open>INSERT ... ON CONFLICT DO NOTHING\<close>: whether the row was inserted.\<close>

definition claim_schedule_slot ::
  "string \<Rightarrow> string \<Rightarrow> string \<Rightarrow> slot \<Rightarrow> string \<Rightarrow> int \<Rightarrow> schedule_db \<Rightarrow> bool \<times> schedule_db" where
  "claim_schedule_slot ws sid key slot_at owner now st =
     (if list_ex (is_slot ws sid key) (st_slots st) then (False, st)
      else (True, st\<lparr>st_slots := st_slots st @
        [\<lparr>sl_schedule = sid, sl_workspace = ws, sl_key = key, sl_at = slot_at, sl_state = Slot_claimed,
          sl_owner = owner, sl_job = None, sl_created = now, sl_updated = now\<rparr>]\<rparr>))"

definition set_schedule_slot_job ::
  "string \<Rightarrow> string \<Rightarrow> string \<Rightarrow> slot_state \<Rightarrow> string option \<Rightarrow> int \<Rightarrow> schedule_db \<Rightarrow> unit res \<times> schedule_db" where
  "set_schedule_slot_job ws sid key state jid now st =
     (ensure (list_ex (is_slot ws sid key) (st_slots st)) KeyError,
      st\<lparr>st_slots := map (\<lambda>r. if is_slot ws sid key r
           then r\<lparr>sl_state := state, sl_job := jid, sl_updated := now\<rparr> else r) (st_slots st)\<rparr>)"

definition list_schedule_slots :: "string \<Rightarrow> string \<Rightarrow> schedule_db \<Rightarrow> schedule_slot list" where
  "list_schedule_slots sid ws st = filter (\<lambda>r. sl_workspace r = ws \<and> sl_schedule r = sid) (st_slots st)"

section \<open>The cost ledger of a schedule\<close>

record usage =
  us_actual :: int
  us_reserved :: int
  us_unknown :: bool

definition no_usage :: usage where
  "no_usage = \<lparr>us_actual = 0, us_reserved = 0, us_unknown = False\<rparr>"

text \<open>The run of a completed job, and its measured cost if any row was measured.\<close>

definition run_of_result :: "pyval option \<Rightarrow> string option" where
  "run_of_result result =
     (case result of
        Some (VDict d) \<Rightarrow> (case dict_get d ''run_id'' of VStr r \<Rightarrow> if r = [] then None else Some r | _ \<Rightarrow> None)
      | _ \<Rightarrow> None)"

definition measured_cost :: "string \<Rightarrow> string option \<Rightarrow> schedule_db \<Rightarrow> int option" where
  "measured_cost ws run st =
     (case run of
        None \<Rightarrow> None
      | Some r \<Rightarrow>
          let rows = filter (\<lambda>(w, i, _). w = ws \<and> i = r) (st_costs st) in
          if rows = [] then None else Some (sum_list (map (\<lambda>(_, _, c). c) rows)))"

text \<open>The effect of one slot row on the bucket of its day.\<close>

definition charge :: "schedule_db \<Rightarrow> int \<Rightarrow> schedule_slot \<Rightarrow> usage \<Rightarrow> usage" where
  "charge st reservation r u =
     (case Option.bind (sl_job r) (\<lambda>jid. find_job (sl_workspace r) jid (st_queue st)) of
        None \<Rightarrow> u\<lparr>us_unknown := True\<rparr>
      | Some j \<Rightarrow>
          (case jo_status j of
             Completed \<Rightarrow>
               (case measured_cost (sl_workspace r) (run_of_result (jo_result j)) st of
                  None \<Rightarrow> u\<lparr>us_unknown := True\<rparr>
                | Some c \<Rightarrow> u\<lparr>us_actual := us_actual u + c\<rparr>)
           | Queued \<Rightarrow> u\<lparr>us_reserved := us_reserved u + reservation\<rparr>
           | Leased \<Rightarrow> u\<lparr>us_reserved := us_reserved u + reservation\<rparr>
           | _ \<Rightarrow> u\<lparr>us_unknown := True\<rparr>))"

definition charge_row :: "schedule_db \<Rightarrow> int \<Rightarrow> schedule_slot \<Rightarrow> (int \<Rightarrow> usage option) \<Rightarrow> int \<Rightarrow> usage option" where
  "charge_row st reservation r us =
     (if sl_state r = Slot_failed then us
      else us(slot_day (sl_at r) \<mapsto>
        charge st reservation r (case us (slot_day (sl_at r)) of None \<Rightarrow> no_usage | Some u \<Rightarrow> u)))"

definition daily_cost_usage :: "string \<Rightarrow> string \<Rightarrow> int \<Rightarrow> schedule_db \<Rightarrow> (int \<Rightarrow> usage option) res" where
  "daily_cost_usage sid ws reservation st =
     bind_res (ensure (0 \<le> reservation) ValueError) (\<lambda>_.
       Inr (fold (charge_row st reservation) (list_schedule_slots sid ws st) Map.empty))"

section \<open>Creating a schedule\<close>

definition plan_project :: "run_plan \<Rightarrow> pyval res" where
  "plan_project p =
     (case map_of (rp_content p) ''version_refs'' of
        None \<Rightarrow> Inl KeyError | Some (VDict d) \<Rightarrow> Inr (dict_get d ''project_id'') | Some _ \<Rightarrow> Inl AttributeError)"

definition schedule_invalid :: exn where
  "schedule_invalid = WorkflowError ''schedule_invalid''"

text \<open>The \<open>except (ValueError, TypeError)\<close> around the parsing of zone and time.\<close>

definition as_schedule_invalid :: "'a res \<Rightarrow> 'a res" where
  "as_schedule_invalid r = (case r of Inl e \<Rightarrow> Inl (if e = ValueError \<or> e = TypeError then schedule_invalid else e) | Inr x \<Rightarrow> Inr x)"

definition insert_schedule :: "schedule_env \<Rightarrow> schedule \<Rightarrow> schedule_db \<Rightarrow> (schedule \<times> schedule_db) res" where
  "insert_schedule env c st =
     (let st' = st\<lparr>st_schedules := st_schedules st @ [c], st_next := Suc (st_next st)\<rparr> in
      case get_schedule (sc_id c) (sc_workspace c) st' of None \<Rightarrow> Inl AttributeError | Some d \<Rightarrow> Inr (d, st'))"

definition create_schedule ::
  "schedule_env \<Rightarrow> actor \<Rightarrow> string \<Rightarrow> string \<Rightarrow> string \<Rightarrow> string \<Rightarrow> string \<Rightarrow> string \<Rightarrow> string \<Rightarrow> int \<Rightarrow> int \<Rightarrow> int \<Rightarrow>
    schedule_db \<Rightarrow> (schedule \<times> schedule_db) res" where
  "create_schedule env a pid plan_hash aid timezone_name local_time dst_policy version_policy
      daily_request_limit daily_budget now st =
     bind_res (require_actor a True None) (\<lambda>_.
     bind_res (as_schedule_invalid (se_zone env timezone_name)) (\<lambda>_.
     bind_res (as_schedule_invalid (case se_time env local_time of None \<Rightarrow> Inl ValueError | Some t \<Rightarrow> Inr t)) (\<lambda>(t, aware).
     bind_res (ensure (\<not> aware \<and> t mod 60000000 = 0) schedule_invalid) (\<lambda>_.
     bind_res (ensure (dst_policy \<in> {''first'', ''skip''}) schedule_invalid) (\<lambda>_.
     bind_res (ensure (version_policy = ''frozen'') (WorkflowError ''schedule_version_policy_unsupported'')) (\<lambda>_.
     bind_res (ensure (1 \<le> daily_request_limit \<and> daily_request_limit \<le> 10000) schedule_invalid) (\<lambda>_.
     bind_res (ensure (0 \<le> daily_budget) schedule_invalid) (\<lambda>_.
     bind_res (get_plan a pid (st_plans st)) (\<lambda>p.
     bind_res (ensure (rp_digest p = plan_hash \<and> rp_state p = Validated) (WorkflowError ''authorization_hash_mismatch'')) (\<lambda>_.
       case get_run_authorization aid (ac_workspace_id a) (st_plans st) of
         None \<Rightarrow> Inl (WorkflowError ''authorization_unavailable'')
       | Some u \<Rightarrow>
           bind_res (ensure (au_plan u = pid \<and> au_hash u = plan_hash) (WorkflowError ''authorization_unavailable'')) (\<lambda>_.
           bind_res (ensure (au_state u = Authorized \<and> now < au_expires u) (WorkflowError ''authorization_expired'')) (\<lambda>_.
           bind_res (plan_project p) (\<lambda>project.
             case project of
               VStr i \<Rightarrow>
                 bind_res (ensure (i \<noteq> [] \<and> pe_project (se_plan env) (ac_workspace_id a) i) NotFound) (\<lambda>_.
                   insert_schedule env
                     \<lparr>sc_id = se_uuid env (st_next st), sc_workspace = ac_workspace_id a, sc_project = i,
                      sc_plan = pid, sc_plan_hash = plan_hash, sc_authorization = aid,
                      sc_timezone = timezone_name, sc_local_time = t, sc_state = Active,
                      sc_dst_policy = dst_policy, sc_version_policy = version_policy,
                      sc_request_limit = daily_request_limit, sc_budget = daily_budget,
                      sc_created = now, sc_updated = now\<rparr> st)
             | _ \<Rightarrow> Inl NotFound)))))))))))))"

definition set_state :: "actor \<Rightarrow> string \<Rightarrow> schedule_mode \<Rightarrow> int \<Rightarrow> schedule_db \<Rightarrow> (schedule \<times> schedule_db) res" where
  "set_state a sid mode now st =
     bind_res (require_actor a True None) (\<lambda>_.
     bind_res (ensure (get_schedule sid (ac_workspace_id a) st \<noteq> None) NotFound) (\<lambda>_.
       set_schedule_state (ac_workspace_id a) sid mode now st))"

section \<open>The sweep\<close>

text \<open>The guard at the head of \<open>sweep\<close>: plan and authorization are still the ones of the schedule.\<close>

definition schedule_runnable :: "schedule \<Rightarrow> run_plan \<Rightarrow> authorization option \<Rightarrow> int \<Rightarrow> bool" where
  "schedule_runnable c p u now =
     (rp_digest p = sc_plan_hash c \<and> rp_state p = Validated \<and>
      (case u of None \<Rightarrow> False | Some u \<Rightarrow> au_state u = Authorized \<and> now < au_expires u))"

text \<open>Whether the plan names a target whose verification is not valid any more.\<close>

definition target_stale :: "schedule_env \<Rightarrow> actor \<Rightarrow> run_plan \<Rightarrow> int \<Rightarrow> schedule_db \<Rightarrow> bool res" where
  "target_stale env a p now st =
     bind_res (sub_dict (rp_content p) ''version_refs'') (\<lambda>refs.
       case dict_get refs ''target_version_id'' of
         VStr vid \<Rightarrow>
           if vid = [] then Inr False
           else (case get_version a vid (pd_versions (st_plans st)) of
               Inl e \<Rightarrow> if e = NotFound then Inr True else Inl e
             | Inr v \<Rightarrow> bind_res (sub_dict (vr_content v) ''verification'') (\<lambda>d.
                 Inr (verification_blockers (pe_externals (se_plan env)) now d \<noteq> [])))
       | v \<Rightarrow> Inr (truthy v))"

text \<open>\<open>int(limits.get('budget_usd_micros', 0))\<close>; a validated plan has an integer there.\<close>

definition plan_budget :: "run_plan \<Rightarrow> int res" where
  "plan_budget p =
     bind_res (sub_dict (rp_content p) ''limits'') (\<lambda>limits.
       case as_int (get_default limits ''budget_usd_micros'' (VInt 0)) of None \<Rightarrow> Inl TypeError | Some b \<Rightarrow> Inr b)"

definition daily_counts :: "schedule_slot list \<Rightarrow> int \<Rightarrow> int" where
  "daily_counts slots day =
     int (length (filter (\<lambda>r. sl_state r \<noteq> Slot_failed \<and> slot_day (sl_at r) = day) slots))"

text \<open>What the loop over the slots carries.\<close>

record sweep_state =
  ss_db :: schedule_db
  ss_counts :: "int \<Rightarrow> int"
  ss_usage :: "int \<Rightarrow> usage option"

definition usage_of :: "(int \<Rightarrow> usage option) \<Rightarrow> int \<Rightarrow> usage" where
  "usage_of us day = (case us day of None \<Rightarrow> no_usage | Some u \<Rightarrow> u)"

definition over_limits :: "schedule \<Rightarrow> int \<Rightarrow> int \<Rightarrow> sweep_state \<Rightarrow> bool" where
  "over_limits c budget day ss =
     (sc_request_limit c \<le> ss_counts ss day \<or>
      sc_budget c \<noteq> 0 \<and>
        (us_unknown (usage_of (ss_usage ss) day) \<or>
         sc_budget c < us_actual (usage_of (ss_usage ss) day) + us_reserved (usage_of (ss_usage ss) day) + budget))"

definition slot_command :: "schedule \<Rightarrow> string \<Rightarrow> pyval" where
  "slot_command c key =
     VDict [(''kind'', VStr ''evaluation_run''), (''plan_id'', VStr (sc_plan c)), (''plan_hash'', VStr (sc_plan_hash c)),
            (''authorization_id'', VStr (sc_authorization c)), (''schedule_id'', VStr (sc_id c)),
            (''schedule_slot'', VStr key)]"

definition job_key :: "schedule \<Rightarrow> string \<Rightarrow> string" where
  "job_key c key = ''schedule:'' @ sc_id c @ '':'' @ key"

text \<open>The body of the loop on one due slot: the job it enqueued, if any.\<close>

definition sweep_slot ::
  "schedule_env \<Rightarrow> actor \<Rightarrow> schedule \<Rightarrow> int \<Rightarrow> string \<Rightarrow> int \<Rightarrow> slot \<Rightarrow> sweep_state \<Rightarrow> job option res \<times> sweep_state" where
  "sweep_slot env a c budget owner now slot ss =
     (let ws = ac_workspace_id a; key = se_key env (sc_id c) slot; day = slot_day slot in
      if over_limits c budget day ss then (Inr None, ss)
      else case claim_schedule_slot ws (sc_id c) key slot owner now (ss_db ss) of
        (False, st) \<Rightarrow> (Inr None, ss\<lparr>ss_db := st\<rparr>)
      | (True, st) \<Rightarrow>
          (case enqueue (se_jobs env) a (slot_command c key) (job_key c key) 3 now (st_queue st) of
             Inl e \<Rightarrow>
               (case set_schedule_slot_job ws (sc_id c) key Slot_failed None now st of
                  (r, st') \<Rightarrow> (case r of Inl e' \<Rightarrow> Inl e' | Inr _ \<Rightarrow> Inl e, ss\<lparr>ss_db := st'\<rparr>))
           | Inr (j, q) \<Rightarrow>
               (case set_schedule_slot_job ws (sc_id c) key Slot_queued (Some (jo_id j)) now (st\<lparr>st_queue := q\<rparr>) of
                  (Inl e, st') \<Rightarrow> (Inl e, ss\<lparr>ss_db := st'\<rparr>)
                | (Inr _, st') \<Rightarrow>
                    (Inr (Some j),
                     \<lparr>ss_db = st', ss_counts = (ss_counts ss)(day := ss_counts ss day + 1),
                      ss_usage = (ss_usage ss)(day \<mapsto> (usage_of (ss_usage ss) day)
                        \<lparr>us_reserved := us_reserved (usage_of (ss_usage ss) day) + budget\<rparr>)\<rparr>))))"

fun sweep_loop ::
  "schedule_env \<Rightarrow> actor \<Rightarrow> schedule \<Rightarrow> int \<Rightarrow> string \<Rightarrow> int \<Rightarrow> slot list \<Rightarrow> sweep_state \<Rightarrow> job list res \<times> sweep_state" where
  "sweep_loop env a c budget owner now [] ss = (Inr [], ss)"
| "sweep_loop env a c budget owner now (slot # slots) ss =
     (case sweep_slot env a c budget owner now slot ss of
        (Inl e, ss') \<Rightarrow> (Inl e, ss')
      | (Inr r, ss') \<Rightarrow>
          (case sweep_loop env a c budget owner now slots ss' of
             (Inl e, ss'') \<Rightarrow> (Inl e, ss'')
           | (Inr js, ss'') \<Rightarrow> (Inr (case r of None \<Rightarrow> js | Some j \<Rightarrow> j # js), ss'')))"

definition sweep_slots ::
  "schedule_env \<Rightarrow> actor \<Rightarrow> schedule \<Rightarrow> run_plan \<Rightarrow> int \<Rightarrow> int \<Rightarrow> string \<Rightarrow> int \<Rightarrow> schedule_db \<Rightarrow>
    job list res \<times> schedule_db" where
  "sweep_slots env a c p start end owner now st =
     (case bind_res (due_daily_slots (se_zone env) start end (sc_local_time c) (sc_timezone c) (sc_dst_policy c)) (\<lambda>slots.
           bind_res (plan_budget p) (\<lambda>budget.
           bind_res (daily_cost_usage (sc_id c) (ac_workspace_id a) budget st) (\<lambda>usage.
             Inr (slots, budget, usage)))) of
        Inl e \<Rightarrow> (Inl e, st)
      | Inr (slots, budget, usage) \<Rightarrow>
          (case sweep_loop env a c budget owner now slots
                  \<lparr>ss_db = st, ss_counts = daily_counts (list_schedule_slots (sc_id c) (ac_workspace_id a) st),
                   ss_usage = usage\<rparr> of
             (r, ss) \<Rightarrow> (r, ss_db ss)))"

definition sweep ::
  "schedule_env \<Rightarrow> actor \<Rightarrow> string \<Rightarrow> int \<Rightarrow> int \<Rightarrow> string \<Rightarrow> int \<Rightarrow> schedule_db \<Rightarrow> job list res \<times> schedule_db" where
  "sweep env a sid start end owner now st =
     (case require_actor a True None of
        Inl e \<Rightarrow> (Inl e, st)
      | Inr _ \<Rightarrow>
          (case get_schedule sid (ac_workspace_id a) st of
             None \<Rightarrow> (Inl NotFound, st)
           | Some c \<Rightarrow>
               if sc_state c \<noteq> Active then (Inr [], st)
               else (case get_plan a (sc_plan c) (st_plans st) of
                   Inl e \<Rightarrow> (Inl e, st)
                 | Inr p \<Rightarrow>
                     if \<not> schedule_runnable c p
                          (get_run_authorization (sc_authorization c) (ac_workspace_id a) (st_plans st)) now
                     then (Inr [], st)
                     else (case target_stale env a p now st of
                         Inl e \<Rightarrow> (Inl e, st)
                       | Inr True \<Rightarrow>
                           (case set_schedule_state (ac_workspace_id a) sid Paused now st of
                              Inl e \<Rightarrow> (Inl e, st) | Inr (_, st') \<Rightarrow> (Inr [], st'))
                       | Inr False \<Rightarrow> sweep_slots env a c p start end owner now st))))"

end
