(* ===== verification/VersionProps.thy ===== *)
theory VersionProps
  imports Versions JobQueueSafety
begin

text \<open>
  Correctness of the version store: the versions of a parent form a chain of consecutive revisions that
  the head points at, a version never changes, and concurrent authors cannot overwrite each other.
\<close>

section \<open>Histories\<close>

definition history :: "string \<Rightarrow> string \<Rightarrow> string \<Rightarrow> version_store \<Rightarrow> version list" where
  "history ws kind parent s =
     filter (\<lambda>v. vr_workspace v = ws \<and> vr_kind v = kind \<and> vr_parent v = parent) (vs_versions s)"

text \<open>Revisions count from 1, and each version names its predecessor.\<close>

definition chained :: "version list \<Rightarrow> bool" where
  "chained vs =
     (map vr_revision vs = map int [1..<Suc (length vs)] \<and>
      map vr_previous vs = take (length vs) (None # map (\<lambda>v. Some (vr_id v)) vs))"

definition active_of :: "version list \<Rightarrow> string option" where
  "active_of vs = (if vs = [] then None else Some (vr_id (last vs)))"

definition head_ok :: "version_head option \<Rightarrow> version list \<Rightarrow> bool" where
  "head_ok h vs =
     (case h of None \<Rightarrow> vs = [] | Some h \<Rightarrow> vh_revision h = int (length vs) \<and> vh_active h = active_of vs)"

definition store_ok :: "version_env \<Rightarrow> version_store \<Rightarrow> bool" where
  "store_ok env s =
     ((\<forall>ws kind parent. chained (history ws kind parent s) \<and>
        head_ok (find_head ws kind parent s) (history ws kind parent s)) \<and>
      distinct (map (\<lambda>h. (vh_workspace h, vh_kind h, vh_parent h)) (vs_heads s)) \<and>
      distinct (map vr_id (vs_versions s)) \<and> vr_id ` set (vs_versions s) \<subseteq> ve_uuid env ` {..<vs_next s})"

lemma chained_snoc:
  assumes "chained vs" "vr_revision v = int (length vs) + 1" "vr_previous v = active_of vs"
  shows "chained (vs @ [v])"
proof -
  have "take (length (vs @ [v])) (None # map (\<lambda>v. Some (vr_id v)) (vs @ [v])) =
      take (length vs) (None # map (\<lambda>v. Some (vr_id v)) vs) @ [active_of vs]"
  proof (cases vs rule: rev_cases)
    case (snoc us u)
    then show ?thesis
      by (simp add: active_of_def)
  qed (simp add: active_of_def)
  moreover have "map int [1..<Suc (length (vs @ [v]))] = map int [1..<Suc (length vs)] @ [int (length vs) + 1]"
    by simp
  ultimately show ?thesis
    using assms unfolding chained_def by simp
qed

lemma find_last_key:
  assumes "distinct (map f (xs @ [x]))" "p x"
  shows "find (\<lambda>y. p y \<and> f y = f x) (xs @ [x]) = Some x"
  using assms by (induction xs) auto

lemma find_head_Some:
  "find_head ws kind parent s = Some h \<Longrightarrow> h \<in> set (vs_heads s) \<and> is_head ws kind parent h"
  by (auto simp: find_head_def find_Some_iff)

lemma find_head_ensure:
  "find_head ws' kind' parent' (ensure_head ws kind parent s) =
     (if ws' = ws \<and> kind' = kind \<and> parent' = parent \<and> find_head ws kind parent s = None
      then Some \<lparr>vh_workspace = ws, vh_kind = kind, vh_parent = parent, vh_revision = 0, vh_active = None\<rparr>
      else find_head ws' kind' parent' s)"
  by (auto simp: ensure_head_def find_head_def find_append is_head_def split: option.split)

lemma ensure_head_simps [simp]:
  "vs_versions (ensure_head ws kind parent s) = vs_versions s"
  "vs_next (ensure_head ws kind parent s) = vs_next s"
  "history ws' kind' parent' (ensure_head ws kind parent s) = history ws' kind' parent' s"
  by (simp_all add: ensure_head_def history_def split: option.split)

lemma ensure_head_keys:
  assumes "distinct (map (\<lambda>h. (vh_workspace h, vh_kind h, vh_parent h)) (vs_heads s))"
  shows "distinct (map (\<lambda>h. (vh_workspace h, vh_kind h, vh_parent h)) (vs_heads (ensure_head ws kind parent s)))"
  using assms by (auto simp: ensure_head_def find_head_def find_None_iff is_head_def split: option.split)

section \<open>Creation\<close>

lemma create_version_commits:
  assumes "create_version env a kind parent content expected now s = Inr (v, s')"
  obtains d p arts where "json_copy content = VDict d" "kind \<in> set VERSION_KINDS" "0 \<le> expected"
    "commit_version env a kind parent d p arts expected now s = Inr (v, s')"
  using assms
  by (auto simp: create_version_def bind_res_Inr_iff ensure_Inr_iff split: pyval.splits)

lemma commit_version_Inr:
  assumes "commit_version env a kind parent d p arts expected now s = Inr (v, s')"
  defines "ws \<equiv> ac_workspace_id a"
  obtains h where "find_head ws kind parent (ensure_head ws kind parent s) = Some h" "vh_revision h = expected"
    "vr_id v = ve_uuid env (vs_next s)" "vr_workspace v = ws" "vr_kind v = kind" "vr_parent v = parent"
    "vr_previous v = vh_active h" "vr_revision v = expected + 1" "vr_content v = d"
    "vs_versions s' = vs_versions s @ [v]" "vs_next s' = Suc (vs_next s)"
    "vs_heads s' = map (\<lambda>h. if is_head ws kind parent h \<and> vh_revision h = expected
        then h\<lparr>vh_active := Some (vr_id v), vh_revision := expected + 1\<rparr> else h) (vs_heads (ensure_head ws kind parent s))"
  using assms
  by (auto simp: commit_version_def Let_def bind_res_Inr_iff ensure_Inr_iff split: option.splits)

lemma commit_version_ok:
  assumes ok: "store_ok env s" and inj: "inj (ve_uuid env)"
    and r: "commit_version env a kind parent d p arts expected now s = Inr (v, s')"
  shows "store_ok env s'"
proof -
  let ?ws = "ac_workspace_id a"
  let ?s1 = "ensure_head ?ws kind parent s"
  obtain h where h: "find_head ?ws kind parent ?s1 = Some h" "vh_revision h = expected"
    and v: "vr_id v = ve_uuid env (vs_next s)" "vr_workspace v = ?ws" "vr_kind v = kind" "vr_parent v = parent"
      "vr_previous v = vh_active h" "vr_revision v = expected + 1"
    and s': "vs_versions s' = vs_versions s @ [v]" "vs_next s' = Suc (vs_next s)"
      "vs_heads s' = map (\<lambda>h. if is_head ?ws kind parent h \<and> vh_revision h = expected
        then h\<lparr>vh_active := Some (vr_id v), vh_revision := expected + 1\<rparr> else h) (vs_heads ?s1)"
    by (rule commit_version_Inr [OF r]) blast
  let ?g = "\<lambda>h. if is_head ?ws kind parent h \<and> vh_revision h = expected
      then h\<lparr>vh_active := Some (vr_id v), vh_revision := expected + 1\<rparr> else h"
  have hist: "history w k q s' = history w k q s @ (if w = ?ws \<and> k = kind \<and> q = parent then [v] else [])" for w k q
    using v by (auto simp: history_def s'(1))
  have heads: "find_head w k q s' = map_option ?g (find_head w k q ?s1)" for w k q
    unfolding find_head_def s'(3) by (rule find_map_id) (simp add: is_head_def)
  have chain: "chained (history w k q s)" "head_ok (find_head w k q s) (history w k q s)" for w k q
    using ok unfolding store_ok_def by blast+
  have h_ok: "vh_revision h = int (length (history ?ws kind parent s))" "vh_active h = active_of (history ?ws kind parent s)"
    using h(1) chain(2) [of ?ws kind parent] by (auto simp: find_head_ensure head_ok_def active_of_def split: if_splits)
  have "chained (history w k q s') \<and> head_ok (find_head w k q s') (history w k q s')" for w k q
  proof (cases "w = ?ws \<and> k = kind \<and> q = parent")
    case True
    have "find_head w k q s' = Some (h\<lparr>vh_active := Some (vr_id v), vh_revision := expected + 1\<rparr>)"
      using True h find_head_Some [OF h(1)] by (simp add: heads)
    moreover have "chained (history w k q s @ [v])"
      using True chained_snoc [OF chain(1)] h_ok h(2) v(5,6) by simp
    ultimately show ?thesis
      using True h_ok h(2) by (simp add: hist head_ok_def active_of_def)
  next
    case False
    have same: "find_head w k q ?s1 = find_head w k q s"
      using False unfolding find_head_ensure by meson
    have "find_head w k q s' = find_head w k q s"
    proof (cases "find_head w k q s")
      case (Some g)
      then have "\<not> is_head ?ws kind parent g"
        using False find_head_Some [OF Some] by (auto simp: is_head_def)
      then show ?thesis
        unfolding heads same Some by simp
    qed (simp add: heads same)
    moreover have "history w k q s' = history w k q s"
      unfolding hist if_not_P [OF False] by (rule append_Nil2)
    ultimately show ?thesis
      using chain by metis
  qed
  moreover have "distinct (map (\<lambda>h. (vh_workspace h, vh_kind h, vh_parent h)) (vs_heads s'))"
  proof -
    have "map (\<lambda>h. (vh_workspace h, vh_kind h, vh_parent h)) (vs_heads s') =
        map (\<lambda>h. (vh_workspace h, vh_kind h, vh_parent h)) (vs_heads ?s1)"
      unfolding s'(3) by simp
    then show ?thesis
      using ok ensure_head_keys unfolding store_ok_def by simp
  qed
  moreover have "distinct (map vr_id (vs_versions s'))" "vr_id ` set (vs_versions s') \<subseteq> ve_uuid env ` {..<vs_next s'}"
  proof -
    have "ve_uuid env (vs_next s) \<notin> ve_uuid env ` {..<vs_next s}"
      using inj by (auto dest: injD)
    then show "distinct (map vr_id (vs_versions s'))" "vr_id ` set (vs_versions s') \<subseteq> ve_uuid env ` {..<vs_next s'}"
      using ok v(1) unfolding store_ok_def s'(1,2) by auto
  qed
  ultimately show ?thesis
    unfolding store_ok_def by blast
qed

section \<open>Runs\<close>

inductive version_step :: "version_env \<Rightarrow> version_store \<Rightarrow> version_store \<Rightarrow> bool" for env where
  "create_version env a kind parent content expected now s = Inr (v, s') \<Longrightarrow> version_step env s s'"

definition version_run :: "version_env \<Rightarrow> version_store \<Rightarrow> version_store \<Rightarrow> bool" where
  "version_run env = (version_step env)\<^sup>*\<^sup>*"

definition empty_store :: version_store where
  "empty_store = \<lparr>vs_versions = [], vs_heads = [], vs_links = [], vs_next = 0\<rparr>"

lemma empty_store_ok: "store_ok env empty_store"
  by (simp add: store_ok_def empty_store_def history_def chained_def head_ok_def find_head_def)

lemma version_step_ok:
  assumes "version_step env s s'" "store_ok env s" "inj (ve_uuid env)"
  shows "store_ok env s'"
  using assms(1)
proof cases
  case (1 a kind parent content expected now v)
  obtain d p arts where "commit_version env a kind parent d p arts expected now s = Inr (v, s')"
    by (rule create_version_commits [OF 1]) blast
  then show ?thesis
    by (rule commit_version_ok [OF assms(2,3)])
qed

lemma version_run_ok:
  assumes "version_run env s s'" "store_ok env s" "inj (ve_uuid env)"
  shows "store_ok env s'"
  using assms unfolding version_run_def by (induction rule: rtranclp_induct) (auto intro: version_step_ok)

text \<open>A step only appends.\<close>

lemma version_step_appends:
  assumes "version_step env s s'"
  shows "\<exists>vs. vs_versions s' = vs_versions s @ vs"
  using assms
proof cases
  case (1 a kind parent content expected now v)
  obtain d p arts where "commit_version env a kind parent d p arts expected now s = Inr (v, s')"
    by (rule create_version_commits [OF 1]) blast
  then show ?thesis
    by (rule commit_version_Inr) blast
qed

lemma version_run_appends:
  assumes "version_run env s s'"
  shows "\<exists>vs. vs_versions s' = vs_versions s @ vs"
  using assms unfolding version_run_def
proof (induction rule: rtranclp_induct)
  case (step u v)
  then show ?case
    using version_step_appends [OF step.hyps(2)] by auto
qed simp

lemma history_appends: "version_run env s s' \<Longrightarrow> length (history ws kind parent s) \<le> length (history ws kind parent s')"
  using version_run_appends [of env s s'] by (auto simp: history_def)

lemma find_version_run: "version_run env s s' \<Longrightarrow> find_version ws vid s = Some v \<Longrightarrow> find_version ws vid s' = Some v"
  using version_run_appends [of env s s'] by (auto simp: find_version_def find_append)

text \<open>
  In every state the store can reach, the versions of a parent are numbered 1, 2, 3 without gaps in the
  order they were created, each names the one before it as its predecessor, and the head carries the
  number and the id of the last one.
\<close>

theorem version_history:
  assumes "inj (ve_uuid env)" "version_run env empty_store s"
  shows "chained (history ws kind parent s) \<and> head_ok (find_head ws kind parent s) (history ws kind parent s)"
  using version_run_ok [OF assms(2) empty_store_ok assms(1)] unfolding store_ok_def by blast

text \<open>
  C39. No lost update: when two authors create versions of the same parent, the second only succeeds with the
  head it has seen: if it presents a revision older than the first author's version it is refused with
  \<open>conflict\<close> or an error of its own arguments, and when it succeeds its revision is higher and the first
  version is still there, unchanged.
\<close>

theorem no_lost_update:
  assumes inj: "inj (ve_uuid env)" and reach: "version_run env empty_store s"
    and first: "create_version env a kind parent content expected now s = Inr (v, s1)"
    and run: "version_run env s1 s2" and same: "ac_workspace_id b = ac_workspace_id a"
  shows "(case create_version env b kind parent content' expected' now' s2 of
      Inl e \<Rightarrow> True
    | Inr (v', s3) \<Rightarrow> expected < expected' \<and> vr_revision v < vr_revision v' \<and>
        get_version b (vr_id v) s3 = Inr v)"
proof (cases "create_version env b kind parent content' expected' now' s2")
  case (Inr r)
  then obtain v' s3 where second: "create_version env b kind parent content' expected' now' s2 = Inr (v', s3)"
    by (cases r) simp
  let ?ws = "ac_workspace_id a"
  obtain d p arts where "commit_version env a kind parent d p arts expected now s = Inr (v, s1)"
    by (rule create_version_commits [OF first]) blast
  then obtain v: "vs_versions s1 = vs_versions s @ [v]" "vr_workspace v = ?ws" "vr_kind v = kind" "vr_parent v = parent"
      "vr_revision v = expected + 1"
    by (rule commit_version_Inr) blast
  obtain d' p' arts' where "commit_version env b kind parent d' p' arts' expected' now' s2 = Inr (v', s3)"
    by (rule create_version_commits [OF second]) blast
  then obtain h where h: "find_head (ac_workspace_id b) kind parent (ensure_head (ac_workspace_id b) kind parent s2) = Some h"
      "vh_revision h = expected'" "vr_revision v' = expected' + 1"
    by (rule commit_version_Inr) blast
  have step: "version_step env s s1" "version_step env s2 s3"
    using first second by (auto intro: version_step.intros)
  have ok1: "store_ok env s1"
    by (rule version_step_ok [OF step(1) version_run_ok [OF reach empty_store_ok inj] inj])
  have ok2: "store_ok env s2"
    by (rule version_run_ok [OF run ok1 inj])
  have hist1: "history ?ws kind parent s1 = history ?ws kind parent s @ [v]"
    using v by (simp add: history_def)
  have "chained (history ?ws kind parent s1)"
    using ok1 unfolding store_ok_def by blast
  then have "vr_revision (last (history ?ws kind parent s1)) = int (length (history ?ws kind parent s1))"
    unfolding chained_def hist1 by simp
  then have n1: "expected + 1 = int (length (history ?ws kind parent s1))"
    using v(5) by (simp add: hist1)
  have "head_ok (find_head ?ws kind parent s2) (history ?ws kind parent s2)"
    using ok2 unfolding store_ok_def by blast
  moreover have "history ?ws kind parent s2 \<noteq> []"
    using history_appends [OF run, of ?ws kind parent] by (auto simp: hist1)
  ultimately have "expected' = int (length (history ?ws kind parent s2))"
    using h(1,2) by (auto simp: same find_head_ensure head_ok_def split: if_splits option.splits)
  with n1 history_appends [OF run, of ?ws kind parent] have less: "expected < expected'"
    by simp
  have "distinct (map vr_id (vs_versions s @ [v]))"
    using ok1 unfolding store_ok_def v(1) by blast
  then have "find_version ?ws (vr_id v) s1 = Some v"
    unfolding find_version_def v(1) by (rule find_last_key) (simp add: v(2))
  moreover have run3: "version_run env s1 s3"
    using run step(2) unfolding version_run_def by (rule rtranclp.rtrancl_into_rtrancl)
  ultimately have "find_version ?ws (vr_id v) s3 = Some v"
    using find_version_run by blast
  moreover have "require_actor b False None = Inr ()"
    using second by (auto simp: create_version_def bind_res_Inr_iff require_actor_def ensure_Inr_iff split: if_splits)
  ultimately have "get_version b (vr_id v) s3 = Inr v"
    by (simp add: get_version_def same)
  with second less v(5) h(3) show ?thesis
    by simp
qed simp

section \<open>A sample run\<close>

definition sample_versions :: version_env where
  "sample_versions = \<lparr>ve_uuid = (\<lambda>n. replicate (Suc n) (CHR ''v'')), ve_digest = (\<lambda>_. []),
     ve_parent = (\<lambda>_ p. p = ''project''), ve_artifact = (\<lambda>_ _. True)\<rparr>"

definition sample_create :: "int \<Rightarrow> version_store \<Rightarrow> (version \<times> version_store) res" where
  "sample_create revision s =
     create_version sample_versions demo_actor ''dataset'' ''project'' (VDict [(''cases'', VList [])]) revision 0 s"

definition sample_store :: version_store where
  "sample_store = (case sample_create 0 empty_store of Inl e \<Rightarrow> empty_store | Inr (v, s) \<Rightarrow> s)"

lemma sample_inj: "inj (ve_uuid sample_versions)"
  by (auto simp: sample_versions_def inj_def dest: arg_cong [where f = length])

lemma sample_first: "\<exists>v. sample_create 0 empty_store = Inr (v, sample_store)"
proof -
  have "returns (sample_create 0 empty_store)"
    by code_simp
  then show ?thesis
    by (auto simp: sample_store_def elim!: returnsE)
qed

lemma sample_run: "version_run sample_versions empty_store sample_store"
proof -
  have "version_step sample_versions empty_store sample_store"
    using sample_first unfolding sample_create_def by (blast intro: version_step.intros)
  then show ?thesis
    unfolding version_run_def by blast
qed

theorem version_history_witness: "chained (history ''w'' ''dataset'' ''project'' sample_store)"
  using version_history [OF sample_inj sample_run] by blast

theorem no_lost_update_witness:
  "(case sample_create 0 sample_store of Inl e \<Rightarrow> True | Inr (v', s3) \<Rightarrow> False)"
proof -
  obtain v where v: "create_version sample_versions demo_actor ''dataset'' ''project'' (VDict [(''cases'', VList [])]) 0 0 empty_store
      = Inr (v, sample_store)"
    using sample_first unfolding sample_create_def by blast
  have "version_run sample_versions empty_store empty_store" "version_run sample_versions sample_store sample_store"
    by (simp_all add: version_run_def)
  from no_lost_update [OF sample_inj this(1) v this(2) refl,
      where content' = "VDict [(''cases'', VList [])]" and expected' = 0 and now' = 0] show ?thesis
    by (auto simp: sample_create_def split: sum.splits)
qed

end
