(* ===== verification/RunPlanProps.thy ===== *)
theory RunPlanProps
  imports RunPlans VersionProps
begin

text \<open>
  Correctness of planning and authorization: a plan is validated exactly when nothing it depends on is
  missing, and a run is enqueued only for a validated plan, under an unexpired authorization of exactly its
  digest.
\<close>

section \<open>When a plan is ready\<close>

text \<open>The specification reads the references once, as a map; the code walks them in loops.\<close>

definition ref_version :: "plan_db \<Rightarrow> actor \<Rightarrow> pydict \<Rightarrow> string \<Rightarrow> version option" where
  "ref_version db a vrefs k =
     (case dict_get vrefs k of VStr i \<Rightarrow> find_version (ac_workspace_id a) i (pd_versions db) | _ \<Rightarrow> None)"

definition source_ready :: "version \<Rightarrow> bool" where
  "source_ready v = (dict_get (vr_content v) ''readiness'' = VStr ''executable'')"

definition target_ready :: "externals \<Rightarrow> int \<Rightarrow> version \<Rightarrow> bool" where
  "target_ready X now v =
     (vr_kind v = ''target'' \<and>
      (case dict_get (vr_content v) ''verification'' of
         VDict d \<Rightarrow> dict_get d ''state'' = VStr ''verified'' \<and> \<not> expiry_stale X now (dict_get d ''expires_at'')
       | _ \<Rightarrow> False))"

definition capability_met :: "pydict res \<Rightarrow> string \<Rightarrow> bool" where
  "capability_met caps c =
     (case caps of Inl e \<Rightarrow> False | Inr cs \<Rightarrow> dict_get cs c \<in> {VStr ''observed'', VStr ''declared''})"

text \<open>Every capability a metric of the evaluation needs was observed or declared by the target.\<close>

definition target_fits :: "pydict \<Rightarrow> pydict \<Rightarrow> bool" where
  "target_fits target evaluation =
     (case get_default (spec_of evaluation) ''metrics'' (VList []) of
        VList metrics \<Rightarrow>
          list_all (\<lambda>m. case metric_capability m of
              Inr (Some c) \<Rightarrow>
                capability_met (bind_res (sub_dict target ''verification'') (\<lambda>d. sub_dict d ''capabilities'')) c
            | _ \<Rightarrow> True) metrics
      | _ \<Rightarrow> True)"

definition evaluator_ready :: "plan_db \<Rightarrow> actor \<Rightarrow> string option \<Rightarrow> pydict list \<Rightarrow> string \<times> pyval \<Rightarrow> bool" where
  "evaluator_ready db a project metrics b =
     (case find (\<lambda>m. dict_get m ''metric_id'' = VStr (fst b)) metrics of
        None \<Rightarrow> False
      | Some m \<Rightarrow>
          (case snd b of
             VStr vid \<Rightarrow> vid \<noteq> [] \<and>
               (case find_version (ac_workspace_id a) vid (pd_versions db) of
                  None \<Rightarrow> False
                | Some v \<Rightarrow> vr_kind v = ''evaluator'' \<and> Some (vr_parent v) = project \<and>
                    (case dict_get (vr_content v) ''review'' of
                       VDict r \<Rightarrow> dict_get r ''state'' = VStr ''approved'' | _ \<Rightarrow> False) \<and>
                    (case metric_range m of
                       Inr (VList rs) \<Rightarrow> py_eq (VList rs) (dict_get (vr_content v) ''score_range'') | _ \<Rightarrow> False))
           | _ \<Rightarrow> False))"

definition evaluators_ready :: "plan_db \<Rightarrow> actor \<Rightarrow> string option \<Rightarrow> pydict \<Rightarrow> bool" where
  "evaluators_ready db a project content =
     (case get_default content ''custom_evaluators'' VNull of
        VNull \<Rightarrow> True
      | VDict bs \<Rightarrow> (case bound_metrics content of
            Inl e \<Rightarrow> False | Inr metrics \<Rightarrow> list_all (evaluator_ready db a project metrics) bs)
      | _ \<Rightarrow> False)"

definition limits_ready :: "pydict \<Rightarrow> bool" where
  "limits_ready lims =
     ((case dict_get lims ''tier'' of VNull \<Rightarrow> True | VStr t \<Rightarrow> t \<in> set TIERS | _ \<Rightarrow> False) \<and>
      valid_repeats (get_default lims ''repeats'' (VInt 1)) \<and>
      valid_budget (get_default lims ''budget_usd_micros'' (VInt 0)))"

definition project_of :: "pydict \<Rightarrow> string option" where
  "project_of vrefs = (case dict_get vrefs ''project_id'' of VStr i \<Rightarrow> Some i | _ \<Rightarrow> None)"

definition plan_ready :: "plan_env \<Rightarrow> plan_db \<Rightarrow> actor \<Rightarrow> int \<Rightarrow> pydict \<Rightarrow> pydict \<Rightarrow> bool" where
  "plan_ready env db a now vrefs lims =
     (project_of vrefs \<noteq> None \<and>
      ref_version db a vrefs ''dataset_version_id'' \<noteq> None \<and>
      (case ref_version db a vrefs ''evaluation_version_id'' of
         None \<Rightarrow> False
       | Some e \<Rightarrow> evaluators_ready db a (project_of vrefs) (vr_content e) \<and>
           (case ref_version db a vrefs ''target_version_id'' of
              None \<Rightarrow> True
            | Some t \<Rightarrow> target_ready (pe_externals env) now t \<and> target_fits (vr_content t) (vr_content e))) \<and>
      (case ref_version db a vrefs ''source_version_id'' of None \<Rightarrow> True | Some v \<Rightarrow> source_ready v) \<and>
      limits_ready lims)"

section \<open>Lookups\<close>

lemma map_of_insert_key: "map_of (insert_key (k, v) d) = (map_of d)(k \<mapsto> v)"
proof (induction d)
  case (Cons e d)
  then show ?case
    by (cases e) (auto simp: fun_eq_iff)
qed simp

lemma map_of_sorted: "map_of (foldr insert_key d []) = map_of d"
  by (induction d) (auto simp: map_of_insert_key)

lemma json_copy_dict: "\<exists>e. json_copy (VDict d) = VDict e \<and> map_of e = map_option json_copy \<circ> map_of d"
  by (simp add: map_of_sorted map_of_map comp_def)

lemma json_copy_shape [simp]:
  "json_copy v = VStr s \<longleftrightarrow> v = VStr s" "json_copy v = VInt i \<longleftrightarrow> v = VInt i" "json_copy v = VNull \<longleftrightarrow> v = VNull"
  "is_list (json_copy v) = is_list v" "is_dict (json_copy v) = is_dict v"
  by (cases v; simp)+

lemma require_read: "require_actor a True None = Inr u \<Longrightarrow> require_actor a False None = Inr ()"
  by (auto simp: require_actor_def ensure_Inr_iff split: if_splits)

lemma get_version_iff:
  "require_actor a False None = Inr () \<Longrightarrow>
   get_version a i s = (case find_version (ac_workspace_id a) i s of None \<Rightarrow> Inl NotFound | Some v \<Rightarrow> Inr v)"
  by (simp add: get_version_def)

lemma optional_version_Inr:
  assumes "optional_version a db i = Inr r" "require_actor a False None = Inr ()"
  shows "r = Option.bind i (\<lambda>j. find_version (ac_workspace_id a) j (pd_versions db)) \<and> (r = None \<longleftrightarrow> i = None)"
  using assms
  by (cases i; cases "find_version (ac_workspace_id a) (the i) (pd_versions db)")
     (auto simp: optional_version_def get_version_iff)

lemma find_SomeD: "find P xs = Some x \<Longrightarrow> x \<in> set xs \<and> P x"
  by (auto simp: find_Some_iff)

lemma sub_dict_value:
  assumes "sub_dict d k = Inr e" "dict_get e j = VStr s"
  shows "dict_get d k = VDict e"
  using assms by (auto simp: sub_dict_def Let_def dict_get_def split: if_splits pyval.splits)

lemma sub_dict_dict: "dict_get d k = VDict e \<Longrightarrow> sub_dict d k = Inr e"
  by (simp add: sub_dict_def)

lemma bounded_refs_Inr: "bounded_refs vrefs = Inr refs \<Longrightarrow> vrefs = map (\<lambda>(k, v). (k, VStr v)) refs"
  by (induction vrefs arbitrary: refs rule: bounded_refs.induct)
     (auto simp: bind_res_Inr_iff ensure_Inr_iff split: pyval.splits)

lemma bounded_refs_lookup:
  assumes "bounded_refs vrefs = Inr refs"
  shows "dict_get vrefs k = (case map_of refs k of None \<Rightarrow> VNull | Some i \<Rightarrow> VStr i)"
  unfolding bounded_refs_Inr [OF assms] dict_get_def by (simp add: map_of_map split: option.split)

lemma bounded_refs_version:
  assumes "bounded_refs vrefs = Inr refs"
  shows "ref_version db a vrefs k =
    Option.bind (map_of refs k) (\<lambda>j. find_version (ac_workspace_id a) j (pd_versions db))"
  by (simp add: ref_version_def bounded_refs_lookup [OF assms] split: option.split)

section \<open>Each group of blockers\<close>

definition ref_blockers :: "plan_env \<Rightarrow> plan_db \<Rightarrow> actor \<Rightarrow> int \<Rightarrow> string \<times> string \<Rightarrow> string list" where
  "ref_blockers env db a now kv =
     (if fst kv = ''project_id'' then []
      else case find_version (ac_workspace_id a) (snd kv) (pd_versions db) of
        None \<Rightarrow> []
      | Some v \<Rightarrow>
          if fst kv = ''source_version_id'' then (if source_ready v then [] else [''source_runtime_not_ready''])
          else if fst kv = ''target_version_id'' then
            (if vr_kind v = ''target'' then [] else [''target_version_invalid'']) @
            verification_blockers (pe_externals env) now
              (case sub_dict (vr_content v) ''verification'' of Inl e \<Rightarrow> [] | Inr d \<Rightarrow> d)
          else [])"

text \<open>A reference the loop lets pass names something of the workspace.\<close>

definition ref_resolves :: "plan_env \<Rightarrow> plan_db \<Rightarrow> actor \<Rightarrow> string \<times> string \<Rightarrow> bool" where
  "ref_resolves env db a kv =
     (if fst kv = ''project_id'' then pe_project env (ac_workspace_id a) (snd kv)
      else find_version (ac_workspace_id a) (snd kv) (pd_versions db) \<noteq> None)"

lemma check_ref_Inr:
  assumes "check_ref env db a now kv (bs, caps) = Inr (bs', caps')" "require_actor a False None = Inr ()"
  shows "bs' = bs @ ref_blockers env db a now kv \<and> ref_resolves env db a kv"
proof -
  obtain k i where kv: "kv = (k, i)"
    by (cases kv)
  show ?thesis
  proof (cases "k = ''project_id''")
    case True
    then show ?thesis
      using assms(1)
      by (simp add: kv check_ref_def ref_blockers_def ref_resolves_def bind_res_Inr_iff ensure_Inr_iff)
  next
    case False
    then obtain v where v: "find_version (ac_workspace_id a) i (pd_versions db) = Some v"
      using assms by (cases "find_version (ac_workspace_id a) i (pd_versions db)") (simp_all add: kv check_ref_def get_version_iff)
    note defs = kv check_ref_def ref_blockers_def ref_resolves_def get_version_iff [OF assms(2)] v False
    show ?thesis
    proof (cases "k = ''target_version_id''")
      case True
      then obtain d where "sub_dict (vr_content v) ''verification'' = Inr d"
        using assms(1) by (auto simp: defs bind_res_Inr_iff)
      then show ?thesis
        using assms(1) True by (simp add: defs)
    next
      case False
      then show ?thesis
        using assms(1) by (cases "k = ''source_version_id''") (simp_all add: defs source_ready_def)
    qed
  qed
qed

lemma check_refs_Inr:
  assumes "check_refs env db a now refs (bs, caps) = Inr (bs', caps')" "require_actor a False None = Inr ()"
  shows "bs' = bs @ concat (map (ref_blockers env db a now) refs) \<and> list_all (ref_resolves env db a) refs"
  using assms(1)
proof (induction refs arbitrary: bs caps)
  case (Cons kv refs)
  obtain bs1 caps1 where c: "check_ref env db a now kv (bs, caps) = Inr (bs1, caps1)"
      "check_refs env db a now refs (bs1, caps1) = Inr (bs', caps')"
    using Cons.prems by (auto simp: bind_res_Inr_iff)
  show ?case
    using check_ref_Inr [OF c(1) assms(2)] Cons.IH [OF c(2)] by simp
qed simp

lemma target_blockers_iff:
  assumes "find_version (ac_workspace_id a) i (pd_versions db) = Some v"
  shows "ref_blockers env db a now (''target_version_id'', i) = [] \<longleftrightarrow> target_ready (pe_externals env) now v"
proof (cases "\<exists>d. dict_get (vr_content v) ''verification'' = VDict d")
  case True
  then obtain d where d: "dict_get (vr_content v) ''verification'' = VDict d" by blast
  show ?thesis
    using assms by (simp add: ref_blockers_def target_ready_def verification_blockers_def d sub_dict_dict)
next
  case False
  then have none: "dict_get e ''state'' \<noteq> VStr ''verified''" if "sub_dict (vr_content v) ''verification'' = Inr e" for e
    using sub_dict_value [OF that] by blast
  have "\<not> target_ready (pe_externals env) now v"
    using False by (auto simp: target_ready_def split: pyval.split)
  moreover have "ref_blockers env db a now (''target_version_id'', i) \<noteq> []"
    using assms none
    by (cases "sub_dict (vr_content v) ''verification''")
       (simp_all add: ref_blockers_def verification_blockers_def dict_get_def [of "[]"])
  ultimately show ?thesis by simp
qed

lemma refs_unblocked_iff:
  assumes "distinct (map fst refs)" "list_all (ref_resolves env db a) refs"
  shows "concat (map (ref_blockers env db a now) refs) = [] \<longleftrightarrow>
    (case Option.bind (map_of refs ''source_version_id'') (\<lambda>i. find_version (ac_workspace_id a) i (pd_versions db)) of
       None \<Rightarrow> True | Some v \<Rightarrow> source_ready v) \<and>
    (case Option.bind (map_of refs ''target_version_id'') (\<lambda>i. find_version (ac_workspace_id a) i (pd_versions db)) of
       None \<Rightarrow> True | Some v \<Rightarrow> target_ready (pe_externals env) now v)"
    (is "?none \<longleftrightarrow> ?source \<and> ?target")
proof -
  let ?b = "ref_blockers env db a now"
  have other: "?b (k, i) = []" if "k \<noteq> ''source_version_id''" "k \<noteq> ''target_version_id''" for k i
    using that by (simp add: ref_blockers_def split: option.split)
  have "?none \<longleftrightarrow> (\<forall>kv\<in>set refs. ?b kv = [])"
    by simp
  also have "\<dots> \<longleftrightarrow> (\<forall>k i. map_of refs k = Some i \<longrightarrow> ?b (k, i) = [])"
    using assms(1) by (metis map_of_eq_Some_iff surj_pair)
  also have "\<dots> \<longleftrightarrow> (\<forall>i. map_of refs ''source_version_id'' = Some i \<longrightarrow> ?b (''source_version_id'', i) = []) \<and>
      (\<forall>i. map_of refs ''target_version_id'' = Some i \<longrightarrow> ?b (''target_version_id'', i) = [])"
    using other by metis
  also have "(\<forall>i. map_of refs ''source_version_id'' = Some i \<longrightarrow> ?b (''source_version_id'', i) = []) \<longleftrightarrow> ?source"
    by (auto simp: ref_blockers_def split: option.splits Option.bind_splits)
  also have "(\<forall>i. map_of refs ''target_version_id'' = Some i \<longrightarrow> ?b (''target_version_id'', i) = []) \<longleftrightarrow> ?target"
  proof (cases "map_of refs ''target_version_id''")
    case (Some i)
    then have "ref_resolves env db a (''target_version_id'', i)"
      using assms(2) map_of_SomeD unfolding list_all_iff by fast
    then obtain v where "find_version (ac_workspace_id a) i (pd_versions db) = Some v"
      by (auto simp: ref_resolves_def)
    with Some show ?thesis
      by (simp add: target_blockers_iff)
  qed simp
  finally show ?thesis .
qed

lemma capability_blocker_iff:
  assumes "capability_blocker X caps m = Inr bs"
  shows "bs = [] \<longleftrightarrow> (case metric_capability m of Inr (Some c) \<Rightarrow> capability_met caps c | _ \<Rightarrow> True)"
  using assms
  by (auto simp: capability_blocker_def capability_met_def bind_res_Inr_iff simp del: insert_iff
        split: option.splits if_splits)

lemma capability_blockers_iff:
  "capability_blockers X caps metrics = Inr bs \<Longrightarrow>
   bs = [] \<longleftrightarrow> list_all (\<lambda>m. case metric_capability m of Inr (Some c) \<Rightarrow> capability_met caps c | _ \<Rightarrow> True) metrics"
proof (induction metrics arbitrary: bs)
  case (Cons m metrics)
  then obtain here rest where "capability_blocker X caps m = Inr here"
      "capability_blockers X caps metrics = Inr rest" "bs = here @ rest"
    by (auto simp: bind_res_Inr_iff)
  then show ?case
    using Cons.IH capability_blocker_iff by simp
qed simp

lemma target_fit_iff:
  assumes "target_fit_blockers X target evaluation = Inr bs"
  shows "bs = [] \<longleftrightarrow> target_fits target evaluation"
proof -
  obtain d where d: "sub_dict target ''verification'' = Inr d"
      "(case get_default (spec_of evaluation) ''metrics'' (VList []) of
          VList metrics \<Rightarrow> capability_blockers X (sub_dict d ''capabilities'') metrics | _ \<Rightarrow> Inr []) = Inr bs"
    using assms unfolding target_fit_blockers_def bind_res_Inr_iff by blast
  show ?thesis
  proof (cases "get_default (spec_of evaluation) ''metrics'' (VList [])")
    case (VList metrics)
    have "bind_res (sub_dict target ''verification'') (\<lambda>d. sub_dict d ''capabilities'') = sub_dict d ''capabilities''"
      using d(1) by simp
    then show ?thesis
      using d(2) capability_blockers_iff unfolding target_fits_def VList pyval.case by metis
  qed (use d in \<open>simp_all add: target_fits_def\<close>)
qed

lemma check_evaluator_iff:
  assumes "check_evaluator project metrics mid v = Inr b"
    and "find (\<lambda>m. dict_get m ''metric_id'' = VStr mid) metrics = Some m"
  shows "b = None \<longleftrightarrow> vr_kind v = ''evaluator'' \<and> Some (vr_parent v) = project \<and>
    (case dict_get (vr_content v) ''review'' of VDict r \<Rightarrow> dict_get r ''state'' = VStr ''approved'' | _ \<Rightarrow> False) \<and>
    (case metric_range m of
       Inr (VList rs) \<Rightarrow> py_eq (VList rs) (dict_get (vr_content v) ''score_range'') | _ \<Rightarrow> False)"
proof (cases "vr_kind v = ''evaluator'' \<and> Some (vr_parent v) = project")
  case True
  then obtain review where review: "sub_dict (vr_content v) ''review'' = Inr review"
    using assms by (auto simp: check_evaluator_def bind_res_Inr_iff)
  show ?thesis
  proof (cases "dict_get review ''state'' = VStr ''approved''")
    case approved: True
    then have "dict_get (vr_content v) ''review'' = VDict review"
      by (rule sub_dict_value [OF review])
    moreover obtain range where "metric_range m = Inr range"
      using assms True review approved by (auto simp: check_evaluator_def bind_res_Inr_iff)
    ultimately show ?thesis
      using assms True review approved by (cases range) (auto simp: check_evaluator_def simp del: py_eq.simps split: if_splits)
  next
    case False
    then show ?thesis
      using assms True review by (auto simp: check_evaluator_def sub_dict_dict split: pyval.splits)
  qed
qed (use assms in \<open>auto simp: check_evaluator_def split: if_splits\<close>)

lemma check_binding_iff:
  assumes "check_binding db a project metrics mid w = Inr b" "require_actor a False None = Inr ()"
  shows "(\<exists>vid. b = Inr vid) \<longleftrightarrow> evaluator_ready db a project metrics (mid, w)"
proof (cases "find (\<lambda>m. dict_get m ''metric_id'' = VStr mid) metrics")
  case None
  then have "VStr mid \<notin> (\<lambda>m. dict_get m ''metric_id'') ` set metrics"
    by (auto simp: find_None_iff)
  then show ?thesis
    using assms None by (auto simp: check_binding_def evaluator_ready_def)
next
  case (Some m)
  then have in_metrics: "VStr mid \<in> (\<lambda>m. dict_get m ''metric_id'') ` set metrics"
    using find_SomeD [OF Some] by (intro image_eqI [of _ _ m]) simp_all
  show ?thesis
  proof (cases "\<exists>vid v. w = VStr vid \<and> vid \<noteq> [] \<and> find_version (ac_workspace_id a) vid (pd_versions db) = Some v")
    case True
    then obtain vid v where v: "w = VStr vid" "vid \<noteq> []" "find_version (ac_workspace_id a) vid (pd_versions db) = Some v"
      by blast
    have "bind_res (check_evaluator project metrics mid v)
        (\<lambda>b. Inr (case b of None \<Rightarrow> Inr vid | Some blocker \<Rightarrow> Inl blocker)) = Inr b"
      using assms(1) v(2) unfolding check_binding_def get_version_iff [OF assms(2)] v(1)
      by (simp only: in_metrics v(3) not_True_eq_False if_False pyval.case option.case sum.case)
    then obtain c where c: "check_evaluator project metrics mid v = Inr c"
        "b = (case c of None \<Rightarrow> Inr vid | Some blocker \<Rightarrow> Inl blocker)"
      unfolding bind_res_Inr_iff by blast
    have "(\<exists>vid. b = Inr vid) \<longleftrightarrow> c = None"
      by (cases c) (simp_all add: c(2))
    also have "\<dots> \<longleftrightarrow> evaluator_ready db a project metrics (mid, w)"
      unfolding check_evaluator_iff [OF c(1) Some] evaluator_ready_def fst_conv snd_conv Some v(1,3) option.case pyval.case
      using v(2) by blast
    finally show ?thesis .
  next
    case False
    note none = get_version_iff [OF assms(2)]
    have "\<not> evaluator_ready db a project metrics (mid, w)"
      using False by (cases w) (auto simp: evaluator_ready_def Some split: option.split)
    moreover have "\<exists>blocker. b = Inl blocker"
    proof (cases w)
      case (VStr vid)
      with False have "vid = [] \<or> find_version (ac_workspace_id a) vid (pd_versions db) = None"
        by auto
      then show ?thesis
        using assms(1) unfolding check_binding_def VStr none
        by (elim disjE) (simp_all only: in_metrics not_True_eq_False if_False if_True pyval.case option.case sum.case,
            auto split: if_splits)
    qed (insert assms(1), simp_all only: check_binding_def in_metrics not_True_eq_False if_False pyval.case, auto)
    ultimately show ?thesis
      by auto
  qed
qed

lemma check_bindings_iff:
  assumes "check_bindings db a project metrics bs = Inr (blockers, resolved)" "require_actor a False None = Inr ()"
  shows "blockers = [] \<longleftrightarrow> list_all (evaluator_ready db a project metrics) bs"
  using assms(1)
proof (induction bs arbitrary: blockers resolved)
  case (Cons b bs)
  obtain mid w where b: "b = (mid, w)"
    by (cases b)
  obtain c blockers' resolved' where c: "check_binding db a project metrics mid w = Inr c"
      "check_bindings db a project metrics bs = Inr (blockers', resolved')"
      "(blockers, resolved) = (case c of Inl k \<Rightarrow> (k # blockers', resolved') | Inr vid \<Rightarrow> (blockers', (mid, vid) # resolved'))"
    using Cons.prems by (auto simp: b bind_res_Inr_iff)
  show ?case
    using Cons.IH [OF c(2)] check_binding_iff [OF c(1) assms(2)] c(3) by (auto simp: b split: sum.splits)
qed simp

lemma evaluator_bindings_iff:
  assumes "evaluator_bindings db a project content = Inr (blockers, resolved)" "require_actor a False None = Inr ()"
  shows "blockers = [] \<longleftrightarrow> evaluators_ready db a project content"
  using assms check_bindings_iff [OF _ assms(2)]
  by (auto simp: evaluator_bindings_def evaluators_ready_def get_default_def Let_def bind_res_Inr_iff
        split: option.splits pyval.splits if_splits)

lemma limit_blockers_iff:
  assumes "limit_blockers e = Inr bs" and "map_of e = map_option json_copy \<circ> map_of lims"
  shows "bs = [] \<longleftrightarrow> limits_ready lims"
proof -
  have get: "dict_get e k = json_copy (dict_get lims k)" "get_default e k (VInt i) = json_copy (get_default lims k (VInt i))"
    for k i
    by (simp_all add: dict_get_def get_default_def assms(2) split: option.split)
  have num: "valid_repeats (json_copy v) = valid_repeats v" "valid_budget (json_copy v) = valid_budget v" for v
    by (cases v; simp add: valid_repeats_def valid_budget_def)+
  show ?thesis
    using assms(1) unfolding limit_blockers_def get num
    by (cases "dict_get lims ''tier''")
       (auto simp: limits_ready_def in_tiers_def hashable_def ensure_def bind_res_def split: if_splits)
qed

section \<open>Planning\<close>

lemma collect_blockers_iff:
  assumes r: "collect_blockers env db a now refs = Inr (bs, caps, resolved)"
    and refs: "bounded_refs vrefs = Inr refs" "distinct (map fst vrefs)" and a: "require_actor a False None = Inr ()"
  shows "list_all (ref_resolves env db a) refs \<and> (bs = [] \<and> limits_ready lims \<longleftrightarrow> plan_ready env db a now vrefs lims)"
proof -
  let ?v = "\<lambda>k. Option.bind (map_of refs k) (\<lambda>j. find_version (ac_workspace_id a) j (pd_versions db))"
  obtain b1 target evaluation fit bound where c:
      "check_refs env db a now refs (required_blockers refs, UNKNOWN_CAPABILITIES) = Inr (b1, caps)"
      "optional_version a db (map_of refs ''target_version_id'') = Inr target"
      "optional_version a db (map_of refs ''evaluation_version_id'') = Inr evaluation"
      "(case (target, evaluation) of
          (Some t, Some e) \<Rightarrow> target_fit_blockers (pe_externals env) (vr_content t) (vr_content e) | _ \<Rightarrow> Inr []) = Inr fit"
      "(case evaluation of Some e \<Rightarrow> evaluator_bindings db a (map_of refs ''project_id'') (vr_content e)
          | None \<Rightarrow> Inr ([], [])) = Inr (bound, resolved)"
      "bs = b1 @ fit @ bound"
    using r by (auto simp: collect_blockers_def bind_res_Inr_iff)
  have keys: "distinct (map fst refs)"
    using refs(2) unfolding bounded_refs_Inr [OF refs(1)] by (simp add: comp_def case_prod_beta)
  note b1 = check_refs_Inr [OF c(1) a]
  note unblocked = refs_unblocked_iff [OF keys conjunct2 [OF b1], of now]
  have version: "target = ?v ''target_version_id''" "evaluation = ?v ''evaluation_version_id''"
    and evaluation: "evaluation = None \<longleftrightarrow> map_of refs ''evaluation_version_id'' = None"
    using optional_version_Inr [OF c(2) a] optional_version_Inr [OF c(3) a] by auto
  have dataset: "map_of refs ''dataset_version_id'' = None \<longleftrightarrow> ?v ''dataset_version_id'' = None"
  proof (cases "map_of refs ''dataset_version_id''")
    case (Some i)
    then have "ref_resolves env db a (''dataset_version_id'', i)"
      using conjunct2 [OF b1] map_of_SomeD unfolding list_all_iff by fast
    with Some show ?thesis
      by (simp add: ref_resolves_def)
  qed simp
  have project: "project_of vrefs = map_of refs ''project_id''"
    by (simp add: project_of_def bounded_refs_lookup [OF refs(1)] split: option.split)
  have required: "required_blockers refs = [] \<longleftrightarrow> evaluation \<noteq> None \<and> ?v ''dataset_version_id'' \<noteq> None \<and> project_of vrefs \<noteq> None"
    unfolding required_blockers_def project evaluation dataset [symmetric] by simp
  have fits: "fit = [] \<longleftrightarrow> (case target of None \<Rightarrow> True | Some t \<Rightarrow> target_fits (vr_content t) (vr_content e))"
    if "evaluation = Some e" for e
    using c(4) that target_fit_iff by (cases target) auto
  have bindings: "bound = [] \<longleftrightarrow> evaluators_ready db a (project_of vrefs) (vr_content e)" if "evaluation = Some e" for e
    using c(5) that evaluator_bindings_iff [OF _ a] by (simp add: project)
  have "bs = [] \<longleftrightarrow> required_blockers refs = [] \<and> concat (map (ref_blockers env db a now) refs) = [] \<and> fit = [] \<and> bound = []"
    unfolding c(6) using b1 by auto
  also have "\<dots> \<and> limits_ready lims \<longleftrightarrow> plan_ready env db a now vrefs lims"
    unfolding plan_ready_def bounded_refs_version [OF refs(1)] version [symmetric] required unblocked
    using fits bindings by (cases evaluation; cases target) auto
  finally show ?thesis
    using b1 by blast
qed

lemma plan_run_creates:
  assumes r: "plan_run env a (VDict vrefs) (VDict lims) now db = Inr (p, db')" and keys: "distinct (map fst vrefs)"
  obtains refs content blockers where "bounded_refs vrefs = Inr refs" "list_all (ref_resolves env db a) refs"
    "blockers = [] \<longleftrightarrow> plan_ready env db a now vrefs lims"
    "create_run_plan env a content blockers now db = Inr (p, db')"
proof -
  obtain e where e: "json_copy (VDict lims) = VDict e" "map_of e = map_option json_copy \<circ> map_of lims"
    using json_copy_dict by blast
  have a: "require_actor a True None = Inr ()"
    using r by (auto simp: plan_run_def bind_res_Inr_iff)
  obtain refs bs caps resolved limited content where c: "bounded_refs vrefs = Inr refs"
      "collect_blockers env db a now refs = Inr (bs, caps, resolved)" "limit_blockers e = Inr limited"
      "create_run_plan env a content (bs @ limited) now db = Inr (p, db')"
    using r by (auto simp: plan_run_def e(1) bind_res_Inr_iff simp del: json_copy.simps)
  note col = collect_blockers_iff [OF c(2) c(1) keys require_read [OF a], of lims]
  have "bs @ limited = [] \<longleftrightarrow> plan_ready env db a now vrefs lims"
    using conjunct2 [OF col] limit_blockers_iff [OF c(3) e(2)] by auto
  from that [OF c(1) conjunct1 [OF col] this c(4)] show thesis .
qed

section \<open>Reachable tables\<close>

definition plan_row_ok :: "plan_env \<Rightarrow> plan_db \<Rightarrow> run_plan \<Rightarrow> bool" where
  "plan_row_ok env db p =
     (rp_digest p = pe_digest env (VDict (rp_content p)) \<and> (rp_state p = Validated \<longleftrightarrow> rp_blockers p = []) \<and>
      rp_id p \<in> pe_uuid env ` {..<pd_next db})"

text \<open>An authorization belongs to a validated plan of its workspace, with that plan's digest, for an hour at most.\<close>

definition authorization_row_ok :: "plan_env \<Rightarrow> plan_db \<Rightarrow> authorization \<Rightarrow> bool" where
  "authorization_row_ok env db u =
     (au_id u \<in> pe_uuid env ` {..<pd_next db} \<and> au_expires u \<le> au_created u + 3600 * 1000000 \<and>
      (case get_run_plan (au_plan u) (au_workspace u) db of
         None \<Rightarrow> False | Some p \<Rightarrow> rp_state p = Validated \<and> rp_digest p = au_hash u))"

definition plans_ok :: "plan_env \<Rightarrow> plan_db \<Rightarrow> bool" where
  "plans_ok env db =
     ((\<forall>p\<in>set (pd_plans db). plan_row_ok env db p) \<and> (\<forall>u\<in>set (pd_authorizations db). authorization_row_ok env db u))"

lemma fresh_plan:
  assumes "plans_ok env db" "inj (pe_uuid env)"
  shows "get_run_plan (pe_uuid env (pd_next db)) ws db = None"
    and "get_run_authorization (pe_uuid env (pd_next db)) ws db = None"
proof -
  have "pe_uuid env (pd_next db) \<notin> pe_uuid env ` {..<pd_next db}"
    using assms(2) by (auto dest: injD)
  then have "\<forall>p\<in>set (pd_plans db). rp_id p \<noteq> pe_uuid env (pd_next db)"
      "\<forall>u\<in>set (pd_authorizations db). au_id u \<noteq> pe_uuid env (pd_next db)"
    using assms(1) unfolding plans_ok_def plan_row_ok_def authorization_row_ok_def by metis+
  then show "get_run_plan (pe_uuid env (pd_next db)) ws db = None" "get_run_authorization (pe_uuid env (pd_next db)) ws db = None"
    by (auto simp: get_run_plan_def get_run_authorization_def find_None_iff)
qed

lemma create_run_plan_row:
  assumes "create_run_plan env a content blockers now db = Inr (p, db')" "plans_ok env db" "inj (pe_uuid env)"
  shows "rp_state p = (if blockers = [] then Validated else Blocked) \<and> rp_blockers p = blockers \<and>
    rp_digest p = pe_digest env (VDict (rp_content p)) \<and> rp_id p = pe_uuid env (pd_next db) \<and>
    rp_workspace p = ac_workspace_id a \<and> db' = db\<lparr>pd_plans := pd_plans db @ [p], pd_next := Suc (pd_next db)\<rparr>"
proof -
  obtain d where d: "json_copy (VDict content) = VDict d"
    by simp
  show ?thesis
    using assms(1) fresh_plan(1) [OF assms(2,3), of "ac_workspace_id a"]
    by (auto simp: create_run_plan_def get_run_plan_def plan_digest_def find_append d Let_def simp del: json_copy.simps)
qed

lemma plan_run_row:
  assumes "plan_run env a v l now db = Inr (p, db')"
  obtains content blockers where "create_run_plan env a content blockers now db = Inr (p, db')"
proof -
  obtain vrefs lims where v: "v = VDict vrefs" "l = VDict lims"
    using assms by (cases v; cases l) (auto simp: plan_run_def bind_res_Inr_iff)
  obtain e where e: "json_copy (VDict lims) = VDict e"
    by simp
  show thesis
    using assms that by (auto simp: plan_run_def v e bind_res_Inr_iff simp del: json_copy.simps)
qed

text \<open>Extending the tables keeps what is known about the rows.\<close>

lemma authorization_row_mono:
  assumes "authorization_row_ok env db u" "pd_plans db' = pd_plans db @ ps" "pd_next db \<le> pd_next db'"
  shows "authorization_row_ok env db' u"
  using assms
  by (auto simp: authorization_row_ok_def get_run_plan_def find_append split: option.splits)

lemma plan_row_mono: "plan_row_ok env db p \<Longrightarrow> pd_next db \<le> pd_next db' \<Longrightarrow> plan_row_ok env db' p"
  by (auto simp: plan_row_ok_def)

lemma plan_run_ok:
  assumes r: "plan_run env a v l now db = Inr (p, db')" and ok: "plans_ok env db" "inj (pe_uuid env)"
  shows "plans_ok env db'"
proof -
  obtain content blockers where "create_run_plan env a content blockers now db = Inr (p, db')"
    by (rule plan_run_row [OF r])
  note row = create_run_plan_row [OF this ok]
  then have "plan_row_ok env db' p"
    by (auto simp: plan_row_ok_def)
  with row ok(1) show ?thesis
    unfolding plans_ok_def by (auto intro: plan_row_mono authorization_row_mono)
qed

lemma authorize_row:
  assumes r: "authorize env a pid plan_hash ttl now db = Inr (u, db')" and ok: "plans_ok env db" "inj (pe_uuid env)"
  shows "au_state u = Authorized \<and> au_hash u = plan_hash \<and> au_plan u = pid \<and> authorization_row_ok env db' u \<and>
    db' = db\<lparr>pd_authorizations := pd_authorizations db @ [u], pd_next := Suc (pd_next db)\<rparr>"
proof -
  obtain p where p: "get_run_plan pid (ac_workspace_id a) db = Some p" "rp_digest p = plan_hash" "rp_state p = Validated"
      "ttl \<le> 3600" "create_run_authorization env a (rp_id p) plan_hash (now + ttl * 1000000) now db = Inr (u, db')"
    using r by (auto simp: authorize_def get_plan_def bind_res_Inr_iff ensure_Inr_iff split: option.splits)
  have "rp_id p = pid"
    using p(1) by (auto simp: get_run_plan_def find_Some_iff)
  then have u: "au_id u = pe_uuid env (pd_next db)" "au_workspace u = ac_workspace_id a" "au_plan u = pid" "au_hash u = plan_hash"
      "au_state u = Authorized" "au_expires u = now + ttl * 1000000" "au_created u = now"
      "db' = db\<lparr>pd_authorizations := pd_authorizations db @ [u], pd_next := Suc (pd_next db)\<rparr>"
    using p(5) fresh_plan(2) [OF ok, of "ac_workspace_id a"]
    by (auto simp: create_run_authorization_def get_run_authorization_def find_append Let_def)
  then show ?thesis
    using p by (auto simp: authorization_row_ok_def get_run_plan_def)
qed

lemma authorize_ok:
  assumes "authorize env a pid plan_hash ttl now db = Inr (u, db')" and ok: "plans_ok env db" "inj (pe_uuid env)"
  shows "plans_ok env db'"
  using authorize_row [OF assms] ok(1) authorization_row_mono [of env db _ db' "[]"] plan_row_mono [of env db _ db']
  unfolding plans_ok_def by auto

lemma au_state_update:
  "au_id (u\<lparr>au_state := st\<rparr>) = au_id u" "au_workspace (u\<lparr>au_state := st\<rparr>) = au_workspace u"
  "au_plan (u\<lparr>au_state := st\<rparr>) = au_plan u" "au_hash (u\<lparr>au_state := st\<rparr>) = au_hash u"
  "au_expires (u\<lparr>au_state := st\<rparr>) = au_expires u" "au_created (u\<lparr>au_state := st\<rparr>) = au_created u"
  by simp_all

lemma authorization_row_state:
  assumes "pd_plans db' = pd_plans db" "pd_next db' = pd_next db"
  shows "authorization_row_ok env db' (u\<lparr>au_state := st\<rparr>) = authorization_row_ok env db u"
  unfolding authorization_row_ok_def get_run_plan_def au_state_update assms ..

lemma expire_ok:
  assumes "plans_ok env db"
  shows "plans_ok env (expire_run_authorization aid ws db)"
  using assms authorization_row_state [of "expire_run_authorization aid ws db" db env]
    authorization_row_mono [of env db _ "expire_run_authorization aid ws db" "[]"]
  by (auto simp: plans_ok_def expire_run_authorization_def plan_row_ok_def)

inductive plan_step :: "plan_env \<Rightarrow> version_env \<Rightarrow> job_env \<Rightarrow> plan_db \<times> queue \<Rightarrow> plan_db \<times> queue \<Rightarrow> bool"
  for env venv jenv where
  plan: "plan_run env a v l now db = Inr (p, db') \<Longrightarrow> plan_step env venv jenv (db, q) (db', q)"
| authorize: "authorize env a pid plan_hash ttl now db = Inr (u, db') \<Longrightarrow> plan_step env venv jenv (db, q) (db', q)"
| enqueue: "enqueue_run jenv a pid aid plan_hash key now s = (r, s') \<Longrightarrow> plan_step env venv jenv s s'"
| version: "version_step venv (pd_versions db) vs \<Longrightarrow> plan_step env venv jenv (db, q) (db\<lparr>pd_versions := vs\<rparr>, q)"
| jobs: "plan_step env venv jenv (db, q) (db, q')"

definition plan_steps :: "plan_env \<Rightarrow> version_env \<Rightarrow> job_env \<Rightarrow> plan_db \<times> queue \<Rightarrow> plan_db \<times> queue \<Rightarrow> bool" where
  "plan_steps env venv jenv = (plan_step env venv jenv)\<^sup>*\<^sup>*"

definition empty_plans :: plan_db where
  "empty_plans = \<lparr>pd_versions = empty_store, pd_plans = [], pd_authorizations = [], pd_next = 0\<rparr>"

lemma enqueue_run_db:
  "fst (snd (enqueue_run jenv a pid aid plan_hash key now s)) \<in> {fst s, expire_run_authorization aid (ac_workspace_id a) (fst s)}"
  by (cases s) (auto simp: enqueue_run_def split: sum.split)

lemma plan_step_ok:
  assumes "plan_step env venv jenv s s'" "plans_ok env (fst s)" "inj (pe_uuid env)"
  shows "plans_ok env (fst s')"
  using assms(1)
proof cases
  case (enqueue a pid aid plan_hash key now r)
  then show ?thesis
    using enqueue_run_db [of jenv a pid aid plan_hash key now s] assms(2) by (auto intro: expire_ok)
next
  case (version db vs q)
  then show ?thesis
    using assms(2) by (simp add: plans_ok_def plan_row_ok_def authorization_row_ok_def get_run_plan_def)
qed (use assms(2,3) in \<open>auto intro: plan_run_ok authorize_ok\<close>)

lemma plan_steps_ok:
  assumes "plan_steps env venv jenv (empty_plans, q0) s" "inj (pe_uuid env)"
  shows "plans_ok env (fst s)"
  using assms(1) unfolding plan_steps_def
proof (induction rule: rtranclp_induct)
  case base
  then show ?case by (simp add: plans_ok_def empty_plans_def)
next
  case (step s t)
  then show ?case by (blast intro: plan_step_ok [OF _ _ assms(2)])
qed

section \<open>Claims\<close>

text \<open>
  C11. A plan over versions of the workspace is validated exactly when it is ready: project, evaluation and
  dataset are named, the source is executable, the target is a verified one whose receipt has not expired and
  whose capabilities cover the metrics, every custom evaluator is an approved one of the project with the
  metric's score range, and tier, repeats and budget are in bounds. A plan, validated or not, names only objects
  that exist in the workspace, and is stored as returned.
\<close>

theorem validated_plan_ready:
  assumes "plan_steps env venv jenv (empty_plans, q0) (db, q)" "inj (pe_uuid env)" "distinct (map fst vrefs)"
    and "plan_run env a (VDict vrefs) (VDict lims) now db = Inr (p, db')"
  shows "(rp_state p = Validated \<longleftrightarrow> plan_ready env db a now vrefs lims) \<and>
    list_all (\<lambda>(k, v). case v of VStr i \<Rightarrow> ref_resolves env db a (k, i) | _ \<Rightarrow> False) vrefs \<and>
    get_run_plan (rp_id p) (ac_workspace_id a) db' = Some p"
proof -
  have ok: "plans_ok env db"
    using plan_steps_ok [OF assms(1,2)] by simp
  obtain refs content blockers where c: "bounded_refs vrefs = Inr refs" "list_all (ref_resolves env db a) refs"
      "blockers = [] \<longleftrightarrow> plan_ready env db a now vrefs lims"
      "create_run_plan env a content blockers now db = Inr (p, db')"
    by (rule plan_run_creates [OF assms(4,3)])
  note row = create_run_plan_row [OF c(4) ok assms(2)]
  have "get_run_plan (rp_id p) (ac_workspace_id a) db' = Some p"
    using row fresh_plan(1) [OF ok assms(2), of "ac_workspace_id a"] by (simp add: get_run_plan_def find_append)
  moreover have "list_all (\<lambda>(k, v). case v of VStr i \<Rightarrow> ref_resolves env db a (k, i) | _ \<Rightarrow> False) vrefs"
    using c(2) unfolding bounded_refs_Inr [OF c(1)] by (auto simp: list_all_iff)
  ultimately show ?thesis
    using row c(3) by simp
qed

text \<open>
  C10. No run without authorization: a run enters the job queue only for a stored, validated plan whose
  digest is that of its content and the one submitted, under an authorization of this plan and digest that is
  active, has not expired and was granted at most an hour before; the job is the queue's own for the
  submitted command.
\<close>

theorem no_run_without_authorization:
  assumes "plan_steps env venv jenv (empty_plans, q0) (db, q)" "inj (pe_uuid env)"
    and "enqueue_run jenv a pid aid plan_hash key now (db, q) = (Inr j, s')"
  shows "\<exists>p u. get_run_plan pid (ac_workspace_id a) db = Some p \<and> rp_state p = Validated \<and>
    rp_digest p = plan_hash \<and> pe_digest env (VDict (rp_content p)) = plan_hash \<and>
    get_run_authorization aid (ac_workspace_id a) db = Some u \<and> au_state u = Authorized \<and> au_plan u = pid \<and>
    au_hash u = plan_hash \<and> now < au_expires u \<and> au_expires u \<le> au_created u + 3600 * 1000000 \<and>
    enqueue jenv a (run_command pid plan_hash aid) key 3 now q = Inr (j, snd s')"
proof -
  have ok: "plans_ok env db"
    using plan_steps_ok [OF assms(1,2)] by simp
  obtain u where u: "run_permit a pid aid plan_hash db = Inr u" "now < au_expires u"
      "enqueue jenv a (run_command pid plan_hash aid) key 3 now q = Inr (j, snd s')"
    using assms(3) by (auto simp: enqueue_run_def split: sum.splits if_splits)
  then obtain p where p: "get_run_plan pid (ac_workspace_id a) db = Some p" "rp_digest p = plan_hash"
      "get_run_authorization aid (ac_workspace_id a) db = Some u" "au_plan u = pid" "au_hash u = plan_hash" "au_state u = Authorized"
    by (auto simp: run_permit_def get_plan_def bind_res_Inr_iff ensure_Inr_iff split: option.splits)
  have "u \<in> set (pd_authorizations db)" and ws: "au_workspace u = ac_workspace_id a" and "p \<in> set (pd_plans db)"
    using find_SomeD [OF p(1) [unfolded get_run_plan_def]] find_SomeD [OF p(3) [unfolded get_run_authorization_def]] by auto
  with ok have "authorization_row_ok env db u" "plan_row_ok env db p"
    unfolding plans_ok_def by blast+
  with u p show ?thesis
    by (auto simp: authorization_row_ok_def plan_row_ok_def ws)
qed

text \<open>An expired authorization is marked on its first use and refused from then on.\<close>

lemma expired_authorization_final:
  assumes "run_permit a pid aid plan_hash db = Inr u" "au_expires u \<le> now"
    and "enqueue_run jenv a pid aid plan_hash key now (db, q) = (r, db', q')"
  shows "r = Inl (WorkflowError ''authorization_expired'') \<and> q' = q \<and>
    run_permit a pid aid plan_hash db' = Inl (WorkflowError ''authorization_unavailable'')"
proof -
  let ?ws = "ac_workspace_id a"
  have r: "r = Inl (WorkflowError ''authorization_expired'')" "q' = q" "db' = expire_run_authorization aid ?ws db"
    using assms by (simp_all add: enqueue_run_def)
  obtain p where p: "require_actor a True None = Inr ()" "get_plan a pid db = Inr p" "rp_digest p = plan_hash"
      "get_run_authorization aid ?ws db = Some u" "au_plan u = pid" "au_hash u = plan_hash" "au_state u = Authorized"
    using assms(1) by (auto simp: run_permit_def bind_res_Inr_iff ensure_Inr_iff split: option.splits)
  have "au_workspace u = ?ws" "au_id u = aid"
    using find_SomeD [OF p(4) [unfolded get_run_authorization_def]] by auto
  moreover let ?g = "\<lambda>u. if au_workspace u = ?ws \<and> au_id u = aid \<and> au_state u = Authorized then u\<lparr>au_state := Expired\<rparr> else u"
  have auths: "pd_authorizations db' = map ?g (pd_authorizations db)"
    by (simp add: r(3) expire_run_authorization_def)
  have "get_run_authorization aid ?ws db' = map_option ?g (get_run_authorization aid ?ws db)"
    unfolding get_run_authorization_def auths by (rule find_map_id) simp
  moreover have "get_plan a pid db' = get_plan a pid db"
    by (simp add: r(3) get_plan_def get_run_plan_def expire_run_authorization_def)
  ultimately show ?thesis
    using p r(1,2) by (simp add: run_permit_def)
qed

section \<open>A sample run\<close>

definition sample_plan_env :: plan_env where
  "sample_plan_env = \<lparr>pe_externals = no_externals, pe_uuid = (\<lambda>n. replicate (Suc n) (CHR ''p'')),
     pe_digest = (\<lambda>_. replicate 64 (CHR ''d'')), pe_project = (\<lambda>_ p. p = ''project'')\<rparr>"

definition sample_evaluation :: "(version \<times> version_store) res" where
  "sample_evaluation = create_version sample_versions demo_actor ''evaluation'' ''project''
     (VDict [(''spec'', VDict [(''metrics'', VList [])])]) 0 0 sample_store"

definition evaluation_version :: version where
  "evaluation_version = \<lparr>vr_id = ''vv'', vr_workspace = ''w'', vr_kind = ''evaluation'', vr_parent = ''project'',
     vr_previous = None, vr_digest = [], vr_revision = 1, vr_actor = ''a'', vr_created = 0,
     vr_content = [(''spec'', VDict [(''metrics'', VList [])])],
     vr_provenance = [(''type'', VStr ''human''), (''actor_id'', VStr ''a'')]\<rparr>"

definition planned_store :: version_store where
  "planned_store = \<lparr>vs_versions =
      [\<lparr>vr_id = ''v'', vr_workspace = ''w'', vr_kind = ''dataset'', vr_parent = ''project'', vr_previous = None,
         vr_digest = [], vr_revision = 1, vr_actor = ''a'', vr_created = 0, vr_content = [(''cases'', VList [])],
         vr_provenance = [(''type'', VStr ''human''), (''actor_id'', VStr ''a'')]\<rparr>, evaluation_version],
     vs_heads =
      [\<lparr>vh_workspace = ''w'', vh_kind = ''dataset'', vh_parent = ''project'', vh_revision = 1, vh_active = Some ''v''\<rparr>,
       \<lparr>vh_workspace = ''w'', vh_kind = ''evaluation'', vh_parent = ''project'', vh_revision = 1, vh_active = Some ''vv''\<rparr>],
     vs_links = [], vs_next = 2\<rparr>"

definition planned_db :: plan_db where
  "planned_db = \<lparr>pd_versions = planned_store, pd_plans = [], pd_authorizations = [], pd_next = 0\<rparr>"

definition sample_refs :: pydict where
  "sample_refs = [(''project_id'', VStr ''project''), (''dataset_version_id'', VStr ''v''), (''evaluation_version_id'', VStr ''vv'')]"

definition sample_plan :: "(run_plan \<times> plan_db) res" where
  "sample_plan = plan_run sample_plan_env demo_actor (VDict sample_refs) (VDict [(''tier'', VStr ''quick'')]) 0 planned_db"

definition sample_plan_row :: run_plan where
  "sample_plan_row = \<lparr>rp_id = ''p'', rp_workspace = ''w'', rp_digest = replicate 64 (CHR ''d''), rp_state = Validated,
     rp_content =
       [(''evaluator_versions'', VDict []),
        (''execution'', VDict
           [(''attempt_count'', VInt 0), (''budget_usd_micros'', VInt 0),
            (''capabilities'', VDict [(''final_output'', VStr ''unknown''), (''provider_cost'', VStr ''unknown''),
               (''retrieval'', VStr ''unknown''), (''tool_execution'', VStr ''unknown'')]),
            (''case_count'', VInt 0),
            (''estimated_cost_usd'', VDict [(''max'', VNull), (''min'', VNull),
               (''reason'', VStr ''price_table_not_bound_to_run_plan''), (''state'', VStr ''unknown'')]),
            (''estimated_duration_seconds'', VInt 120),
            (''quota'', VDict [(''attempt_count'', VInt 0), (''budget_usd_micros'', VInt 0),
               (''state'', VStr ''enforced_at_dispatch'')]),
            (''readiness'', VStr ''ready''), (''readiness_blockers'', VList []), (''repeat_multiplier'', VInt 1),
            (''repeats'', VInt 1), (''retry_policy'', VStr ''no_remote_retry_by_default''),
            (''side_effect_policy'', VStr ''target_requests_may_have_external_side_effects''),
            (''tier'', VStr ''quick'')]),
        (''limits'', VDict [(''tier'', VStr ''quick'')]),
        (''version_refs'', VDict [(''dataset_version_id'', VStr ''v''), (''evaluation_version_id'', VStr ''vv''),
           (''project_id'', VStr ''project'')])],
     rp_blockers = [], rp_actor = ''a'', rp_created = 0\<rparr>"

definition sample_plan_db :: plan_db where
  "sample_plan_db = \<lparr>pd_versions = planned_store, pd_plans = [sample_plan_row], pd_authorizations = [], pd_next = 1\<rparr>"

definition sample_authorization :: "(authorization \<times> plan_db) res" where
  "sample_authorization = authorize sample_plan_env demo_actor ''p'' (replicate 64 (CHR ''d'')) 600 0 sample_plan_db"

definition sample_authorization_row :: authorization where
  "sample_authorization_row = \<lparr>au_id = ''pp'', au_workspace = ''w'', au_plan = ''p'', au_hash = replicate 64 (CHR ''d''),
     au_actor = ''a'', au_state = Authorized, au_expires = 600000000, au_created = 0\<rparr>"

definition authorized_db :: plan_db where
  "authorized_db = \<lparr>pd_versions = planned_store, pd_plans = [sample_plan_row],
     pd_authorizations = [sample_authorization_row], pd_next = 2\<rparr>"

lemma sample_plan_inj: "inj (pe_uuid sample_plan_env)"
  by (auto simp: sample_plan_env_def inj_def dest: arg_cong [where f = length])

lemma sample_results:
  "sample_evaluation = Inr (evaluation_version, planned_store)"
  "sample_plan = Inr (sample_plan_row, sample_plan_db)"
  "sample_authorization = Inr (sample_authorization_row, authorized_db)"
  by code_simp+

lemma sample_planned: "plan_steps sample_plan_env sample_versions demo_env (empty_plans, q) (planned_db, q)"
proof -
  let ?step = "plan_step sample_plan_env sample_versions demo_env"
  have "version_step sample_versions (pd_versions empty_plans) sample_store"
    using sample_first unfolding sample_create_def by (auto simp: empty_plans_def intro: version_step.intros)
  then have "?step (empty_plans, q) (empty_plans\<lparr>pd_versions := sample_store\<rparr>, q)"
    by (rule plan_step.version)
  moreover have "version_step sample_versions (pd_versions (empty_plans\<lparr>pd_versions := sample_store\<rparr>)) planned_store"
    using version_step.intros [OF sample_results(1) [unfolded sample_evaluation_def]] by simp
  then have "?step (empty_plans\<lparr>pd_versions := sample_store\<rparr>, q) (empty_plans\<lparr>pd_versions := sample_store, pd_versions := planned_store\<rparr>, q)"
    by (rule plan_step.version)
  then have "?step (empty_plans\<lparr>pd_versions := sample_store\<rparr>, q) (planned_db, q)"
    by (simp add: planned_db_def empty_plans_def)
  ultimately show ?thesis
    unfolding plan_steps_def by (rule converse_rtranclp_into_rtranclp [OF _ r_into_rtranclp])
qed

lemma sample_authorized: "plan_steps sample_plan_env sample_versions demo_env (empty_plans, q) (authorized_db, q)"
proof -
  let ?step = "plan_step sample_plan_env sample_versions demo_env"
  have "?step (planned_db, q) (sample_plan_db, q)"
    using sample_results(2) unfolding sample_plan_def by (rule plan_step.plan)
  moreover have "?step (sample_plan_db, q) (authorized_db, q)"
    using sample_results(3) unfolding sample_authorization_def by (rule plan_step.authorize)
  ultimately show ?thesis
    using sample_planned unfolding plan_steps_def by (blast intro: rtranclp.rtrancl_into_rtrancl)
qed

theorem validated_plan_ready_witness: "plan_ready sample_plan_env planned_db demo_actor 0 sample_refs [(''tier'', VStr ''quick'')]"
proof -
  have keys: "distinct (map fst sample_refs)"
    by (simp add: sample_refs_def)
  show ?thesis
    using validated_plan_ready [OF sample_planned sample_plan_inj keys sample_results(2) [unfolded sample_plan_def]]
    by (simp add: sample_plan_row_def)
qed

theorem no_run_without_authorization_witness:
  "\<exists>u. get_run_authorization ''pp'' ''w'' authorized_db = Some u \<and> au_state u = Authorized \<and> 5 < au_expires u"
proof -
  let ?r = "enqueue_run demo_env demo_actor ''p'' ''pp'' (replicate 64 (CHR ''d'')) ''k'' 5
      (authorized_db, \<lparr>q_jobs = [], q_outbox = [], q_next = 0\<rparr>)"
  have "returns (fst ?r)"
    by code_simp
  then obtain j s where "?r = (Inr j, s)"
    by (cases ?r) (auto elim!: returnsE)
  from no_run_without_authorization [OF sample_authorized sample_plan_inj this] show ?thesis
    by (auto simp: demo_actor_def)
qed

end
