(* ===== verification/ScheduleProps.thy ===== *)
theory ScheduleProps
  imports Schedules RunPlanProps
begin

text \<open>
  Correctness of schedules: which slots are due, that a slot is enqueued at most once however many sweepers
  run, and that what a sweep enqueues stays within the daily limits of the schedule.
\<close>

section \<open>Due slots\<close>

definition skipped :: "zone \<Rightarrow> int \<Rightarrow> string \<Rightarrow> int \<Rightarrow> bool" where
  "skipped z local_time dst_policy day = (dst_policy = ''skip'' \<and> in_gap z (day * DAY + local_time))"

lemma due_loop_eq:
  "due_loop z lt policy current end =
     map (\<lambda>d. (d * DAY + lt, zo_local z (d * DAY + lt))) (filter (\<lambda>d. \<not> skipped z lt policy d) [current..end])"
proof (induction z lt policy current "end" rule: due_loop.induct)
  case (1 z lt policy current e)
  then show ?case
    by (subst due_loop.simps) (simp add: Let_def skipped_def upto_rec1)
qed

lemma slot_day_of: "0 \<le> lt \<Longrightarrow> lt < DAY \<Longrightarrow> slot_day (d * DAY + lt, off) = d"
  by (simp add: slot_day_def DAY_def)

text \<open>
  The due slots of a range of dates are one per date, in order: every date of the range under the policy
  \<open>first\<close>, and under \<open>skip\<close> exactly the dates on which the local time exists. The
  search always ends; an unknown zone or policy raises.
\<close>

theorem due_slots_daily:
  assumes "0 \<le> local_time" "local_time < DAY"
  shows "(case due_daily_slots zones start end local_time timezone dst_policy of
      Inl e \<Rightarrow> start \<le> end \<and> (zones timezone = Inl e \<or> e = ValueError \<and> dst_policy \<notin> {''first'', ''skip''})
    | Inr slots \<Rightarrow>
        (case zones timezone of
           Inl e \<Rightarrow> end < start \<and> slots = []
         | Inr z \<Rightarrow> map slot_day slots =
             (if dst_policy = ''skip'' then filter (\<lambda>d. \<not> in_gap z (d * DAY + local_time)) [start..end]
              else [start..end])))"
proof -
  have "map slot_day (due_loop z local_time policy start end) = filter (\<lambda>d. \<not> skipped z local_time policy d) [start..end]"
    for z policy
    unfolding due_loop_eq by (simp add: comp_def slot_day_of [OF assms])
  then show ?thesis
    by (cases "zones timezone") (auto simp: due_daily_slots_def skipped_def ensure_def)
qed

section \<open>One slot of a sweep\<close>

definition slot_row :: "string \<Rightarrow> string \<Rightarrow> string \<Rightarrow> slot \<Rightarrow> slot_state \<Rightarrow> string \<Rightarrow> string option \<Rightarrow> int \<Rightarrow> schedule_slot" where
  "slot_row ws sid key slot state owner jid now =
     \<lparr>sl_schedule = sid, sl_workspace = ws, sl_key = key, sl_at = slot, sl_state = state, sl_owner = owner,
      sl_job = jid, sl_created = now, sl_updated = now\<rparr>"

definition has_slot :: "string \<Rightarrow> string \<Rightarrow> string \<Rightarrow> schedule_db \<Rightarrow> bool" where
  "has_slot ws sid key st = list_ex (is_slot ws sid key) (st_slots st)"

lemma mark_new_slot:
  assumes "\<not> has_slot ws sid key st" "st_slots st' = st_slots st @ [slot_row ws sid key slot Slot_claimed owner None now]"
  shows "set_schedule_slot_job ws sid key state jid now st' =
    (Inr (), st'\<lparr>st_slots := st_slots st @ [slot_row ws sid key slot state owner jid now]\<rparr>)"
proof -
  have "map (\<lambda>r. if is_slot ws sid key r then r\<lparr>sl_state := state, sl_job := jid, sl_updated := now\<rparr> else r) (st_slots st) = st_slots st"
    using assms(1) by (intro map_idI) (auto simp: has_slot_def list_ex_iff)
  then show ?thesis
    by (simp add: set_schedule_slot_job_def slot_row_def is_slot_def assms(2))
qed

lemma claim_new_slot:
  "claim_schedule_slot ws sid key slot owner now st =
     (if has_slot ws sid key st then (False, st)
      else (True, st\<lparr>st_slots := st_slots st @ [slot_row ws sid key slot Slot_claimed owner None now]\<rparr>))"
  by (simp add: claim_schedule_slot_def has_slot_def slot_row_def)

lemma sweep_slot_cases:
  assumes r: "sweep_slot env a c budget owner now slot ss = (r, ss')"
  defines "ws \<equiv> ac_workspace_id a" and "key \<equiv> se_key env (sc_id c) slot" and "day \<equiv> slot_day slot" and "st \<equiv> ss_db ss"
  obtains (skip) "r = Inr None" "ss' = ss"
  | (failed) e where "\<not> has_slot ws (sc_id c) key st" "r = Inl e"
      "enqueue (se_jobs env) a (slot_command c key) (job_key c key) 3 now (st_queue st) = Inl e"
      "ss_db ss' = st\<lparr>st_slots := st_slots st @ [slot_row ws (sc_id c) key slot Slot_failed owner None now]\<rparr>"
  | (queued) j q where "\<not> has_slot ws (sc_id c) key st" "\<not> over_limits c budget day ss" "r = Inr (Some j)"
      "enqueue (se_jobs env) a (slot_command c key) (job_key c key) 3 now (st_queue st) = Inr (j, q)"
      "ss_db ss' = st\<lparr>st_queue := q, st_slots := st_slots st @ [slot_row ws (sc_id c) key slot Slot_queued owner (Some (jo_id j)) now]\<rparr>"
      "ss_counts ss' = (ss_counts ss)(day := ss_counts ss day + 1)"
      "ss_usage ss' = (ss_usage ss)(day \<mapsto> (usage_of (ss_usage ss) day)
          \<lparr>us_reserved := us_reserved (usage_of (ss_usage ss) day) + budget\<rparr>)"
proof (cases "over_limits c budget day ss \<or> has_slot ws (sc_id c) key st")
  case True
  then have "r = Inr None \<and> ss' = ss"
    using r by (auto simp: sweep_slot_def Let_def claim_new_slot ws_def key_def day_def st_def split: if_splits)
  then show thesis
    using skip by blast
next
  case False
  let ?st = "st\<lparr>st_slots := st_slots st @ [slot_row ws (sc_id c) key slot Slot_claimed owner None now]\<rparr>"
  have claim: "claim_schedule_slot ws (sc_id c) key slot owner now st = (True, ?st)"
    using False by (simp add: claim_new_slot)
  show thesis
  proof (cases "enqueue (se_jobs env) a (slot_command c key) (job_key c key) 3 now (st_queue st)")
    case (Inl e)
    have "r = Inl e \<and> ss' = ss\<lparr>ss_db := st\<lparr>st_slots := st_slots st @ [slot_row ws (sc_id c) key slot Slot_failed owner None now]\<rparr>\<rparr>"
      using r False claim Inl mark_new_slot [of ws "sc_id c" key st ?st]
      by (simp add: sweep_slot_def Let_def flip: ws_def key_def day_def st_def)
    then show thesis
      using failed False Inl by simp
  next
    case (Inr p)
    obtain j q where p: "p = (j, q)"
      by (cases p)
    have mark: "set_schedule_slot_job ws (sc_id c) key Slot_queued (Some (jo_id j)) now (?st\<lparr>st_queue := q\<rparr>) =
        (Inr (), st\<lparr>st_queue := q, st_slots := st_slots st @ [slot_row ws (sc_id c) key slot Slot_queued owner (Some (jo_id j)) now]\<rparr>)"
      by (subst mark_new_slot [where st = st and slot = slot and owner = owner]) (use False in simp_all)
    have "r = Inr (Some j) \<and> ss' =
        \<lparr>ss_db = st\<lparr>st_queue := q, st_slots := st_slots st @ [slot_row ws (sc_id c) key slot Slot_queued owner (Some (jo_id j)) now]\<rparr>,
         ss_counts = (ss_counts ss)(day := ss_counts ss day + 1),
         ss_usage = (ss_usage ss)(day \<mapsto> (usage_of (ss_usage ss) day)
           \<lparr>us_reserved := us_reserved (usage_of (ss_usage ss) day) + budget\<rparr>)\<rparr>"
      using r False claim Inr
      by (auto simp: p mark sweep_slot_def Let_def simp flip: ws_def key_def day_def st_def)
    then show thesis
      using queued [of j q] False Inr p by simp
  qed
qed

section \<open>At most one job for each slot\<close>

text \<open>
  Many sweepers run at once, each with its own view of counts and costs; between two slots anything may
  happen to the queue and the other tables. An event is the schedule and the key of an enqueued slot, and the job.
\<close>

definition slot_events :: "schedule_env \<Rightarrow> actor \<Rightarrow> schedule \<Rightarrow> slot \<Rightarrow> job option res \<Rightarrow> ((string \<times> string \<times> string) \<times> string) list" where
  "slot_events env a c slot r =
     (case r of Inr (Some j) \<Rightarrow> [((ac_workspace_id a, sc_id c, se_key env (sc_id c) slot), jo_id j)] | _ \<Rightarrow> [])"

inductive sweepers ::
  "schedule_env \<Rightarrow> schedule_db \<Rightarrow> ((string \<times> string \<times> string) \<times> string) list \<Rightarrow> schedule_db \<Rightarrow> bool" for env where
  start: "sweepers env st [] st"
| slot: "sweepers env st evs (ss_db ss) \<Longrightarrow> sweep_slot env a c budget owner now slot ss = (r, ss') \<Longrightarrow>
    sweepers env st (evs @ slot_events env a c slot r) (ss_db ss')"
| other: "sweepers env st evs st1 \<Longrightarrow> st_slots st2 = st_slots st1 \<Longrightarrow> sweepers env st evs st2"

definition enqueued_slot :: "schedule_db \<Rightarrow> (string \<times> string \<times> string) \<times> string \<Rightarrow> bool" where
  "enqueued_slot st ev =
     (case ev of ((ws, sid, key), jid) \<Rightarrow>
        list_ex (\<lambda>r. is_slot ws sid key r \<and> sl_state r = Slot_queued \<and> sl_job r = Some jid) (st_slots st))"

lemma enqueued_slot_mono: "enqueued_slot st ev \<Longrightarrow> st_slots st' = st_slots st @ rs \<Longrightarrow> enqueued_slot st' ev"
  by (auto simp: enqueued_slot_def split: prod.splits)

definition taken :: "schedule_db \<Rightarrow> string \<times> string \<times> string \<Rightarrow> bool" where
  "taken st k = (case k of (ws, sid, key) \<Rightarrow> has_slot ws sid key st)"

lemma sweepers_invariant:
  assumes "sweepers env st evs st'"
  shows "distinct (map fst evs) \<and> list_all (\<lambda>ev. enqueued_slot st' ev \<and> \<not> taken st (fst ev)) evs \<and>
    (\<exists>rs. st_slots st' = st_slots st @ rs)"
  using assms
proof (induction rule: sweepers.induct)
  case (slot st evs ss a c budget owner now slot r ss')
  show ?case
    using slot.hyps(2)
  proof (cases rule: sweep_slot_cases)
    case skip
    then show ?thesis
      using slot.IH by (simp add: slot_events_def)
  next
    case (failed e)
    then show ?thesis
      using slot.IH enqueued_slot_mono [of "ss_db ss" _ "ss_db ss'"] by (auto simp: slot_events_def list_all_iff)
  next
    case (queued j q)
    let ?ev = "((ac_workspace_id a, sc_id c, se_key env (sc_id c) slot), jo_id j)"
    have new: "enqueued_slot (ss_db ss') ?ev"
      by (simp add: enqueued_slot_def queued(5) slot_row_def is_slot_def)
    have other: "fst ev \<noteq> fst ?ev" if "enqueued_slot (ss_db ss) ev" for ev
      using that queued(1) by (auto simp: enqueued_slot_def has_slot_def list_ex_iff)
    have "fst ?ev \<notin> set (map fst evs)"
    proof
      assume "fst ?ev \<in> set (map fst evs)"
      then obtain ev where "ev \<in> set evs" "fst ev = fst ?ev"
        by auto
      with other slot.IH show False
        by (auto simp: list_all_iff)
    qed
    then have "distinct (map fst (evs @ [?ev]))"
      using slot.IH by simp
    moreover have "enqueued_slot (ss_db ss') ev" if "enqueued_slot (ss_db ss) ev" for ev
      using that by (rule enqueued_slot_mono) (simp add: queued(5))
    moreover have "\<not> taken st (fst ?ev)"
      using queued(1) slot.IH by (auto simp: has_slot_def taken_def)
    moreover have "slot_events env a c slot r = [?ev]"
      by (simp add: slot_events_def queued(3))
    moreover have "\<exists>rs. st_slots (ss_db ss') = st_slots st @ rs"
      using slot.IH by (auto simp: queued(5))
    ultimately show ?thesis
      using slot.IH new by (auto simp: list_all_iff)
  qed
next
  case (other st evs st1 st2)
  then show ?case
    by (simp add: enqueued_slot_def split: prod.splits)
qed simp

text \<open>A sweep is such a sequence of slots, and its jobs are the events.\<close>

lemma sweepers_trans: "sweepers env st1 evs' st2 \<Longrightarrow> sweepers env st evs st1 \<Longrightarrow> sweepers env st (evs @ evs') st2"
proof (induction rule: sweepers.induct)
  case (slot st1 evs' ss a c budget owner now slot r ss')
  then show ?case
    using sweepers.slot [OF slot.IH [OF slot.prems] slot.hyps(2)] by simp
qed (auto intro: sweepers.other)

lemma sweep_loop_sweepers:
  "sweep_loop env a c budget owner now slots ss = (r, ss') \<Longrightarrow>
   \<exists>evs. sweepers env (ss_db ss) evs (ss_db ss') \<and> (\<forall>js. r = Inr js \<longrightarrow> map snd evs = map jo_id js)"
proof (induction slots arbitrary: ss ss' r)
  case Nil
  then show ?case
    using sweepers.start by fastforce
next
  case (Cons slot slots)
  obtain r1 ss1 where one: "sweep_slot env a c budget owner now slot ss = (r1, ss1)"
    by (cases "sweep_slot env a c budget owner now slot ss")
  from sweepers.slot [OF sweepers.start one] have step: "sweepers env (ss_db ss) (slot_events env a c slot r1) (ss_db ss1)"
    by simp
  show ?case
  proof (cases r1)
    case (Inl e)
    then show ?thesis
      using Cons.prems one step by auto
  next
    case (Inr x)
    obtain r2 ss2 where two: "sweep_loop env a c budget owner now slots ss1 = (r2, ss2)"
      by (cases "sweep_loop env a c budget owner now slots ss1")
    obtain evs where evs: "sweepers env (ss_db ss1) evs (ss_db ss2)" "\<forall>js. r2 = Inr js \<longrightarrow> map snd evs = map jo_id js"
      using Cons.IH [OF two] by blast
    have "ss' = ss2" "\<forall>js. r = Inr js \<longrightarrow> map snd (slot_events env a c slot r1 @ evs) = map jo_id js"
      using Cons.prems one two Inr evs(2) by (auto simp: slot_events_def split: sum.splits option.splits)
    then show ?thesis
      using sweepers_trans [OF evs(1) step] by blast
  qed
qed

lemma set_schedule_state_slots:
  "set_schedule_state ws sid mode now st = Inr (c, st') \<Longrightarrow> st_slots st' = st_slots st"
  by (auto simp: set_schedule_state_def Let_def split: option.splits)

lemma sweep_slots_sweepers:
  assumes "sweep_slots env a c p start end owner now st = (r, st')"
  shows "\<exists>evs. sweepers env st evs st' \<and> (\<forall>js. r = Inr js \<longrightarrow> map snd evs = map jo_id js)"
proof (cases "st' = st \<and> (\<exists>e. r = Inl e)")
  case True
  then show ?thesis
    using sweepers.start by fastforce
next
  case False
  then obtain slots budget ss ss' where "sweep_loop env a c budget owner now slots ss = (r, ss')" "ss_db ss = st" "ss_db ss' = st'"
    using assms by (auto simp: sweep_slots_def split: sum.splits prod.splits)
  then show ?thesis
    using sweep_loop_sweepers by metis
qed

lemma sweep_sweepers:
  assumes "sweep env a sid start end owner now st = (r, st')"
  shows "\<exists>evs. sweepers env st evs st' \<and> (\<forall>js. r = Inr js \<longrightarrow> map snd evs = map jo_id js)"
proof (cases "st_slots st' = st_slots st \<and> (\<forall>js. r = Inr js \<longrightarrow> js = [])")
  case True
  then show ?thesis
    using sweepers.other [OF sweepers.start] by fastforce
next
  case False
  then obtain c p where "sweep_slots env a c p start end owner now st = (r, st')"
    using assms set_schedule_state_slots
    by (auto simp: sweep_def split: sum.splits option.splits if_splits bool.splits prod.splits)
  then show ?thesis
    by (rule sweep_slots_sweepers)
qed

text \<open>
  C36. A slot is enqueued at most once: after any interleaving of slots taken by any number of sweepers, with
  arbitrary changes of the other tables between them, a sweep enqueues only slots that none of them had
  enqueued and that had no row, one job for each, and their rows say so ever after.
\<close>

theorem slot_enqueued_once:
  assumes "sweepers env st evs st1" and "sweep env a sid start end owner now st1 = (Inr js, st2)"
  shows "\<exists>es. sweepers env st (evs @ es) st2 \<and> map snd es = map jo_id js \<and> distinct (map fst (evs @ es)) \<and>
    list_all (\<lambda>ev. enqueued_slot st2 ev \<and> \<not> taken st (fst ev)) (evs @ es) \<and>
    list_all (\<lambda>ev. \<not> taken st1 (fst ev)) es"
proof -
  obtain es where es: "sweepers env st1 es st2" "map snd es = map jo_id js"
    using sweep_sweepers [OF assms(2)] by blast
  then have run: "sweepers env st (evs @ es) st2"
    using sweepers_trans [OF _ assms(1)] by blast
  show ?thesis
    using sweepers_invariant [OF run] sweepers_invariant [OF es(1)] run es(2) by (auto simp: list_all_iff)
qed

section \<open>The books of a sweep\<close>

text \<open>Every job a slot names is in the queue.\<close>

definition linked :: "schedule_db \<Rightarrow> bool" where
  "linked st = (\<forall>r\<in>set (st_slots st). \<forall>jid. sl_job r = Some jid \<longrightarrow> find_job (sl_workspace r) jid (st_queue st) \<noteq> None)"

definition ledger :: "string \<Rightarrow> string \<Rightarrow> int \<Rightarrow> schedule_db \<Rightarrow> int \<Rightarrow> usage option" where
  "ledger sid ws budget st = fold (charge_row st budget) (list_schedule_slots sid ws st) Map.empty"

text \<open>What the loop carries is what would be computed from the tables anew.\<close>

definition books_ok :: "schedule_env \<Rightarrow> actor \<Rightarrow> schedule \<Rightarrow> int \<Rightarrow> sweep_state \<Rightarrow> bool" where
  "books_ok env a c budget ss =
     (ss_counts ss = daily_counts (list_schedule_slots (sc_id c) (ac_workspace_id a) (ss_db ss)) \<and>
      ss_usage ss = ledger (sc_id c) (ac_workspace_id a) budget (ss_db ss) \<and>
      linked (ss_db ss) \<and> queue_ok (se_jobs env) (st_queue (ss_db ss)))"

definition within_limits :: "schedule \<Rightarrow> (int \<Rightarrow> int) \<Rightarrow> (int \<Rightarrow> usage option) \<Rightarrow> int \<Rightarrow> bool" where
  "within_limits c counts us day =
     (counts day \<le> sc_request_limit c \<and>
      (sc_budget c = 0 \<or>
       \<not> us_unknown (usage_of us day) \<and> us_actual (usage_of us day) + us_reserved (usage_of us day) \<le> sc_budget c))"

text \<open>No job was submitted from elsewhere under the key of a slot that is not taken yet.\<close>

definition fresh_slot :: "schedule_env \<Rightarrow> actor \<Rightarrow> schedule \<Rightarrow> schedule_db \<Rightarrow> slot \<Rightarrow> bool" where
  "fresh_slot env a c st slot =
     (has_slot (ac_workspace_id a) (sc_id c) (se_key env (sc_id c) slot) st \<or>
      find (\<lambda>j. jo_workspace j = ac_workspace_id a \<and> jo_key j = job_key c (se_key env (sc_id c) slot)) (q_jobs (st_queue st)) = None)"

lemma find_job_insert: "find_job ws jid q = Some j \<Longrightarrow> find_job ws jid (insert_job env ws' c key m now q) = Some j"
  by (simp add: insert_job_def find_job_def add_outbox_def find_append)

lemma enqueued_new:
  assumes "queue_ok env q" "inj (je_uuid env)" "enqueue env a c key m now q = Inr (j, q')"
    and "find (\<lambda>j. jo_workspace j = ac_workspace_id a \<and> jo_key j = key) (q_jobs q) = None"
  shows "j = new_job env (ac_workspace_id a) (je_uuid env (q_next q)) c key m now \<and>
    q' = insert_job env (ac_workspace_id a) c key m now q"
  using enqueue_cases [OF assms(3)]
proof cases
  case 2
  let ?ws = "ac_workspace_id a" and ?jid = "je_uuid env (q_next q)"
  have q': "queue_ok env q'"
    unfolding 2(4) by (rule insert_job_ok [OF assms(2,1) 2(1-3)])
  have "find_job ?ws ?jid q' = Some (new_job env ?ws ?jid c key m now)"
    unfolding find_job_iff [OF q'] by (simp add: 2(4) insert_job_def add_outbox_def)
  moreover have "job_row ?ws ?jid q' = Inr j"
    using assms(3) 2(1,4) by (auto simp: enqueue_def Let_def bind_res_Inr_iff insert_job_def)
  ultimately show ?thesis
    using 2(4) by (simp add: job_row_def)
qed (simp add: assms(4))

lemma charge_row_cong:
  assumes "\<And>jid. sl_job r = Some jid \<Longrightarrow> find_job (sl_workspace r) jid (st_queue st') = find_job (sl_workspace r) jid (st_queue st)"
    and "st_costs st' = st_costs st"
  shows "charge_row st' b r us = charge_row st b r us"
proof -
  have "Option.bind (sl_job r) (\<lambda>jid. find_job (sl_workspace r) jid (st_queue st')) =
      Option.bind (sl_job r) (\<lambda>jid. find_job (sl_workspace r) jid (st_queue st))"
    using assms(1) by (cases "sl_job r") simp_all
  then have "charge st' b r u = charge st b r u" for u
    unfolding charge_def measured_cost_def assms(2) by simp
  then show ?thesis
    by (simp add: charge_row_def)
qed

lemma new_slot_books:
  assumes ok: "books_ok env a c budget ss" "inj (je_uuid (se_jobs env))" and fresh: "fresh_slot env a c (ss_db ss) slot"
    and new: "\<not> has_slot (ac_workspace_id a) (sc_id c) (se_key env (sc_id c) slot) (ss_db ss)"
    and enq: "enqueue (se_jobs env) a (slot_command c (se_key env (sc_id c) slot)) (job_key c (se_key env (sc_id c) slot)) 3 now
        (st_queue (ss_db ss)) = Inr (j, q)"
    and db: "ss_db ss' = (ss_db ss)\<lparr>st_queue := q, st_slots := st_slots (ss_db ss) @
        [slot_row (ac_workspace_id a) (sc_id c) (se_key env (sc_id c) slot) slot Slot_queued owner (Some (jo_id j)) now]\<rparr>"
    and counts: "ss_counts ss' = (ss_counts ss)(slot_day slot := ss_counts ss (slot_day slot) + 1)"
    and usage: "ss_usage ss' = (ss_usage ss)(slot_day slot \<mapsto> (usage_of (ss_usage ss) (slot_day slot))
          \<lparr>us_reserved := us_reserved (usage_of (ss_usage ss) (slot_day slot)) + budget\<rparr>)"
  shows "books_ok env a c budget ss'"
proof -
  let ?ws = "ac_workspace_id a" and ?key = "se_key env (sc_id c) slot"
  let ?row = "slot_row ?ws (sc_id c) ?key slot Slot_queued owner (Some (jo_id j)) now"
  have q_ok: "queue_ok (se_jobs env) (st_queue (ss_db ss))" and linked: "linked (ss_db ss)"
    using ok(1) by (simp_all add: books_ok_def)
  have key: "find (\<lambda>j. jo_workspace j = ?ws \<and> jo_key j = job_key c ?key) (q_jobs (st_queue (ss_db ss))) = None"
    using fresh new by (simp add: fresh_slot_def)
  have q: "q = insert_job (se_jobs env) ?ws (slot_command c ?key) (job_key c ?key) 3 now (st_queue (ss_db ss))"
    using enqueued_new [OF q_ok ok(2) enq key] by blast
  have q'_ok: "queue_ok (se_jobs env) q"
    by (rule queue_step_ok [OF queue_step.intros(1) [OF enq] q_ok ok(2)])
  note row = enqueued_row [OF q_ok ok(2) enq]
  have old: "find_job w jid q = find_job w jid (st_queue (ss_db ss))" if "find_job w jid (st_queue (ss_db ss)) \<noteq> None" for w jid
    using that find_job_insert unfolding q by fastforce
  have j: "jo_status j = Queued"
    using enqueued_new [OF q_ok ok(2) enq key] by (simp add: new_job_def)
  let ?old = "list_schedule_slots (sc_id c) ?ws (ss_db ss)"
  have rows: "list_schedule_slots (sc_id c) ?ws (ss_db ss') = ?old @ [?row]"
    by (simp add: list_schedule_slots_def db slot_row_def)
  have "charge_row (ss_db ss') budget r us = charge_row (ss_db ss) budget r us" if "r \<in> set ?old" for r us
  proof (rule charge_row_cong)
    fix jid assume "sl_job r = Some jid"
    with that linked have "find_job (sl_workspace r) jid (st_queue (ss_db ss)) \<noteq> None"
      by (auto simp: linked_def list_schedule_slots_def)
    then show "find_job (sl_workspace r) jid (st_queue (ss_db ss')) = find_job (sl_workspace r) jid (st_queue (ss_db ss))"
      by (simp add: db old)
  qed (simp add: db)
  then have "fold (charge_row (ss_db ss') budget) ?old us = fold (charge_row (ss_db ss) budget) ?old us" for us
    by (intro fold_cong refl) auto
  then have "ledger (sc_id c) ?ws budget (ss_db ss') = charge_row (ss_db ss') budget ?row (ss_usage ss)"
    using ok(1) by (simp add: ledger_def rows books_ok_def)
  also have "\<dots> = ss_usage ss'"
    unfolding usage by (simp add: charge_row_def charge_def slot_row_def db row(1) j usage_of_def)
  finally have "ss_usage ss' = ledger (sc_id c) ?ws budget (ss_db ss')" ..
  moreover have "ss_counts ss' = daily_counts (list_schedule_slots (sc_id c) ?ws (ss_db ss'))"
    using ok(1) unfolding counts rows books_ok_def by (auto simp: daily_counts_def slot_row_def fun_eq_iff)
  moreover have "linked (ss_db ss')"
    using linked old row(1) by (auto simp: linked_def db slot_row_def)
  ultimately show ?thesis
    using q'_ok by (simp add: books_ok_def db)
qed

lemma fresh_after:
  assumes "fresh_slot env a c st other"
    and "st_queue st' = insert_job jenv (ac_workspace_id a) cmd (job_key c (se_key env (sc_id c) slot)) 3 now (st_queue st)"
    and "st_slots st' = st_slots st @ [slot_row (ac_workspace_id a) (sc_id c) (se_key env (sc_id c) slot) slot s owner jid now]"
  shows "fresh_slot env a c st' other"
proof (cases "se_key env (sc_id c) other = se_key env (sc_id c) slot")
  case True
  then show ?thesis
    by (simp add: fresh_slot_def has_slot_def assms(3) slot_row_def is_slot_def)
next
  case False
  then show ?thesis
    using assms(1)
    by (auto simp: fresh_slot_def has_slot_def assms(2,3) insert_job_def add_outbox_def find_append job_key_def
          split: option.splits)
qed

lemma sweep_slot_books:
  assumes r: "sweep_slot env a c budget owner now slot ss = (Inr x, ss')"
    and ok: "books_ok env a c budget ss" "inj (je_uuid (se_jobs env))" and fresh: "fresh_slot env a c (ss_db ss) slot"
  shows "books_ok env a c budget ss'"
    and "list_all (fresh_slot env a c (ss_db ss)) slots \<Longrightarrow> list_all (fresh_slot env a c (ss_db ss')) slots"
    and "within_limits c (ss_counts ss) (ss_usage ss) day \<Longrightarrow> within_limits c (ss_counts ss') (ss_usage ss') day"
    and "\<exists>rs. st_slots (ss_db ss') = st_slots (ss_db ss) @ rs \<and>
      list_all (\<lambda>r. within_limits c (ss_counts ss') (ss_usage ss') (slot_day (sl_at r))) rs"
proof -
  let ?d = "slot_day slot"
  have "books_ok env a c budget ss' \<and>
      (list_all (fresh_slot env a c (ss_db ss)) slots \<longrightarrow> list_all (fresh_slot env a c (ss_db ss')) slots) \<and>
      (within_limits c (ss_counts ss) (ss_usage ss) day \<longrightarrow> within_limits c (ss_counts ss') (ss_usage ss') day) \<and>
      (\<exists>rs. st_slots (ss_db ss') = st_slots (ss_db ss) @ rs \<and>
        list_all (\<lambda>r. within_limits c (ss_counts ss') (ss_usage ss') (slot_day (sl_at r))) rs)"
    using r
  proof (cases rule: sweep_slot_cases)
    case skip
    then show ?thesis
      using ok(1) by simp
  next
    case (queued j q)
    have key: "find (\<lambda>j. jo_workspace j = ac_workspace_id a \<and> jo_key j = job_key c (se_key env (sc_id c) slot)) (q_jobs (st_queue (ss_db ss))) = None"
      using fresh queued(1) by (simp add: fresh_slot_def)
    have q: "q = insert_job (se_jobs env) (ac_workspace_id a) (slot_command c (se_key env (sc_id c) slot))
        (job_key c (se_key env (sc_id c) slot)) 3 now (st_queue (ss_db ss))"
      using enqueued_new [OF _ ok(2) queued(4) key] ok(1) by (simp add: books_ok_def)
    have "fresh_slot env a c (ss_db ss') other" if "fresh_slot env a c (ss_db ss) other" for other
      by (rule fresh_after [OF that]) (simp_all add: queued(5) q)
    moreover have "within_limits c (ss_counts ss') (ss_usage ss') ?d"
      using queued(2) by (auto simp: queued(6,7) within_limits_def over_limits_def usage_of_def)
    moreover have "within_limits c (ss_counts ss') (ss_usage ss') day = within_limits c (ss_counts ss) (ss_usage ss) day" if "day \<noteq> ?d"
      using that by (simp add: queued(6,7) within_limits_def usage_of_def)
    moreover have "sl_at (slot_row ws sid key slot st owner jid now) = slot" for ws sid key st jid
      by (simp add: slot_row_def)
    ultimately show ?thesis
      using new_slot_books [OF ok fresh queued(1,4,5,6,7)] queued(5)
      by (cases "day = ?d") (auto simp: list_all_iff)
  qed simp
  then show "books_ok env a c budget ss'"
    and "list_all (fresh_slot env a c (ss_db ss)) slots \<Longrightarrow> list_all (fresh_slot env a c (ss_db ss')) slots"
    and "within_limits c (ss_counts ss) (ss_usage ss) day \<Longrightarrow> within_limits c (ss_counts ss') (ss_usage ss') day"
    and "\<exists>rs. st_slots (ss_db ss') = st_slots (ss_db ss) @ rs \<and>
      list_all (\<lambda>r. within_limits c (ss_counts ss') (ss_usage ss') (slot_day (sl_at r))) rs"
    by blast+
qed

lemma sweep_loop_books:
  assumes "sweep_loop env a c budget owner now slots ss = (Inr js, ss')" "books_ok env a c budget ss"
    "inj (je_uuid (se_jobs env))" "list_all (fresh_slot env a c (ss_db ss)) slots"
  shows "books_ok env a c budget ss' \<and>
    (\<forall>day. within_limits c (ss_counts ss) (ss_usage ss) day \<longrightarrow> within_limits c (ss_counts ss') (ss_usage ss') day) \<and>
    (\<exists>rs. st_slots (ss_db ss') = st_slots (ss_db ss) @ rs \<and>
      list_all (\<lambda>r. within_limits c (ss_counts ss') (ss_usage ss') (slot_day (sl_at r))) rs)"
  using assms(1,2,4)
proof (induction slots arbitrary: ss js)
  case (Cons slot slots)
  obtain x ss1 js' where one: "sweep_slot env a c budget owner now slot ss = (Inr x, ss1)"
      and two: "sweep_loop env a c budget owner now slots ss1 = (Inr js', ss')"
    using Cons.prems(1) by (auto split: prod.splits sum.splits)
  have fresh: "fresh_slot env a c (ss_db ss) slot" "list_all (fresh_slot env a c (ss_db ss)) slots"
    using Cons.prems(3) by simp_all
  note step = sweep_slot_books [OF one Cons.prems(2) assms(3) fresh(1)]
  obtain rs where rs: "st_slots (ss_db ss1) = st_slots (ss_db ss) @ rs"
      "list_all (\<lambda>r. within_limits c (ss_counts ss1) (ss_usage ss1) (slot_day (sl_at r))) rs"
    using step(4) by blast
  note IH = Cons.IH [OF two step(1) step(2) [OF fresh(2)]]
  then obtain rs' where rs': "st_slots (ss_db ss') = st_slots (ss_db ss1) @ rs'"
      "list_all (\<lambda>r. within_limits c (ss_counts ss') (ss_usage ss') (slot_day (sl_at r))) rs'"
    by blast
  have "list_all (\<lambda>r. within_limits c (ss_counts ss') (ss_usage ss') (slot_day (sl_at r))) (rs @ rs')"
    using rs(2) rs'(2) IH by (auto simp: list_all_iff)
  then show ?case
    using IH step(3) rs(1) rs'(1) by auto
qed auto


section \<open>A sweep needs its authorization\<close>

text \<open>
  C38. A sweep enqueues runs only for an active schedule whose plan is validated and has the digest the schedule
  was created with, while the schedule's authorization is active and unexpired, and only if the plan names no
  target or one whose verification still holds. As an authorization lasts an hour at most, a
  schedule enqueues nothing later than an hour after its authorization was granted.
\<close>

theorem sweep_requires_authorization:
  assumes "plan_steps (se_plan env) venv jenv (empty_plans, q0) (st_plans st, q)" "inj (pe_uuid (se_plan env))"
    and "sweep env a sid start end owner now st = (Inr js, st')" "js \<noteq> []"
  shows "\<exists>c p u. get_schedule sid (ac_workspace_id a) st = Some c \<and> sc_state c = Active \<and>
    get_run_plan (sc_plan c) (ac_workspace_id a) (st_plans st) = Some p \<and> rp_state p = Validated \<and>
    rp_digest p = sc_plan_hash c \<and> target_stale env a p now st = Inr False \<and>
    get_run_authorization (sc_authorization c) (ac_workspace_id a) (st_plans st) = Some u \<and>
    au_state u = Authorized \<and> now < au_expires u \<and> now < au_created u + 3600 * 1000000"
proof -
  have ok: "plans_ok (se_plan env) (st_plans st)"
    using plan_steps_ok [OF assms(1,2)] by simp
  obtain c p where c: "get_schedule sid (ac_workspace_id a) st = Some c" "sc_state c = Active"
      "get_plan a (sc_plan c) (st_plans st) = Inr p"
      "schedule_runnable c p (get_run_authorization (sc_authorization c) (ac_workspace_id a) (st_plans st)) now"
      "target_stale env a p now st = Inr False"
    using assms(3,4) by (auto simp: sweep_def split: sum.splits option.splits if_splits bool.splits prod.splits)
  obtain u where u: "get_run_authorization (sc_authorization c) (ac_workspace_id a) (st_plans st) = Some u"
      "au_state u = Authorized" "now < au_expires u" "rp_state p = Validated" "rp_digest p = sc_plan_hash c"
    using c(4) by (auto simp: schedule_runnable_def split: option.splits)
  have "u \<in> set (pd_authorizations (st_plans st))"
    using find_SomeD [OF u(1) [unfolded get_run_authorization_def]] by simp
  then have "au_expires u \<le> au_created u + 3600 * 1000000"
    using ok unfolding plans_ok_def authorization_row_ok_def by blast
  moreover have "get_run_plan (sc_plan c) (ac_workspace_id a) (st_plans st) = Some p"
    using c(3) by (auto simp: get_plan_def bind_res_Inr_iff split: option.splits)
  ultimately show ?thesis
    using c u by auto
qed

section \<open>A sample schedule\<close>

definition plain_zone :: zone where
  "plain_zone = \<lparr>zo_local = (\<lambda>_. 0), zo_instant = (\<lambda>_. 0)\<rparr>"

definition sample_schedule_env :: schedule_env where
  "sample_schedule_env = \<lparr>se_plan = sample_plan_env, se_jobs = demo_env, se_zone = (\<lambda>_. Inr plain_zone),
     se_time = (\<lambda>_. Some (36000000000, False)), se_key = (\<lambda>_ s. if slot_day s = 10 then ''ten'' else ''other''),
     se_uuid = (\<lambda>n. replicate (Suc n) (CHR ''s''))\<rparr>"

definition the_schedule :: schedule where
  "the_schedule = \<lparr>sc_id = ''s'', sc_workspace = ''w'', sc_project = ''project'', sc_plan = ''p'',
     sc_plan_hash = replicate 64 (CHR ''d''), sc_authorization = ''pp'', sc_timezone = ''UTC'',
     sc_local_time = 36000000000, sc_state = Active, sc_dst_policy = ''first'', sc_version_policy = ''frozen'',
     sc_request_limit = 1, sc_budget = 5, sc_created = 0, sc_updated = 0\<rparr>"

definition unscheduled_db :: schedule_db where
  "unscheduled_db = \<lparr>st_plans = authorized_db, st_queue = empty_queue, st_schedules = [], st_slots = [], st_costs = [], st_next = 0\<rparr>"

definition scheduled_db :: schedule_db where
  "scheduled_db = \<lparr>st_plans = authorized_db, st_queue = empty_queue, st_schedules = [the_schedule], st_slots = [],
     st_costs = [], st_next = 1\<rparr>"

lemma sample_schedule:
  "create_schedule sample_schedule_env demo_actor ''p'' (replicate 64 (CHR ''d'')) ''pp'' ''UTC'' ''10:00''
     ''first'' ''frozen'' 1 5 0 unscheduled_db = Inr (the_schedule, scheduled_db)"
  by code_simp

definition first_sweep :: "job list res \<times> schedule_db" where
  "first_sweep = sweep sample_schedule_env demo_actor ''s'' 10 11 ''owner'' 5 scheduled_db"

theorem due_slots_daily_witness:
  "map slot_day (due_loop plain_zone 36000000000 ''skip'' 10 12) = [10, 11, 12]"
proof -
  have "due_daily_slots (\<lambda>_. Inr plain_zone) 10 12 36000000000 ''UTC'' ''skip'' = Inr (due_loop plain_zone 36000000000 ''skip'' 10 12)"
    by (simp add: due_daily_slots_def)
  with due_slots_daily [of 36000000000 10 12 "\<lambda>_. Inr plain_zone" "''UTC''" "''skip''"] show ?thesis
    by (simp add: DAY_def in_gap_def plain_zone_def upto.simps)
qed

theorem slot_enqueued_once_witness:
  "\<exists>js es. fst first_sweep = Inr js \<and> length js = 2 \<and> map snd es = map jo_id js \<and>
     distinct (map fst (es :: ((string \<times> string \<times> string) \<times> string) list))"
proof -
  have "case fst first_sweep of Inl e \<Rightarrow> False | Inr js \<Rightarrow> length js = 2"
    by code_simp
  then obtain js where js: "fst first_sweep = Inr js" "length js = 2"
    by (auto split: sum.splits)
  then have "sweep sample_schedule_env demo_actor ''s'' 10 11 ''owner'' 5 scheduled_db = (Inr js, snd first_sweep)"
    unfolding first_sweep_def by (simp add: prod_eq_iff)
  from slot_enqueued_once [OF sweepers.start this] obtain es :: "((string \<times> string \<times> string) \<times> string) list"
    where "map snd es = map jo_id js" "distinct (map fst es)"
    unfolding append_Nil by blast
  with js show ?thesis
    by blast
qed


theorem sweep_requires_authorization_witness:
  "\<exists>c u. get_schedule ''s'' ''w'' scheduled_db = Some c \<and>
     get_run_authorization (sc_authorization c) ''w'' authorized_db = Some u \<and> 5 < au_created u + 3600 * 1000000"
proof -
  have "case fst first_sweep of Inl e \<Rightarrow> False | Inr js \<Rightarrow> js \<noteq> []"
    by code_simp
  then obtain js where js: "fst first_sweep = Inr js" "js \<noteq> []"
    by (auto split: sum.splits)
  then have run: "sweep sample_schedule_env demo_actor ''s'' 10 11 ''owner'' 5 scheduled_db = (Inr js, snd first_sweep)"
    unfolding first_sweep_def by (simp add: prod_eq_iff)
  have plans: "st_plans scheduled_db = authorized_db"
    by (simp add: scheduled_db_def)
  have env: "se_plan sample_schedule_env = sample_plan_env" "ac_workspace_id demo_actor = ''w''"
    by (simp_all add: sample_schedule_env_def demo_actor_def)
  have "plan_steps (se_plan sample_schedule_env) sample_versions demo_env (empty_plans, empty_queue) (st_plans scheduled_db, empty_queue)"
      "inj (pe_uuid (se_plan sample_schedule_env))"
    using sample_authorized sample_plan_inj by (simp_all add: env plans)
  from sweep_requires_authorization [OF this run js(2)] show ?thesis
    unfolding env plans by blast
qed

end
