(* ===== verification/Redaction.thy ===== *)
theory Redaction
  imports PyValues
begin

text \<open>
  Redaction before persistence (\<open>redaction.py\<close>): the four text detectors, the sensitive keys, and the
  walk over a JSON-like value.

  A detector is a scanner: given the character before a position and the text from there, it returns
  the replacement and how many characters it replaces. \<open>sub_text\<close> is \<open>Pattern.sub\<close>, which never
  looks at text it has replaced. A text of more than 16384 UTF-8 bytes is cut and marked with an
  ellipsis character above code point 255; such a text is \<open>UnmodelledCodePoint\<close> here, so a redacted
  value of the model is never truncated.
\<close>

section \<open>Scanners\<close>

type_synonym scanner = "char option \<Rightarrow> string \<Rightarrow> (string \<times> nat) option"

text \<open>A match of \<open>Suc n\<close> characters is written \<open>(r, n)\<close>: no pattern matches the empty text.\<close>

function sub_text :: "scanner \<Rightarrow> char option \<Rightarrow> string \<Rightarrow> string" where
  "sub_text m p [] = []"
| "sub_text m p (c # cs) =
     (case m p (c # cs) of
        None \<Rightarrow> c # sub_text m (Some c) cs
      | Some (r, n) \<Rightarrow> r @ sub_text m (Some (last (c # take n cs))) (drop n cs))"
  by pat_completeness auto
termination by (relation "measure (\<lambda>(m, p, s). length s)") auto

declare sub_text.simps [simp del]

fun search_text :: "scanner \<Rightarrow> char option \<Rightarrow> string \<Rightarrow> bool" where
  "search_text m p [] = False"
| "search_text m p (c # cs) = (m p (c # cs) \<noteq> None \<or> search_text m (Some c) cs)"

definition is_word :: "char \<Rightarrow> bool" where
  "is_word c = (is_alnum c \<or> c = CHR ''_'')"

definition word_before :: "char option \<Rightarrow> bool" where
  "word_before p = (case p of None \<Rightarrow> False | Some c \<Rightarrow> is_word c)"

definition is_ascii_alnum :: "char \<Rightarrow> bool" where
  "is_ascii_alnum c =
     (let n = code c in 48 \<le> n \<and> n \<le> 57 \<or> 65 \<le> n \<and> n \<le> 90 \<or> 97 \<le> n \<and> n \<le> 122)"

definition is_token_char :: "char \<Rightarrow> bool" where
  "is_token_char c = (is_ascii_alnum c \<or> c = CHR ''_'' \<or> c = CHR ''-'')"

definition is_bearer_char :: "char \<Rightarrow> bool" where
  "is_bearer_char c = (is_ascii_alnum c \<or> c \<in> set ''._~+/=-'')"

definition is_value_char :: "char \<Rightarrow> bool" where
  "is_value_char c = (\<not> is_space c \<and> c \<noteq> CHR '','' \<and> c \<noteq> CHR '';'')"

definition lower_char :: "char \<Rightarrow> char" where
  "lower_char c = (let n = code c in if 65 \<le> n \<and> n \<le> 90 then char_of (n + 32) else c)"

definition starts :: "string \<Rightarrow> string \<Rightarrow> bool" where
  "starts p s = (take (length p) s = p)"

definition starts_ci :: "string \<Rightarrow> string \<Rightarrow> bool" where
  "starts_ci p s = (map lower_char (take (length p) s) = p)"

definition REDACTED :: string where
  "REDACTED = ''[REDACTED]''"

section \<open>The detectors\<close>

definition CANARY_PREFIX :: string where
  "CANARY_PREFIX = ''sk-test-do-not-persist-''"

definition canary :: scanner where
  "canary p s =
     (let tok = takeWhile is_token_char (drop (length CANARY_PREFIX) s) in
      if starts CANARY_PREFIX s \<and> tok \<noteq> [] then Some (REDACTED, length CANARY_PREFIX + length tok - 1)
      else None)"

text \<open>A word boundary after \<open>n\<close> characters of \<open>s\<close>, \<open>0 < n\<close>.\<close>

definition boundary_at :: "string \<Rightarrow> nat \<Rightarrow> bool" where
  "boundary_at s n = (is_word (s ! (n - 1)) \<noteq> (n < length s \<and> is_word (s ! n)))"

text \<open>The run of token characters is given back one by one until a word boundary follows.\<close>

definition provider_token :: scanner where
  "provider_token p s =
     (if \<not> word_before p \<and> starts ''sk-'' s then
        (case find (\<lambda>n. boundary_at s (3 + n)) (rev [12..<Suc (length (takeWhile is_token_char (drop 3 s)))]) of
           None \<Rightarrow> None
         | Some n \<Rightarrow> Some (REDACTED, 2 + n))
      else None)"

definition bearer :: scanner where
  "bearer p s =
     (let sp = takeWhile is_space (drop 6 s); tok = takeWhile is_bearer_char (drop (6 + length sp) s) in
      if \<not> word_before p \<and> starts_ci ''bearer'' s \<and> sp \<noteq> [] \<and> tok \<noteq> []
      then Some (''Bearer '' @ REDACTED, 5 + length sp + length tok)
      else None)"

definition SECRET_WORDS :: "string list" where
  "SECRET_WORDS =
     [''api_key'', ''api-key'', ''apikey'', ''access_token'', ''access-token'', ''accesstoken'',
      ''password'', ''secret'']"

definition assigned_secret :: scanner where
  "assigned_secret p s =
     (if word_before p then None
      else case find (\<lambda>w. starts_ci w s) SECRET_WORDS of
          None \<Rightarrow> None
        | Some w \<Rightarrow>
            (let k = length w;
                 i = k + length (takeWhile is_space (drop k s)) in
             if \<not> (i < length s \<and> (s ! i = CHR '':'' \<or> s ! i = CHR ''='')) then None
             else
               let j = Suc i + length (takeWhile is_space (drop (Suc i) s));
                   v = takeWhile is_value_char (drop j s) in
               if v = [] then None
               else Some (take k s @ ''='' @ REDACTED, j + length v - 1)))"

text \<open>\<open>_SENSITIVE_KEY.search\<close>: the dollar also matches before a final newline.\<close>

definition SENSITIVE_KEYS :: "string list" where
  "SENSITIVE_KEYS =
     [''authorization'', ''api_key'', ''api-key'', ''apikey'', ''access_token'', ''access-token'', ''accesstoken'',
      ''password'', ''secret'', ''credential'', ''x-api-key'']"

definition sensitive_key :: "string \<Rightarrow> bool" where
  "sensitive_key k =
     (let l = map lower_char k in
      l \<in> set SENSITIVE_KEYS \<or> l \<noteq> [] \<and> last l = CHR 0x0A \<and> butlast l \<in> set SENSITIVE_KEYS)"

section \<open>\<open>redact\<close>\<close>

text \<open>One detector on a text, with the flag it raises.\<close>

definition detect :: "scanner \<Rightarrow> string \<Rightarrow> string \<times> string list \<Rightarrow> string \<times> string list" where
  "detect m flag t =
     (if search_text m None (fst t) then (sub_text m None (fst t), flag # snd t) else t)"

definition detectors :: "(scanner \<times> string) list" where
  "detectors =
     [(canary, ''canary''), (provider_token, ''token''), (bearer, ''token''), (assigned_secret, ''secret'')]"

definition scrub :: "string \<Rightarrow> string \<times> string list" where
  "scrub s = fold (\<lambda>(m, flag). detect m flag) detectors (s, [])"

definition utf8_length :: "string \<Rightarrow> nat" where
  "utf8_length s = sum_list (map (\<lambda>c. if code c < 128 then 1 else 2) s)"

definition MAX_STRING_BYTES :: nat where
  "MAX_STRING_BYTES = 16384"

definition clean_text :: "string \<Rightarrow> (string \<times> string list) res" where
  "clean_text s =
     (if MAX_STRING_BYTES < utf8_length (fst (scrub s)) then Inl UnmodelledCodePoint else Inr (scrub s))"

text \<open>\<open>walk\<close>, with the flags it raises. Values of other types are redacted as their \<open>repr\<close>.\<close>

definition clean_as :: "string \<Rightarrow> (pyval \<times> string list) res" where
  "clean_as s = bind_res (clean_text s) (\<lambda>(t, fl). Inr (VStr t, fl))"

fun walk :: "externals \<Rightarrow> pyval \<Rightarrow> (pyval \<times> string list) res"
  and walk_list :: "externals \<Rightarrow> pyval list \<Rightarrow> (pyval list \<times> string list) res"
  and walk_items :: "externals \<Rightarrow> pydict \<Rightarrow> (pydict \<times> string list) res" where
  "walk X (VStr s) = clean_as s"
| "walk X (VDict d) = bind_res (walk_items X d) (\<lambda>(d', fl). Inr (VDict d', fl))"
| "walk X (VList xs) = bind_res (walk_list X xs) (\<lambda>(ys, fl). Inr (VList ys, fl))"
| "walk X VNull = Inr (VNull, [])"
| "walk X (VBool b) = Inr (VBool b, [])"
| "walk X (VInt i) = Inr (VInt i, [])"
| "walk X (VFloat x) = Inr (VFloat x, [])"
| "walk X VMissing = clean_as (py_repr X VMissing)"
| "walk X VUnknown = clean_as (py_repr X VUnknown)"
| "walk X (VDate d) = clean_as (py_repr X (VDate d))"
| "walk X (VModel n d) = clean_as (py_repr X (VModel n d))"
| "walk_list X [] = Inr ([], [])"
| "walk_list X (v # vs) =
     bind_res (walk X v) (\<lambda>(w, fl). bind_res (walk_list X vs) (\<lambda>(ws, fl'). Inr (w # ws, fl @ fl')))"
| "walk_items X [] = Inr ([], [])"
| "walk_items X ((k, v) # d) =
     bind_res (if sensitive_key k then Inr (VStr REDACTED, [''header'']) else walk X v) (\<lambda>(w, fl).
       bind_res (walk_items X d) (\<lambda>(d', fl'). Inr ((k, w) # d', fl @ fl')))"

record redacted =
  rp_content :: pyval
  rp_flags :: "string list"

fun insert_text :: "string \<Rightarrow> string list \<Rightarrow> string list" where
  "insert_text s [] = [s]"
| "insert_text s (t # ts) = (if str_less s t then s # t # ts else if s = t then t # ts else t # insert_text s ts)"

text \<open>\<open>sorted(set(...))\<close>\<close>

definition sorted_set :: "string list \<Rightarrow> string list" where
  "sorted_set ss = foldr insert_text ss []"

definition redact :: "externals \<Rightarrow> pyval \<Rightarrow> redacted res" where
  "redact X v =
     bind_res (walk X v) (\<lambda>(w, fl). Inr \<lparr>rp_content = w, rp_flags = sorted_set fl\<rparr>)"

end
