(* ===== verification/RunStore.thy ===== *)
theory RunStore
  imports Lifecycle Scoring Redaction
begin

text \<open>
  The tables of \<open>storage.py\<close> the execution engine works on, and the operations on them: projects and
  smoke attempts, runs, cases, attempts, trace events, attempt outputs, case and run metric results,
  cost summaries and remote jobs.

  A table is a list of rows in insertion order. An operation takes the wall clock it stamps and, where
  it draws one, the fresh identifier; it runs in one transaction, so it either raises and changes
  nothing or returns its value and the new tables. Statuses are the enums of \<open>lifecycle.py\<close>, JSON
  columns hold the values they encode, and messages are left out.
\<close>

section \<open>Rows\<close>

datatype classification = PASSING | FLAKY | FAILING | ERRORED

datatype error_category = Infra | Agent | Evaluator

text \<open>\<open>agent_version\<close>: what \<open>create_run\<close> freezes of the target.\<close>

record agent_version =
  av_digest :: string
  av_entrypoint :: "string list"
  av_cwd :: "string option"
  av_timeout :: flt
  av_manifest :: "pydict option"

record run_row =
  rr_id :: string
  rr_workspace :: string
  rr_project :: "string option"
  rr_spec :: evaluation_spec
  rr_agent :: agent_version
  rr_status :: run_status
  rr_tier :: run_tier
  rr_repeats :: int
  rr_retry_max :: int
  rr_world :: pydict
  rr_judges :: "(string \<times> judge_binding) list"
  rr_mixed :: bool
  rr_case_count :: nat
  rr_concurrency :: int
  rr_estimate :: "pydict option"
  rr_budget :: int
  rr_created_by :: "string option"
  rr_started :: "int option"
  rr_completed :: "int option"
  rr_created :: int
  rr_key :: "string option"

record case_row =
  cr_run :: string
  cr_case :: string
  cr_key :: string
  cr_workspace :: string
  cr_status :: run_case_status
  cr_repeats :: int
  cr_class :: "classification option"
  cr_error :: "error_category option"
  cr_started :: "int option"
  cr_completed :: "int option"

record attempt_row =
  ar_id :: string
  ar_run :: string
  ar_case :: string
  ar_workspace :: string
  ar_repeat :: int
  ar_attempt :: int
  ar_first :: bool
  ar_status :: attempt_status
  ar_exit :: "int option"
  ar_events :: nat
  ar_truncated :: bool
  ar_started :: "int option"
  ar_finished :: "int option"

record output_row =
  ot_attempt :: string
  ot_run :: string
  ot_case :: string
  ot_workspace :: string
  ot_payload :: "pyval option"

record case_metric_row =
  cm_run :: string
  cm_case :: string
  cm_metric :: string
  cm_workspace :: string
  cm_revision :: int
  cm_status :: case_status
  cm_score :: "flt option"
  cm_raw :: pyval
  cm_evidence :: "string list"
  cm_version :: "string option"
  cm_judge :: "judge_binding option"
  cm_authoritative :: bool
  cm_override :: bool
  cm_overridden :: bool
  cm_computed :: int

datatype gate_status = Gate_PASS | Gate_FAIL | Gate_NOT_APPLICABLE

record run_metric_row =
  rm_run :: string
  rm_metric :: string
  rm_workspace :: string
  rm_revision :: int
  rm_value :: "flt option"
  rm_state :: aggregation_state
  rm_method :: aggregation_method
  rm_on_error :: on_error
  rm_sample_n :: nat
  rm_error_n :: nat
  rm_skipped_n :: nat
  rm_gate :: "gate_status option"
  rm_no_ci :: bool
  rm_computed :: int

record cost_row =
  ct_run :: string
  ct_workspace :: string
  ct_version :: string
  ct_input :: int
  ct_output :: int
  ct_micros :: int

record remote_job =
  rj_attempt :: string
  rj_run :: string
  rj_case :: string
  rj_workspace :: string
  rj_job :: string
  rj_state :: string
  rj_created :: int
  rj_updated :: int

record project_row =
  pj_id :: string
  pj_workspace :: string
  pj_name :: string
  pj_state :: smoke_state
  pj_entrypoint :: "string list"
  pj_created :: int
  pj_updated :: int

record smoke_row =
  sm_id :: string
  sm_workspace :: string
  sm_project :: string
  sm_entrypoint :: "string list"
  sm_exit :: "int option"
  sm_state :: smoke_state
  sm_trace :: bool
  sm_created :: int

record store =
  st_projects :: "project_row list"
  st_smokes :: "smoke_row list"
  st_runs :: "run_row list"
  st_cases :: "case_row list"
  st_attempts :: "attempt_row list"
  st_events :: "trace_event list"
  st_outputs :: "output_row list"
  st_case_metrics :: "case_metric_row list"
  st_run_metrics :: "run_metric_row list"
  st_costs :: "cost_row list"
  st_remote :: "remote_job list"

definition empty_tables :: store where
  "empty_tables = \<lparr>st_projects = [], st_smokes = [], st_runs = [], st_cases = [], st_attempts = [], st_events = [],
     st_outputs = [], st_case_metrics = [], st_run_metrics = [], st_costs = [], st_remote = []\<rparr>"

section \<open>SQL\<close>

text \<open>\<open>UPDATE ... WHERE\<close>; and \<open>INSERT ... ON CONFLICT (key) DO UPDATE\<close>, where \<open>f old new\<close> is the row
  the conflict clause leaves.\<close>

definition update_where :: "('r \<Rightarrow> bool) \<Rightarrow> ('r \<Rightarrow> 'r) \<Rightarrow> 'r list \<Rightarrow> 'r list" where
  "update_where p f rows = map (\<lambda>r. if p r then f r else r) rows"

definition upsert :: "('r \<Rightarrow> 'k) \<Rightarrow> ('r \<Rightarrow> 'r \<Rightarrow> 'r) \<Rightarrow> 'r \<Rightarrow> 'r list \<Rightarrow> 'r list" where
  "upsert key f new rows =
     (if list_ex (\<lambda>r. key r = key new) rows then update_where (\<lambda>r. key r = key new) (\<lambda>r. f r new) rows
      else rows @ [new])"

definition insert_or_ignore :: "('r \<Rightarrow> 'k) \<Rightarrow> 'r \<Rightarrow> 'r list \<Rightarrow> 'r list" where
  "insert_or_ignore key new rows = (if list_ex (\<lambda>r. key r = key new) rows then rows else rows @ [new])"

text \<open>A \<open>REAL\<close> column stores NaN as NULL; an \<open>INTEGER\<close> column takes 64 bits and binding refuses more.\<close>

definition sql_real :: "flt option \<Rightarrow> flt option" where
  "sql_real x = (if x = Some NaN then None else x)"

definition sql_int :: "int \<Rightarrow> unit res" where
  "sql_int i = ensure (- (2 ^ 63) \<le> i \<and> i < 2 ^ 63) OverflowError"

text \<open>\<open>json.dumps(v, allow_nan=False)\<close>: whether it raises. Dates and models are not JSON.\<close>

fun json_finite :: "pyval \<Rightarrow> unit res"
  and json_finite_list :: "pyval list \<Rightarrow> unit res"
  and json_finite_items :: "pydict \<Rightarrow> unit res" where
  "json_finite (VFloat x) = ensure (is_finite x) ValueError"
| "json_finite (VList xs) = json_finite_list xs"
| "json_finite (VDict d) = json_finite_items d"
| "json_finite VNull = Inr ()"
| "json_finite (VBool b) = Inr ()"
| "json_finite (VInt i) = Inr ()"
| "json_finite (VStr s) = Inr ()"
| "json_finite v = Inl TypeError"
| "json_finite_list [] = Inr ()"
| "json_finite_list (v # vs) = bind_res (json_finite v) (\<lambda>_. json_finite_list vs)"
| "json_finite_items [] = Inr ()"
| "json_finite_items ((k, v) # d) = bind_res (json_finite v) (\<lambda>_. json_finite_items d)"

section \<open>Projects\<close>

text \<open>\<open>_SMOKE_TABLE\<close>: the storage layer's own copy of the smoke table.\<close>

definition SMOKE_TABLE :: "smoke_state transition_table" where
  "SMOKE_TABLE =
     (let failed = [Smoke_ENTRYPOINT_MISSING, Smoke_INSTALL_FAILED, Smoke_INVOCATION_FAILED,
                    Smoke_PROVIDER_UNREACHABLE, Smoke_NO_TRACE, Smoke_TIMEOUT] in
      [(Smoke_INGESTED, [Smoke_ANALYZED]),
       (Smoke_ANALYZED, Smoke_RUNTIME_PREPARED # failed),
       (Smoke_RUNTIME_PREPARED, Smoke_SMOKE_PASSED # failed),
       (Smoke_SMOKE_PASSED, [Smoke_EVALUABLE]),
       (Smoke_EVALUABLE, [])]
      @ map (\<lambda>f. (f, Smoke_RUNTIME_PREPARED # Smoke_SMOKE_PASSED # failed)) failed)"

lemma SMOKE_TABLE_eq: "SMOKE_TABLE = SMOKE_TRANSITIONS"
  by (simp add: SMOKE_TABLE_def SMOKE_TRANSITIONS_def SMOKE_FAILURE_STATES_def Let_def)

definition get_project :: "store \<Rightarrow> string \<Rightarrow> string \<Rightarrow> project_row option" where
  "get_project st pid ws = find (\<lambda>p. pj_id p = pid \<and> pj_workspace p = ws) (st_projects st)"

definition create_project_row ::
  "string \<Rightarrow> string \<Rightarrow> string \<Rightarrow> string list \<Rightarrow> int \<Rightarrow> store \<Rightarrow> (unit \<times> store) res" where
  "create_project_row pid ws name entrypoint now st =
     (if list_ex (\<lambda>p. pj_id p = pid) (st_projects st) then Inl IntegrityError
      else Inr ((), st\<lparr>st_projects := st_projects st @
        [\<lparr>pj_id = pid, pj_workspace = ws, pj_name = name, pj_state = Smoke_INGESTED, pj_entrypoint = entrypoint,
          pj_created = now, pj_updated = now\<rparr>]\<rparr>))"

definition set_project_smoke_state :: "string \<Rightarrow> string \<Rightarrow> smoke_state \<Rightarrow> int \<Rightarrow> store \<Rightarrow> (unit \<times> store) res" where
  "set_project_smoke_state pid ws target now st =
     (case get_project st pid ws of
        None \<Rightarrow> Inl KeyError
      | Some p \<Rightarrow>
          bind_res (transition smoke_state_value (smoke_state_value (pj_state p)) (smoke_state_value target) SMOKE_TABLE)
            (\<lambda>t. Inr ((), st\<lparr>st_projects := update_where (\<lambda>p. pj_id p = pid \<and> pj_workspace p = ws)
               (\<lambda>p. p\<lparr>pj_state := t, pj_updated := now\<rparr>) (st_projects st)\<rparr>)))"

definition set_project_entrypoint :: "string \<Rightarrow> string \<Rightarrow> string list \<Rightarrow> int \<Rightarrow> store \<Rightarrow> (unit \<times> store) res" where
  "set_project_entrypoint pid ws entrypoint now st =
     Inr ((), st\<lparr>st_projects := update_where (\<lambda>p. pj_id p = pid \<and> pj_workspace p = ws)
       (\<lambda>p. p\<lparr>pj_entrypoint := entrypoint, pj_updated := now\<rparr>) (st_projects st)\<rparr>)"

definition append_smoke_attempt :: "smoke_row \<Rightarrow> int \<Rightarrow> store \<Rightarrow> (smoke_row \<times> store) res" where
  "append_smoke_attempt row now st =
     (if list_ex (\<lambda>r. sm_id r = sm_id row) (st_smokes st) then Inl IntegrityError
      else Inr (row\<lparr>sm_created := now\<rparr>, st\<lparr>st_smokes := st_smokes st @ [row\<lparr>sm_created := now\<rparr>]\<rparr>))"

section \<open>Runs\<close>

definition get_run :: "store \<Rightarrow> string \<Rightarrow> string \<Rightarrow> run_row option" where
  "get_run st rid ws = find (\<lambda>r. rr_id r = rid \<and> rr_workspace r = ws) (st_runs st)"

definition get_run_by_key :: "store \<Rightarrow> string \<Rightarrow> string \<Rightarrow> run_row option" where
  "get_run_by_key st ws key = find (\<lambda>r. rr_workspace r = ws \<and> rr_key r = Some key) (st_runs st)"

text \<open>\<open>create_run\<close>: \<open>row\<close> holds the values of the insert, its identifier and \<open>created_at\<close> being drawn here.\<close>

definition create_run_row :: "string \<Rightarrow> run_row \<Rightarrow> int \<Rightarrow> store \<Rightarrow> (run_row \<times> store) res" where
  "create_run_row rid row now st =
     (case (case rr_key row of None \<Rightarrow> None | Some k \<Rightarrow> get_run_by_key st (rr_workspace row) k) of
        Some existing \<Rightarrow> Inr (existing, st)
      | None \<Rightarrow>
          if list_ex (\<lambda>r. rr_id r = rid) (st_runs st) then Inl IntegrityError
          else
            (let r = row\<lparr>rr_id := rid, rr_status := Run_DRAFT, rr_started := None, rr_completed := None,
                         rr_created := now\<rparr> in
             Inr (r, st\<lparr>st_runs := st_runs st @ [r]\<rparr>)))"

definition set_run_status :: "string \<Rightarrow> string \<Rightarrow> run_status \<Rightarrow> int \<Rightarrow> store \<Rightarrow> (unit \<times> store) res" where
  "set_run_status rid ws target now st =
     (case get_run st rid ws of
        None \<Rightarrow> Inl KeyError
      | Some r \<Rightarrow>
          bind_res (transition run_status_value (run_status_value (rr_status r)) (run_status_value target) RUN_TRANSITIONS)
            (\<lambda>t.
              let started = (if t = Run_RUNNING \<and> rr_started r = None then Some now else rr_started r);
                  completed = (if is_run_terminal t then Some now else rr_completed r) in
              Inr ((), st\<lparr>st_runs := update_where (\<lambda>r. rr_id r = rid \<and> rr_workspace r = ws)
                (\<lambda>r. r\<lparr>rr_status := t, rr_started := started, rr_completed := completed\<rparr>) (st_runs st)\<rparr>)))"

section \<open>Cases\<close>

definition insert_cases ::
  "(pydict \<Rightarrow> string) \<Rightarrow> string \<Rightarrow> string \<Rightarrow> test_case list \<Rightarrow> int \<Rightarrow> store \<Rightarrow> (unit \<times> store) res" where
  "insert_cases case_key rid ws cases repeats st =
     Inr ((), st\<lparr>st_cases := fold (\<lambda>c. insert_or_ignore (\<lambda>r. (cr_run r, cr_case r))
       \<lparr>cr_run = rid, cr_case = tc_case_id c, cr_key = case_key (tc_input c), cr_workspace = ws,
        cr_status = Case_QUEUED, cr_repeats = repeats, cr_class = None, cr_error = None,
        cr_started = None, cr_completed = None\<rparr>) cases (st_cases st)\<rparr>)"

definition is_case :: "string \<Rightarrow> string \<Rightarrow> string \<Rightarrow> case_row \<Rightarrow> bool" where
  "is_case rid cid ws c = (cr_run c = rid \<and> cr_case c = cid \<and> cr_workspace c = ws)"

definition get_case :: "store \<Rightarrow> string \<Rightarrow> string \<Rightarrow> string \<Rightarrow> case_row option" where
  "get_case st rid cid ws = find (is_case rid cid ws) (st_cases st)"

definition list_cases :: "store \<Rightarrow> string \<Rightarrow> string \<Rightarrow> case_row list" where
  "list_cases st rid ws = filter (\<lambda>c. cr_run c = rid \<and> cr_workspace c = ws) (st_cases st)"

definition set_case_status :: "string \<Rightarrow> string \<Rightarrow> string \<Rightarrow> run_case_status \<Rightarrow> int \<Rightarrow> store \<Rightarrow> (unit \<times> store) res" where
  "set_case_status rid cid ws target now st =
     (case get_case st rid cid ws of
        None \<Rightarrow> Inl KeyError
      | Some c \<Rightarrow>
          bind_res (transition run_case_status_value (run_case_status_value (cr_status c))
                      (run_case_status_value target) RUN_CASE_TRANSITIONS)
            (\<lambda>t.
              let started = (if t = Case_RUNNING \<and> cr_started c = None then Some now else cr_started c);
                  completed = (if t \<in> {Case_COMPLETED, Case_FAILED, Case_CANCELLED, Case_SKIPPED} then Some now
                               else cr_completed c) in
              Inr ((), st\<lparr>st_cases := update_where (is_case rid cid ws)
                (\<lambda>c. c\<lparr>cr_status := t, cr_started := started, cr_completed := completed\<rparr>) (st_cases st)\<rparr>)))"

definition set_case_classification ::
  "string \<Rightarrow> string \<Rightarrow> string \<Rightarrow> classification option \<Rightarrow> error_category option \<Rightarrow> store \<Rightarrow> (unit \<times> store) res" where
  "set_case_classification rid cid ws cl ec st =
     Inr ((), st\<lparr>st_cases := update_where (is_case rid cid ws) (\<lambda>c. c\<lparr>cr_class := cl, cr_error := ec\<rparr>) (st_cases st)\<rparr>)"

section \<open>Attempts\<close>

definition create_attempt ::
  "string \<Rightarrow> string \<Rightarrow> string \<Rightarrow> string \<Rightarrow> int \<Rightarrow> int \<Rightarrow> store \<Rightarrow> (attempt_row \<times> store) res" where
  "create_attempt aid rid cid ws rep att st =
     (if list_ex (\<lambda>a. ar_id a = aid \<or>
                      ar_run a = rid \<and> ar_case a = cid \<and> ar_repeat a = rep \<and> ar_attempt a = att) (st_attempts st)
      then Inl IntegrityError
      else
        (let a = \<lparr>ar_id = aid, ar_run = rid, ar_case = cid, ar_workspace = ws, ar_repeat = rep, ar_attempt = att,
                  ar_first = (att = 0), ar_status = Attempt_QUEUED, ar_exit = None, ar_events = 0,
                  ar_truncated = False, ar_started = None, ar_finished = None\<rparr> in
         Inr (a, st\<lparr>st_attempts := st_attempts st @ [a]\<rparr>)))"

definition is_attempt :: "string \<Rightarrow> string \<Rightarrow> attempt_row \<Rightarrow> bool" where
  "is_attempt aid ws a = (ar_id a = aid \<and> ar_workspace a = ws)"

definition get_attempt_by_id :: "store \<Rightarrow> string \<Rightarrow> string \<Rightarrow> attempt_row option" where
  "get_attempt_by_id st aid ws = find (is_attempt aid ws) (st_attempts st)"

definition list_attempts :: "store \<Rightarrow> string \<Rightarrow> string \<Rightarrow> string option \<Rightarrow> attempt_row list" where
  "list_attempts st rid ws cid =
     sort_key (\<lambda>a. (ar_repeat a, ar_attempt a))
       (filter (\<lambda>a. ar_run a = rid \<and> ar_workspace a = ws \<and> (cid = None \<or> cid = Some (ar_case a))) (st_attempts st))"

text \<open>The optional columns of \<open>set_attempt_status\<close>: \<open>None\<close> keeps what the row has.\<close>

record attempt_facts =
  af_exit :: "int option"
  af_events :: "nat option"
  af_truncated :: "bool option"

definition no_facts :: attempt_facts where
  "no_facts = \<lparr>af_exit = None, af_events = None, af_truncated = None\<rparr>"

definition set_attempt_status ::
  "string \<Rightarrow> string \<Rightarrow> attempt_status \<Rightarrow> attempt_facts \<Rightarrow> int \<Rightarrow> store \<Rightarrow> (unit \<times> store) res" where
  "set_attempt_status aid ws target facts now st =
     (case get_attempt_by_id st aid ws of
        None \<Rightarrow> Inl KeyError
      | Some a \<Rightarrow>
          bind_res (transition attempt_status_value (attempt_status_value (ar_status a))
                      (attempt_status_value target) ATTEMPT_TRANSITIONS)
            (\<lambda>t. bind_res (case af_exit facts of None \<Rightarrow> Inr () | Some i \<Rightarrow> sql_int i) (\<lambda>_.
              let started = (if t = Attempt_RUNNING \<and> ar_started a = None then Some now else ar_started a);
                  finished = (if is_attempt_terminal t then Some now else ar_finished a) in
              Inr ((), st\<lparr>st_attempts := update_where (is_attempt aid ws)
                (\<lambda>r. r\<lparr>ar_status := t,
                       ar_exit := (case af_exit facts of None \<Rightarrow> ar_exit a | Some x \<Rightarrow> Some x),
                       ar_events := (case af_events facts of None \<Rightarrow> ar_events a | Some n \<Rightarrow> n),
                       ar_truncated := (case af_truncated facts of None \<Rightarrow> ar_truncated a | Some b \<Rightarrow> b),
                       ar_started := started, ar_finished := finished\<rparr>) (st_attempts st)\<rparr>))))"

section \<open>Trace events\<close>

text \<open>\<open>int(round(x))\<close> of a float.\<close>

definition flt_round :: "flt \<Rightarrow> int res" where
  "flt_round x = (case x of Fin q \<Rightarrow> Inr (round_even q) | NaN \<Rightarrow> Inl ValueError | _ \<Rightarrow> Inl OverflowError)"

definition MICROS :: flt where
  "MICROS = Fin 1000000"

text \<open>The columns of \<open>cost\<close>: the price in micro-dollars has to fit.\<close>

definition cost_column :: "cost_block option \<Rightarrow> unit res" where
  "cost_column c =
     (case c of None \<Rightarrow> Inr () | Some b \<Rightarrow> bind_res (flt_round (flt_mul (co_cost_usd b) MICROS)) sql_int)"

text \<open>The error block after redaction, whose three keys are not sensitive.\<close>

definition redact_error :: "error_block \<Rightarrow> (error_block \<times> string list) res" where
  "redact_error b =
     bind_res (clean_text (er_type b)) (\<lambda>(ty, fl).
     bind_res (clean_text (er_message b)) (\<lambda>(msg, fl').
       Inr (b\<lparr>er_type := ty, er_message := msg\<rparr>, fl @ fl')))"

text \<open>\<open>_event_row\<close>, as \<open>_event_from_row\<close> reads it back.\<close>

definition event_row :: "externals \<Rightarrow> trace_event \<Rightarrow> trace_event res" where
  "event_row X e =
     bind_res (cost_column (cost e)) (\<lambda>_.
     bind_res (case payload e of
                 None \<Rightarrow> Inr (None, [])
               | Some d \<Rightarrow> bind_res (walk_items X d) (\<lambda>(d', fl). Inr (Some d', fl))) (\<lambda>(p, fl).
     bind_res (case ev_error e of
                 None \<Rightarrow> Inr (None, [])
               | Some b \<Rightarrow> bind_res (redact_error b) (\<lambda>(b', fl'). Inr (Some b', fl'))) (\<lambda>(er, fl').
     bind_res (each_res sql_int ([repeat_index e, ev_attempt e, sequence e] @
                 (case duration_ms e of None \<Rightarrow> [] | Some i \<Rightarrow> [i]))) (\<lambda>_.
       let flags = fl @ fl';
           state = (if flags = [] then redaction e
                    else \<lparr>rd_status = ''redacted'',
                          rd_rules = sorted_set (rd_rules (redaction e) @ map (\<lambda>f. ''storage:'' @ f) flags)\<rparr>) in
       Inr (e\<lparr>payload := p, ev_error := er, redaction := state\<rparr>)))))"

definition insert_trace_events :: "externals \<Rightarrow> trace_event list \<Rightarrow> store \<Rightarrow> (unit \<times> store) res" where
  "insert_trace_events X events st =
     (case events of
        [] \<Rightarrow> Inr ((), st)
      | e # _ \<Rightarrow>
          if list_ex (\<lambda>f. workspace_id f \<noteq> workspace_id e) events then Inl ValueError
          else bind_res (traverse (event_row X) events) (\<lambda>rows.
            Inr ((), st\<lparr>st_events := fold (insert_or_ignore (\<lambda>r. (run_id r, event_id r))) rows (st_events st)\<rparr>)))"

definition get_trace_events ::
  "store \<Rightarrow> string \<Rightarrow> string \<Rightarrow> string option \<Rightarrow> string option \<Rightarrow> trace_event list" where
  "get_trace_events st rid ws cid aid =
     sort_key fallback_key
       (filter (\<lambda>e. run_id e = rid \<and> workspace_id e = ws \<and> (cid = None \<or> cid = Some (ev_case_id e))
                    \<and> (aid = None \<or> aid = Some (attempt_id e))) (st_events st))"

section \<open>Metric results and outputs\<close>

definition score_row ::
  "string \<Rightarrow> string \<Rightarrow> string \<Rightarrow> (string \<times> metric) list \<Rightarrow> int \<Rightarrow> int \<Rightarrow> case_score \<Rightarrow> case_metric_row res" where
  "score_row rid cid ws metric_by_id revision now s =
     bind_res (json_finite (cs_raw_value s)) (\<lambda>_. Inr
       \<lparr>cm_run = rid, cm_case = cid, cm_metric = cs_metric_id s, cm_workspace = ws, cm_revision = revision,
        cm_status = cs_status s, cm_score = sql_real (cs_score s), cm_raw = cs_raw_value s,
        cm_evidence = cs_evidence s, cm_version = cs_evaluator_version s,
        cm_judge = (case map_of metric_by_id (cs_metric_id s) of None \<Rightarrow> None | Some m \<Rightarrow> mt_judge_binding m),
        cm_authoritative = (cs_attempt s = 0), cm_override = cs_on_retry_override s,
        cm_overridden = False, cm_computed = now\<rparr>)"

definition case_metric_key :: "case_metric_row \<Rightarrow> string \<times> string \<times> string \<times> int" where
  "case_metric_key r = (cm_run r, cm_case r, cm_metric r, cm_revision r)"

definition upsert_case_metric_results ::
  "string \<Rightarrow> string \<Rightarrow> string \<Rightarrow> case_score list \<Rightarrow> (string \<times> metric) list \<Rightarrow> int \<Rightarrow> int \<Rightarrow> store \<Rightarrow> (unit \<times> store) res" where
  "upsert_case_metric_results rid cid ws scores metric_by_id revision now st =
     bind_res (traverse (score_row rid cid ws metric_by_id revision now) scores) (\<lambda>rows.
       Inr ((), st\<lparr>st_case_metrics := fold (upsert case_metric_key
         (\<lambda>old new. new\<lparr>cm_workspace := cm_workspace old, cm_overridden := cm_overridden old\<rparr>)) rows
         (st_case_metrics st)\<rparr>))"

definition save_attempt_output ::
  "string \<Rightarrow> string \<Rightarrow> string \<Rightarrow> string \<Rightarrow> pyval option \<Rightarrow> store \<Rightarrow> (unit \<times> store) res" where
  "save_attempt_output aid rid cid ws out st =
     bind_res (case out of None \<Rightarrow> Inr () | Some v \<Rightarrow> json_finite v) (\<lambda>_.
       Inr ((), st\<lparr>st_outputs := upsert ot_attempt (\<lambda>old new. old\<lparr>ot_payload := ot_payload new\<rparr>)
         \<lparr>ot_attempt = aid, ot_run = rid, ot_case = cid, ot_workspace = ws, ot_payload = out\<rparr> (st_outputs st)\<rparr>))"

definition get_attempt_output :: "store \<Rightarrow> string \<Rightarrow> string \<Rightarrow> pyval option" where
  "get_attempt_output st aid ws =
     (case find (\<lambda>r. ot_attempt r = aid \<and> ot_workspace r = ws) (st_outputs st) of None \<Rightarrow> None | Some r \<Rightarrow> ot_payload r)"

definition run_metric_key :: "run_metric_row \<Rightarrow> string \<times> string \<times> int" where
  "run_metric_key r = (rm_run r, rm_metric r, rm_revision r)"

definition upsert_run_metric_result ::
  "string \<Rightarrow> string \<Rightarrow> metric \<Rightarrow> run_aggregate \<Rightarrow> int \<Rightarrow> gate_status option \<Rightarrow> bool \<Rightarrow> int \<Rightarrow> store \<Rightarrow> (unit \<times> store) res" where
  "upsert_run_metric_result rid ws m agg revision gate no_ci now st =
     Inr ((), st\<lparr>st_run_metrics := upsert run_metric_key (\<lambda>old new. new\<lparr>rm_workspace := rm_workspace old\<rparr>)
       \<lparr>rm_run = rid, rm_metric = mt_metric_id m, rm_workspace = ws, rm_revision = revision,
        rm_value = sql_real (ra_value agg), rm_state = ra_state agg, rm_method = ag_method (mt_aggregation m),
        rm_on_error = ag_on_error (mt_aggregation m), rm_sample_n = ra_n_cases agg, rm_error_n = ra_error_n agg,
        rm_skipped_n = ra_skipped_n agg, rm_gate = gate, rm_no_ci = no_ci, rm_computed = now\<rparr> (st_run_metrics st)\<rparr>)"

definition get_run_metric_results :: "store \<Rightarrow> string \<Rightarrow> string \<Rightarrow> run_metric_row list" where
  "get_run_metric_results st rid ws =
     (let rows = filter (\<lambda>r. rm_run r = rid \<and> rm_workspace r = ws) (st_run_metrics st) in
      concat (map (\<lambda>k. filter (\<lambda>r. rm_metric r = k) rows) (sorted_set (map rm_metric rows))))"

section \<open>Costs\<close>

definition iter_cost_json :: "store \<Rightarrow> string \<Rightarrow> string \<Rightarrow> cost_block list" where
  "iter_cost_json st rid ws =
     List.map_filter cost (filter (\<lambda>e. run_id e = rid \<and> workspace_id e = ws) (st_events st))"

definition add_cost_summaries :: "string \<Rightarrow> string \<Rightarrow> cost_row list \<Rightarrow> store \<Rightarrow> (unit \<times> store) res" where
  "add_cost_summaries rid ws rows st =
     bind_res (each_res (\<lambda>r. each_res sql_int [ct_input r, ct_output r, ct_micros r]) rows) (\<lambda>_.
       Inr ((), st\<lparr>st_costs := fold (upsert (\<lambda>r. (ct_run r, ct_version r))
         (\<lambda>old new. new\<lparr>ct_workspace := ct_workspace old\<rparr>))
         (map (\<lambda>r. r\<lparr>ct_run := rid, ct_workspace := ws\<rparr>) rows) (st_costs st)\<rparr>))"

section \<open>Remote jobs\<close>

definition save_remote_job ::
  "string \<Rightarrow> string \<Rightarrow> string \<Rightarrow> string \<Rightarrow> string \<Rightarrow> string \<Rightarrow> int \<Rightarrow> store \<Rightarrow> (unit \<times> store) res" where
  "save_remote_job aid rid cid ws job state now st =
     Inr ((), st\<lparr>st_remote := upsert rj_attempt
       (\<lambda>old new. old\<lparr>rj_job := rj_job new, rj_state := rj_state new, rj_updated := rj_updated new\<rparr>)
       \<lparr>rj_attempt = aid, rj_run = rid, rj_case = cid, rj_workspace = ws, rj_job = job, rj_state = state,
        rj_created = now, rj_updated = now\<rparr> (st_remote st)\<rparr>)"

definition get_remote_job :: "store \<Rightarrow> string \<Rightarrow> string \<Rightarrow> remote_job option" where
  "get_remote_job st aid ws = find (\<lambda>j. rj_attempt j = aid \<and> rj_workspace j = ws) (st_remote st)"

definition get_resumable_remote_job :: "store \<Rightarrow> string \<Rightarrow> string \<Rightarrow> string \<Rightarrow> remote_job option" where
  "get_resumable_remote_job st rid cid ws =
     first_max (\<lambda>j. rj_run j = rid \<and> rj_case j = cid \<and> rj_workspace j = ws \<and> rj_state j = ''orphaned'') rj_updated
       (st_remote st)"

definition set_remote_job_state :: "string \<Rightarrow> string \<Rightarrow> string \<Rightarrow> int \<Rightarrow> store \<Rightarrow> (unit \<times> store) res" where
  "set_remote_job_state aid ws state now st =
     Inr ((), st\<lparr>st_remote := update_where (\<lambda>j. rj_attempt j = aid \<and> rj_workspace j = ws)
       (\<lambda>j. j\<lparr>rj_state := state, rj_updated := now\<rparr>) (st_remote st)\<rparr>)"

end
