(* ===== verification/Runner.thy ===== *)
theory Runner
  imports RunStore
begin

text \<open>
  Agent invocation (\<open>runner.py\<close>): the files an attempt gives the agent, and the decision table of
  \<open>invoke_agent\<close> over what the process leaves.

  The process itself is a parameter: how it ended, \<open>result.json\<close> as \<open>json.loads\<close> reads it, and the trace
  file as the lines it decodes to. Parsing a line is pydantic's, also a parameter; it yields the event
  and whether \<open>redaction_state\<close> was given. Error texts and output tails are left out.
\<close>

section \<open>What a process leaves\<close>

datatype invocation_status =
    INV_completed | INV_timed_out | INV_failed | INV_provider_unreachable | INV_no_trace | INV_cancelled

type_synonym captured = "trace_event \<times> bool"

record invocation =
  iv_status :: invocation_status
  iv_exit :: "int option"
  iv_events :: "captured list"
  iv_payload :: "pydict option"

text \<open>\<open>Spawn_raised\<close>: \<open>Popen\<close> raised something other than \<open>OSError\<close>, such as \<open>ValueError\<close> on a null byte.\<close>

datatype ending = Spawn_failed | Spawn_raised exn | Timed_out "int option" | Exited int

datatype result_file = No_result | Unreadable_result | Result pyval

text \<open>A trace file has a size, the lines that decode as UTF-8, and whether bytes that do not follow.\<close>

datatype trace_file = No_trace_file | Unreadable_trace | Trace_file nat "string list" bool

record process =
  pr_ending :: ending
  pr_result :: result_file
  pr_trace :: trace_file

section \<open>Input files\<close>

text \<open>\<open>case.json\<close> and \<open>manifest.json\<close>.\<close>

definition case_document :: "test_case \<Rightarrow> pydict" where
  "case_document c =
     [(''case_id'', VStr (tc_case_id c)), (''name'', VStr (tc_name c)), (''description'', VStr (tc_description c)),
      (''input'', VDict (tc_input c)), (''metadata'', VDict (tc_metadata c))]"

definition manifest_document ::
  "string \<Rightarrow> evaluation_spec \<Rightarrow> test_case \<Rightarrow> string \<Rightarrow> string \<Rightarrow> int \<Rightarrow> int \<Rightarrow> pydict" where
  "manifest_document version spec c rid aid rep att =
     [(''engine_version'', VStr version), (''spec_name'', VStr (sp_name spec)),
      (''spec_version'', VStr (sp_spec_version spec)), (''dataset_version'', VStr (sp_dataset_version spec)),
      (''run_id'', VStr rid), (''case_id'', VStr (tc_case_id c)), (''attempt_id'', VStr aid),
      (''repeat_index'', VInt rep), (''attempt'', VInt att)]"

section \<open>Reading the outcome\<close>

definition read_result_json :: "result_file \<Rightarrow> pydict option" where
  "read_result_json f = (case f of Result (VDict d) \<Rightarrow> Some d | _ \<Rightarrow> None)"

definition MAX_TRACE_FILE_BYTES :: nat where
  "MAX_TRACE_FILE_BYTES = 64 * 1048576"

text \<open>\<open>Inr None\<close> is an error message; undecodable bytes raise \<open>UnicodeDecodeError\<close>, a \<open>ValueError\<close> that
  neither handler of \<open>_read_trace\<close> catches.\<close>

fun read_lines :: "(string \<Rightarrow> captured option) \<Rightarrow> string list \<Rightarrow> bool \<Rightarrow> captured list option res" where
  "read_lines parse [] undecodable = (if undecodable then Inl ValueError else Inr (Some []))"
| "read_lines parse (l # ls) undecodable =
     (if strip l = [] then read_lines parse ls undecodable
      else case parse (strip l) of
          None \<Rightarrow> Inr None
        | Some e \<Rightarrow> bind_res (read_lines parse ls undecodable) (\<lambda>r. Inr (map_option (\<lambda>es. e # es) r)))"

definition read_trace :: "(string \<Rightarrow> captured option) \<Rightarrow> trace_file \<Rightarrow> captured list option res" where
  "read_trace parse f =
     (case f of
        No_trace_file \<Rightarrow> Inr (Some [])
      | Unreadable_trace \<Rightarrow> Inr None
      | Trace_file n lines undecodable \<Rightarrow>
          if n = 0 then Inr (Some [])
          else if MAX_TRACE_FILE_BYTES < n then Inr None
          else read_lines parse lines undecodable)"

section \<open>\<open>invoke_agent\<close>\<close>

definition failed_invocation :: "int option \<Rightarrow> pydict option \<Rightarrow> invocation" where
  "failed_invocation ec out =
     \<lparr>iv_status = INV_failed, iv_exit = ec, iv_events = [], iv_payload = out\<rparr>"

text \<open>\<open>result_payload.get("error") or {}\<close>, whose \<open>get\<close> needs a dict.\<close>

definition error_block_of :: "pydict \<Rightarrow> pydict res" where
  "error_block_of d =
     (if \<not> truthy (dict_get d ''error'') then Inr []
      else case dict_get d ''error'' of VDict b \<Rightarrow> Inr b | _ \<Rightarrow> Inl AttributeError)"

definition reported_error :: "int \<Rightarrow> pydict \<Rightarrow> invocation res" where
  "reported_error ec d =
     bind_res (error_block_of d) (\<lambda>b.
       Inr (if dict_get b ''type'' = VStr ''provider_unreachable''
            then \<lparr>iv_status = INV_provider_unreachable, iv_exit = Some ec, iv_events = [], iv_payload = Some d\<rparr>
            else failed_invocation (Some ec) (Some d)))"

definition traced :: "(string \<Rightarrow> captured option) \<Rightarrow> int \<Rightarrow> pydict \<Rightarrow> trace_file \<Rightarrow> invocation res" where
  "traced parse ec d f =
     bind_res (read_trace parse f) (\<lambda>r.
       Inr (case r of
              None \<Rightarrow> failed_invocation (Some ec) None
            | Some events \<Rightarrow>
                \<lparr>iv_status = (if events = [] then INV_no_trace else INV_completed), iv_exit = Some ec,
                 iv_events = events, iv_payload = Some d\<rparr>))"

definition invoke_agent :: "(string \<Rightarrow> captured option) \<Rightarrow> string list \<Rightarrow> process \<Rightarrow> invocation res" where
  "invoke_agent parse command p =
     (if command = [] then Inr (failed_invocation None None)
      else case pr_ending p of
          Spawn_failed \<Rightarrow> Inr (failed_invocation None None)
        | Spawn_raised e \<Rightarrow> Inl e
        | Timed_out ec \<Rightarrow> Inr \<lparr>iv_status = INV_timed_out, iv_exit = ec, iv_events = [], iv_payload = None\<rparr>
        | Exited ec \<Rightarrow>
            if ec \<noteq> 0 then Inr (failed_invocation (Some ec) None)
            else case read_result_json (pr_result p) of
                None \<Rightarrow> Inr (failed_invocation (Some ec) None)
              | Some d \<Rightarrow>
                  if dict_get d ''status'' = VStr ''error'' then reported_error ec d
                  else if dict_get d ''status'' \<noteq> VStr ''completed'' then Inr (failed_invocation (Some ec) (Some d))
                  else traced parse ec d (pr_trace p))"

end
