(* ===== verification/Engine.thy ===== *)
theory Engine
  imports Runner
begin

text \<open>
  The execution engine (\<open>engine.py\<close>): the smoke gate of a project, the creation of a run, and its
  execution, which runs every queued case through its repeats and retries, ingests and scores each
  attempt, streams partial aggregates, and lands the run.

  The state is the tables with the number of steps taken so far; the wall clock, fresh identifiers,
  the cancellation signal, the agent process and the target adapter are parameters of the engine
  that may answer every step differently. The engine is the only writer of the tables while it runs.
  An exception leaves the state as it is at the raise. Log and warning texts are left out; a warning
  is the case and the repeat it names. The work directory of an attempt is not modelled.
\<close>

section \<open>The engine\<close>

record run_tiers =
  rt_quick_max :: nat
  rt_standard_min :: nat
  rt_standard_max :: nat
  rt_full_max :: nat

definition default_tiers :: run_tiers where
  "default_tiers = \<lparr>rt_quick_max = 20, rt_standard_min = 100, rt_standard_max = 200, rt_full_max = 5000\<rparr>"

record judgment_context =
  jc_output :: "pyval option"
  jc_events :: "trace_event list"

record custom_evaluator =
  ce_version :: string
  ce_threshold :: flt
  ce_evaluate :: "pydict \<Rightarrow> pydict \<Rightarrow> pyval res"

text \<open>A call of the target adapter: the remote jobs it persisted, the proxy records it captured, and
  its result or exception.\<close>

record target_result =
  tr_outcome :: string
  tr_output :: pyval
  tr_events :: "captured list"
  tr_remote_job :: "string option"

record target_call =
  tc_persisted :: "string list"
  tc_proxy :: "pyval list"
  tc_result :: "target_result res"

record engine =
  en_ext :: externals
  en_now :: "nat \<Rightarrow> int"
  en_fresh :: "nat \<Rightarrow> string"
  en_cancel :: "nat \<Rightarrow> bool"
  en_process :: "nat \<Rightarrow> process"
  en_parse :: "string \<Rightarrow> captured option"
  en_target :: "(nat \<Rightarrow> string option \<Rightarrow> target_call) option"
  en_event_ids :: "nat \<Rightarrow> nat \<Rightarrow> string"
  en_judge :: "judgment_context option \<Rightarrow> judge_binding \<Rightarrow> judge res"
  en_custom :: "(string \<times> custom_evaluator) list"
  en_dump :: "trace_event \<Rightarrow> pyval"
  en_readiness :: "registry option"
  en_price :: string
  en_tiers :: run_tiers
  en_case_key :: "pydict \<Rightarrow> string"

type_synonym estate = "store \<times> nat"
type_synonym 'a eng = "estate \<Rightarrow> 'a res \<times> estate"

text \<open>One transaction at step \<open>n\<close>; and calls that only read or only compute.\<close>

definition tx :: "(nat \<Rightarrow> store \<Rightarrow> ('a \<times> store) res) \<Rightarrow> 'a eng" where
  "tx op s =
     (case op (snd s) (fst s) of
        Inl e \<Rightarrow> (Inl e, (fst s, Suc (snd s)))
      | Inr (x, st) \<Rightarrow> (Inr x, (st, Suc (snd s))))"

definition reading :: "(store \<Rightarrow> 'a res) \<Rightarrow> 'a eng" where
  "reading f s = (f (fst s), s)"

definition lift :: "'a res \<Rightarrow> 'a eng" where
  "lift r s = (r, s)"

definition run_to :: "engine \<Rightarrow> string \<Rightarrow> string \<Rightarrow> run_status \<Rightarrow> unit eng" where
  "run_to E rid ws t = tx (\<lambda>n. set_run_status rid ws t (en_now E n))"

definition case_to :: "engine \<Rightarrow> string \<Rightarrow> string \<Rightarrow> string \<Rightarrow> run_case_status \<Rightarrow> unit eng" where
  "case_to E rid cid ws t = tx (\<lambda>n. set_case_status rid cid ws t (en_now E n))"

definition attempt_to :: "engine \<Rightarrow> string \<Rightarrow> string \<Rightarrow> attempt_status \<Rightarrow> attempt_facts \<Rightarrow> unit eng" where
  "attempt_to E aid ws t facts = tx (\<lambda>n. set_attempt_status aid ws t facts (en_now E n))"

definition smoke_to :: "engine \<Rightarrow> string \<Rightarrow> string \<Rightarrow> smoke_state \<Rightarrow> unit eng" where
  "smoke_to E pid ws t = tx (\<lambda>n. set_project_smoke_state pid ws t (en_now E n))"

section \<open>Projects and the smoke gate\<close>

definition require_project :: "string \<Rightarrow> string \<Rightarrow> project_row eng" where
  "require_project pid ws =
     reading (\<lambda>st. case get_project st pid ws of None \<Rightarrow> Inl KeyError | Some p \<Rightarrow> Inr p)"

definition create_project :: "engine \<Rightarrow> string \<Rightarrow> string \<Rightarrow> string list \<Rightarrow> project_row eng" where
  "create_project E ws name entrypoint s =
     bind_w (tx (\<lambda>n. create_project_row (en_fresh E n) ws name entrypoint (en_now E n)) s) (\<lambda>_ t.
       require_project (en_fresh E (snd s)) ws t)"

definition advance_project :: "engine \<Rightarrow> string \<Rightarrow> string \<Rightarrow> smoke_state \<Rightarrow> project_row eng" where
  "advance_project E pid ws t s = bind_w (smoke_to E pid ws t s) (\<lambda>_. require_project pid ws)"

definition prepare_project :: "engine \<Rightarrow> string \<Rightarrow> string \<Rightarrow> string list \<Rightarrow> project_row eng" where
  "prepare_project E pid ws entrypoint s =
     bind_w (require_project pid ws s) (\<lambda>p s.
     bind_w (lift (ensure (pj_state p \<noteq> Smoke_SMOKE_PASSED \<and> pj_state p \<noteq> Smoke_EVALUABLE) EngineError) s) (\<lambda>_ s.
     bind_w (if pj_state p = Smoke_INGESTED then smoke_to E pid ws Smoke_ANALYZED s else (Inr (), s)) (\<lambda>_ s.
     bind_w (tx (\<lambda>n. set_project_entrypoint pid ws entrypoint (en_now E n)) s) (\<lambda>_ s.
       advance_project E pid ws (if entrypoint = [] then Smoke_ENTRYPOINT_MISSING else Smoke_RUNTIME_PREPARED) s))))"

fun smoke_outcome :: "invocation_status \<Rightarrow> smoke_state" where
  "smoke_outcome INV_timed_out = Smoke_TIMEOUT"
| "smoke_outcome INV_provider_unreachable = Smoke_PROVIDER_UNREACHABLE"
| "smoke_outcome INV_failed = Smoke_INVOCATION_FAILED"
| "smoke_outcome INV_no_trace = Smoke_NO_TRACE"
| "smoke_outcome _ = Smoke_SMOKE_PASSED"

text \<open>The local agent: one step of the process.\<close>

definition invoke_local :: "engine \<Rightarrow> string list \<Rightarrow> invocation eng" where
  "invoke_local E command s = (invoke_agent (en_parse E) command (en_process E (snd s)), (fst s, Suc (snd s)))"

definition smoke :: "engine \<Rightarrow> string \<Rightarrow> string \<Rightarrow> smoke_row eng" where
  "smoke E pid ws s =
     bind_w (require_project pid ws s) (\<lambda>p s.
     bind_w (lift (ensure (pj_entrypoint p \<noteq> []) EngineError) s) (\<lambda>_ s.
     bind_w (lift (ensure (pj_state p \<notin> {Smoke_INGESTED, Smoke_ANALYZED, Smoke_SMOKE_PASSED, Smoke_EVALUABLE}) EngineError) s) (\<lambda>_ s.
     bind_w (invoke_local E (pj_entrypoint p) s) (\<lambda>r t.
     bind_w (tx (\<lambda>n. append_smoke_attempt
               \<lparr>sm_id = en_fresh E n, sm_workspace = ws, sm_project = pid, sm_entrypoint = pj_entrypoint p,
                sm_exit = iv_exit r, sm_state = smoke_outcome (iv_status r),
                sm_trace = (pr_trace (en_process E (snd s)) \<noteq> No_trace_file), sm_created = 0\<rparr> (en_now E n)) t) (\<lambda>row t.
     bind_w (smoke_to E pid ws (smoke_outcome (iv_status r)) t) (\<lambda>_ t.
       (Inr row, t)))))))"

section \<open>Run creation\<close>

text \<open>A specification object, or a dict or text that \<open>validate_spec\<close> reads.\<close>

datatype spec_input = Validated_spec evaluation_spec | Raw_spec "metric \<Rightarrow> bool" evaluation_spec

record run_request =
  rq_spec :: spec_input
  rq_tier :: "string option"
  rq_repeats :: int
  rq_retry_max :: int
  rq_project :: "string option"
  rq_key :: "string option"
  rq_created_by :: "string option"
  rq_budget :: int
  rq_concurrency :: int
  rq_world :: pydict
  rq_estimate :: "pydict option"
  rq_digest :: string
  rq_cwd :: "string option"
  rq_timeout :: flt
  rq_entrypoint :: "string list"
  rq_manifest :: "pydict option"

definition tier_of :: "string \<Rightarrow> run_tier option" where
  "tier_of t =
     (if t = ''quick'' then Some Quick else if t = ''standard'' then Some Standard
      else if t = ''full'' then Some Full else None)"

definition check_tier_cap :: "run_tiers \<Rightarrow> run_tier \<Rightarrow> nat \<Rightarrow> unit res" where
  "check_tier_cap t tier n =
     (case tier of
        Quick \<Rightarrow> ensure (n \<le> rt_quick_max t) TierViolationError
      | Standard \<Rightarrow> ensure (rt_standard_min t \<le> n \<and> n \<le> rt_standard_max t) TierViolationError
      | Full \<Rightarrow> ensure (n \<le> rt_full_max t) TierViolationError)"

definition validated_request :: "externals \<Rightarrow> spec_input \<Rightarrow> evaluation_spec res" where
  "validated_request X i = (case i of Validated_spec s \<Rightarrow> Inr s | Raw_spec provided s \<Rightarrow> validate_spec X provided s)"

definition resolve_tier :: "string option \<Rightarrow> evaluation_spec \<Rightarrow> run_tier res" where
  "resolve_tier t spec =
     (case t of
        None \<Rightarrow> (case sp_run_tier spec of None \<Rightarrow> Inl ValueError | Some tier \<Rightarrow> Inr tier)
      | Some name \<Rightarrow> (case tier_of name of None \<Rightarrow> Inl ValueError | Some tier \<Rightarrow> Inr tier))"

text \<open>The project gate: only an evaluable project has a command to run.\<close>

definition resolve_entrypoint :: "run_request \<Rightarrow> string \<Rightarrow> store \<Rightarrow> string list res" where
  "resolve_entrypoint q ws st =
     (case rq_project q of
        None \<Rightarrow> bind_res (ensure (rq_entrypoint q \<noteq> []) ValueError) (\<lambda>_. Inr (rq_entrypoint q))
      | Some pid \<Rightarrow>
          (case get_project st pid ws of
             None \<Rightarrow> Inl KeyError
           | Some p \<Rightarrow>
               bind_res (ensure (pj_state p = Smoke_EVALUABLE) ProjectNotEvaluableError) (\<lambda>_.
               bind_res (ensure (pj_entrypoint p \<noteq> []) EngineError) (\<lambda>_. Inr (pj_entrypoint p)))))"

definition judge_bindings :: "evaluation_spec \<Rightarrow> (string \<times> judge_binding) list res" where
  "judge_bindings spec =
     traverse (\<lambda>m. case mt_judge_binding m of None \<Rightarrow> Inl AttributeError | Some b \<Rightarrow> Inr (mt_metric_id m, b))
       (filter (\<lambda>m. mt_type m = M_judge) (sp_metrics spec))"

definition request_guards :: "run_request \<Rightarrow> evaluation_spec \<Rightarrow> unit res" where
  "request_guards q spec =
     ensure (sp_cases spec \<noteq> [] \<and> sp_metrics spec \<noteq> [] \<and> 1 \<le> rq_repeats q \<and> 0 \<le> rq_retry_max q
       \<and> rq_concurrency q = 1 \<and> 0 \<le> rq_budget q) ValueError"

definition new_run :: "run_request \<Rightarrow> string \<Rightarrow> evaluation_spec \<Rightarrow> run_tier \<Rightarrow> string list \<Rightarrow> (string \<times> judge_binding) list \<Rightarrow> run_row" where
  "new_run q ws spec tier entrypoint judges =
     \<lparr>rr_id = [], rr_workspace = ws, rr_project = rq_project q, rr_spec = spec,
      rr_agent = \<lparr>av_digest = (if rq_digest q = [] then ''unknown'' else rq_digest q), av_entrypoint = entrypoint,
                  av_cwd = rq_cwd q, av_timeout = rq_timeout q, av_manifest = rq_manifest q\<rparr>,
      rr_status = Run_DRAFT, rr_tier = tier, rr_repeats = rq_repeats q, rr_retry_max = rq_retry_max q,
      rr_world = rq_world q, rr_judges = judges,
      rr_mixed = list_ex (\<lambda>m. mt_type m = M_judge \<and> \<not> mt_provisional m) (sp_metrics spec),
      rr_case_count = length (sp_cases spec), rr_concurrency = rq_concurrency q, rr_estimate = rq_estimate q,
      rr_budget = rq_budget q, rr_created_by = rq_created_by q, rr_started = None, rr_completed = None,
      rr_created = 0, rr_key = rq_key q\<rparr>"

definition create_run :: "engine \<Rightarrow> string \<Rightarrow> run_request \<Rightarrow> run_row eng" where
  "create_run E ws q s =
     bind_w (lift (validated_request (en_ext E) (rq_spec q)) s) (\<lambda>spec s.
     bind_w (lift (request_guards q spec) s) (\<lambda>_ s.
     bind_w (lift (resolve_tier (rq_tier q) spec) s) (\<lambda>tier s.
     bind_w (reading (resolve_entrypoint q ws) s) (\<lambda>entrypoint s.
     bind_w (lift (check_tier_cap (en_tiers E) tier (length (sp_cases spec))) s) (\<lambda>_ s.
     bind_w (lift (judge_bindings spec) s) (\<lambda>judges s.
     bind_w (tx (\<lambda>n. create_run_row (en_fresh E n) (new_run q ws spec tier entrypoint judges) (en_now E n)) s) (\<lambda>run s.
     bind_w (tx (\<lambda>_. insert_cases (en_case_key E) (rr_id run) ws (sp_cases spec) (rq_repeats q)) s) (\<lambda>_ s.
       (Inr run, s)))))))))"

section \<open>Ingestion\<close>

definition MAX_EVENTS_PER_ATTEMPT :: nat where
  "MAX_EVENTS_PER_ATTEMPT = 1000"

text \<open>An explicit redaction state, and the identity of the attempt.\<close>

definition admissible :: "run_row \<Rightarrow> string \<Rightarrow> string \<Rightarrow> captured \<Rightarrow> bool" where
  "admissible run cid aid x =
     (snd x \<and> run_id (fst x) = rr_id run \<and> ev_case_id (fst x) = cid \<and> attempt_id (fst x) = aid)"

definition stamp_price :: "string \<Rightarrow> trace_event \<Rightarrow> trace_event" where
  "stamp_price version e = e\<lparr>cost := map_option (\<lambda>c. c\<lparr>co_price_version := version\<rparr>) (cost e)\<rparr>"

text \<open>The kept events, and whether the cap cut the trace.\<close>

definition capped :: "engine \<Rightarrow> captured list \<Rightarrow> trace_event list \<times> bool" where
  "capped E events =
     (take MAX_EVENTS_PER_ATTEMPT (map (stamp_price (en_price E) \<circ> fst) events),
      MAX_EVENTS_PER_ATTEMPT < length events)"

definition ingest_events :: "engine \<Rightarrow> run_row \<Rightarrow> string \<Rightarrow> string \<Rightarrow> captured list \<Rightarrow> (trace_event list \<times> bool) eng" where
  "ingest_events E run cid aid events s =
     bind_w (lift (ensure (list_all (admissible run cid aid) events) EngineError) s) (\<lambda>_ s.
     bind_w (tx (\<lambda>_. insert_trace_events (en_ext E) (fst (capped E events))) s) (\<lambda>_ s.
       (Inr (capped E events), s)))"

section \<open>Target adapters\<close>

text \<open>\<open>_proxy_records_to_events\<close>, the \<open>i\<close>-th record; \<open>now\<close> is the clock a record without timestamp gets.
  A timestamp without a time zone is read as UTC, the zone the recording proxy writes.\<close>

definition proxy_usage :: "pyval \<Rightarrow> token_usage res" where
  "proxy_usage v =
     (let none = \<lparr>tk_input = 0, tk_output = 0, tk_cache_read = 0, tk_cache_write = 0\<rparr> in
      case v of
        VNull \<Rightarrow> Inr none
      | VDict d \<Rightarrow>
          (case (dict_get d ''prompt_tokens'', dict_get d ''completion_tokens'') of
             (VInt i, VInt o') \<Rightarrow>
               if i < 0 \<or> o' < 0 then Inl EngineError else Inr (none\<lparr>tk_input := i, tk_output := o'\<rparr>)
           | _ \<Rightarrow> Inl EngineError)
      | _ \<Rightarrow> Inl EngineError)"

definition proxy_cost :: "pydict \<Rightarrow> token_usage \<Rightarrow> cost_block option res" where
  "proxy_cost d tokens =
     (case dict_get d ''cost_usd_micros'' of
        VNull \<Rightarrow> Inr None
      | VInt c \<Rightarrow>
          (case dict_get d ''price_version'' of
             VStr v \<Rightarrow>
               if c < 0 then Inl EngineError
               else bind_res (int_div c 1000000) (\<lambda>usd.
                 Inr (Some \<lparr>co_tokens = tokens, co_cost_usd = usd, co_currency = ''USD'', co_price_version = v\<rparr>))
           | _ \<Rightarrow> Inl EngineError)
      | _ \<Rightarrow> Inl EngineError)"

definition proxy_timestamp :: "externals \<Rightarrow> int \<Rightarrow> pyval \<Rightarrow> int res" where
  "proxy_timestamp X now v =
     (case v of
        VStr t \<Rightarrow> (case fromisoformat X t of None \<Rightarrow> Inl EngineError | Some (Aware i) \<Rightarrow> Inr i | Some (Naive i) \<Rightarrow> Inr i)
      | _ \<Rightarrow> Inr now)"

definition proxy_event_type :: "externals \<Rightarrow> pyval \<Rightarrow> event_type res" where
  "proxy_event_type X v =
     (case event_type_of (if truthy v then py_str X v else ''llm_response'') of
        Some t \<Rightarrow> if t \<in> {LLM_CALL, LLM_RESPONSE, event_type.ERROR, BUDGET_EXCEEDED} then Inr t else Inl EngineError
      | None \<Rightarrow> Inl EngineError)"

definition proxy_event :: "engine \<Rightarrow> nat \<Rightarrow> run_row \<Rightarrow> string \<Rightarrow> attempt_row \<Rightarrow> nat \<Rightarrow> nat \<Rightarrow> pyval \<Rightarrow> captured res" where
  "proxy_event E n run ws a offset i raw =
     (case raw of
        VDict d \<Rightarrow>
          if dict_get d ''source'' \<noteq> VStr ''proxy'' then Inl EngineError
          else bind_res (proxy_event_type (en_ext E) (dict_get d ''type'')) (\<lambda>ty.
            bind_res (proxy_usage (dict_get d ''usage'')) (\<lambda>tokens.
            bind_res (proxy_cost d tokens) (\<lambda>c.
            bind_res (proxy_timestamp (en_ext E) (en_now E n) (dict_get d ''timestamp'')) (\<lambda>ts.
            bind_res (make_event (event_type_value ty)
                \<lparr>event_id = [], run_id = rr_id run, workspace_id = ws, ev_case_id = ar_case a, attempt_id = ar_id a,
                 repeat_index = ar_repeat a, ev_attempt = ar_attempt a, sequence = int (offset + i), ev_type = ty,
                 ev_source = PROXY, timestamp = ts, duration_ms = None, parent_event_id = None,
                 provider_request_id = None, ev_tool = None, otel = None, cost = c,
                 redaction = \<lparr>rd_status = ''clean'', rd_rules = []\<rparr>,
                 payload = Some (filter (\<lambda>(k, _). k \<in> {''host'', ''path'', ''model'', ''status'', ''usage''}) d),
                 payload_ref = None, ev_error = None\<rparr>
                None (en_event_ids E n i) (Some ts) 0) (\<lambda>e.
              Inr (e, True))))))
      | _ \<Rightarrow> Inl EngineError)"

definition proxy_events :: "engine \<Rightarrow> nat \<Rightarrow> run_row \<Rightarrow> string \<Rightarrow> attempt_row \<Rightarrow> nat \<Rightarrow> pyval list \<Rightarrow> captured list res" where
  "proxy_events E n run ws a offset records =
     traverse (\<lambda>(i, raw). proxy_event E n run ws a offset i raw) (enumerate 0 records)"

definition outcome_status :: "string \<Rightarrow> invocation_status" where
  "outcome_status o' =
     (if o' = ''ok'' then INV_completed
      else if o' = ''no_trace'' then INV_no_trace
      else if o' = ''timeout'' then INV_timed_out
      else if o' = ''provider_unreachable'' then INV_provider_unreachable
      else if o' = ''cancelled'' then INV_cancelled
      else INV_failed)"

definition remember_job :: "engine \<Rightarrow> run_row \<Rightarrow> string \<Rightarrow> attempt_row \<Rightarrow> string \<Rightarrow> string \<Rightarrow> unit eng" where
  "remember_job E run ws a state job =
     tx (\<lambda>n. save_remote_job (ar_id a) (rr_id run) (ar_case a) ws job state (en_now E n))"

definition resumable_job :: "run_row \<Rightarrow> string \<Rightarrow> attempt_row \<Rightarrow> store \<Rightarrow> string option" where
  "resumable_job run ws a st =
     map_option rj_job
       (case get_remote_job st (ar_id a) ws of
          Some j \<Rightarrow> Some j
        | None \<Rightarrow> get_resumable_remote_job st (rr_id run) (ar_case a) ws)"

definition invoke_target ::
  "engine \<Rightarrow> (nat \<Rightarrow> string option \<Rightarrow> target_call) \<Rightarrow> run_row \<Rightarrow> string \<Rightarrow> attempt_row \<Rightarrow> invocation eng" where
  "invoke_target E adapter run ws a s =
     (if av_manifest (rr_agent run) = None then (Inr (failed_invocation None None), s)
      else
        let call = adapter (snd s) (resumable_job run ws a (fst s)) in
        bind_w (each_w (remember_job E run ws a ''submitted'') (tc_persisted call) (fst s, Suc (snd s))) (\<lambda>_ s.
        bind_w (lift (tc_result call) s) (\<lambda>r s.
        bind_w (lift (proxy_events E (snd s) run ws a (length (tr_events r)) (tc_proxy call)) s) (\<lambda>proxy s.
        bind_w (case tr_remote_job r of
                  None \<Rightarrow> (Inr (), s)
                | Some job \<Rightarrow> remember_job E run ws a (if tr_outcome r = ''ok'' then ''completed'' else tr_outcome r) job s) (\<lambda>_ s.
        bind_w (lift (if tr_output r = VNull then Inr VNull
                      else bind_res (redact (en_ext E) (tr_output r)) (\<lambda>d. Inr (rp_content d))) s) (\<lambda>output s.
          let status = outcome_status (tr_outcome r) in
          (Inr \<lparr>iv_status = status,
                iv_exit = (if status = INV_completed \<or> status = INV_no_trace then Some 0 else None),
                iv_events = tr_events r @ proxy,
                iv_payload = (case output of VDict d \<Rightarrow> Some d | _ \<Rightarrow> None)\<rparr>, s)))))))"

definition invoke :: "engine \<Rightarrow> run_row \<Rightarrow> string \<Rightarrow> attempt_row \<Rightarrow> invocation eng" where
  "invoke E run ws a s =
     (case en_target E of
        None \<Rightarrow> invoke_local E (av_entrypoint (rr_agent run)) s
      | Some adapter \<Rightarrow> invoke_target E adapter run ws a s)"

section \<open>Scoring an attempt\<close>

text \<open>\<open>_judge_for\<close>: the factory's judge has to be bound as the metric declares.\<close>

definition judge_for :: "engine \<Rightarrow> judgment_context option \<Rightarrow> metric \<Rightarrow> judge option res" where
  "judge_for E ctx m =
     (if mt_type m \<noteq> M_judge then Inr None
      else case mt_judge_binding m of
          None \<Rightarrow> Inl AttributeError
        | Some b \<Rightarrow>
            bind_res (en_judge E ctx b) (\<lambda>j. if jd_binding j \<noteq> b then Inl ValueError else Inr (Some j)))"

definition or_null :: "pyval option \<Rightarrow> pyval" where
  "or_null v = (case v of None \<Rightarrow> VNull | Some x \<Rightarrow> x)"

definition custom_case_score ::
  "engine \<Rightarrow> evaluation_spec \<Rightarrow> string \<Rightarrow> trace_event list \<Rightarrow> metric \<Rightarrow> custom_evaluator \<Rightarrow> pyval option \<Rightarrow> int \<Rightarrow> case_score res" where
  "custom_case_score E spec cid events m c output att =
     score_custom spec cid events m (en_dump E) (ce_evaluate c) (ce_version c) (ce_threshold c) [] (or_null output)
       \<lparr>tg_attempt = att, tg_override = (0 < att), tg_provisional = mt_provisional m\<rparr>"

definition score_metric ::
  "engine \<Rightarrow> evaluation_spec \<Rightarrow> judgment_context option \<Rightarrow> string \<Rightarrow> trace_event list \<Rightarrow> pyval option \<Rightarrow> invocation_status \<Rightarrow>
   int \<Rightarrow> metric \<Rightarrow> case_score res" where
  "score_metric E spec ctx cid events output status att m =
     (case map_of (en_custom E) (mt_metric_id m) of
        Some c \<Rightarrow> custom_case_score E spec cid events m c output att
      | None \<Rightarrow>
          bind_res (judge_for E ctx m) (\<lambda>j.
            if output \<noteq> None \<and> status = INV_completed \<and> tg_type (mt_target m) \<in> set NON_EVENT_TARGETS
            then score_output (en_ext E) spec cid (or_null output) m j att (0 < att)
            else if 0 < att then score_attempt (en_ext E) spec cid events m j
            else evaluate_case (en_ext E) spec cid events m j))"

section \<open>One attempt\<close>

record attempt_result =
  at_id :: string
  at_repeat :: int
  at_attempt :: int
  at_status :: attempt_status
  at_exit :: "int option"
  at_events :: nat
  at_truncated :: bool
  at_scores :: "case_score list"
  at_payload :: "pyval option"

type_synonym notices = "(string \<times> int) list"

definition attempt_result_of ::
  "attempt_row \<Rightarrow> attempt_status \<Rightarrow> int option \<Rightarrow> nat \<Rightarrow> bool \<Rightarrow> case_score list \<Rightarrow> pyval option \<Rightarrow> attempt_result" where
  "attempt_result_of a status ec n truncated scores out =
     \<lparr>at_id = ar_id a, at_repeat = ar_repeat a, at_attempt = ar_attempt a, at_status = status, at_exit = ec,
      at_events = n, at_truncated = truncated, at_scores = scores, at_payload = out\<rparr>"

definition raw_payload :: "invocation \<Rightarrow> pyval option" where
  "raw_payload r = map_option VDict (iv_payload r)"

text \<open>\<open>except EngineError\<close> around an ingestion: the attempt is errored with nothing kept.\<close>

definition ingest_or_error ::
  "engine \<Rightarrow> run_row \<Rightarrow> string \<Rightarrow> attempt_row \<Rightarrow> invocation \<Rightarrow> captured list \<Rightarrow>
   (attempt_result + trace_event list \<times> bool) eng" where
  "ingest_or_error E run ws a r events s =
     (case ingest_events E run (ar_case a) (ar_id a) events s of
        (Inr kept, t) \<Rightarrow> (Inr (Inr kept), t)
      | (Inl e, t) \<Rightarrow>
          if e = EngineError
          then bind_w (attempt_to E (ar_id a) ws Attempt_ERRORED no_facts t) (\<lambda>_ t.
            (Inr (Inl (attempt_result_of a Attempt_ERRORED (iv_exit r) 0 False [] (raw_payload r))), t))
          else (Inl e, t))"

fun failure_status :: "invocation_status \<Rightarrow> attempt_status" where
  "failure_status INV_timed_out = Attempt_TIMED_OUT"
| "failure_status INV_cancelled = Attempt_CANCELLED"
| "failure_status _ = Attempt_ERRORED"

definition proxy_evidence :: "invocation \<Rightarrow> captured list" where
  "proxy_evidence r = filter (\<lambda>x. ev_source (fst x) = PROXY) (iv_events r)"

text \<open>An attempt that is neither completed nor without trace: only its proxy events are kept.\<close>

definition land_failed_attempt :: "engine \<Rightarrow> run_row \<Rightarrow> string \<Rightarrow> attempt_row \<Rightarrow> invocation \<Rightarrow> attempt_result eng" where
  "land_failed_attempt E run ws a r s =
     bind_w (if proxy_evidence r = [] then (Inr (Inr ([], False)), s)
             else ingest_or_error E run ws a r (proxy_evidence r) s) (\<lambda>k s.
       case k of
         Inl res \<Rightarrow> (Inr res, s)
       | Inr (kept, truncated) \<Rightarrow>
           bind_w (attempt_to E (ar_id a) ws (failure_status (iv_status r))
                     \<lparr>af_exit = iv_exit r, af_events = Some (length kept), af_truncated = Some truncated\<rparr> s) (\<lambda>_ s.
             (Inr (attempt_result_of a (failure_status (iv_status r)) (iv_exit r) (length kept) truncated []
                    (raw_payload r)), s)))"

text \<open>What is kept of the output.\<close>

definition candidate_output :: "externals \<Rightarrow> invocation \<Rightarrow> pyval option res" where
  "candidate_output X r =
     (case iv_payload r of
        None \<Rightarrow> Inr None
      | Some d \<Rightarrow>
          bind_res (redact X (VDict d)) (\<lambda>p. Inr (case rp_content p of VDict d' \<Rightarrow> Some (VDict d') | _ \<Rightarrow> None)))"

definition score_completed ::
  "engine \<Rightarrow> run_row \<Rightarrow> string \<Rightarrow> attempt_row \<Rightarrow> invocation \<Rightarrow> trace_event list \<Rightarrow> bool \<Rightarrow> attempt_result eng" where
  "score_completed E run ws a r kept truncated s =
     bind_w (attempt_to E (ar_id a) ws Attempt_COMPLETED
               \<lparr>af_exit = iv_exit r, af_events = Some (length kept), af_truncated = Some truncated\<rparr> s) (\<lambda>_ s.
     bind_w (lift (candidate_output (en_ext E) r) s) (\<lambda>out s.
     bind_w (tx (\<lambda>_. save_attempt_output (ar_id a) (rr_id run) (ar_case a) ws out) s) (\<lambda>_ s.
     bind_w (lift (traverse (score_metric E (rr_spec run) (Some \<lparr>jc_output = out, jc_events = kept\<rparr>) (ar_case a) kept out
                     (iv_status r) (ar_attempt a)) (sp_metrics (rr_spec run))) s) (\<lambda>scores s.
     bind_w (tx (\<lambda>n. upsert_case_metric_results (rr_id run) (ar_case a) ws scores
               (map (\<lambda>m. (mt_metric_id m, m)) (sp_metrics (rr_spec run))) 1 (en_now E n)) s) (\<lambda>_ s.
       (Inr (attempt_result_of a Attempt_COMPLETED (iv_exit r) (length kept) truncated scores out), s))))))"

definition land_attempt :: "engine \<Rightarrow> run_row \<Rightarrow> string \<Rightarrow> attempt_row \<Rightarrow> invocation \<Rightarrow> (attempt_result \<times> notices) eng" where
  "land_attempt E run ws a r s =
     (if iv_status r \<noteq> INV_completed \<and> iv_status r \<noteq> INV_no_trace
      then bind_w (land_failed_attempt E run ws a r s) (\<lambda>x s. (Inr (x, []), s))
      else bind_w (ingest_or_error E run ws a r (iv_events r) s) (\<lambda>k s.
        case k of
          Inl res \<Rightarrow> (Inr (res, []), s)
        | Inr (kept, truncated) \<Rightarrow>
            bind_w (score_completed E run ws a r kept truncated s) (\<lambda>x s.
              (Inr (x, if iv_status r = INV_no_trace then [(ar_case a, ar_repeat a)] else []), s))))"

definition run_attempt :: "engine \<Rightarrow> run_row \<Rightarrow> string \<Rightarrow> string \<Rightarrow> int \<Rightarrow> int \<Rightarrow> (attempt_result \<times> notices) eng" where
  "run_attempt E run cid ws rep att s =
     bind_w (tx (\<lambda>n. create_attempt (en_fresh E n) (rr_id run) cid ws rep att) s) (\<lambda>a s.
     bind_w (attempt_to E (ar_id a) ws Attempt_RUNNING no_facts s) (\<lambda>_ s.
       case invoke E run ws a s of
         (Inr r, s) \<Rightarrow> land_attempt E run ws a r s
       | (Inl e, s) \<Rightarrow> bind_w (attempt_to E (ar_id a) ws Attempt_ERRORED no_facts s) (\<lambda>_ s. (Inl e, s))))"

section \<open>One case\<close>

record case_outcome =
  ca_case :: string
  ca_status :: run_case_status
  ca_class :: "classification option"
  ca_error :: "error_category option"
  ca_repeats :: "attempt_result list"
  ca_retries :: "attempt_result list"
  ca_notices :: notices

text \<open>What one first attempt contributes to the classification: a pass, a fail, an error category, or
  nothing when every metric was skipped.\<close>

datatype sample = Passed | Failed | Broken error_category | Skipped

definition sample_of :: "attempt_result \<Rightarrow> sample" where
  "sample_of o' =
     (if at_status o' \<noteq> Attempt_COMPLETED then
        Broken (if at_status o' \<in> {Attempt_TIMED_OUT, Attempt_ORPHANED, Attempt_BUDGET_EXCEEDED} then Infra else Agent)
      else let ss = map cs_status (at_scores o') in
        if ss = [] then Broken Agent
        else if ERROR \<in> set ss then Broken Evaluator
        else if FAIL \<in> set ss then Failed
        else if list_all (\<lambda>s. s = PASS) ss then Passed
        else Skipped)"

definition classify_case :: "attempt_result list \<Rightarrow> classification option \<times> error_category option" where
  "classify_case outcomes =
     (let samples = map sample_of (filter (\<lambda>o'. at_attempt o' = 0) outcomes);
          passes = length (filter (\<lambda>x. x = Passed) samples);
          fails = length (filter (\<lambda>x. x = Failed) samples);
          broken = (\<lambda>c. Broken c \<in> set samples) in
      ((if passes + fails = 0 then (if list_ex broken [Infra, Agent, Evaluator] then Some ERRORED else None)
        else if fails = 0 then Some PASSING
        else if passes = 0 then Some FAILING
        else Some FLAKY),
       find broken [Infra, Agent, Evaluator]))"

definition all_pass :: "attempt_result \<Rightarrow> bool" where
  "all_pass o' =
     (at_status o' = Attempt_COMPLETED \<and> at_scores o' \<noteq> [] \<and> list_all (\<lambda>x. cs_status x = PASS) (at_scores o'))"

definition any_fail :: "attempt_result \<Rightarrow> bool" where
  "any_fail o' = (at_status o' = Attempt_COMPLETED \<and> list_ex (\<lambda>x. cs_status x = FAIL) (at_scores o'))"

fun retry_loop :: "engine \<Rightarrow> run_row \<Rightarrow> string \<Rightarrow> string \<Rightarrow> int \<Rightarrow> int list \<Rightarrow> (attempt_result list \<times> notices) eng" where
  "retry_loop E run cid ws rep [] s = (Inr ([], []), s)"
| "retry_loop E run cid ws rep (k # ks) s =
     bind_w (run_attempt E run cid ws rep k s) (\<lambda>(x, w) s.
       if all_pass x then (Inr ([x], w), s)
       else bind_w (retry_loop E run cid ws rep ks s) (\<lambda>(xs, w') s. (Inr (x # xs, w @ w'), s)))"

definition run_repeat ::
  "engine \<Rightarrow> run_row \<Rightarrow> string \<Rightarrow> string \<Rightarrow> int \<Rightarrow> (attempt_result \<times> attempt_result list \<times> notices) eng" where
  "run_repeat E run cid ws rep s =
     bind_w (run_attempt E run cid ws rep 0 s) (\<lambda>(x, w) s.
       if any_fail x \<and> 0 < rr_retry_max run
       then bind_w (retry_loop E run cid ws rep [1..rr_retry_max run] s) (\<lambda>(xs, w') s. (Inr (x, xs, w @ w'), s))
       else (Inr (x, [], w), s))"

text \<open>Fresh samples are numbered after the highest repeat the case already has.\<close>

definition repeat_offset :: "store \<Rightarrow> string \<Rightarrow> string \<Rightarrow> string \<Rightarrow> int" where
  "repeat_offset st rid cid ws = foldr max (map ar_repeat (list_attempts st rid ws (Some cid))) (-1) + 1"

definition is_cancelled :: "attempt_result \<Rightarrow> bool" where
  "is_cancelled o' = (at_status o' = Attempt_CANCELLED)"

definition land_case ::
  "engine \<Rightarrow> run_row \<Rightarrow> string \<Rightarrow> string \<Rightarrow> attempt_result list \<Rightarrow> attempt_result list \<Rightarrow> notices \<Rightarrow> case_outcome eng" where
  "land_case E run cid ws repeats retries w s =
     (if list_ex is_cancelled repeats then
        bind_w (case_to E (rr_id run) cid ws Case_CANCELLED s) (\<lambda>_ s.
          (Inr \<lparr>ca_case = cid, ca_status = Case_CANCELLED, ca_class = None, ca_error = Some Infra,
                ca_repeats = repeats, ca_retries = retries, ca_notices = w\<rparr>, s))
      else
        let (cl, ec) = classify_case repeats in
        bind_w (tx (\<lambda>_. set_case_classification (rr_id run) cid ws cl ec) s) (\<lambda>_ s.
        bind_w (case_to E (rr_id run) cid ws
                  (if list_ex (\<lambda>o'. at_status o' = Attempt_COMPLETED) repeats then Case_COMPLETED else Case_FAILED) s) (\<lambda>_ s.
        bind_w (reading (\<lambda>st. case get_case st (rr_id run) cid ws of None \<Rightarrow> Inl AttributeError | Some c \<Rightarrow> Inr (cr_status c)) s)
          (\<lambda>status s.
            (Inr \<lparr>ca_case = cid, ca_status = status, ca_class = cl, ca_error = ec,
                  ca_repeats = repeats, ca_retries = retries, ca_notices = w\<rparr>, s)))))"

definition spec_case :: "run_row \<Rightarrow> string \<Rightarrow> test_case res" where
  "spec_case run cid =
     (case find (\<lambda>c. tc_case_id c = cid) (sp_cases (rr_spec run)) of None \<Rightarrow> Inl EngineError | Some c \<Rightarrow> Inr c)"

definition run_case_inner :: "engine \<Rightarrow> run_row \<Rightarrow> string \<Rightarrow> string \<Rightarrow> case_outcome eng" where
  "run_case_inner E run cid ws s =
     bind_w (lift (spec_case run cid) s) (\<lambda>_ s.
     bind_w (case_to E (rr_id run) cid ws Case_RUNNING s) (\<lambda>_ s.
     bind_w (map_w (\<lambda>i. run_repeat E run cid ws (repeat_offset (fst s) (rr_id run) cid ws + i))
               [0..rr_repeats run - 1] s) (\<lambda>outs s.
       land_case E run cid ws (map fst outs) (concat (map (fst \<circ> snd) outs)) (concat (map (snd \<circ> snd) outs)) s)))"

definition run_case :: "engine \<Rightarrow> string \<Rightarrow> string \<Rightarrow> string \<Rightarrow> case_outcome eng" where
  "run_case E rid cid ws s =
     bind_w (reading (\<lambda>st. case get_run st rid ws of None \<Rightarrow> Inl KeyError | Some r \<Rightarrow> Inr r) s) (\<lambda>run s.
     bind_w (reading (\<lambda>st. case get_case st rid cid ws of None \<Rightarrow> Inl KeyError | Some c \<Rightarrow> Inr c) s) (\<lambda>c s.
     bind_w (lift (ensure (cr_status c = Case_QUEUED) EngineError) s) (\<lambda>_ s.
       run_case_inner E run cid ws s)))"

section \<open>Aggregation, cancellation and completion\<close>

text \<open>What a run has accumulated: its case results, the scores of its first attempts, and the notices.\<close>

record progress =
  pg_cases :: "case_outcome list"
  pg_scores :: "case_score list"
  pg_notices :: notices

record run_result =
  rs_status :: run_status
  rs_cases :: "case_outcome list"
  rs_metrics :: "run_metric_row list"
  rs_gates :: "gate_result list"
  rs_notices :: notices

definition landed :: "case_score list \<Rightarrow> metric \<Rightarrow> case_score list" where
  "landed scores m = filter (\<lambda>x. cs_metric_id x = mt_metric_id m) scores"

definition expected_n :: "run_row \<Rightarrow> int" where
  "expected_n run = int (length (sp_cases (rr_spec run))) * rr_repeats run"

definition no_ci :: "run_row \<Rightarrow> bool" where
  "no_ci run = (rr_repeats run < 3)"

text \<open>One metric: aggregate what has landed and store the row; \<open>gate\<close> decides its gate status.\<close>

definition write_aggregate ::
  "engine \<Rightarrow> run_row \<Rightarrow> string \<Rightarrow> bool \<Rightarrow> (run_aggregate \<Rightarrow> gate_status option) \<Rightarrow> case_score list \<Rightarrow> metric \<Rightarrow> run_aggregate eng" where
  "write_aggregate E run ws in_progress gate scores m s =
     bind_w (lift (aggregate_metric (en_ext E) (rr_spec run) m (landed scores m) (Some (expected_n run)) in_progress) s) (\<lambda>agg s.
     bind_w (tx (\<lambda>n. upsert_run_metric_result (rr_id run) ws m agg 1 (gate agg) (no_ci run) (en_now E n)) s) (\<lambda>_ s.
       (Inr agg, s)))"

definition write_partials :: "engine \<Rightarrow> run_row \<Rightarrow> string \<Rightarrow> bool \<Rightarrow> case_score list \<Rightarrow> unit eng" where
  "write_partials E run ws in_progress scores =
     each_w (\<lambda>m s. bind_w (write_aggregate E run ws in_progress (\<lambda>_. None) scores m s) (\<lambda>_ s. (Inr (), s)))
       (sp_metrics (rr_spec run))"

definition finished_case :: "run_case_status \<Rightarrow> bool" where
  "finished_case c = (c \<in> {Case_COMPLETED, Case_FAILED, Case_CANCELLED, Case_SKIPPED})"

definition require_case :: "string \<Rightarrow> string \<Rightarrow> string \<Rightarrow> case_row eng" where
  "require_case rid cid ws =
     reading (\<lambda>st. case get_case st rid cid ws of None \<Rightarrow> Inl EngineError | Some c \<Rightarrow> Inr c)"

definition cancel_unrun :: "engine \<Rightarrow> run_row \<Rightarrow> string \<Rightarrow> test_case \<Rightarrow> unit eng" where
  "cancel_unrun E run ws c s =
     bind_w (require_case (rr_id run) (tc_case_id c) ws s) (\<lambda>r s.
       if finished_case (cr_status r) then (Inr (), s)
       else case_to E (rr_id run) (tc_case_id c) ws Case_CANCELLED s)"

definition cancel_run :: "engine \<Rightarrow> run_row \<Rightarrow> string \<Rightarrow> progress \<Rightarrow> run_result eng" where
  "cancel_run E run ws p s =
     bind_w (each_w (cancel_unrun E run ws) (sp_cases (rr_spec run)) s) (\<lambda>_ s.
     bind_w (write_partials E run ws False (pg_scores p) s) (\<lambda>_ s.
     bind_w (run_to E (rr_id run) ws Run_CANCELLED s) (\<lambda>_ s.
       (Inr \<lparr>rs_status = Run_CANCELLED, rs_cases = pg_cases p,
             rs_metrics = get_run_metric_results (fst s) (rr_id run) ws, rs_gates = [], rs_notices = pg_notices p\<rparr>, s))))"

text \<open>\<open>_case_first_attempt_scores_from_trace\<close>, of one attempt; outside an attempt there is no judgment
  context.\<close>

definition rescore_metric ::
  "engine \<Rightarrow> evaluation_spec \<Rightarrow> string \<Rightarrow> trace_event list \<Rightarrow> pyval option \<Rightarrow> metric \<Rightarrow> case_score res" where
  "rescore_metric E spec cid events output m =
     (case map_of (en_custom E) (mt_metric_id m) of
        Some c \<Rightarrow> custom_case_score E spec cid events m c output 0
      | None \<Rightarrow> bind_res (judge_for E None m) (\<lambda>j. evaluate_case (en_ext E) spec cid events m j))"

definition rescore_attempt :: "engine \<Rightarrow> run_row \<Rightarrow> string \<Rightarrow> string \<Rightarrow> store \<Rightarrow> attempt_row \<Rightarrow> case_score list res" where
  "rescore_attempt E run cid ws st a =
     traverse (rescore_metric E (rr_spec run) cid (get_trace_events st (rr_id run) ws (Some cid) (Some (ar_id a)))
                 (get_attempt_output st (ar_id a) ws)) (sp_metrics (rr_spec run))"

definition rescore_case :: "engine \<Rightarrow> run_row \<Rightarrow> string \<Rightarrow> string \<Rightarrow> store \<Rightarrow> case_score list res" where
  "rescore_case E run ws cid st =
     bind_res (traverse (rescore_attempt E run cid ws st) (filter ar_first (list_attempts st (rr_id run) ws (Some cid))))
       (\<lambda>rows. Inr (concat rows))"

definition final_gate :: "engine \<Rightarrow> run_row \<Rightarrow> metric \<Rightarrow> run_aggregate \<Rightarrow> gate_status" where
  "final_gate E run m agg =
     (if m \<in> set (fst (gate_safe (sp_metrics (rr_spec run)) (en_readiness E))) then
        (let g = evaluate_gate m agg in
         if gr_passed g then Gate_PASS else if gr_active g then Gate_FAIL else Gate_NOT_APPLICABLE)
      else Gate_NOT_APPLICABLE)"

text \<open>The totals of one price version, in the order the versions first appear.\<close>

definition add_cost :: "string \<Rightarrow> string \<Rightarrow> cost_block \<Rightarrow> cost_row list \<Rightarrow> cost_row list res" where
  "add_cost rid ws b rows =
     bind_res (flt_round (flt_mul (co_cost_usd b) MICROS)) (\<lambda>micros.
       let t = co_tokens b in
       Inr (upsert ct_version
         (\<lambda>old new. old\<lparr>ct_input := ct_input old + ct_input new, ct_output := ct_output old + ct_output new,
                        ct_micros := ct_micros old + ct_micros new\<rparr>)
         \<lparr>ct_run = rid, ct_workspace = ws, ct_version = co_price_version b,
          ct_input = tk_input t + tk_cache_read t, ct_output = tk_output t + tk_cache_write t,
          ct_micros = micros\<rparr> rows))"

fun cost_totals :: "string \<Rightarrow> string \<Rightarrow> cost_block list \<Rightarrow> cost_row list \<Rightarrow> cost_row list res" where
  "cost_totals rid ws [] rows = Inr rows"
| "cost_totals rid ws (b # bs) rows = bind_res (add_cost rid ws b rows) (cost_totals rid ws bs)"

definition write_cost_summaries :: "engine \<Rightarrow> run_row \<Rightarrow> string \<Rightarrow> unit eng" where
  "write_cost_summaries E run ws s =
     bind_w (reading (\<lambda>st. cost_totals (rr_id run) ws (iter_cost_json st (rr_id run) ws) []) s) (\<lambda>rows s.
       if rows = [] then (Inr (), s) else tx (\<lambda>_. add_cost_summaries (rr_id run) ws rows) s)"

definition finalize :: "engine \<Rightarrow> run_row \<Rightarrow> string \<Rightarrow> progress \<Rightarrow> run_result eng" where
  "finalize E run ws p s =
     bind_w (map_w (\<lambda>c. reading (rescore_case E run ws (tc_case_id c)))
               (filter (\<lambda>c. tc_case_id c \<notin> set (map ca_case (pg_cases p))) (sp_cases (rr_spec run))) s) (\<lambda>rescored s.
     bind_w (reading (\<lambda>st. case get_run st (rr_id run) ws of None \<Rightarrow> Inl AttributeError | Some r \<Rightarrow> Inr (rr_status r)) s) (\<lambda>cur s.
     bind_w (if cur = Run_RUNNING then run_to E (rr_id run) ws Run_AGGREGATING s else (Inr (), s)) (\<lambda>_ s.
     bind_w (map_w (\<lambda>m. write_aggregate E run ws False (Some \<circ> final_gate E run m) (pg_scores p @ concat rescored) m)
               (sp_metrics (rr_spec run)) s) (\<lambda>aggs s.
     bind_w (write_cost_summaries E run ws s) (\<lambda>_ s.
     bind_w (run_to E (rr_id run) ws Run_COMPLETE s) (\<lambda>_ s.
       (Inr \<lparr>rs_status = Run_COMPLETE, rs_cases = pg_cases p,
             rs_metrics = get_run_metric_results (fst s) (rr_id run) ws,
             rs_gates = map (\<lambda>(m, agg). evaluate_gate m agg)
               (filter (\<lambda>(m, _). m \<in> set (fst (gate_safe (sp_metrics (rr_spec run)) (en_readiness E))))
                 (zip (sp_metrics (rr_spec run)) aggs)),
             rs_notices = pg_notices p\<rparr>, s)))))))"

section \<open>Running\<close>

text \<open>Stale attempts and cases of a runner that died; the cases it left running are returned.\<close>

definition orphan_attempt :: "engine \<Rightarrow> string \<Rightarrow> attempt_row \<Rightarrow> unit eng" where
  "orphan_attempt E ws a s =
     (if ar_status a = Attempt_QUEUED \<or> ar_status a = Attempt_RUNNING then
        bind_w (attempt_to E (ar_id a) ws Attempt_ORPHANED no_facts s) (\<lambda>_.
          tx (\<lambda>n. set_remote_job_state (ar_id a) ws ''orphaned'' (en_now E n)))
      else (Inr (), s))"

definition reconcile_stale :: "engine \<Rightarrow> string \<Rightarrow> string \<Rightarrow> string list eng" where
  "reconcile_stale E rid ws s =
     bind_w (each_w (orphan_attempt E ws) (list_attempts (fst s) rid ws None) s) (\<lambda>_ s.
     let stale = map cr_case (filter (\<lambda>c. cr_status c = Case_RUNNING) (list_cases (fst s) rid ws)) in
     bind_w (each_w (\<lambda>cid. case_to E rid cid ws Case_CANCELLED) stale s) (\<lambda>_ s. (Inr stale, s)))"

definition requeue :: "engine \<Rightarrow> string \<Rightarrow> string \<Rightarrow> string list \<Rightarrow> unit eng" where
  "requeue E rid ws cids = each_w (\<lambda>cid. case_to E rid cid ws Case_QUEUED) cids"

definition cases_in :: "run_case_status \<Rightarrow> store \<Rightarrow> string \<Rightarrow> string \<Rightarrow> string list" where
  "cases_in status st rid ws = map cr_case (filter (\<lambda>c. cr_status c = status) (list_cases st rid ws))"

text \<open>The resume of a cancelled or incomplete run, up to the status the engine then acts on.\<close>

definition resume :: "engine \<Rightarrow> run_row \<Rightarrow> string \<Rightarrow> run_status eng" where
  "resume E run ws s =
     (if rr_status run = Run_CANCELLED \<or> rr_status run = Run_INCOMPLETE then
        bind_w (run_to E (rr_id run) ws Run_QUEUED s) (\<lambda>_ s.
        bind_w (requeue E (rr_id run) ws (cases_in Case_CANCELLED (fst s) (rr_id run) ws) s) (\<lambda>_ s.
          (Inr Run_QUEUED, s)))
      else (Inr (rr_status run), s))"

definition start :: "engine \<Rightarrow> run_row \<Rightarrow> string \<Rightarrow> run_status \<Rightarrow> unit eng" where
  "start E run ws status s =
     (if status \<notin> {Run_DRAFT, Run_QUEUED, Run_PROVISIONING} then (Inr (), s)
      else
        bind_w (if status = Run_DRAFT then run_to E (rr_id run) ws Run_QUEUED s else (Inr (), s)) (\<lambda>_ s.
        bind_w (if status \<noteq> Run_PROVISIONING then run_to E (rr_id run) ws Run_PROVISIONING s else (Inr (), s)) (\<lambda>_ s.
          run_to E (rr_id run) ws Run_RUNNING s)))"

text \<open>Everything \<open>run\<close> does before its first \<open>try\<close>.\<close>

definition prepare_run :: "engine \<Rightarrow> run_row \<Rightarrow> string \<Rightarrow> unit eng" where
  "prepare_run E run ws s =
     bind_w (resume E run ws s) (\<lambda>status s.
     bind_w (start E run ws status s) (\<lambda>_ s.
     bind_w (reconcile_stale E (rr_id run) ws s) (\<lambda>stale s.
       requeue E (rr_id run) ws
         (remdups (stale @ (if status \<in> {Run_RUNNING, Run_AGGREGATING, Run_INCOMPLETE}
                               \<or> rr_status run \<in> {Run_CANCELLED, Run_INCOMPLETE}
                            then cases_in Case_FAILED (fst s) (rr_id run) ws else []))) s)))"

definition record_case :: "case_outcome \<Rightarrow> progress \<Rightarrow> progress" where
  "record_case x p =
     \<lparr>pg_cases = pg_cases p @ [x], pg_scores = pg_scores p @ concat (map at_scores (ca_repeats x)),
      pg_notices = pg_notices p @ ca_notices x\<rparr>"

definition poll_cancel :: "engine \<Rightarrow> bool eng" where
  "poll_cancel E s = (Inr (en_cancel E (snd s)), (fst s, Suc (snd s)))"

text \<open>The case loop: a result when the run is cancelled, the progress when every case has been seen.\<close>

fun case_loop :: "engine \<Rightarrow> run_row \<Rightarrow> string \<Rightarrow> test_case list \<Rightarrow> progress \<Rightarrow> (run_result + progress) eng" where
  "case_loop E run ws [] p s = (Inr (Inr p), s)"
| "case_loop E run ws (c # cs) p s =
     bind_w (poll_cancel E s) (\<lambda>stop s.
       if stop then bind_w (cancel_run E run ws p s) (\<lambda>r s. (Inr (Inl r), s))
       else bind_w (require_case (rr_id run) (tc_case_id c) ws s) (\<lambda>r s.
         if finished_case (cr_status r) then case_loop E run ws cs p s
         else bind_w (run_case_inner E run (tc_case_id c) ws s) (\<lambda>x s.
           bind_w (write_partials E run ws True (pg_scores (record_case x p)) s) (\<lambda>_ s.
             if list_ex is_cancelled (ca_repeats x)
             then bind_w (cancel_run E run ws (record_case x p) s) (\<lambda>r s. (Inr (Inl r), s))
             else case_loop E run ws cs (record_case x p) s))))"

text \<open>\<open>except Exception: set_run_status(INCOMPLETE); raise\<close>\<close>

definition or_incomplete :: "engine \<Rightarrow> run_row \<Rightarrow> string \<Rightarrow> 'a res \<times> estate \<Rightarrow> 'a res \<times> estate" where
  "or_incomplete E run ws m =
     (case m of
        (Inl e, s) \<Rightarrow> bind_w (run_to E (rr_id run) ws Run_INCOMPLETE s) (\<lambda>_ s. (Inl e, s))
      | (Inr x, s) \<Rightarrow> (Inr x, s))"

definition run :: "engine \<Rightarrow> string \<Rightarrow> string \<Rightarrow> run_result eng" where
  "run E rid ws s =
     bind_w (reading (\<lambda>st. case get_run st rid ws of None \<Rightarrow> Inl KeyError | Some r \<Rightarrow> Inr r) s) (\<lambda>r s.
     bind_w (lift (ensure (rr_status r \<noteq> Run_COMPLETE \<and> rr_status r \<noteq> Run_FAILED) RunAlreadyTerminalError) s) (\<lambda>_ s.
     bind_w (prepare_run E r ws s) (\<lambda>_ s.
     bind_w (or_incomplete E r ws (case_loop E r ws (sp_cases (rr_spec r)) \<lparr>pg_cases = [], pg_scores = [], pg_notices = []\<rparr> s)) (\<lambda>out s.
       case out of
         Inl res \<Rightarrow> (Inr res, s)
       | Inr p \<Rightarrow> or_incomplete E r ws (finalize E r ws p s)))))"

end
