(* ===== verification/StoreOrders.thy ===== *)
theory StoreOrders
  imports RunStore
begin

text \<open>
  The orders on the tables: the runs and projects stay as they are (\<open>same_runs\<close>), the cases or one case
  stay as they are (\<open>same_cases\<close>, \<open>same_case\<close>), the rows of other runs stay as they are (\<open>outside_same\<close>), and evidence only grows (\<open>evidence_grows\<close>): primary keys stay
  unique, no row disappears, what a row was created with is kept, and statuses move along the tables of
  \<open>lifecycle.py\<close>. The lemmas say how the statements of SQL act on a table seen through its keys.
\<close>

section \<open>Updates and inserts\<close>

lemma map_update_where:
  assumes "\<And>r. p r \<Longrightarrow> key (f r) = key r"
  shows "map key (update_where p f rows) = map key rows"
  using assms by (simp add: update_where_def)

lemma filter_update_where:
  assumes "\<And>r. p r \<Longrightarrow> \<not> q r" and "\<And>r. p r \<Longrightarrow> \<not> q (f r)"
  shows "filter q (update_where p f rows) = filter q rows"
  using assms by (induction rows) (auto simp: update_where_def)

lemma length_update_where [simp]: "length (update_where p f rows) = length rows"
  by (simp add: update_where_def)

text \<open>A table that only grows: old rows keep their place and are related to what they have become.\<close>

definition rows_move :: "('r \<Rightarrow> 'r \<Rightarrow> bool) \<Rightarrow> 'r list \<Rightarrow> 'r list \<Rightarrow> bool" where
  "rows_move R old new = (length old \<le> length new \<and> list_all2 R old (take (length old) new))"

lemma rows_move_nth:
  "rows_move R old new \<longleftrightarrow> length old \<le> length new \<and> (\<forall>i < length old. R (old ! i) (new ! i))"
  by (auto simp: rows_move_def list_all2_conv_all_nth)

lemma rows_move_refl [simp]: "(\<And>r. R r r) \<Longrightarrow> rows_move R rows rows"
  by (simp add: rows_move_nth)

lemma rows_move_trans:
  assumes "rows_move R xs ys" "rows_move R ys zs" and "\<And>x y z. R x y \<Longrightarrow> R y z \<Longrightarrow> R x z"
  shows "rows_move R xs zs"
  using assms by (fastforce simp: rows_move_nth)

lemma rows_move_append [simp]: "(\<And>r. R r r) \<Longrightarrow> rows_move R rows (rows @ added)"
  by (simp add: rows_move_nth nth_append)

lemma rows_move_update:
  assumes "\<And>r. r \<in> set rows \<Longrightarrow> p r \<Longrightarrow> R r (f r)" and "\<And>r. R r r"
  shows "rows_move R rows (update_where p f rows)"
  using assms by (simp add: rows_move_nth update_where_def)

lemma rows_move_upsert:
  assumes "\<And>r. key r = key new \<Longrightarrow> R r (f r new)" and "\<And>r. R r r"
  shows "rows_move R rows (upsert key f new rows)"
  using assms by (auto simp: upsert_def intro: rows_move_update)

lemma rows_move_insert: "(\<And>r. R r r) \<Longrightarrow> rows_move R rows (insert_or_ignore key new rows)"
  by (simp add: insert_or_ignore_def)

lemma rows_move_fold:
  assumes "\<And>x rows. x \<in> set xs \<Longrightarrow> rows_move R rows (g x rows)"
    and "\<And>x. R x x" "\<And>x y z. R x y \<Longrightarrow> R y z \<Longrightarrow> R x z"
  shows "rows_move R rows (fold g xs rows)"
  using assms
proof (induction xs arbitrary: rows)
  case (Cons x xs)
  have "rows_move R rows (g x rows)" "rows_move R (g x rows) (fold g xs (g x rows))"
    using Cons.prems by (auto intro: Cons.IH)
  then show ?case using Cons.prems(3) by (simp only: fold_simps) (rule rows_move_trans)
qed (simp add: rows_move_refl)

text \<open>Unique keys.\<close>

abbreviation unique :: "('r \<Rightarrow> 'k) \<Rightarrow> 'r list \<Rightarrow> bool" where
  "unique key rows \<equiv> distinct (map key rows)"

lemma unique_update [simp]:
  "(\<And>r. p r \<Longrightarrow> key (f r) = key r) \<Longrightarrow> unique key (update_where p f rows) = unique key rows"
  by (simp add: map_update_where)

lemma unique_upsert:
  assumes "\<And>r. key r = key new \<Longrightarrow> key (f r new) = key r" and "unique key rows"
  shows "unique key (upsert key f new rows)"
proof (cases "list_ex (\<lambda>r. key r = key new) rows")
  case True
  then show ?thesis
    using map_update_where [of "\<lambda>r. key r = key new" key "\<lambda>r. f r new" rows] assms by (simp add: upsert_def)
next
  case False
  then show ?thesis using assms(2) by (simp add: upsert_def list_ex_iff) (metis imageE)
qed

lemma unique_insert: "unique key rows \<Longrightarrow> unique key (insert_or_ignore key new rows)"
  by (simp add: insert_or_ignore_def list_ex_iff) (metis imageE)

lemma unique_fold:
  "(\<And>x rows. x \<in> set xs \<Longrightarrow> unique key rows \<Longrightarrow> unique key (g x rows)) \<Longrightarrow> unique key rows \<Longrightarrow> unique key (fold g xs rows)"
  by (induction xs arbitrary: rows) auto

lemma unique_find:
  assumes "unique key rows" and "find p rows = Some r" and "r' \<in> set rows" and "key r' = key r"
  shows "r' = r"
proof -
  have "r \<in> set rows" using assms(2) by (auto simp: find_Some_iff)
  then show ?thesis using assms(1,3,4) by (meson distinct_map inj_onD)
qed

lemma rows_move_found:
  assumes "unique key rows" and "find p rows = Some r" and "\<And>r'. p r' \<Longrightarrow> key r' = key r"
    and "R r (f r)" and "\<And>r. R r r"
  shows "rows_move R rows (update_where p f rows)"
proof (rule rows_move_update)
  fix r' assume r': "r' \<in> set rows" "p r'"
  then have "r' = r" by (intro unique_find [OF assms(1,2)] assms(3))
  then show "R r' (f r')" using assms(4) by simp
qed (rule assms(5))

text \<open>Rows that a predicate keeps out of an upsert.\<close>

lemma filter_upsert:
  assumes "\<not> q new" and "\<And>r. key r = key new \<Longrightarrow> \<not> q r \<and> \<not> q (f r new)"
  shows "filter q (upsert key f new rows) = filter q rows"
proof (cases "list_ex (\<lambda>r. key r = key new) rows")
  case True
  have "filter q (update_where (\<lambda>r. key r = key new) (\<lambda>r. f r new) rows) = filter q rows"
    by (rule filter_update_where) (use assms(2) in blast)+
  with True show ?thesis by (simp add: upsert_def)
qed (simp add: upsert_def assms(1))

lemma filter_fold:
  "(\<And>x rows. x \<in> set xs \<Longrightarrow> filter q (g x rows) = filter q rows) \<Longrightarrow> filter q (fold g xs rows) = filter q rows"
  by (induction xs arbitrary: rows) auto

lemma filter_insert: "\<not> q new \<Longrightarrow> filter q (insert_or_ignore key new rows) = filter q rows"
  by (simp add: insert_or_ignore_def)

section \<open>The orders\<close>

definition same_runs :: "store \<Rightarrow> store \<Rightarrow> bool" where
  "same_runs st st' = (st_runs st' = st_runs st \<and> st_projects st' = st_projects st)"

definition same_case :: "string \<Rightarrow> string \<Rightarrow> string \<Rightarrow> store \<Rightarrow> store \<Rightarrow> bool" where
  "same_case rid cid ws st st' = (get_case st' rid cid ws = get_case st rid cid ws)"

definition same_cases :: "store \<Rightarrow> store \<Rightarrow> bool" where
  "same_cases st st' = (st_cases st' = st_cases st)"

text \<open>Rows of another run. Attempts, outputs and remote jobs are addressed by the attempt alone and are
  not covered.\<close>

definition outside_same :: "string \<Rightarrow> store \<Rightarrow> store \<Rightarrow> bool" where
  "outside_same rid st st' =
     (st_projects st' = st_projects st \<and> st_smokes st' = st_smokes st
      \<and> filter (\<lambda>r. rr_id r \<noteq> rid) (st_runs st') = filter (\<lambda>r. rr_id r \<noteq> rid) (st_runs st)
      \<and> filter (\<lambda>c. cr_run c \<noteq> rid) (st_cases st') = filter (\<lambda>c. cr_run c \<noteq> rid) (st_cases st)
      \<and> filter (\<lambda>e. run_id e \<noteq> rid) (st_events st') = filter (\<lambda>e. run_id e \<noteq> rid) (st_events st)
      \<and> filter (\<lambda>r. cm_run r \<noteq> rid) (st_case_metrics st') = filter (\<lambda>r. cm_run r \<noteq> rid) (st_case_metrics st)
      \<and> filter (\<lambda>r. rm_run r \<noteq> rid) (st_run_metrics st') = filter (\<lambda>r. rm_run r \<noteq> rid) (st_run_metrics st)
      \<and> filter (\<lambda>r. ct_run r \<noteq> rid) (st_costs st') = filter (\<lambda>r. ct_run r \<noteq> rid) (st_costs st))"

text \<open>The primary keys of the tables, and the uniqueness of an attempt's number within its repeat.\<close>

definition attempt_key :: "attempt_row \<Rightarrow> string \<times> string \<times> int \<times> int" where
  "attempt_key a = (ar_run a, ar_case a, ar_repeat a, ar_attempt a)"

definition keys_ok :: "store \<Rightarrow> bool" where
  "keys_ok st =
     (unique pj_id (st_projects st) \<and> unique sm_id (st_smokes st) \<and> unique rr_id (st_runs st)
      \<and> unique (\<lambda>c. (cr_run c, cr_case c)) (st_cases st)
      \<and> unique ar_id (st_attempts st) \<and> unique attempt_key (st_attempts st)
      \<and> unique (\<lambda>e. (run_id e, event_id e)) (st_events st)
      \<and> unique ot_attempt (st_outputs st) \<and> unique case_metric_key (st_case_metrics st)
      \<and> unique run_metric_key (st_run_metrics st) \<and> unique (\<lambda>r. (ct_run r, ct_version r)) (st_costs st)
      \<and> unique rj_attempt (st_remote st))"

text \<open>One status after another along a transition table.\<close>

definition passes_to :: "('s \<Rightarrow> string) \<Rightarrow> 's transition_table \<Rightarrow> 's \<Rightarrow> 's \<Rightarrow> bool" where
  "passes_to value_of table = (\<lambda>s t. transition value_of (value_of s) (value_of t) table = Inr t)\<^sup>*\<^sup>*"

text \<open>A value that is written once.\<close>

definition stays :: "'a option \<Rightarrow> 'a option \<Rightarrow> bool" where
  "stays old new = (old = None \<or> new = old)"

definition run_moves :: "run_row \<Rightarrow> run_row \<Rightarrow> bool" where
  "run_moves r r' =
     (r'\<lparr>rr_status := rr_status r, rr_started := rr_started r, rr_completed := rr_completed r\<rparr> = r
      \<and> passes_to run_status_value RUN_TRANSITIONS (rr_status r) (rr_status r')
      \<and> stays (rr_started r) (rr_started r'))"

definition case_moves :: "case_row \<Rightarrow> case_row \<Rightarrow> bool" where
  "case_moves c c' =
     (cr_run c' = cr_run c \<and> cr_case c' = cr_case c \<and> cr_key c' = cr_key c \<and> cr_workspace c' = cr_workspace c
      \<and> cr_repeats c' = cr_repeats c
      \<and> passes_to run_case_status_value RUN_CASE_TRANSITIONS (cr_status c) (cr_status c')
      \<and> stays (cr_started c) (cr_started c'))"

definition attempt_moves :: "attempt_row \<Rightarrow> attempt_row \<Rightarrow> bool" where
  "attempt_moves a a' =
     (ar_id a' = ar_id a \<and> attempt_key a' = attempt_key a \<and> ar_workspace a' = ar_workspace a
      \<and> ar_first a' = ar_first a
      \<and> passes_to attempt_status_value ATTEMPT_TRANSITIONS (ar_status a) (ar_status a')
      \<and> stays (ar_started a) (ar_started a'))"

definition key_kept :: "('r \<Rightarrow> 'k) \<Rightarrow> 'r \<Rightarrow> 'r \<Rightarrow> bool" where
  "key_kept key r r' = (key r' = key r)"

definition grows :: "store \<Rightarrow> store \<Rightarrow> bool" where
  "grows st st' =
     (rows_move run_moves (st_runs st) (st_runs st')
      \<and> rows_move case_moves (st_cases st) (st_cases st')
      \<and> rows_move attempt_moves (st_attempts st) (st_attempts st')
      \<and> rows_move (=) (st_events st) (st_events st')
      \<and> rows_move (key_kept (\<lambda>r. (ot_attempt r, ot_run r, ot_case r, ot_workspace r))) (st_outputs st) (st_outputs st')
      \<and> rows_move (key_kept (\<lambda>r. (case_metric_key r, cm_workspace r, cm_overridden r))) (st_case_metrics st) (st_case_metrics st')
      \<and> rows_move (key_kept (\<lambda>r. (run_metric_key r, rm_workspace r))) (st_run_metrics st) (st_run_metrics st')
      \<and> rows_move (key_kept (\<lambda>r. (ct_run r, ct_version r, ct_workspace r))) (st_costs st) (st_costs st')
      \<and> rows_move (key_kept (\<lambda>r. (rj_attempt r, rj_run r, rj_case r, rj_workspace r, rj_created r))) (st_remote st) (st_remote st'))"

definition evidence_grows :: "store \<Rightarrow> store \<Rightarrow> bool" where
  "evidence_grows st st' = (keys_ok st \<longrightarrow> keys_ok st' \<and> grows st st')"

section \<open>The orders are preorders\<close>

lemma passes_to_refl [simp]: "passes_to value_of table s s"
  by (simp add: passes_to_def)

lemma passes_to_trans: "passes_to value_of table s t \<Longrightarrow> passes_to value_of table t u \<Longrightarrow> passes_to value_of table s u"
  by (simp add: passes_to_def)

lemma passes_to_step: "transition value_of (value_of s) (value_of t) table = Inr t \<Longrightarrow> passes_to value_of table s t"
  by (simp add: passes_to_def r_into_rtranclp)

lemma stays_refl [simp]: "stays x x" "stays None x"
  by (simp_all add: stays_def)

lemma stays_trans: "stays x y \<Longrightarrow> stays y z \<Longrightarrow> stays x z"
  by (auto simp: stays_def)

lemma moves_refl [simp]: "run_moves r r" "case_moves c c" "attempt_moves a a" "key_kept key x x"
  by (simp_all add: run_moves_def case_moves_def attempt_moves_def key_kept_def)

lemma run_moves_trans: "run_moves r r' \<Longrightarrow> run_moves r' r'' \<Longrightarrow> run_moves r r''"
  unfolding run_moves_def
  by (cases r; cases r'; cases r'') (auto intro: passes_to_trans stays_trans)

lemma case_moves_trans: "case_moves c c' \<Longrightarrow> case_moves c' c'' \<Longrightarrow> case_moves c c''"
  unfolding case_moves_def by (auto intro: passes_to_trans stays_trans)

lemma attempt_moves_trans: "attempt_moves a a' \<Longrightarrow> attempt_moves a' a'' \<Longrightarrow> attempt_moves a a''"
  unfolding attempt_moves_def by (auto intro: passes_to_trans stays_trans)

lemma key_kept_trans: "key_kept key x y \<Longrightarrow> key_kept key y z \<Longrightarrow> key_kept key x z"
  by (simp add: key_kept_def)

lemma grows_refl [simp]: "grows st st"
  by (simp add: grows_def)

lemma grows_trans: "grows st st' \<Longrightarrow> grows st' st'' \<Longrightarrow> grows st st''"
  unfolding grows_def
  by (elim conjE, intro conjI; (rule rows_move_trans, assumption, assumption))
    (auto intro: run_moves_trans case_moves_trans attempt_moves_trans key_kept_trans)

lemma evidence_grows_refl: "evidence_grows st st"
  by (simp add: evidence_grows_def)

lemma evidence_grows_trans: "evidence_grows st st' \<Longrightarrow> evidence_grows st' st'' \<Longrightarrow> evidence_grows st st''"
  by (auto simp: evidence_grows_def intro: grows_trans)

section \<open>The storage operations\<close>

text \<open>A status change finds one row, and the key says that it is the only one.\<close>

lemma run_status_grows:
  assumes "set_run_status rid ws t now st = Inr (u, st')"
  shows "evidence_grows st st'"
proof (cases "get_run st rid ws")
  case (Some r)
  then obtain f where tr: "transition run_status_value (run_status_value (rr_status r)) (run_status_value t) RUN_TRANSITIONS = Inr t"
    and st': "st' = st\<lparr>st_runs := update_where (\<lambda>r. rr_id r = rid \<and> rr_workspace r = ws) f (st_runs st)\<rparr>"
    and f: "\<And>r. rr_id (f r) = rr_id r" "run_moves r (f r)"
    using assms
    by (auto simp: set_run_status_def bind_res_Inr_iff Let_def runs.transition_iff run_moves_def passes_to_step stays_def)
  have "rows_move run_moves (st_runs st) (st_runs st')" if u: "unique rr_id (st_runs st)"
    unfolding st' by (simp, rule rows_move_found [OF u Some [unfolded get_run_def]])
      (use Some f(2) in \<open>auto simp: get_run_def find_Some_iff\<close>)
  then show ?thesis
    by (simp add: evidence_grows_def keys_ok_def grows_def st' f)
qed (use assms in \<open>simp add: set_run_status_def\<close>)

lemma case_status_grows:
  assumes "set_case_status rid cid ws t now st = Inr (u, st')"
  shows "evidence_grows st st'"
proof (cases "get_case st rid cid ws")
  case (Some c)
  then obtain f where tr: "transition run_case_status_value (run_case_status_value (cr_status c)) (run_case_status_value t)
        RUN_CASE_TRANSITIONS = Inr t"
    and st': "st' = st\<lparr>st_cases := update_where (is_case rid cid ws) f (st_cases st)\<rparr>"
    and f: "\<And>c. cr_run (f c) = cr_run c" "\<And>c. cr_case (f c) = cr_case c" "case_moves c (f c)"
    using assms
    by (auto simp: set_case_status_def bind_res_Inr_iff Let_def run_cases.transition_iff case_moves_def passes_to_step stays_def)
  have "rows_move case_moves (st_cases st) (st_cases st')" if u: "unique (\<lambda>c. (cr_run c, cr_case c)) (st_cases st)"
    unfolding st' by (simp, rule rows_move_found [OF u Some [unfolded get_case_def]])
      (use Some f(3) in \<open>auto simp: get_case_def find_Some_iff is_case_def\<close>)
  then show ?thesis
    by (simp add: evidence_grows_def keys_ok_def grows_def st' f)
qed (use assms in \<open>simp add: set_case_status_def\<close>)

lemma attempt_status_grows:
  assumes "set_attempt_status aid ws t facts now st = Inr (u, st')"
  shows "evidence_grows st st'"
proof (cases "get_attempt_by_id st aid ws")
  case (Some a)
  then obtain f where tr: "transition attempt_status_value (attempt_status_value (ar_status a)) (attempt_status_value t)
        ATTEMPT_TRANSITIONS = Inr t"
    and st': "st' = st\<lparr>st_attempts := update_where (is_attempt aid ws) f (st_attempts st)\<rparr>"
    and f: "\<And>r. ar_id (f r) = ar_id r" "\<And>r. attempt_key (f r) = attempt_key r" "\<And>r. ar_workspace (f r) = ar_workspace r"
      "\<And>r. ar_first (f r) = ar_first r" "\<And>r. ar_status (f r) = t" "\<And>r. stays (ar_started a) (ar_started (f r))"
    using assms
    by (auto simp: set_attempt_status_def bind_res_Inr_iff Let_def attempts.transition_iff attempt_key_def stays_def)
  have "rows_move attempt_moves (st_attempts st) (st_attempts st')" if u: "unique ar_id (st_attempts st)"
    unfolding st' by (simp, rule rows_move_found [OF u Some [unfolded get_attempt_by_id_def]])
      (use Some tr f in \<open>auto simp: get_attempt_by_id_def find_Some_iff is_attempt_def attempt_moves_def passes_to_step\<close>)
  then show ?thesis
    by (simp add: evidence_grows_def keys_ok_def grows_def st' f)
qed (use assms in \<open>simp add: set_attempt_status_def\<close>)

text \<open>The other operations insert rows and update columns that are not part of a key.\<close>

lemma classification_grows:
  "set_case_classification rid cid ws cl ec st = Inr (u, st') \<Longrightarrow> evidence_grows st st'"
  by (auto simp: set_case_classification_def evidence_grows_def keys_ok_def grows_def case_moves_def
      intro!: rows_move_update)

lemma new_attempt_grows:
  assumes "create_attempt aid rid cid ws rep att st = Inr (a, st')"
  shows "evidence_grows st st'"
proof -
  from assms have "list_all (\<lambda>b. ar_id b \<noteq> ar_id a \<and> attempt_key b \<noteq> attempt_key a) (st_attempts st)"
    and st': "st' = st\<lparr>st_attempts := st_attempts st @ [a]\<rparr>"
    by (auto simp: create_attempt_def Let_def list_ex_iff list_all_iff attempt_key_def split: if_splits)
  then show ?thesis
    by (auto simp: evidence_grows_def keys_ok_def grows_def list_all_iff)
qed

lemma events_grow:
  assumes "insert_trace_events X es st = Inr (u, st')"
  shows "evidence_grows st st'"
proof -
  obtain rows where st': "st' = st\<lparr>st_events := fold (insert_or_ignore (\<lambda>r. (run_id r, event_id r))) rows (st_events st)\<rparr>"
  proof (cases es)
    case Nil
    then show ?thesis using assms that [of "[]"] by (simp add: insert_trace_events_def)
  next
    case Cons
    then show ?thesis using assms that by (auto simp: insert_trace_events_def bind_res_Inr_iff split: if_splits)
  qed
  have "rows_move (=) (st_events st) (st_events st')"
    unfolding st' by (simp, rule rows_move_fold) (simp_all add: rows_move_insert)
  moreover have "unique (\<lambda>r. (run_id r, event_id r)) (st_events st')" if "unique (\<lambda>r. (run_id r, event_id r)) (st_events st)"
    unfolding st' using that by (simp, intro unique_fold unique_insert)
  ultimately show ?thesis
    by (simp add: evidence_grows_def keys_ok_def grows_def st')
qed

lemma output_grows:
  "save_attempt_output aid rid cid ws out st = Inr (u, st') \<Longrightarrow> evidence_grows st st'"
  by (auto simp: save_attempt_output_def bind_res_Inr_iff evidence_grows_def keys_ok_def grows_def key_kept_def
      intro!: rows_move_upsert unique_upsert)

lemma case_metrics_grow:
  assumes "upsert_case_metric_results rid cid ws scores mb revision now st = Inr (u, st')"
  shows "evidence_grows st st'"
proof -
  define f where "f = upsert case_metric_key (\<lambda>old new. new\<lparr>cm_workspace := cm_workspace old, cm_overridden := cm_overridden old\<rparr>)"
  obtain rows where st': "st' = st\<lparr>st_case_metrics := fold f rows (st_case_metrics st)\<rparr>"
    using assms by (auto simp: upsert_case_metric_results_def bind_res_Inr_iff f_def)
  have kept: "case_metric_key (x\<lparr>cm_workspace := w, cm_overridden := b\<rparr>) = case_metric_key x" for x w b
    by (simp add: case_metric_key_def)
  have "rows_move (key_kept (\<lambda>r. (case_metric_key r, cm_workspace r, cm_overridden r))) (st_case_metrics st) (st_case_metrics st')"
    unfolding st'
    by (simp, rule rows_move_fold) (auto simp: f_def kept key_kept_def intro!: rows_move_upsert)
  moreover have "unique case_metric_key (st_case_metrics st')" if "unique case_metric_key (st_case_metrics st)"
    unfolding st' using that
    by (simp, intro unique_fold) (auto simp: f_def kept intro!: unique_upsert)
  ultimately show ?thesis
    by (simp add: evidence_grows_def keys_ok_def grows_def st')
qed

lemma run_metric_grows:
  "upsert_run_metric_result rid ws m agg revision g c now st = Inr (u, st') \<Longrightarrow> evidence_grows st st'"
  by (auto simp: upsert_run_metric_result_def evidence_grows_def keys_ok_def grows_def key_kept_def run_metric_key_def
      intro!: rows_move_upsert unique_upsert)

lemma costs_grow:
  assumes "add_cost_summaries rid ws rows st = Inr (u, st')"
  shows "evidence_grows st st'"
proof -
  define f :: "cost_row \<Rightarrow> cost_row list \<Rightarrow> cost_row list" where "f = upsert (\<lambda>r. (ct_run r, ct_version r)) (\<lambda>old new. new\<lparr>ct_workspace := ct_workspace old\<rparr>)"
  obtain rows' where st': "st' = st\<lparr>st_costs := fold f rows' (st_costs st)\<rparr>"
    using assms by (auto simp: add_cost_summaries_def bind_res_Inr_iff f_def)
  have "rows_move (key_kept (\<lambda>r. (ct_run r, ct_version r, ct_workspace r))) (st_costs st) (st_costs st')"
    unfolding st' by (simp, rule rows_move_fold) (auto simp: f_def key_kept_def intro!: rows_move_upsert)
  moreover have "unique (\<lambda>r. (ct_run r, ct_version r)) (st_costs st')" if "unique (\<lambda>r. (ct_run r, ct_version r)) (st_costs st)"
    unfolding st' using that by (simp, intro unique_fold) (auto simp: f_def intro!: unique_upsert)
  ultimately show ?thesis
    by (simp add: evidence_grows_def keys_ok_def grows_def st')
qed

lemma remote_grows:
  "save_remote_job aid rid cid ws job state now st = Inr (u, st') \<Longrightarrow> evidence_grows st st'"
  by (auto simp: save_remote_job_def evidence_grows_def keys_ok_def grows_def key_kept_def
      intro!: rows_move_upsert unique_upsert)

lemma remote_state_grows:
  "set_remote_job_state aid ws state now st = Inr (u, st') \<Longrightarrow> evidence_grows st st'"
  by (auto simp: set_remote_job_state_def evidence_grows_def keys_ok_def grows_def key_kept_def
      intro!: rows_move_update)

section \<open>The rows of other runs\<close>

lemma outside_same_refl: "outside_same rid st st"
  by (simp add: outside_same_def)

lemma outside_same_trans: "outside_same rid st st' \<Longrightarrow> outside_same rid st' st'' \<Longrightarrow> outside_same rid st st''"
  by (simp add: outside_same_def)

text \<open>Operations on attempts, outputs and remote jobs leave the covered tables alone.\<close>

lemma outside_attempts:
  "create_attempt aid rid' cid ws rep att st = Inr (a, st') \<Longrightarrow> outside_same rid st st'"
  "set_attempt_status aid ws t facts now st = Inr (u, st') \<Longrightarrow> outside_same rid st st'"
  "save_attempt_output aid rid' cid ws out st = Inr (u, st') \<Longrightarrow> outside_same rid st st'"
  "save_remote_job aid rid' cid ws job state now st = Inr (u, st') \<Longrightarrow> outside_same rid st st'"
  "set_remote_job_state aid ws state now st = Inr (u, st') \<Longrightarrow> outside_same rid st st'"
  subgoal by (auto simp: outside_same_def create_attempt_def Let_def split: if_splits)
  subgoal by (cases "get_attempt_by_id st aid ws") (auto simp: outside_same_def set_attempt_status_def Let_def bind_res_Inr_iff)
  subgoal by (auto simp: outside_same_def save_attempt_output_def bind_res_Inr_iff)
  subgoal by (auto simp: outside_same_def save_remote_job_def)
  subgoal by (auto simp: outside_same_def set_remote_job_state_def)
  done

lemma outside_status:
  "set_run_status rid ws t now st = Inr (u, st') \<Longrightarrow> outside_same rid st st'"
  "set_case_status rid cid ws t' now st = Inr (u, st') \<Longrightarrow> outside_same rid st st'"
  "set_case_classification rid cid ws cl ec st = Inr (u, st') \<Longrightarrow> outside_same rid st st'"
proof -
  have runs: "filter (\<lambda>r. rr_id r \<noteq> rid) (update_where (\<lambda>r. rr_id r = rid \<and> rr_workspace r = ws) f rows)
      = filter (\<lambda>r. rr_id r \<noteq> rid) rows" if "\<And>r. rr_id (f r) = rr_id r" for f rows
    by (rule filter_update_where) (simp_all add: that)
  have cases: "filter (\<lambda>c. cr_run c \<noteq> rid) (update_where (is_case rid cid ws) f rows) = filter (\<lambda>c. cr_run c \<noteq> rid) rows"
    if "\<And>c. cr_run (f c) = cr_run c" for f rows
    by (rule filter_update_where) (simp_all add: that is_case_def)
  show "set_run_status rid ws t now st = Inr (u, st') \<Longrightarrow> outside_same rid st st'"
    by (cases "get_run st rid ws")
      (auto simp: outside_same_def set_run_status_def Let_def bind_res_Inr_iff runs)
  show "set_case_status rid cid ws t' now st = Inr (u, st') \<Longrightarrow> outside_same rid st st'"
    by (cases "get_case st rid cid ws")
      (auto simp: outside_same_def set_case_status_def Let_def bind_res_Inr_iff cases)
  show "set_case_classification rid cid ws cl ec st = Inr (u, st') \<Longrightarrow> outside_same rid st st'"
    by (auto simp: outside_same_def set_case_classification_def cases)
qed

lemma event_row_identity:
  assumes "event_row X e = Inr e'"
  shows "run_id e' = run_id e" "event_id e' = event_id e" "workspace_id e' = workspace_id e"
    "ev_case_id e' = ev_case_id e" "attempt_id e' = attempt_id e"
  using assms by (auto simp: event_row_def bind_res_Inr_iff Let_def)

lemma outside_events:
  assumes "insert_trace_events X es st = Inr (u, st')" and "list_all (\<lambda>e. run_id e = rid) es"
  shows "outside_same rid st st'"
proof (cases es)
  case (Cons e es')
  then obtain rows where rows: "traverse (event_row X) es = Inr rows"
    and st': "st' = st\<lparr>st_events := fold (insert_or_ignore (\<lambda>r. (run_id r, event_id r))) rows (st_events st)\<rparr>"
    using assms(1) by (auto simp: insert_trace_events_def bind_res_Inr_iff split: if_splits)
  have "run_id r = rid" if "r \<in> set rows" for r
    using traverse_set [OF rows that] assms(2) by (auto simp: list_all_iff event_row_identity)
  then have "filter (\<lambda>e. run_id e \<noteq> rid) (st_events st') = filter (\<lambda>e. run_id e \<noteq> rid) (st_events st)"
    unfolding st' by (simp, intro filter_fold filter_insert) simp
  then show ?thesis by (simp add: outside_same_def st')
qed (use assms(1) in \<open>simp add: insert_trace_events_def outside_same_refl\<close>)

lemma outside_case_metrics:
  assumes "upsert_case_metric_results rid cid ws scores mb revision now st = Inr (u, st')"
  shows "outside_same rid st st'"
proof -
  define f where "f = upsert case_metric_key (\<lambda>old new. new\<lparr>cm_workspace := cm_workspace old, cm_overridden := cm_overridden old\<rparr>)"
  obtain rows where rows: "traverse (score_row rid cid ws mb revision now) scores = Inr rows"
    and st': "st' = st\<lparr>st_case_metrics := fold f rows (st_case_metrics st)\<rparr>"
    using assms by (auto simp: upsert_case_metric_results_def bind_res_Inr_iff f_def)
  have "cm_run r = rid" if "r \<in> set rows" for r
    using traverse_set [OF rows that] by (auto simp: score_row_def bind_res_Inr_iff)
  then have "filter (\<lambda>r. cm_run r \<noteq> rid) (st_case_metrics st') = filter (\<lambda>r. cm_run r \<noteq> rid) (st_case_metrics st)"
    unfolding st' by (simp, intro filter_fold) (auto simp: f_def case_metric_key_def intro!: filter_upsert)
  then show ?thesis by (simp add: outside_same_def st')
qed

lemma outside_run_metric:
  "upsert_run_metric_result rid ws m agg revision g c now st = Inr (u, st') \<Longrightarrow> outside_same rid st st'"
  by (auto simp: upsert_run_metric_result_def outside_same_def run_metric_key_def intro!: filter_upsert)

lemma outside_costs:
  assumes "add_cost_summaries rid ws rows st = Inr (u, st')"
  shows "outside_same rid st st'"
proof -
  define f :: "cost_row \<Rightarrow> cost_row list \<Rightarrow> cost_row list"
    where "f = upsert (\<lambda>r. (ct_run r, ct_version r)) (\<lambda>old new. new\<lparr>ct_workspace := ct_workspace old\<rparr>)"
  have st': "st' = st\<lparr>st_costs := fold f (map (\<lambda>r. r\<lparr>ct_run := rid, ct_workspace := ws\<rparr>) rows) (st_costs st)\<rparr>"
    using assms by (auto simp: add_cost_summaries_def bind_res_Inr_iff f_def)
  have "filter (\<lambda>r. ct_run r \<noteq> rid) (st_costs st') = filter (\<lambda>r. ct_run r \<noteq> rid) (st_costs st)"
    unfolding st' by (simp, intro filter_fold) (auto simp: f_def intro!: filter_upsert)
  then show ?thesis by (simp add: outside_same_def st')
qed

section \<open>Runs and projects\<close>

lemma same_runs_refl: "same_runs st st"
  by (simp add: same_runs_def)

lemma same_runs_trans: "same_runs st st' \<Longrightarrow> same_runs st' st'' \<Longrightarrow> same_runs st st''"
  by (simp add: same_runs_def)

lemma same_runs_ops:
  "set_case_status rid cid ws t' now st = Inr (u, st') \<Longrightarrow> same_runs st st'"
  "set_case_classification rid cid ws cl ec st = Inr (u, st') \<Longrightarrow> same_runs st st'"
  "create_attempt aid rid cid ws rep att st = Inr (a, st') \<Longrightarrow> same_runs st st'"
  "set_attempt_status aid ws t facts now st = Inr (u, st') \<Longrightarrow> same_runs st st'"
  "insert_trace_events X es st = Inr (u, st') \<Longrightarrow> same_runs st st'"
  "save_attempt_output aid rid cid ws out st = Inr (u, st') \<Longrightarrow> same_runs st st'"
  "upsert_case_metric_results rid cid ws scores mb revision now st = Inr (u, st') \<Longrightarrow> same_runs st st'"
  "upsert_run_metric_result rid ws m agg revision g c now st = Inr (u, st') \<Longrightarrow> same_runs st st'"
  "add_cost_summaries rid ws rows st = Inr (u, st') \<Longrightarrow> same_runs st st'"
  "save_remote_job aid rid cid ws job state now st = Inr (u, st') \<Longrightarrow> same_runs st st'"
  "set_remote_job_state aid ws state now st = Inr (u, st') \<Longrightarrow> same_runs st st'"
  subgoal by (cases "get_case st rid cid ws") (auto simp: same_runs_def set_case_status_def Let_def bind_res_Inr_iff)
  subgoal by (auto simp: same_runs_def set_case_classification_def)
  subgoal by (auto simp: same_runs_def create_attempt_def Let_def split: if_splits)
  subgoal by (cases "get_attempt_by_id st aid ws") (auto simp: same_runs_def set_attempt_status_def Let_def bind_res_Inr_iff)
  subgoal by (cases es) (auto simp: same_runs_def insert_trace_events_def bind_res_Inr_iff split: if_splits)
  subgoal by (auto simp: same_runs_def save_attempt_output_def bind_res_Inr_iff)
  subgoal by (auto simp: same_runs_def upsert_case_metric_results_def bind_res_Inr_iff)
  subgoal by (auto simp: same_runs_def upsert_run_metric_result_def)
  subgoal by (auto simp: same_runs_def add_cost_summaries_def bind_res_Inr_iff)
  subgoal by (auto simp: same_runs_def save_remote_job_def)
  subgoal by (auto simp: same_runs_def set_remote_job_state_def)
  done

section \<open>One case\<close>

lemma find_update_where:
  assumes "\<And>r. p r \<Longrightarrow> \<not> q r" and "\<And>r. p r \<Longrightarrow> \<not> q (f r)"
  shows "find q (update_where p f rows) = find q rows"
  using assms by (induction rows) (auto simp: update_where_def)

lemma same_case_ops:
  assumes "cid' \<noteq> cid"
  shows "set_case_status rid cid' ws t now st = Inr (u, st') \<Longrightarrow> same_case rid cid ws st st'"
    and "set_case_classification rid cid' ws cl ec st = Inr (u, st') \<Longrightarrow> same_case rid cid ws st st'"
proof -
  have other: "find (is_case rid cid ws) (update_where (is_case rid cid' ws) f rows) = find (is_case rid cid ws) rows"
    if "\<And>c. cr_case (f c) = cr_case c" for f rows
    by (rule find_update_where) (use assms in \<open>simp_all add: that is_case_def\<close>)
  show "set_case_status rid cid' ws t now st = Inr (u, st') \<Longrightarrow> same_case rid cid ws st st'"
    by (cases "get_case st rid cid' ws")
      (auto simp: same_case_def set_case_status_def Let_def bind_res_Inr_iff get_case_def [of _ _ cid] other)
  show "set_case_classification rid cid' ws cl ec st = Inr (u, st') \<Longrightarrow> same_case rid cid ws st st'"
    by (auto simp: same_case_def set_case_classification_def get_case_def other)
qed

text \<open>The operations that are not on cases leave the table of cases alone.\<close>

lemma same_cases_ops:
  "create_attempt aid rid cid ws rep att st = Inr (a, st') \<Longrightarrow> same_cases st st'"
  "set_attempt_status aid ws t facts now st = Inr (u, st') \<Longrightarrow> same_cases st st'"
  "insert_trace_events X es st = Inr (u, st') \<Longrightarrow> same_cases st st'"
  "save_attempt_output aid rid cid ws out st = Inr (u, st') \<Longrightarrow> same_cases st st'"
  "upsert_case_metric_results rid cid ws scores mb revision now st = Inr (u, st') \<Longrightarrow> same_cases st st'"
  "upsert_run_metric_result rid ws m agg revision g c now st = Inr (u, st') \<Longrightarrow> same_cases st st'"
  "add_cost_summaries rid ws rows st = Inr (u, st') \<Longrightarrow> same_cases st st'"
  "save_remote_job aid rid cid ws job state now st = Inr (u, st') \<Longrightarrow> same_cases st st'"
  "set_remote_job_state aid ws state now st = Inr (u, st') \<Longrightarrow> same_cases st st'"
  subgoal by (auto simp: same_cases_def create_attempt_def Let_def split: if_splits)
  subgoal by (cases "get_attempt_by_id st aid ws")
    (auto simp: same_cases_def set_attempt_status_def Let_def bind_res_Inr_iff)
  subgoal by (cases es) (auto simp: same_cases_def insert_trace_events_def bind_res_Inr_iff split: if_splits)
  subgoal by (auto simp: same_cases_def save_attempt_output_def bind_res_Inr_iff)
  subgoal by (auto simp: same_cases_def upsert_case_metric_results_def bind_res_Inr_iff)
  subgoal by (auto simp: same_cases_def upsert_run_metric_result_def)
  subgoal by (auto simp: same_cases_def add_cost_summaries_def bind_res_Inr_iff)
  subgoal by (auto simp: same_cases_def save_remote_job_def)
  subgoal by (auto simp: same_cases_def set_remote_job_state_def)
  done

lemma same_cases_refl: "same_cases st st"
  by (simp add: same_cases_def)

lemma same_cases_trans: "same_cases st st' \<Longrightarrow> same_cases st' st'' \<Longrightarrow> same_cases st st''"
  by (simp add: same_cases_def)

lemma same_cases_case: "same_cases st st' \<Longrightarrow> same_case rid cid ws st st'"
  by (simp add: same_cases_def same_case_def get_case_def)

end
