(* ===== verification/EngineFrames.thy ===== *)
theory EngineFrames
  imports Engine StoreOrders
begin

text \<open>
  What the engine may do to the tables. The locale \<open>case_work\<close> is the contract of a preorder on the tables
  that every storage operation an execution calls respects, save the change of the run's status;
  \<open>run_work\<close> adds that one. Whatever respects the contract is respected by the engine's calls, also by
  those that raise. Five preorders interpret it: the run table and the projects stay as they are
  (\<open>same_runs\<close>), a case stays as it is while another one runs (\<open>same_case\<close>), the cases stay as they are
  outside the work on a case (\<open>same_cases\<close>), nothing outside the run changes (\<open>outside_same\<close>), and rows only grow and move along the
  status machines (\<open>evidence_grows\<close>).
\<close>

section \<open>The contract\<close>

locale case_work =
  fixes evo :: "store \<Rightarrow> store \<Rightarrow> bool" and rid ws :: string and mine :: "string \<Rightarrow> bool"
  assumes evo_refl: "evo st st"
    and evo_trans: "evo st st' \<Longrightarrow> evo st' st'' \<Longrightarrow> evo st st''"
    and case_status: "mine cid \<Longrightarrow> set_case_status rid cid ws t now st = Inr (u, st') \<Longrightarrow> evo st st'"
    and classification: "mine cid \<Longrightarrow> set_case_classification rid cid ws cl ec st = Inr (u, st') \<Longrightarrow> evo st st'"
    and new_attempt: "create_attempt aid rid cid ws rep att st = Inr (a, st') \<Longrightarrow> evo st st'"
    and attempt_status: "set_attempt_status aid ws t' facts now st = Inr (u, st') \<Longrightarrow> evo st st'"
    and events: "insert_trace_events X es st = Inr (u, st') \<Longrightarrow> list_all (\<lambda>e. run_id e = rid) es \<Longrightarrow> evo st st'"
    and attempt_output: "save_attempt_output aid rid cid ws out st = Inr (u, st') \<Longrightarrow> evo st st'"
    and case_metrics: "upsert_case_metric_results rid cid ws scores mb revision now st = Inr (u, st') \<Longrightarrow> evo st st'"
    and run_metric: "upsert_run_metric_result rid ws m agg revision g c now st = Inr (u, st') \<Longrightarrow> evo st st'"
    and costs: "add_cost_summaries rid ws rows st = Inr (u, st') \<Longrightarrow> evo st st'"
    and remote: "save_remote_job aid rid cid ws job state now st = Inr (u, st') \<Longrightarrow> evo st st'"
    and remote_state: "set_remote_job_state aid ws state now st = Inr (u, st') \<Longrightarrow> evo st st'"

text \<open>The order on the tables, on the state of the engine.\<close>

definition on_tables :: "(store \<Rightarrow> store \<Rightarrow> bool) \<Rightarrow> estate \<Rightarrow> estate \<Rightarrow> bool" where
  "on_tables evo s t = evo (fst s) (fst t)"

sublocale case_work \<subseteq> steps: state_order "on_tables evo"
  by unfold_locales (auto simp: on_tables_def intro: evo_refl evo_trans)

context case_work begin

lemma tx:
  assumes "\<And>n st x st'. op n st = Inr (x, st') \<Longrightarrow> evo st st'"
  shows "on_tables evo s (snd (tx op s))"
  using assms by (auto simp: tx_def on_tables_def evo_refl split: sum.splits)

lemma pure [simp]: "on_tables evo s (snd (lift r s))" "on_tables evo s (snd (reading f s))"
  by (simp_all add: lift_def reading_def on_tables_def evo_refl)

lemma still [simp]: "on_tables evo s s"
  by (rule steps.evo_refl)

lemma later [simp]: "on_tables evo s (fst s, n)" "on_tables evo (fst s, n) t = on_tables evo s t"
  by (simp_all add: on_tables_def evo_refl)

lemma case_to [simp]: "mine cid \<Longrightarrow> on_tables evo s (snd (case_to E rid cid ws t s))"
  unfolding case_to_def by (rule tx) (rule case_status)

lemma attempt_to [simp]: "on_tables evo s (snd (attempt_to E aid ws t facts s))"
  unfolding attempt_to_def by (rule tx) (rule attempt_status)

lemma ingest_events [simp]:
  assumes "rr_id rw = rid"
  shows "on_tables evo s (snd (ingest_events E rw cid aid es s))"
proof (cases "list_all (admissible rw cid aid) es")
  case True
  then have "list_all (\<lambda>e. run_id e = rid) (fst (capped E es))"
    unfolding assms [symmetric]
    by (fastforce simp: capped_def list_all_iff admissible_def stamp_price_def dest: in_set_takeD)
  then have "on_tables evo t (snd (tx (\<lambda>_. insert_trace_events (en_ext E) (fst (capped E es))) t))" for t
    by (intro tx) (blast intro: events)
  then show ?thesis
    unfolding ingest_events_def by (intro steps.bind pure) simp_all
qed (simp add: ingest_events_def lift_def)

lemma ingest_or_error [simp]:
  assumes "rr_id rw = rid"
  shows "on_tables evo s (snd (ingest_or_error E rw ws a r es s))"
proof (cases "ingest_events E rw (ar_case a) (ar_id a) es s" rule: prod.exhaust)
  case (Pair out t)
  have t: "on_tables evo s t"
    using ingest_events [OF assms, of s E "ar_case a" "ar_id a" es] Pair by simp
  have "on_tables evo t (snd (bind_w (attempt_to E (ar_id a) ws Attempt_ERRORED no_facts t) (\<lambda>_ t.
      (Inr (Inl (attempt_result_of a Attempt_ERRORED (iv_exit r) 0 False [] (raw_payload r))), t))))"
    by (rule steps.bind) simp_all
  with t show ?thesis
    unfolding ingest_or_error_def Pair by (cases out) (auto intro: steps.evo_trans)
qed

lemma land_failed_attempt [simp]:
  assumes "rr_id rw = rid"
  shows "on_tables evo s (snd (land_failed_attempt E rw ws a r s))"
  unfolding land_failed_attempt_def
  by (rule steps.bind) (auto simp: assms intro!: steps.bind split: sum.splits)

lemma score_completed [simp]:
  assumes "rr_id rw = rid"
  shows "on_tables evo s (snd (score_completed E rw ws a r kept truncated s))"
  unfolding score_completed_def assms
  by (intro steps.bind attempt_to pure tx) (auto intro: attempt_output case_metrics)

lemma land_attempt [simp]:
  assumes "rr_id rw = rid"
  shows "on_tables evo s (snd (land_attempt E rw ws a r s))"
  using assms unfolding land_attempt_def
  by (auto intro!: steps.bind split: sum.splits)

lemma remember_job [simp]:
  assumes "rr_id rw = rid"
  shows "on_tables evo s (snd (remember_job E rw ws a state job s))"
  unfolding remember_job_def assms by (rule tx) (rule remote)

lemma invoke_target [simp]:
  assumes "rr_id rw = rid"
  shows "on_tables evo s (snd (invoke_target E adapter rw ws a s))"
proof (cases "av_manifest (rr_agent rw)")
  case (Some m)
  have start: "on_tables evo s (snd (each_w (remember_job E rw ws a st) jobs (fst s, n)))" for st jobs n
    using steps.each [of jobs "remember_job E rw ws a st" "(fst s, n)"] assms by simp
  show ?thesis
    unfolding invoke_target_def using Some assms
    by (simp add: Let_def) (intro steps.bind start; auto split: option.splits)
qed (simp add: invoke_target_def)

lemma invoke [simp]:
  assumes "rr_id rw = rid"
  shows "on_tables evo s (snd (invoke E rw ws a s))"
  using assms by (auto simp: invoke_def invoke_local_def split: option.splits)

lemma run_attempt [simp]:
  assumes "rr_id rw = rid"
  shows "on_tables evo s (snd (run_attempt E rw cid ws rep att s))"
proof -
  have go: "on_tables evo t (snd (case invoke E rw ws a t of
      (Inr r, s) \<Rightarrow> land_attempt E rw ws a r s
    | (Inl e, s) \<Rightarrow> bind_w (attempt_to E (ar_id a) ws Attempt_ERRORED no_facts s) (\<lambda>_ s. (Inl e, s))))" for a t
  proof (cases "invoke E rw ws a t" rule: prod.exhaust)
    case (Pair out t')
    then have t': "on_tables evo t t'"
      using invoke [OF assms, of t E a] by simp
    have "on_tables evo t' (snd (bind_w (attempt_to E (ar_id a) ws Attempt_ERRORED no_facts t') (\<lambda>_ s. (Inl e, s))))" for e
      by (rule steps.bind) simp_all
    then show ?thesis
      unfolding Pair by (cases out) (auto simp: assms intro: steps.evo_trans [OF t'])
  qed
  show ?thesis
    unfolding run_attempt_def assms
    by (intro steps.bind tx attempt_to go) (auto intro: new_attempt)
qed

lemma retry_loop [simp]:
  assumes "rr_id rw = rid"
  shows "on_tables evo s (snd (retry_loop E rw cid ws rep ks s))"
proof (induction ks arbitrary: s)
  case (Cons k ks)
  show ?case unfolding retry_loop.simps
    by (rule steps.bind) (auto simp: assms Cons intro!: steps.bind)
qed simp

lemma run_repeat [simp]:
  assumes "rr_id rw = rid"
  shows "on_tables evo s (snd (run_repeat E rw cid ws rep s))"
  unfolding run_repeat_def by (rule steps.bind) (auto simp: assms intro!: steps.bind)

lemma land_case [simp]:
  assumes "rr_id rw = rid" "mine cid"
  shows "on_tables evo s (snd (land_case E rw cid ws xs ys w s))"
  unfolding land_case_def assms(1)
  by (auto simp: assms(2) intro!: steps.bind tx classification [OF assms(2)] split: prod.splits)

lemma run_case_inner [simp]:
  assumes "rr_id rw = rid" "mine cid"
  shows "on_tables evo s (snd (run_case_inner E rw cid ws s))"
  unfolding run_case_inner_def
  by (intro steps.bind pure steps.map) (simp_all add: assms)

lemma write_aggregate [simp]:
  assumes "rr_id rw = rid"
  shows "on_tables evo s (snd (write_aggregate E rw ws prog gate scores m s))"
  unfolding write_aggregate_def assms
  by (intro steps.bind pure tx) (auto intro: run_metric)

lemma write_partials [simp]:
  assumes "rr_id rw = rid"
  shows "on_tables evo s (snd (write_partials E rw ws prog scores s))"
  unfolding write_partials_def
  by (intro steps.each steps.bind) (simp_all add: assms)

lemma require_case [simp]: "on_tables evo s (snd (require_case rid cid ws s))"
  by (simp add: require_case_def)

lemma cancel_unrun [simp]:
  assumes "rr_id rw = rid" "mine (tc_case_id c)"
  shows "on_tables evo s (snd (cancel_unrun E rw ws c s))"
  unfolding cancel_unrun_def assms(1) by (rule steps.bind) (simp_all add: assms)

lemma write_cost_summaries [simp]:
  assumes "rr_id rw = rid"
  shows "on_tables evo s (snd (write_cost_summaries E rw ws s))"
  unfolding write_cost_summaries_def assms
  by (rule steps.bind) (auto intro: tx costs)

lemma orphan_attempt [simp]: "on_tables evo s (snd (orphan_attempt E ws a s))"
  unfolding orphan_attempt_def by (auto intro!: steps.bind tx remote_state)

end

locale run_work = case_work +
  assumes all_mine [simp]: "mine cid"
    and run_status: "set_run_status rid ws t now st = Inr (u, st') \<Longrightarrow> evo st st'"
begin

lemma run_to [simp]: "on_tables evo s (snd (run_to E rid ws t s))"
  unfolding run_to_def by (rule tx) (rule run_status)

lemma reconcile_stale [simp]: "on_tables evo s (snd (reconcile_stale E rid ws s))"
  unfolding reconcile_stale_def Let_def
  by (intro steps.bind steps.each) simp_all

lemma requeue [simp]: "on_tables evo s (snd (requeue E rid ws cids s))"
  unfolding requeue_def by (rule steps.each) simp

lemma cancel_run [simp]:
  assumes "rr_id rw = rid"
  shows "on_tables evo s (snd (cancel_run E rw ws p s))"
  unfolding cancel_run_def assms
  by (intro steps.bind steps.each) (simp_all add: assms)

lemma finalize [simp]:
  assumes "rr_id rw = rid"
  shows "on_tables evo s (snd (finalize E rw ws p s))"
  unfolding finalize_def assms
  by (intro steps.bind steps.map) (simp_all add: assms)

lemma start [simp]:
  assumes "rr_id rw = rid"
  shows "on_tables evo s (snd (start E rw ws status s))"
  unfolding start_def assms by (auto intro!: steps.bind)

lemma resume [simp]:
  assumes "rr_id rw = rid"
  shows "on_tables evo s (snd (resume E rw ws s))"
  unfolding resume_def assms by (auto intro!: steps.bind)

lemma prepare_run [simp]:
  assumes "rr_id rw = rid"
  shows "on_tables evo s (snd (prepare_run E rw ws s))"
  unfolding prepare_run_def assms by (intro steps.bind) (simp_all add: assms)

lemma case_loop [simp]:
  assumes "rr_id rw = rid"
  shows "on_tables evo s (snd (case_loop E rw ws cs p s))"
proof (induction cs arbitrary: p s)
  case (Cons c cs)
  have poll: "on_tables evo t (snd (poll_cancel E t))" for t
    by (simp add: poll_cancel_def)
  show ?case unfolding case_loop.simps assms
    by (intro steps.bind poll) (auto simp: assms Cons intro!: steps.bind)
qed simp

lemma or_incomplete:
  assumes "rr_id rw = rid" and "on_tables evo s (snd m)"
  shows "on_tables evo s (snd (or_incomplete E rw ws m))"
proof -
  have "on_tables evo (snd m) (snd (bind_w (run_to E rid ws Run_INCOMPLETE (snd m)) (\<lambda>_ s. (Inl e, s))))" for e
    by (rule steps.bind) simp_all
  with assms show ?thesis
    by (cases m; cases "fst m") (auto simp: or_incomplete_def intro: steps.evo_trans)
qed

lemma run: "on_tables evo s (snd (run E rid ws s))"
proof -
  have id: "rr_id r = rid" if "get_run st rid ws = Some r" for st r
    using that by (auto simp: get_run_def find_Some_iff)
  show ?thesis
    unfolding run_def
  proof (rule steps.bind [OF pure(2)])
    fix r t
    assume "reading (\<lambda>st. case get_run st rid ws of None \<Rightarrow> Inl KeyError | Some r \<Rightarrow> Inr r) s = (Inr r, t)"
    then have r: "rr_id r = rid"
      by (auto simp: reading_def id split: option.splits)
    show "on_tables evo t (snd (bind_w (lift (ensure (rr_status r \<noteq> Run_COMPLETE \<and> rr_status r \<noteq> Run_FAILED)
        RunAlreadyTerminalError) t) (\<lambda>_ s.
      bind_w (prepare_run E r ws s) (\<lambda>_ s.
      bind_w (or_incomplete E r ws (case_loop E r ws (sp_cases (rr_spec r)) \<lparr>pg_cases = [], pg_scores = [], pg_notices = []\<rparr> s))
        (\<lambda>out s. case out of Inl res \<Rightarrow> (Inr res, s) | Inr p \<Rightarrow> or_incomplete E r ws (finalize E r ws p s))))))"
      by (intro steps.bind pure or_incomplete r prepare_run)
        (auto simp: r intro!: or_incomplete split: sum.splits)
  qed
qed

end

section \<open>The orders respect the contract\<close>

interpretation same: case_work same_runs rid ws "\<lambda>_. True" for rid ws
  by unfold_locales (fact same_runs_refl, erule (1) same_runs_trans, (erule same_runs_ops)+)

interpretation others: case_work "same_case rid cid ws" rid ws "\<lambda>c. c \<noteq> cid" for rid cid ws
  by unfold_locales
    (simp add: same_case_def, simp add: same_case_def, erule (1) same_case_ops, erule (1) same_case_ops,
      (rule same_cases_case, erule same_cases_ops)+)

interpretation idle: case_work same_cases rid ws "\<lambda>_. False" for rid ws
  by unfold_locales (fact same_cases_refl, erule (1) same_cases_trans, simp, simp, (erule same_cases_ops)+)

interpretation outside: run_work "outside_same rid" rid ws "\<lambda>_. True" for rid ws
  by unfold_locales
    (fact outside_same_refl, erule (1) outside_same_trans, erule outside_status, erule outside_status,
      erule outside_attempts, erule outside_attempts, erule (1) outside_events, erule outside_attempts,
      erule outside_case_metrics, erule outside_run_metric, erule outside_costs, erule outside_attempts,
      erule outside_attempts, simp, erule outside_status)

interpretation evidence: run_work evidence_grows rid ws "\<lambda>_. True" for rid ws
  by unfold_locales
    (fact evidence_grows_refl, erule (1) evidence_grows_trans, erule case_status_grows, erule classification_grows,
      erule new_attempt_grows, erule attempt_status_grows, erule events_grow, erule output_grows,
      erule case_metrics_grow, erule run_metric_grows, erule costs_grow, erule remote_grows, erule remote_state_grows,
      simp, erule run_status_grows)

end
