(* ===== verification/EngineProps.thy ===== *)
theory EngineProps
  imports EngineFrames ScoringProps
begin

text \<open>
  What an execution of a run guarantees: which rows it may touch, and that it always lands. Preparing a run
  never fails on tables with unique keys, and from then on the run is in a status from which it can be
  completed, cancelled or marked incomplete.

  A call is reasoned about by \<open>ends\<close>: what holds of the result and the state when it returns, and of the
  state when it raises.
\<close>

section \<open>Outcomes of a call\<close>

definition ends :: "'a res \<times> estate \<Rightarrow> ('a \<Rightarrow> estate \<Rightarrow> bool) \<Rightarrow> (estate \<Rightarrow> bool) \<Rightarrow> bool" where
  "ends m Q R = (case m of (Inr x, t) \<Rightarrow> Q x t | (Inl e, t) \<Rightarrow> R t)"

lemma ends_simps [simp]:
  "ends (Inr x, t) Q R = Q x t"
  "ends (Inl e, t) Q R = R t"
  by (simp_all add: ends_def)

lemma ends_bind:
  assumes "ends m Q R" and "\<And>x t. m = (Inr x, t) \<Longrightarrow> Q x t \<Longrightarrow> ends (f x t) Q' R"
  shows "ends (bind_w m f) Q' R"
  using assms by (cases m; cases "fst m") auto

lemma ends_mono:
  assumes "ends m Q R" and "\<And>x t. Q x t \<Longrightarrow> Q' x t" and "\<And>t. R t \<Longrightarrow> R' t"
  shows "ends m Q' R'"
  using assms by (cases m; cases "fst m") auto

lemma ends_any: "P (snd m) \<Longrightarrow> ends m (\<lambda>_. P) P"
  by (cases m; cases "fst m") auto

lemma ends_tx:
  assumes "\<And>x st. op (snd s) (fst s) = Inr (x, st) \<Longrightarrow> Q x (st, Suc (snd s))"
    and "\<And>e. op (snd s) (fst s) = Inl e \<Longrightarrow> R (fst s, Suc (snd s))"
  shows "ends (tx op s) Q R"
  using assms by (auto simp: tx_def split: sum.splits prod.splits)

lemma ends_each:
  assumes "\<And>x t. x \<in> set xs \<Longrightarrow> P t \<Longrightarrow> ends (f x t) (\<lambda>_. P) R" and "P s" and "\<And>t. P t \<Longrightarrow> R t"
  shows "ends (each_w f xs s) (\<lambda>_. P) R"
  using assms
proof (induction xs arbitrary: s)
  case (Cons x xs)
  show ?case unfolding each_w.simps
    by (rule ends_bind [of _ "\<lambda>_. P"]) (use Cons in auto)
qed simp

text \<open>A loop over distinct keys: each call is enabled until it is made, and settles its own key.\<close>

lemma each_w_total:
  assumes call: "\<And>x s. x \<in> set xs \<Longrightarrow> ok x s \<Longrightarrow> fst (f x s) = Inr () \<and> fin x (snd (f x s))"
    and frame: "\<And>x y s. x \<in> set xs \<Longrightarrow> y \<in> set xs \<Longrightarrow> x \<noteq> y \<Longrightarrow> ok x s \<Longrightarrow>
      (ok y s \<longrightarrow> ok y (snd (f x s))) \<and> (fin y s \<longrightarrow> fin y (snd (f x s)))"
    and "distinct xs" and "\<forall>x \<in> set xs. ok x s"
  shows "fst (each_w f xs s) = Inr () \<and> (\<forall>x \<in> set xs. fin x (snd (each_w f xs s)))"
proof -
  have "fst (each_w f ys t) = Inr () \<and> (\<forall>x \<in> set zs \<union> set ys. fin x (snd (each_w f ys t)))"
    if "set zs \<union> set ys \<subseteq> set xs" "distinct ys" "set zs \<inter> set ys = {}" "\<forall>x \<in> set zs. fin x t" "\<forall>x \<in> set ys. ok x t"
    for zs ys t
    using that
  proof (induction ys arbitrary: zs t)
    case (Cons y ys)
    have y: "f y t = (Inr (), snd (f y t))" "fin y (snd (f y t))"
      using call [of y t] Cons.prems by (auto simp: prod_eq_iff)
    have "fst (each_w f ys (snd (f y t))) = Inr () \<and> (\<forall>x \<in> set (y # zs) \<union> set ys. fin x (snd (each_w f ys (snd (f y t)))))"
    proof (rule Cons.IH)
      have "y \<noteq> x \<and> x \<in> set xs" if "x \<in> set zs \<union> set ys" for x
        using that Cons.prems by auto
      then have other: "(ok x t \<longrightarrow> ok x (snd (f y t))) \<and> (fin x t \<longrightarrow> fin x (snd (f y t)))"
        if "x \<in> set zs \<union> set ys" for x
        using that frame [of y x t] Cons.prems by simp
      show "\<forall>x \<in> set (y # zs). fin x (snd (f y t))"
        using other y(2) Cons.prems(4) by simp
      show "\<forall>x \<in> set ys. ok x (snd (f y t))"
        using other Cons.prems(5) by simp
    qed (use Cons.prems in auto)
    moreover have "each_w f (y # ys) t = each_w f ys (snd (f y t))"
      unfolding each_w.simps by (subst y(1)) simp
    ultimately show ?case by simp
  qed simp
  from this [of "[]" xs s] show ?thesis using assms(3,4) by simp
qed

section \<open>The rows an execution touches\<close>

text \<open>C2. Whatever the agent, the adapter, the judges and the clock do, and also when it raises: an execution
  keeps the primary keys unique, removes no row, changes no stored event, keeps what a run, a case, an
  attempt or a result row was created with, moves statuses only along the tables of \<open>lifecycle.py\<close>, and
  writes a start time once.\<close>

theorem run_evidence_grows:
  assumes "keys_ok (fst s)"
  shows "keys_ok (fst (snd (run E rid ws s))) \<and> grows (fst s) (fst (snd (run E rid ws s)))"
  using assms evidence.run [of s E rid ws] by (simp add: on_tables_def evidence_grows_def)

text \<open>C4. An execution leaves the projects, and the cases, events, results and costs of other runs as they
  are.\<close>

theorem run_isolated: "outside_same rid (fst s) (fst (snd (run E rid ws s)))"
  using outside.run [of rid s E ws] by (simp add: on_tables_def)

section \<open>The status of the run\<close>

definition run_state :: "store \<Rightarrow> string \<Rightarrow> string \<Rightarrow> run_status option" where
  "run_state st rid ws = map_option rr_status (get_run st rid ws)"

lemma same_runs_state: "on_tables same_runs s t \<Longrightarrow> run_state (fst t) rid ws = run_state (fst s) rid ws"
  by (simp add: on_tables_def same_runs_def run_state_def get_run_def)

lemma find_update_found:
  assumes "find p rows = Some r" and "\<And>r. p r \<Longrightarrow> p (f r)"
  shows "find p (update_where p f rows) = Some (f r)"
  using assms by (induction rows) (auto simp: update_where_def split: if_splits)

lemma set_run_status_state:
  assumes "set_run_status rid ws t now st = Inr (u, st')"
  shows "run_state st' rid ws = Some t" "st_cases st' = st_cases st" "st_attempts st' = st_attempts st"
proof -
  obtain r where r: "get_run st rid ws = Some r"
    using assms by (cases "get_run st rid ws") (auto simp: set_run_status_def)
  then obtain f where st': "st' = st\<lparr>st_runs := update_where (\<lambda>r. rr_id r = rid \<and> rr_workspace r = ws) f (st_runs st)\<rparr>"
    and f: "\<And>r. rr_id (f r) = rr_id r" "\<And>r. rr_workspace (f r) = rr_workspace r" "\<And>r. rr_status (f r) = t"
    using assms by (auto simp: set_run_status_def bind_res_Inr_iff Let_def runs.transition_iff)
  show "run_state st' rid ws = Some t"
    unfolding run_state_def get_run_def st' using r [unfolded get_run_def] f
    by (simp add: find_update_found)
qed (use assms in \<open>cases "get_run st rid ws"; auto simp: set_run_status_def bind_res_Inr_iff Let_def\<close>)+

text \<open>\<open>run_to\<close> refuses or moves the run, and touches nothing else.\<close>

lemma run_to_ends:
  "ends (run_to E rid ws t s) (\<lambda>_ s'. run_state (fst s') rid ws = Some t \<and> st_cases (fst s') = st_cases (fst s)
      \<and> st_attempts (fst s') = st_attempts (fst s))
     (\<lambda>s'. fst s' = fst s)"
  unfolding run_to_def by (rule ends_tx) (auto dest: set_run_status_state)

lemma run_to_allowed:
  assumes "run_state (fst s) rid ws = Some c" and "t \<in> set (the (map_of RUN_TRANSITIONS c))"
  shows "\<exists>s'. run_to E rid ws t s = (Inr (), s') \<and> run_state (fst s') rid ws = Some t
    \<and> st_cases (fst s') = st_cases (fst s) \<and> st_attempts (fst s') = st_attempts (fst s)"
proof -
  obtain r where "get_run (fst s) rid ws = Some r" "rr_status r = c"
    using assms(1) by (auto simp: run_state_def)
  moreover have "transition run_status_value (run_status_value c) (run_status_value t) RUN_TRANSITIONS = Inr t"
    using assms(2) runs.allowed_defined [of c] by (auto simp: runs.transition_iff)
  ultimately have "fst (run_to E rid ws t s) = Inr ()"
    by (simp add: run_to_def tx_def set_run_status_def Let_def)
  then show ?thesis
    using run_to_ends [of E rid ws t s] by (cases "run_to E rid ws t s" rule: prod.exhaust) auto
qed

text \<open>While its cases are worked on, the run is \<open>RUNNING\<close>, or \<open>AGGREGATING\<close> when it was resumed there.\<close>

definition live :: "string \<Rightarrow> string \<Rightarrow> estate \<Rightarrow> bool" where
  "live rid ws s = (run_state (fst s) rid ws \<in> {Some Run_RUNNING, Some Run_AGGREGATING})"

lemma live_frame: "on_tables same_runs s (snd m) \<Longrightarrow> live rid ws s \<Longrightarrow> ends m (\<lambda>_. live rid ws) (live rid ws)"
  by (rule ends_any) (simp add: live_def same_runs_state)

lemma live_run_to:
  assumes "live rid ws s"
  shows "ends (run_to E rid ws t s) (\<lambda>_ s'. run_state (fst s') rid ws = Some t) (live rid ws)"
  by (rule ends_mono [OF run_to_ends]) (use assms in \<open>auto simp: live_def\<close>)

lemma or_incomplete_live:
  assumes "rr_id r = rid" and "ends m Q (live rid ws)"
  shows "ends (or_incomplete E r ws m) Q (\<lambda>t. run_state (fst t) rid ws = Some Run_INCOMPLETE)"
proof (cases m rule: prod.exhaust)
  case (Pair out t)
  show ?thesis
  proof (cases out)
    case (Inl e)
    then have "live rid ws t" using assms(2) Pair by simp
    then obtain c where "run_state (fst t) rid ws = Some c" "Run_INCOMPLETE \<in> set (the (map_of RUN_TRANSITIONS c))"
      by (auto simp: live_def RUN_TRANSITIONS_def)
    then obtain t' where "run_to E rid ws Run_INCOMPLETE t = (Inr (), t')" "run_state (fst t') rid ws = Some Run_INCOMPLETE"
      using run_to_allowed by blast
    then show ?thesis by (simp add: or_incomplete_def Pair Inl assms(1))
  qed (use assms(2) Pair in \<open>simp add: or_incomplete_def\<close>)
qed

text \<open>A call that leaves the run table alone, and what follows it.\<close>

lemma live_bind:
  assumes "live rid ws s" and "on_tables same_runs s (snd m)"
    and "\<And>x t. m = (Inr x, t) \<Longrightarrow> live rid ws t \<Longrightarrow> ends (f x t) Q (live rid ws)"
  shows "ends (bind_w m f) Q (live rid ws)"
  using ends_bind [OF live_frame [OF assms(2,1)]] assms(3) by blast

lemma cancel_run_live:
  assumes r: "rr_id r = rid" and "live rid ws s"
  shows "ends (cancel_run E r ws p s)
    (\<lambda>res t. rs_status res = Run_CANCELLED \<and> run_state (fst t) rid ws = Some Run_CANCELLED) (live rid ws)"
  unfolding cancel_run_def r
  apply (rule live_bind [OF assms(2)])
   apply (rule same.steps.each, simp add: r)
  apply (erule live_bind, simp add: r)
  apply (rule ends_bind [OF live_run_to], assumption, simp)
  done

lemma case_loop_live:
  assumes r: "rr_id r = rid" and "live rid ws s"
  shows "ends (case_loop E r ws cs p s)
    (\<lambda>out t. case out of
        Inl res \<Rightarrow> rs_status res = Run_CANCELLED \<and> run_state (fst t) rid ws = Some Run_CANCELLED
      | Inr p \<Rightarrow> live rid ws t) (live rid ws)"
  using assms(2)
proof (induction cs arbitrary: p s)
  case (Cons c cs)
  have stop: "ends (bind_w (cancel_run E r ws p t) (\<lambda>res s. (Inr (Inl res), s)))
      (\<lambda>out t. case out of
          Inl res \<Rightarrow> rs_status res = Run_CANCELLED \<and> run_state (fst t) rid ws = Some Run_CANCELLED
        | Inr p \<Rightarrow> live rid ws t) (live rid ws)" if "live rid ws t" for p t
    by (rule ends_bind [OF cancel_run_live [OF r that]]) simp
  show ?case
    unfolding case_loop.simps r
    apply (rule live_bind [OF Cons.prems], simp add: poll_cancel_def)
    apply (simp split: if_splits, intro conjI impI stop, assumption)
    apply (erule live_bind, simp)
    apply (simp split: if_splits, intro conjI impI Cons.IH, assumption)
    apply (erule live_bind, simp add: r)
    apply (erule live_bind, simp add: r)
    apply (simp split: if_splits, intro conjI impI Cons.IH stop, assumption+)
    done
qed simp

lemma finalize_live:
  assumes r: "rr_id r = rid" and "live rid ws s"
  shows "ends (finalize E r ws p s)
    (\<lambda>res t. rs_status res = Run_COMPLETE \<and> run_state (fst t) rid ws = Some Run_COMPLETE) (live rid ws)"
proof -
  have to: "ends (if cur = Run_RUNNING then run_to E rid ws Run_AGGREGATING u else (Inr (), u)) (\<lambda>_. live rid ws) (live rid ws)"
    if "live rid ws u" for cur u
    using that live_run_to [OF that, of E Run_AGGREGATING] by (auto simp: live_def elim: ends_mono)
  show ?thesis
    unfolding finalize_def r
    apply (rule live_bind [OF assms(2)])
     apply (rule same.steps.map, simp)
    apply (erule live_bind, simp)
    apply (erule ends_bind [OF to])
    apply (erule live_bind, rule same.steps.map, simp add: r)
    apply (erule live_bind, simp add: r)
    apply (rule ends_bind [OF live_run_to], assumption, simp)
    done
qed

section \<open>Preparing a run never fails\<close>

definition case_state :: "store \<Rightarrow> string \<Rightarrow> string \<Rightarrow> string \<Rightarrow> run_case_status option" where
  "case_state st rid cid ws = map_option cr_status (get_case st rid cid ws)"

definition attempt_state :: "store \<Rightarrow> string \<Rightarrow> string \<Rightarrow> attempt_status option" where
  "attempt_state st aid ws = map_option ar_status (get_attempt_by_id st aid ws)"

lemma find_unique:
  assumes "unique key rows" and "r \<in> set rows" and "p r" and "\<And>r'. p r' \<Longrightarrow> key r' = key r"
  shows "find p rows = Some r"
proof -
  obtain r' where r': "find p rows = Some r'"
    using assms(2,3) by (cases "find p rows") (auto simp: find_None_iff)
  then have "p r'" by (auto simp: find_Some_iff)
  then show ?thesis
    using unique_find [OF assms(1) r' assms(2)] assms(4) r' by metis
qed

lemma case_to_allowed:
  assumes "case_state (fst s) rid cid ws = Some c" and "t \<in> set (the (map_of RUN_CASE_TRANSITIONS c))"
  shows "fst (case_to E rid cid ws t s) = Inr () \<and> case_state (fst (snd (case_to E rid cid ws t s))) rid cid ws = Some t"
proof -
  obtain r where r: "find (is_case rid cid ws) (st_cases (fst s)) = Some r" "cr_status r = c"
    using assms(1) by (auto simp: case_state_def get_case_def)
  have tr: "transition run_case_status_value (run_case_status_value c) (run_case_status_value t) RUN_CASE_TRANSITIONS = Inr t"
    using assms(2) run_cases.allowed_defined [of c] by (auto simp: run_cases.transition_iff)
  have found: "find (is_case rid cid ws) (update_where (is_case rid cid ws)
      (\<lambda>r. r\<lparr>cr_status := t, cr_started := x, cr_completed := y\<rparr>) (st_cases (fst s)))
      = Some (r\<lparr>cr_status := t, cr_started := x, cr_completed := y\<rparr>)" for x y
    by (rule find_update_found [OF r(1)]) (simp add: is_case_def)
  show ?thesis
    by (simp add: case_to_def tx_def set_case_status_def get_case_def r tr Let_def case_state_def found)
qed

text \<open>Moving a list of cases.\<close>

lemma cases_to_total:
  assumes "distinct cids" and "\<forall>cid \<in> set cids. \<exists>c. case_state (fst s) rid cid ws = Some c \<and> t \<in> set (the (map_of RUN_CASE_TRANSITIONS c))"
  shows "fst (each_w (\<lambda>cid. case_to E rid cid ws t) cids s) = Inr ()
    \<and> (\<forall>cid \<in> set cids. case_state (fst (snd (each_w (\<lambda>cid. case_to E rid cid ws t) cids s))) rid cid ws = Some t)"
proof (rule each_w_total [where ok = "\<lambda>cid s. \<exists>c. case_state (fst s) rid cid ws = Some c \<and> t \<in> set (the (map_of RUN_CASE_TRANSITIONS c))"])
  fix x y :: string and s :: estate
  assume "x \<noteq> y"
  then have "case_state (fst (snd (case_to E rid x ws t s))) rid y ws = case_state (fst s) rid y ws"
    using others.case_to [of x y rid ws s E t] by (simp add: on_tables_def same_case_def case_state_def)
  then show "((\<exists>c. case_state (fst s) rid y ws = Some c \<and> t \<in> set (the (map_of RUN_CASE_TRANSITIONS c))) \<longrightarrow>
         (\<exists>c. case_state (fst (snd (case_to E rid x ws t s))) rid y ws = Some c \<and> t \<in> set (the (map_of RUN_CASE_TRANSITIONS c)))) \<and>
        (case_state (fst s) rid y ws = Some t \<longrightarrow> case_state (fst (snd (case_to E rid x ws t s))) rid y ws = Some t)"
    by simp
qed (use assms case_to_allowed in auto)

lemma cases_in_unique:
  assumes "unique (\<lambda>c. (cr_run c, cr_case c)) (st_cases st)"
  shows "distinct (cases_in c st rid ws)"
    and "cid \<in> set (cases_in c st rid ws) \<Longrightarrow> case_state st rid cid ws = Some c"
proof -
  have "distinct (map (\<lambda>c. (cr_run c, cr_case c)) (filter (\<lambda>r. cr_status r = c) (list_cases st rid ws)))"
    using assms by (simp add: distinct_map list_cases_def inj_on_def)
  moreover have "map (\<lambda>c. (cr_run c, cr_case c)) (filter (\<lambda>r. cr_status r = c) (list_cases st rid ws))
      = map (Pair rid) (cases_in c st rid ws)"
    by (simp add: cases_in_def list_cases_def)
  ultimately show "distinct (cases_in c st rid ws)" by (simp add: distinct_map)
  assume "cid \<in> set (cases_in c st rid ws)"
  then obtain r where "r \<in> set (st_cases st)" "is_case rid cid ws r" "cr_status r = c"
    by (auto simp: cases_in_def list_cases_def is_case_def)
  then show "case_state st rid cid ws = Some c"
    using find_unique [OF assms, of r "is_case rid cid ws"] by (auto simp: case_state_def get_case_def is_case_def)
qed

lemma attempt_to_orphaned:
  assumes "attempt_state (fst s) aid ws = Some c" and "c \<in> {Attempt_QUEUED, Attempt_RUNNING}"
  shows "fst (attempt_to E aid ws Attempt_ORPHANED no_facts s) = Inr ()"
proof -
  obtain r where r: "get_attempt_by_id (fst s) aid ws = Some r" "ar_status r = c"
    using assms(1) by (auto simp: attempt_state_def)
  have "transition attempt_status_value (attempt_status_value c) (attempt_status_value Attempt_ORPHANED) ATTEMPT_TRANSITIONS
      = Inr Attempt_ORPHANED"
    using assms(2) unfolding attempts.transition_iff by (auto simp: ATTEMPT_TRANSITIONS_def)
  then show ?thesis
    by (simp add: attempt_to_def tx_def set_attempt_status_def r no_facts_def Let_def)
qed

lemma attempt_to_other:
  assumes "aid' \<noteq> aid"
  shows "attempt_state (fst (snd (attempt_to E aid' ws t facts s))) aid ws = attempt_state (fst s) aid ws"
proof -
  have "attempt_state st' aid ws = attempt_state st aid ws" if "set_attempt_status aid' ws t facts now st = Inr (u, st')" for now st u st'
  proof -
    have other: "find (is_attempt aid ws) (update_where (is_attempt aid' ws) f rows) = find (is_attempt aid ws) rows"
      if "\<And>a. ar_id (f a) = ar_id a" for f rows
      by (rule find_update_where) (use assms in \<open>simp_all add: that is_attempt_def\<close>)
    show ?thesis
      using that by (cases "get_attempt_by_id st aid' ws")
        (auto simp: attempt_state_def set_attempt_status_def Let_def bind_res_Inr_iff get_attempt_by_id_def [of _ aid] other)
  qed
  then show ?thesis
    by (auto simp: attempt_to_def tx_def split: sum.splits)
qed

lemma remote_state_attempts:
  "attempt_state (fst (snd (tx (\<lambda>n. set_remote_job_state aid' ws' state (now n)) s))) aid ws = attempt_state (fst s) aid ws"
  by (simp add: tx_def set_remote_job_state_def attempt_state_def get_attempt_by_id_def)

lemma orphan_attempt_total:
  assumes "attempt_state (fst s) (ar_id a) ws = Some (ar_status a)"
  shows "fst (orphan_attempt E ws a s) = Inr ()"
proof (cases "ar_status a = Attempt_QUEUED \<or> ar_status a = Attempt_RUNNING")
  case True
  then have "fst (attempt_to E (ar_id a) ws Attempt_ORPHANED no_facts s) = Inr ()"
    using attempt_to_orphaned [OF assms] by simp
  then obtain t where "attempt_to E (ar_id a) ws Attempt_ORPHANED no_facts s = (Inr (), t)"
    by (metis prod.collapse)
  with True show ?thesis by (simp add: orphan_attempt_def tx_def set_remote_job_state_def)
qed (simp add: orphan_attempt_def)

lemma orphan_attempt_other:
  assumes "ar_id a \<noteq> aid"
  shows "attempt_state (fst (snd (orphan_attempt E ws a s))) aid ws = attempt_state (fst s) aid ws"
proof -
  obtain out t where m: "attempt_to E (ar_id a) ws Attempt_ORPHANED no_facts s = (out, t)"
    by (metis prod.collapse)
  have "attempt_state (fst t) aid ws = attempt_state (fst s) aid ws"
    using attempt_to_other [OF assms, of E ws Attempt_ORPHANED no_facts s] m by simp
  then show ?thesis
    by (cases out) (simp_all add: orphan_attempt_def m remote_state_attempts)
qed

lemma orphan_all_total:
  assumes "unique ar_id (st_attempts (fst s))"
  shows "fst (each_w (orphan_attempt E ws) (list_attempts (fst s) rid ws None) s) = Inr ()"
proof -
  let ?as = "list_attempts (fst s) rid ws None"
  have ids: "inj_on ar_id (set ?as)"
    using assms by (auto simp: list_attempts_def distinct_map inj_on_def)
  have "fst (each_w (orphan_attempt E ws) ?as s) = Inr () \<and> (\<forall>a \<in> set ?as. True)"
  proof (rule each_w_total [where ok = "\<lambda>a s. attempt_state (fst s) (ar_id a) ws = Some (ar_status a)" and fin = "\<lambda>_ _. True"])
    fix a b s assume "a \<in> set ?as" "b \<in> set ?as" "a \<noteq> b"
    then have "ar_id a \<noteq> ar_id b" using ids by (auto dest: inj_onD)
    then show "(attempt_state (fst s) (ar_id b) ws = Some (ar_status b) \<longrightarrow>
        attempt_state (fst (snd (orphan_attempt E ws a s))) (ar_id b) ws = Some (ar_status b)) \<and> (True \<longrightarrow> True)"
      by (simp add: orphan_attempt_other)
  next
    show "distinct ?as" using assms by (simp add: list_attempts_def distinct_map)
    show "\<forall>a \<in> set ?as. attempt_state (fst s) (ar_id a) ws = Some (ar_status a)"
    proof
      fix a assume "a \<in> set ?as"
      then have "a \<in> set (st_attempts (fst s))" "is_attempt (ar_id a) ws a"
        by (auto simp: list_attempts_def is_attempt_def)
      then have "find (is_attempt (ar_id a) ws) (st_attempts (fst s)) = Some a"
        by (rule find_unique [OF assms]) (simp add: is_attempt_def)
      then show "attempt_state (fst s) (ar_id a) ws = Some (ar_status a)"
        by (simp add: attempt_state_def get_attempt_by_id_def)
    qed
  qed (simp add: orphan_attempt_total)
  then show ?thesis by simp
qed

lemma keeps_keys:
  "keys_ok (fst s) \<Longrightarrow> on_tables evidence_grows s t \<Longrightarrow> keys_ok (fst t)"
  by (simp add: on_tables_def evidence_grows_def)

lemma keys_cases: "keys_ok st \<Longrightarrow> unique (\<lambda>c. (cr_run c, cr_case c)) (st_cases st)"
  and keys_attempts: "keys_ok st \<Longrightarrow> unique ar_id (st_attempts st)"
  by (simp_all add: keys_ok_def)

text \<open>The cases left running end up cancelled.\<close>

lemma reconcile_stale_total:
  assumes "keys_ok (fst s)"
  shows "\<exists>stale t. reconcile_stale E rid ws s = (Inr stale, t) \<and> distinct stale
    \<and> (\<forall>cid \<in> set stale. case_state (fst t) rid cid ws = Some Case_CANCELLED)"
proof -
  obtain t where t: "each_w (orphan_attempt E ws) (list_attempts (fst s) rid ws None) s = (Inr (), t)"
    using orphan_all_total [OF keys_attempts [OF assms]] by (metis prod.collapse)
  have "on_tables evidence_grows s (snd (each_w (orphan_attempt E ws) (list_attempts (fst s) rid ws None) s))"
    by (rule evidence.steps.each) simp
  then have "keys_ok (fst t)"
    using keeps_keys [OF assms] t by simp
  note u = cases_in_unique [OF keys_cases [OF this]]
  define stale where "stale = cases_in Case_RUNNING (fst t) rid ws"
  have "fst (each_w (\<lambda>cid. case_to E rid cid ws Case_CANCELLED) stale t) = Inr ()
      \<and> (\<forall>cid \<in> set stale. case_state (fst (snd (each_w (\<lambda>cid. case_to E rid cid ws Case_CANCELLED) stale t))) rid cid ws
            = Some Case_CANCELLED)"
    by (rule cases_to_total) (auto simp: stale_def u RUN_CASE_TRANSITIONS_def)
  then obtain t' where t': "each_w (\<lambda>cid. case_to E rid cid ws Case_CANCELLED) stale t = (Inr (), t')"
      "\<forall>cid \<in> set stale. case_state (fst t') rid cid ws = Some Case_CANCELLED"
    by (metis prod.collapse)
  have "reconcile_stale E rid ws s = (Inr stale, t')"
    using t t'(1) by (simp add: reconcile_stale_def stale_def cases_in_def Let_def)
  moreover have "distinct stale" by (simp add: stale_def u)
  ultimately show ?thesis using t'(2) by blast
qed

lemma requeue_total:
  assumes "\<forall>cid \<in> set cids. case_state (fst s) rid cid ws \<in> {Some Case_CANCELLED, Some Case_FAILED}" and "distinct cids"
  shows "fst (requeue E rid ws cids s) = Inr ()"
proof -
  have "\<forall>cid \<in> set cids. \<exists>c. case_state (fst s) rid cid ws = Some c \<and> Case_QUEUED \<in> set (the (map_of RUN_CASE_TRANSITIONS c))"
    using assms(1) by (auto simp: RUN_CASE_TRANSITIONS_def)
  from cases_to_total [OF assms(2) this] show ?thesis by (simp add: requeue_def)
qed

lemma resume_total:
  assumes "keys_ok (fst s)" and "run_state (fst s) rid ws = Some (rr_status r)" and r: "rr_id r = rid"
  shows "\<exists>status t. resume E r ws s = (Inr status, t) \<and> run_state (fst t) rid ws = Some status \<and> keys_ok (fst t)
    \<and> status = (if rr_status r \<in> {Run_CANCELLED, Run_INCOMPLETE} then Run_QUEUED else rr_status r)"
proof (cases "rr_status r \<in> {Run_CANCELLED, Run_INCOMPLETE}")
  case True
  then have "Run_QUEUED \<in> set (the (map_of RUN_TRANSITIONS (rr_status r)))"
    by (auto simp: RUN_TRANSITIONS_def)
  then obtain t where t: "run_to E rid ws Run_QUEUED s = (Inr (), t)" "run_state (fst t) rid ws = Some Run_QUEUED"
      "st_cases (fst t) = st_cases (fst s)"
    using run_to_allowed [OF assms(2)] by blast
  note u = cases_in_unique [OF keys_cases [OF assms(1)], folded t(3)]
  have "fst (requeue E rid ws (cases_in Case_CANCELLED (fst t) rid ws) t) = Inr ()"
    by (rule requeue_total) (use u in \<open>auto simp: case_state_def get_case_def cases_in_def list_cases_def t(3)\<close>)
  then obtain t' where t': "requeue E rid ws (cases_in Case_CANCELLED (fst t) rid ws) t = (Inr (), t')"
    by (metis prod.collapse)
  have "run_state (fst t') rid ws = Some Run_QUEUED"
    using same_runs_state [of t t' rid ws] same.steps.each [of "cases_in Case_CANCELLED (fst t) rid ws" "\<lambda>cid. case_to E rid cid ws Case_QUEUED" t]
      t(2) t' by (simp add: requeue_def)
  moreover have e: "resume E r ws s = (Inr Run_QUEUED, t')"
    using True t(1) t' by (auto simp: resume_def r)
  moreover have "keys_ok (fst t')"
    using keeps_keys [OF assms(1)] evidence.resume [OF r, of s E ws] e by simp
  ultimately show ?thesis using True by auto
qed (use assms in \<open>auto simp: resume_def\<close>)

lemma start_total:
  assumes "run_state (fst s) rid ws = Some status" and r: "rr_id r = rid"
    and "status \<notin> {Run_COMPLETE, Run_FAILED, Run_CANCELLED, Run_INCOMPLETE}"
  shows "\<exists>t. start E r ws status s = (Inr (), t) \<and> live rid ws t"
proof -
  have go: "\<exists>t. run_to E rid ws b s = (Inr (), t) \<and> run_state (fst t) rid ws = Some b"
    if "run_state (fst s) rid ws = Some a" "b \<in> set (the (map_of RUN_TRANSITIONS a))" for a b s
    using run_to_allowed [OF that] by blast
  have third: "\<exists>t. run_to E rid ws Run_RUNNING s = (Inr (), t) \<and> live rid ws t"
    if "run_state (fst s) rid ws = Some Run_PROVISIONING" for s
    using go [OF that, of Run_RUNNING] by (auto simp: RUN_TRANSITIONS_def live_def)
  have second: "\<exists>t. bind_w (run_to E rid ws Run_PROVISIONING s) (\<lambda>_ s. run_to E rid ws Run_RUNNING s) = (Inr (), t) \<and> live rid ws t"
    if "run_state (fst s) rid ws = Some Run_QUEUED" for s
    using go [OF that, of Run_PROVISIONING] third by (fastforce simp: RUN_TRANSITIONS_def)
  have first: "\<exists>t. bind_w (run_to E rid ws Run_QUEUED s) (\<lambda>_ s. bind_w (run_to E rid ws Run_PROVISIONING s)
        (\<lambda>_ s. run_to E rid ws Run_RUNNING s)) = (Inr (), t) \<and> live rid ws t"
    if "run_state (fst s) rid ws = Some Run_DRAFT" for s
    using go [OF that, of Run_QUEUED] second by (fastforce simp: RUN_TRANSITIONS_def)
  show ?thesis
    using assms(1,3) first second third
    by (cases status) (simp_all add: start_def r live_def)
qed

lemma prepare_run_total:
  assumes k: "keys_ok (fst s)" and "get_run (fst s) rid ws = Some r" and "rr_status r \<notin> {Run_COMPLETE, Run_FAILED}"
  shows "\<exists>t. prepare_run E r ws s = (Inr (), t) \<and> live rid ws t"
proof -
  have r: "rr_id r = rid" using assms(2) by (auto simp: get_run_def find_Some_iff)
  obtain status t1 where t1: "resume E r ws s = (Inr status, t1)" "run_state (fst t1) rid ws = Some status"
      "status \<notin> {Run_COMPLETE, Run_FAILED, Run_CANCELLED, Run_INCOMPLETE}" and k1: "keys_ok (fst t1)"
    using resume_total [OF k _ r, of ws E] assms(2,3) by (auto simp: run_state_def)
  obtain t2 where t2: "start E r ws status t1 = (Inr (), t2)" "live rid ws t2"
    using start_total [OF t1(2) r t1(3)] by blast
  have k2: "keys_ok (fst t2)"
    using keeps_keys [OF k1] evidence.start [OF r, of t1 E ws status] t2(1) by simp
  obtain stale t3 where t3: "reconcile_stale E rid ws t2 = (Inr stale, t3)" "distinct stale"
      "\<forall>cid \<in> set stale. case_state (fst t3) rid cid ws = Some Case_CANCELLED"
    using reconcile_stale_total [OF k2] by blast
  have k3: "keys_ok (fst t3)"
    using keeps_keys [OF k2] evidence.reconcile_stale [of t2 E rid ws] t3(1) by simp
  define cids where "cids = remdups (stale @ (if status \<in> {Run_RUNNING, Run_AGGREGATING, Run_INCOMPLETE}
      \<or> rr_status r \<in> {Run_CANCELLED, Run_INCOMPLETE} then cases_in Case_FAILED (fst t3) rid ws else []))"
  have "fst (requeue E rid ws cids t3) = Inr ()"
    by (rule requeue_total) (use t3(3) cases_in_unique(2) [OF keys_cases [OF k3]] in \<open>auto simp: cids_def\<close>)
  then obtain t4 where t4: "requeue E rid ws cids t3 = (Inr (), t4)" by (metis prod.collapse)
  have "live rid ws t4"
  proof -
    have "on_tables same_runs t2 (snd (reconcile_stale E rid ws t2))"
      unfolding reconcile_stale_def Let_def by (intro same.steps.bind same.steps.each) simp_all
    moreover have "on_tables same_runs t3 (snd (requeue E rid ws cids t3))"
      unfolding requeue_def by (rule same.steps.each) simp
    ultimately show ?thesis
      using t2(2) t3(1) t4 by (simp add: live_def same_runs_state)
  qed
  moreover have "prepare_run E r ws s = (Inr (), t4)"
    using t1(1) t2(1) t3(1) t4 unfolding prepare_run_def r cids_def by simp
  ultimately show ?thesis by blast
qed

text \<open>C1. A run that may be executed always lands: it is \<open>COMPLETE\<close> or \<open>CANCELLED\<close> when the execution
  returns, as its result says, and \<open>INCOMPLETE\<close> when it raises, whatever raised.\<close>

theorem run_lands:
  assumes "keys_ok (fst s)" and "get_run (fst s) rid ws = Some r" and "rr_status r \<notin> {Run_COMPLETE, Run_FAILED}"
  shows "case run E rid ws s of
      (Inr res, t) \<Rightarrow> rs_status res \<in> {Run_COMPLETE, Run_CANCELLED} \<and> run_state (fst t) rid ws = Some (rs_status res)
    | (Inl e, t) \<Rightarrow> run_state (fst t) rid ws = Some Run_INCOMPLETE"
proof -
  have r: "rr_id r = rid" using assms(2) by (auto simp: get_run_def find_Some_iff)
  obtain t where t: "prepare_run E r ws s = (Inr (), t)" "live rid ws t"
    using prepare_run_total [OF assms] by blast
  have final: "ends (or_incomplete E r ws (finalize E r ws p u))
      (\<lambda>res t. rs_status res \<in> {Run_COMPLETE, Run_CANCELLED} \<and> run_state (fst t) rid ws = Some (rs_status res))
      (\<lambda>t. run_state (fst t) rid ws = Some Run_INCOMPLETE)" if "live rid ws u" for p u
    by (rule ends_mono [OF or_incomplete_live [OF r finalize_live [OF r that]]]) auto
  have "ends (run E rid ws s)
      (\<lambda>res t. rs_status res \<in> {Run_COMPLETE, Run_CANCELLED} \<and> run_state (fst t) rid ws = Some (rs_status res))
      (\<lambda>t. run_state (fst t) rid ws = Some Run_INCOMPLETE)"
    unfolding run_def using assms(2,3) t
    by (simp add: reading_def lift_def)
      (rule ends_bind [OF or_incomplete_live [OF r case_loop_live [OF r t(2)]]], auto intro: final [simplified] split: sum.splits)
  then show ?thesis by (simp only: ends_def)
qed

section \<open>A sample execution\<close>

text \<open>One run with one case and one metric, in any status, and an agent that completes without a trace.\<close>

definition sample_run :: "run_status \<Rightarrow> run_row" where
  "sample_run status =
     \<lparr>rr_id = ''r1'', rr_workspace = ''w1'', rr_project = None,
      rr_spec = sample_spec\<lparr>sp_metrics := [sample_metric A_mean None]\<rparr>,
      rr_agent = \<lparr>av_digest = ''d'', av_entrypoint = [''agent''], av_cwd = None, av_timeout = Fin 60, av_manifest = None\<rparr>,
      rr_status = status, rr_tier = Quick, rr_repeats = 2, rr_retry_max = 1, rr_world = [], rr_judges = [], rr_mixed = False,
      rr_case_count = 1, rr_concurrency = 1, rr_estimate = None, rr_budget = 0, rr_created_by = None, rr_started = None,
      rr_completed = None, rr_created = 0, rr_key = None\<rparr>"

definition sample_tables :: "run_status \<Rightarrow> run_case_status \<Rightarrow> store" where
  "sample_tables status c = empty_tables\<lparr>st_runs := [sample_run status],
     st_cases := [\<lparr>cr_run = ''r1'', cr_case = ''c1'', cr_key = [], cr_workspace = ''w1'', cr_status = c,
                   cr_repeats = 2, cr_class = None, cr_error = None, cr_started = None, cr_completed = None\<rparr>]\<rparr>"

definition sample_engine :: engine where
  "sample_engine =
     \<lparr>en_ext = no_externals, en_now = int, en_fresh = (\<lambda>n. replicate n (CHR ''x'')), en_cancel = (\<lambda>n. False),
      en_process = (\<lambda>n. \<lparr>pr_ending = Exited 0, pr_result = Result (VDict [(''status'', VStr ''completed'')]),
                         pr_trace = No_trace_file\<rparr>),
      en_parse = (\<lambda>l. None), en_target = None, en_event_ids = (\<lambda>n i. []), en_judge = (\<lambda>c b. Inl ValueError), en_custom = [],
      en_dump = (\<lambda>e. VNull), en_readiness = None, en_price = ''p1'', en_tiers = default_tiers, en_case_key = (\<lambda>d. [])\<rparr>"

lemma sample_tables_ok: "keys_ok (sample_tables status c)" "get_run (sample_tables status c) ''r1'' ''w1'' = Some (sample_run status)"
  by (simp_all add: sample_tables_def empty_tables_def keys_ok_def get_run_def sample_run_def)

theorem run_evidence_grows_witness:
  "keys_ok (fst (snd (run sample_engine ''r1'' ''w1'' (sample_tables Run_DRAFT Case_QUEUED, 0))))
   \<and> grows (sample_tables Run_DRAFT Case_QUEUED)
       (fst (snd (run sample_engine ''r1'' ''w1'' (sample_tables Run_DRAFT Case_QUEUED, 0))))"
  using run_evidence_grows [of "(sample_tables Run_DRAFT Case_QUEUED, 0)" sample_engine "''r1''" "''w1''"]
  by (simp add: sample_tables_ok)

text \<open>Resuming a run whose runner died in the middle of a case.\<close>

theorem run_lands_witness:
  "case run sample_engine ''r1'' ''w1'' (sample_tables Run_RUNNING Case_RUNNING, 0) of
      (Inr res, t) \<Rightarrow> rs_status res \<in> {Run_COMPLETE, Run_CANCELLED} \<and> run_state (fst t) ''r1'' ''w1'' = Some (rs_status res)
    | (Inl e, t) \<Rightarrow> run_state (fst t) ''r1'' ''w1'' = Some Run_INCOMPLETE"
  by (rule run_lands) (simp_all add: sample_tables_ok, simp add: sample_run_def)

end
