(* ===== verification/RunSettlement.thy ===== *)
theory RunSettlement
  imports EngineProps
begin

text \<open>
  No case is left behind: a case that has reached a final status keeps it while the others run, the case
  loop settles the cases it passes, and a cancelled run settles the rest.
\<close>

section \<open>No case is left behind\<close>

definition settled :: "string \<Rightarrow> string \<Rightarrow> string \<Rightarrow> store \<Rightarrow> bool" where
  "settled rid ws cid st = (case get_case st rid cid ws of None \<Rightarrow> False | Some c \<Rightarrow> cr_status c \<notin> {Case_QUEUED, Case_RUNNING})"

text \<open>Cases that are settled stay settled.\<close>

definition keeps_settled :: "string \<Rightarrow> string \<Rightarrow> estate \<Rightarrow> estate \<Rightarrow> bool" where
  "keeps_settled rid ws s t = (\<forall>cid. settled rid ws cid (fst s) \<longrightarrow> settled rid ws cid (fst t))"

lemma keeps_settled_refl [simp]: "keeps_settled rid ws s s"
  by (simp add: keeps_settled_def)

lemma keeps_settled_trans: "keeps_settled rid ws s t \<Longrightarrow> keeps_settled rid ws t u \<Longrightarrow> keeps_settled rid ws s u"
  by (simp add: keeps_settled_def)

lemma idle_settled: "on_tables same_cases s t \<Longrightarrow> keeps_settled rid ws s t"
  by (simp add: on_tables_def same_cases_def keeps_settled_def settled_def get_case_def)

lemma same_case_settled: "on_tables (same_case rid cid ws) s t \<Longrightarrow> settled rid ws cid (fst t) = settled rid ws cid (fst s)"
  by (simp add: on_tables_def same_case_def settled_def)

lemma run_to_settled: "keeps_settled rid' ws' s (snd (run_to E rid ws t s))"
proof -
  have "ends (run_to E rid ws t s) (\<lambda>_ u. keeps_settled rid' ws' s u) (keeps_settled rid' ws' s)"
    by (rule ends_mono [OF run_to_ends]) (auto simp: keeps_settled_def settled_def get_case_def)
  then show ?thesis by (cases "run_to E rid ws t s"; cases "fst (run_to E rid ws t s)") auto
qed

lemma case_to_ends:
  "ends (case_to E rid cid ws t s) (\<lambda>_ u. case_state (fst u) rid cid ws = Some t \<and> st_attempts (fst u) = st_attempts (fst s))
    (\<lambda>_. True)"
  unfolding case_to_def
proof (rule ends_tx)
  fix x st'
  assume u: "set_case_status rid cid ws t (en_now E (snd s)) (fst s) = Inr (x, st')"
  then obtain c where c: "find (is_case rid cid ws) (st_cases (fst s)) = Some c"
    by (cases "get_case (fst s) rid cid ws") (auto simp: set_case_status_def get_case_def)
  with u obtain f where "st' = (fst s)\<lparr>st_cases := update_where (is_case rid cid ws) f (st_cases (fst s))\<rparr>"
    and "\<And>c. cr_run (f c) = cr_run c \<and> cr_case (f c) = cr_case c \<and> cr_workspace (f c) = cr_workspace c" "\<And>c. cr_status (f c) = t"
    by (auto simp: set_case_status_def get_case_def bind_res_Inr_iff Let_def run_cases.transition_iff)
  then show "case_state (fst (st', Suc (snd s))) rid cid ws = Some t \<and> st_attempts (fst (st', Suc (snd s))) = st_attempts (fst s)"
    using find_update_found [OF c, of f] by (auto simp: case_state_def get_case_def is_case_def)
qed simp

lemma case_to_settles:
  assumes "t \<in> {Case_COMPLETED, Case_FAILED, Case_CANCELLED, Case_SKIPPED}"
  shows "ends (case_to E rid cid ws t s) (\<lambda>_ u. settled rid ws cid (fst u)) (\<lambda>_. True)"
  by (rule ends_mono [OF case_to_ends])
    (use assms in \<open>auto simp: case_state_def settled_def split: option.splits\<close>)

text \<open>A call on the case \<open>cid\<close> that settles it, and leaves the other cases alone.\<close>

lemma settles_own:
  assumes "\<And>c. c \<noteq> cid \<Longrightarrow> on_tables (same_case rid c ws) s (snd m)"
    and "ends m (\<lambda>_ u. settled rid ws cid (fst u)) (\<lambda>_. True)"
  shows "ends m (\<lambda>_ u. settled rid ws cid (fst u) \<and> keeps_settled rid ws s u) (\<lambda>_. True)"
proof -
  have "\<not> settled rid ws c (fst s) \<or> settled rid ws c (fst (snd m))" if "c \<noteq> cid" for c
    using same_case_settled [OF assms(1) [OF that]] by simp
  then show ?thesis
    using assms(2) by (cases m; cases "fst m") (auto simp: keeps_settled_def; metis)+
qed

lemma land_case_settles:
  assumes "rr_id r = rid"
  shows "ends (land_case E r cid ws xs ys w s) (\<lambda>_ u. settled rid ws cid (fst u)) (\<lambda>_. True)"
proof (cases "list_ex is_cancelled xs")
  case True
  then show ?thesis
    unfolding land_case_def assms by (simp, intro ends_bind [OF case_to_settles]) simp_all
next
  case False
  show ?thesis
    unfolding land_case_def assms Let_def using False
    apply (simp only: if_False split: prod.split, intro allI impI)
    apply (rule ends_bind [OF ends_any [of "\<lambda>_. True"]], simp)
    apply (rule ends_bind [OF case_to_settles], simp)
    apply (auto simp: reading_def bind_w_def split: sum.splits)
    done
qed

lemma run_case_inner_settles:
  assumes r: "rr_id r = rid"
  shows "ends (run_case_inner E r cid ws s) (\<lambda>_ u. settled rid ws cid (fst u) \<and> keeps_settled rid ws s u) (\<lambda>_. True)"
proof (rule settles_own)
  show "ends (run_case_inner E r cid ws s) (\<lambda>_ u. settled rid ws cid (fst u)) (\<lambda>_. True)"
    unfolding run_case_inner_def
    by (intro ends_bind [OF ends_any [of "\<lambda>_. True"]] land_case_settles r) simp_all
qed (simp add: others.run_case_inner r)

lemma cancel_unrun_settles:
  assumes r: "rr_id r = rid"
  shows "ends (cancel_unrun E r ws c s) (\<lambda>_ u. settled rid ws (tc_case_id c) (fst u) \<and> keeps_settled rid ws s u) (\<lambda>_. True)"
proof (rule settles_own)
  show "ends (cancel_unrun E r ws c s) (\<lambda>_ u. settled rid ws (tc_case_id c) (fst u)) (\<lambda>_. True)"
    unfolding cancel_unrun_def r
    by (cases "get_case (fst s) rid (tc_case_id c) ws")
      (auto simp: require_case_def reading_def settled_def [of _ _ _ "fst s"] finished_case_def intro!: case_to_settles)
qed (simp add: others.cancel_unrun r)

lemma all_settle:
  assumes "\<And>x t. ends (f x t) (\<lambda>_ u. settled rid ws (g x) (fst u) \<and> keeps_settled rid ws t u) (\<lambda>_. True)"
  shows "ends (each_w f xs s) (\<lambda>_ u. (\<forall>x \<in> set xs. settled rid ws (g x) (fst u)) \<and> keeps_settled rid ws s u) (\<lambda>_. True)"
proof (induction xs arbitrary: s)
  case (Cons x xs)
  show ?case unfolding each_w.simps
  proof (rule ends_bind [OF assms])
    fix y t assume t: "settled rid ws (g x) (fst t) \<and> keeps_settled rid ws s t"
    show "ends (each_w f xs t) (\<lambda>_ u. (\<forall>x \<in> set (x # xs). settled rid ws (g x) (fst u)) \<and> keeps_settled rid ws s u) (\<lambda>_. True)"
      by (rule ends_mono [OF Cons.IH]) (use t in \<open>auto simp: keeps_settled_def\<close>)
  qed
qed simp

definition all_settled :: "run_row \<Rightarrow> string \<Rightarrow> store \<Rightarrow> bool" where
  "all_settled r ws st = list_all (\<lambda>c. settled (rr_id r) ws (tc_case_id c) st) (sp_cases (rr_spec r))"

lemma all_settled_keeps: "all_settled r ws (fst s) \<Longrightarrow> keeps_settled (rr_id r) ws s t \<Longrightarrow> all_settled r ws (fst t)"
  by (auto simp: all_settled_def keeps_settled_def list_all_iff)

lemma keeps_ends:
  assumes "all_settled r ws (fst s)" and "keeps_settled (rr_id r) ws s (snd m)"
  shows "ends m (\<lambda>_ u. all_settled r ws (fst u)) (\<lambda>_. True)"
  using all_settled_keeps [OF assms] by (cases m; cases "fst m") auto

lemma cancel_all_settles:
  "ends (each_w (cancel_unrun E r ws) (sp_cases (rr_spec r)) s) (\<lambda>_ u. all_settled r ws (fst u)) (\<lambda>_. True)"
  by (rule ends_mono [OF all_settle [OF cancel_unrun_settles [OF refl]]]) (auto simp: all_settled_def list_all_iff)

lemma cancel_run_settles: "ends (cancel_run E r ws p s) (\<lambda>_ u. all_settled r ws (fst u)) (\<lambda>_. True)"
  unfolding cancel_run_def
  apply (rule ends_bind [OF cancel_all_settles])
  apply (erule ends_bind [OF keeps_ends])
   apply (rule idle_settled, simp add: idle.write_partials)
  apply (erule ends_bind [OF keeps_ends], rule run_to_settled)
  apply simp
  done

lemma finalize_settles:
  assumes "all_settled r ws (fst s)"
  shows "ends (finalize E r ws p s) (\<lambda>_ u. all_settled r ws (fst u)) (\<lambda>_. True)"
proof -
  have to: "keeps_settled (rr_id r) ws t (snd (if cur = Run_RUNNING then run_to E (rr_id r) ws Run_AGGREGATING t else (Inr (), t)))"
    for cur t by (simp add: run_to_settled)
  show ?thesis
    unfolding finalize_def
    apply (rule ends_bind [OF keeps_ends [OF assms]])
     apply (rule idle_settled, rule idle.steps.map, simp)
    apply (erule ends_bind [OF keeps_ends], rule idle_settled, simp)
    apply (erule ends_bind [OF keeps_ends], rule to)
    apply (erule ends_bind [OF keeps_ends], rule idle_settled, rule idle.steps.map, simp add: idle.write_aggregate)
    apply (erule ends_bind [OF keeps_ends], rule idle_settled, simp add: idle.write_cost_summaries)
    apply (erule ends_bind [OF keeps_ends], rule run_to_settled)
    apply simp
    done
qed

text \<open>The loop settles the cases it has passed.\<close>

lemma case_loop_settles:
  assumes "list_all (\<lambda>c. settled (rr_id r) ws (tc_case_id c) (fst s)) bs"
  shows "ends (case_loop E r ws cs p s)
    (\<lambda>out u. case out of
        Inl res \<Rightarrow> all_settled r ws (fst u)
      | Inr p \<Rightarrow> list_all (\<lambda>c. settled (rr_id r) ws (tc_case_id c) (fst u)) (bs @ cs)) (\<lambda>_. True)"
  using assms
proof (induction cs arbitrary: bs p s)
  case (Cons c cs)
  define Q :: "run_result + progress \<Rightarrow> estate \<Rightarrow> bool" where "Q = (\<lambda>out u. case out of
        Inl res \<Rightarrow> all_settled r ws (fst u)
      | Inr p \<Rightarrow> list_all (\<lambda>c. settled (rr_id r) ws (tc_case_id c) (fst u)) (bs @ c # cs))"
  have stop: "ends (bind_w (cancel_run E r ws p t) (\<lambda>res s. (Inr (Inl res), s))) Q (\<lambda>_. True)" for p t
    by (rule ends_bind [OF cancel_run_settles]) (simp add: Q_def)
  have on: "ends (case_loop E r ws cs p t) Q (\<lambda>_. True)"
    if "settled (rr_id r) ws (tc_case_id c) (fst t)" "keeps_settled (rr_id r) ws s t" for p t
  proof -
    have "list_all (\<lambda>c. settled (rr_id r) ws (tc_case_id c) (fst t)) (bs @ [c])"
      using that Cons.prems by (auto simp: keeps_settled_def list_all_iff)
    from Cons.IH [OF this] show ?thesis by (simp only: Q_def append_assoc append_Cons append_Nil)
  qed
  have work: "ends (bind_w (run_case_inner E r (tc_case_id c) ws t) (\<lambda>x s.
      bind_w (write_partials E r ws True (pg_scores (record_case x p)) s) (\<lambda>_ s.
        if list_ex is_cancelled (ca_repeats x) then bind_w (cancel_run E r ws (record_case x p) s) (\<lambda>r s. (Inr (Inl r), s))
        else case_loop E r ws cs (record_case x p) s))) Q (\<lambda>_. True)" if t: "keeps_settled (rr_id r) ws s t" for t
  proof (rule ends_bind [OF run_case_inner_settles [OF refl]])
    fix x u
    assume u: "settled (rr_id r) ws (tc_case_id c) (fst u) \<and> keeps_settled (rr_id r) ws t u"
    have "keeps_settled (rr_id r) ws u (snd (write_partials E r ws True (pg_scores (record_case x p)) u))"
      by (rule idle_settled) (simp add: idle.write_partials)
    then have "ends (write_partials E r ws True (pg_scores (record_case x p)) u) (\<lambda>_. keeps_settled (rr_id r) ws u) (\<lambda>_. True)"
      by (rule ends_mono [OF ends_any]) simp_all
    then show "ends (bind_w (write_partials E r ws True (pg_scores (record_case x p)) u) (\<lambda>_ s.
        if list_ex is_cancelled (ca_repeats x) then bind_w (cancel_run E r ws (record_case x p) s) (\<lambda>r s. (Inr (Inl r), s))
        else case_loop E r ws cs (record_case x p) s)) Q (\<lambda>_. True)"
    proof (rule ends_bind)
      fix y v assume v: "keeps_settled (rr_id r) ws u v"
      have "settled (rr_id r) ws (tc_case_id c) (fst v)" "keeps_settled (rr_id r) ws s v"
        using u v t keeps_settled_trans by (auto simp: keeps_settled_def)
      then show "ends (if list_ex is_cancelled (ca_repeats x)
          then bind_w (cancel_run E r ws (record_case x p) v) (\<lambda>r s. (Inr (Inl r), s))
          else case_loop E r ws cs (record_case x p) v) Q (\<lambda>_. True)"
        by (simp add: stop on)
    qed
  qed
  have "ends (case_loop E r ws (c # cs) p s) Q (\<lambda>_. True)"
  proof (cases "get_case (fst s) (rr_id r) (tc_case_id c) ws")
    case None
    then show ?thesis using stop by (simp add: poll_cancel_def require_case_def reading_def)
  next
    case (Some row)
    have *: "keeps_settled (rr_id r) ws s (fst s, n)" for n
      by (simp add: keeps_settled_def)
    show ?thesis
      using Some stop on [OF _ *] work [OF *]
      by (auto simp: poll_cancel_def require_case_def reading_def settled_def finished_case_def)
  qed
  then show ?case by (simp add: Q_def)
qed simp

lemma or_incomplete_ends:
  assumes "ends m Q (\<lambda>_. True)"
  shows "ends (or_incomplete E r ws m) Q (\<lambda>_. True)"
proof (cases m rule: prod.exhaust)
  case (Pair out t)
  have "ends (bind_w (run_to E (rr_id r) ws Run_INCOMPLETE t) (\<lambda>_ s. (Inl e, s))) Q (\<lambda>_. True)" for e
    by (rule ends_bind [OF ends_any [of "\<lambda>_. True"]]) simp_all
  then show ?thesis using assms Pair by (cases out) (simp_all add: or_incomplete_def)
qed

text \<open>C3. When an execution returns, completed or cancelled, no case of its specification is queued or running.\<close>

theorem returned_run_settled:
  "case run E rid ws s of
      (Inr res, t) \<Rightarrow> (case get_run (fst s) rid ws of None \<Rightarrow> False | Some r \<Rightarrow>
        list_all (\<lambda>c. settled rid ws (tc_case_id c) (fst t)) (sp_cases (rr_spec r)))
    | (Inl e, t) \<Rightarrow> True"
proof (cases "get_run (fst s) rid ws")
  case None
  then show ?thesis by (simp add: run_def reading_def)
next
  case (Some r)
  then have r: "rr_id r = rid" by (auto simp: get_run_def find_Some_iff)
  have "ends (run E rid ws s) (\<lambda>_ t. all_settled r ws (fst t)) (\<lambda>_. True)"
    unfolding run_def reading_def Some option.case bind_w_simps
    apply (rule ends_bind [OF ends_any [of "\<lambda>_. True"]], simp)
    apply (rule ends_bind [OF ends_any [of "\<lambda>_. True"]], simp)
    apply (rule ends_bind [OF or_incomplete_ends [OF case_loop_settles [of r ws _ "[]"]]], simp)
    apply (auto simp: all_settled_def intro!: or_incomplete_ends finalize_settles [unfolded all_settled_def] split: sum.splits)
    done
  then show ?thesis by (simp only: ends_def all_settled_def Some option.case r)
qed

end
