(* ===== verification/CaseProps.thy ===== *)
theory CaseProps
  imports RunSettlement
begin

text \<open>
  What one case, one ingestion and one smoke test give: the repeats and retries of a case and its
  classification, the evidence an attempt may store, the gates in front of a run.
\<close>

section \<open>Repeats, retries and the classification of a case\<close>

lemma ends_map:
  assumes "\<And>x t. x \<in> set xs \<Longrightarrow> ends (f x t) (\<lambda>y _. Q x y) (\<lambda>_. True)"
  shows "ends (map_w f xs s) (\<lambda>ys _. list_all2 Q xs ys) (\<lambda>_. True)"
  using assms
proof (induction xs arbitrary: s)
  case (Cons x xs)
  have "ends (map_w f xs t) (\<lambda>ys _. list_all2 Q xs ys) (\<lambda>_. True)" for t
    by (rule Cons.IH) (simp add: Cons.prems)
  then show ?case unfolding map_w.simps
    by (intro ends_bind [OF Cons.prems] ends_bind [of "map_w f xs _"]) auto
qed simp

text \<open>The numbers of an attempt.\<close>

definition numbered :: "int \<Rightarrow> int \<Rightarrow> attempt_result \<Rightarrow> bool" where
  "numbered rep att x = (at_repeat x = rep \<and> at_attempt x = att)"

lemma numbered_of [simp]: "numbered (ar_repeat a) (ar_attempt a) (attempt_result_of a status ec n truncated scores out)"
  by (simp add: numbered_def attempt_result_of_def)

lemma ingest_or_error_numbered:
  "ends (ingest_or_error E r ws a i es s)
    (\<lambda>k _. case k of Inl x \<Rightarrow> numbered (ar_repeat a) (ar_attempt a) x | Inr k \<Rightarrow> True) (\<lambda>_. True)"
proof (cases "ingest_events E r (ar_case a) (ar_id a) es s" rule: prod.exhaust)
  case (Pair out t)
  show ?thesis
    unfolding ingest_or_error_def Pair
    by (cases out) (auto intro!: ends_bind [OF ends_any [of "\<lambda>_. True"]])
qed

lemma land_attempt_numbered:
  "ends (land_attempt E r ws a i s) (\<lambda>(x, w) _. numbered (ar_repeat a) (ar_attempt a) x) (\<lambda>_. True)"
proof -
  have done1: "ends (land_failed_attempt E r ws a i t) (\<lambda>x _. numbered (ar_repeat a) (ar_attempt a) x) (\<lambda>_. True)" for t
    unfolding land_failed_attempt_def
    apply (rule ends_bind [of _ "\<lambda>k _. case k of Inl x \<Rightarrow> numbered (ar_repeat a) (ar_attempt a) x | Inr k \<Rightarrow> True"])
     apply (simp add: ingest_or_error_numbered)
    apply (auto split: sum.splits intro!: ends_bind [OF ends_any [of "\<lambda>_. True"]])
    done
  have done2: "ends (score_completed E r ws a i kept truncated t) (\<lambda>x _. numbered (ar_repeat a) (ar_attempt a) x) (\<lambda>_. True)" for kept truncated t
    unfolding score_completed_def
    by (intro ends_bind [OF ends_any [of "\<lambda>_. True"]]) simp_all
  show ?thesis
    unfolding land_attempt_def
    by (auto intro!: ends_bind [OF done1] ends_bind [OF done2] ends_bind [OF ingest_or_error_numbered] split: sum.splits)
qed

lemma run_attempt_numbered:
  "ends (run_attempt E r cid ws rep att s) (\<lambda>(x, w) _. numbered rep att x) (\<lambda>_. True)"
  unfolding run_attempt_def
proof (rule ends_bind [of _ "\<lambda>(a :: attempt_row) _. ar_repeat a = rep \<and> ar_attempt a = att"])
  show "ends (tx (\<lambda>n. create_attempt (en_fresh E n) (rr_id r) cid ws rep att) s)
      (\<lambda>a _. ar_repeat a = rep \<and> ar_attempt a = att) (\<lambda>_. True)"
    by (rule ends_tx) (auto simp: create_attempt_def Let_def split: if_splits)
  fix a :: attempt_row and t assume a: "ar_repeat a = rep \<and> ar_attempt a = att"
  have "ends (case invoke E r ws a u of
        (Inr i, s) \<Rightarrow> land_attempt E r ws a i s
      | (Inl e, s) \<Rightarrow> bind_w (attempt_to E (ar_id a) ws Attempt_ERRORED no_facts s) (\<lambda>_ s. (Inl e, s)))
      (\<lambda>(x, w) _. numbered rep att x) (\<lambda>_. True)" for u
  proof (cases "invoke E r ws a u" rule: prod.exhaust)
    case (Pair out v)
    show ?thesis
      unfolding Pair using land_attempt_numbered [of E r ws a _ v] a
      by (cases out) (auto intro!: ends_bind [OF ends_any [of "\<lambda>_. True"]])
  qed
  then show "ends (bind_w (attempt_to E (ar_id a) ws Attempt_RUNNING no_facts t) (\<lambda>_ s.
       case invoke E r ws a s of
         (Inr i, s) \<Rightarrow> land_attempt E r ws a i s
       | (Inl e, s) \<Rightarrow> bind_w (attempt_to E (ar_id a) ws Attempt_ERRORED no_facts s) (\<lambda>_ s. (Inl e, s))))
      (\<lambda>(x, w) _. numbered rep att x) (\<lambda>_. True)"
    by (intro ends_bind [OF ends_any [of "\<lambda>_. True"]]) simp_all
qed

lemma retry_loop_numbered:
  "ends (retry_loop E r cid ws rep ks s)
    (\<lambda>(xs, w) _. list_all (\<lambda>x. at_repeat x = rep \<and> at_attempt x \<in> set ks) xs) (\<lambda>_. True)"
proof (induction ks arbitrary: s)
  case (Cons k ks)
  have tail: "ends (bind_w (retry_loop E r cid ws rep ks t) (\<lambda>(xs, w') s. (Inr (x # xs, w @ w'), s)))
      (\<lambda>(xs, w) _. list_all (\<lambda>x. at_repeat x = rep \<and> at_attempt x \<in> set (k # ks)) xs) (\<lambda>_. True)"
    if "numbered rep k x" for x w t
    by (rule ends_bind [OF Cons]) (use that in \<open>auto simp: numbered_def list_all_iff\<close>)
  show ?case unfolding retry_loop.simps
    by (rule ends_bind [OF run_attempt_numbered], clarsimp simp del: retry_loop.simps split del: if_split)
      (use tail in \<open>auto simp: numbered_def\<close>)
qed simp

text \<open>One repeat: its first attempt, and retries only when a metric of the first attempt failed.\<close>

definition repeat_ok :: "run_row \<Rightarrow> int \<Rightarrow> attempt_result \<times> attempt_result list \<times> notices \<Rightarrow> bool" where
  "repeat_ok r rep out =
     (case out of (x, ys, w) \<Rightarrow>
        numbered rep 0 x
        \<and> list_all (\<lambda>y. any_fail x \<and> at_repeat y = rep \<and> 1 \<le> at_attempt y \<and> at_attempt y \<le> rr_retry_max r) ys)"

lemma run_repeat_ok: "ends (run_repeat E r cid ws rep s) (\<lambda>out _. repeat_ok r rep out) (\<lambda>_. True)"
proof -
  have tail: "ends (bind_w (retry_loop E r cid ws rep [1..rr_retry_max r] t) (\<lambda>(xs, w') s. (Inr (x, xs, w @ w'), s)))
      (\<lambda>out _. repeat_ok r rep out) (\<lambda>_. True)" if "numbered rep 0 x" "any_fail x" for x w t
    by (rule ends_bind [OF retry_loop_numbered]) (use that in \<open>auto simp: repeat_ok_def list_all_iff\<close>)
  show ?thesis
    unfolding run_repeat_def
    by (rule ends_bind [OF run_attempt_numbered], clarsimp split del: if_split)
      (use tail in \<open>auto simp: repeat_ok_def [of r rep "(_, [], _)"]\<close>)
qed

lemma classify_retries: "list_all (\<lambda>y. at_attempt y \<noteq> 0) ys \<Longrightarrow> classify_case (xs @ ys) = classify_case xs"
  by (simp add: classify_case_def filter_False list_all_iff)

text \<open>What a case lands as, from its repeats.\<close>

definition landed_status :: "attempt_result list \<Rightarrow> run_case_status" where
  "landed_status xs =
     (if list_ex is_cancelled xs then Case_CANCELLED
      else if list_ex (\<lambda>y. at_status y = Attempt_COMPLETED) xs then Case_COMPLETED else Case_FAILED)"

lemma land_case_ends:
  "ends (land_case E r cid ws xs ys w s)
    (\<lambda>x u. ca_repeats x = xs \<and> ca_retries x = ys
      \<and> ca_class x = (if list_ex is_cancelled xs then None else fst (classify_case xs))
      \<and> ca_status x = landed_status xs \<and> case_state (fst u) (rr_id r) cid ws = Some (landed_status xs)) (\<lambda>_. True)"
proof (cases "list_ex is_cancelled xs")
  case True
  then show ?thesis
    unfolding land_case_def
    by (simp, intro ends_bind [OF case_to_ends]) (simp_all add: landed_status_def)
next
  case False
  have status: "(case get_case st rid cid ws of None \<Rightarrow> Inl AttributeError | Some c \<Rightarrow> Inr (cr_status c)) = Inr t"
    if "case_state st rid cid ws = Some t" for st rid t
    using that by (auto simp: case_state_def)
  show ?thesis
    unfolding land_case_def Let_def using False
    apply (simp only: if_False split: prod.split, intro allI impI)
    apply (rule ends_bind [OF ends_any [of "\<lambda>_. True"]], simp)
    apply (rule ends_bind [OF case_to_ends])
    apply (simp only: reading_def status bind_w_simps ends_simps)
    apply (simp add: landed_status_def)
    done
qed

lemma repeats_account:
  assumes "list_all2 (\<lambda>i out. repeat_ok r (base + i) out) ks outs"
  shows "map at_repeat (map fst outs) = map ((+) base) ks"
    and "list_all (\<lambda>y. at_attempt y = 0) (map fst outs)"
    and "list_all (\<lambda>y. 1 \<le> at_attempt y \<and> at_attempt y \<le> rr_retry_max r
           \<and> list_ex (\<lambda>z. at_repeat z = at_repeat y \<and> any_fail z) (map fst outs)) (concat (map (fst \<circ> snd) outs))"
  using assms
  by (induction rule: list_all2_induct) (auto simp: repeat_ok_def numbered_def list_all_iff)

text \<open>C5. When a case returns: its repeats are numbered consecutively from the first free number, one first
  attempt each; a retry belongs to a repeat whose first attempt failed a metric, and is numbered within the
  allowed retries; the classification is that of all its attempts, of which only the first ones count; and
  its status says whether it was cancelled or an attempt of it completed.\<close>

theorem case_outcome_accounts:
  "case run_case_inner E r cid ws s of
      (Inr x, t) \<Rightarrow>
        map at_repeat (ca_repeats x) = map ((+) (repeat_offset (fst s) (rr_id r) cid ws)) [0..rr_repeats r - 1]
        \<and> list_all (\<lambda>y. at_attempt y = 0) (ca_repeats x)
        \<and> list_all (\<lambda>y. 1 \<le> at_attempt y \<and> at_attempt y \<le> rr_retry_max r
              \<and> list_ex (\<lambda>z. at_repeat z = at_repeat y \<and> any_fail z) (ca_repeats x)) (ca_retries x)
        \<and> ca_class x = (if list_ex is_cancelled (ca_repeats x) then None else fst (classify_case (ca_repeats x @ ca_retries x)))
        \<and> ca_status x = (if list_ex is_cancelled (ca_repeats x) then Case_CANCELLED
              else if list_ex (\<lambda>y. at_status y = Attempt_COMPLETED) (ca_repeats x) then Case_COMPLETED else Case_FAILED)
        \<and> case_state (fst t) (rr_id r) cid ws = Some (ca_status x)
    | (Inl e, t) \<Rightarrow> True"
proof -
  define base where "base = repeat_offset (fst s) (rr_id r) cid ws"
  have offset: "repeat_offset (fst t) (rr_id r) cid ws = base" if "st_attempts (fst t) = st_attempts (fst s)" for t :: estate
    using that by (simp add: base_def repeat_offset_def list_attempts_def)
  have "ends (run_case_inner E r cid ws s) (\<lambda>x u. \<exists>outs. list_all2 (\<lambda>i out. repeat_ok r (base + i) out) [0..rr_repeats r - 1] outs
        \<and> ca_repeats x = map fst outs \<and> ca_retries x = concat (map (fst \<circ> snd) outs)
        \<and> ca_class x = (if list_ex is_cancelled (map fst outs) then None else fst (classify_case (map fst outs)))
        \<and> ca_status x = landed_status (map fst outs)
        \<and> case_state (fst u) (rr_id r) cid ws = Some (landed_status (map fst outs))) (\<lambda>_. True)"
    unfolding run_case_inner_def
    apply (rule ends_bind [of "lift (spec_case r cid) s" "\<lambda>_ t. t = s"], simp add: lift_def ends_def split: sum.split)
    apply (rule ends_bind [OF case_to_ends], simp only: offset)
    apply (rule ends_bind [OF ends_map [OF run_repeat_ok]])
    apply (rule ends_mono [OF land_case_ends], blast, simp)
    done
  then show ?thesis
  proof (cases "run_case_inner E r cid ws s" rule: prod.exhaust)
    case (Pair out u)
    assume e: "ends (run_case_inner E r cid ws s) (\<lambda>x u. \<exists>outs. list_all2 (\<lambda>i out. repeat_ok r (base + i) out) [0..rr_repeats r - 1] outs
        \<and> ca_repeats x = map fst outs \<and> ca_retries x = concat (map (fst \<circ> snd) outs)
        \<and> ca_class x = (if list_ex is_cancelled (map fst outs) then None else fst (classify_case (map fst outs)))
        \<and> ca_status x = landed_status (map fst outs)
        \<and> case_state (fst u) (rr_id r) cid ws = Some (landed_status (map fst outs))) (\<lambda>_. True)"
    show ?thesis
    proof (cases out)
      case (Inr x)
      obtain outs where a: "list_all2 (\<lambda>i out. repeat_ok r (base + i) out) [0..rr_repeats r - 1] outs"
        and xs: "ca_repeats x = map fst outs" and ys: "ca_retries x = concat (map (fst \<circ> snd) outs)"
        and lands: "ca_class x = (if list_ex is_cancelled (ca_repeats x) then None else fst (classify_case (ca_repeats x)))"
          "ca_status x = landed_status (ca_repeats x)" "case_state (fst u) (rr_id r) cid ws = Some (ca_status x)"
        using e Pair Inr by auto
      note acc = repeats_account [OF a, folded xs ys]
      have "classify_case (ca_repeats x @ ca_retries x) = classify_case (ca_repeats x)"
        by (rule classify_retries) (use acc(3) in \<open>auto simp: list_all_iff\<close>)
      then show ?thesis
        unfolding Pair Inr using acc lands by (simp add: landed_status_def base_def)
    qed (simp add: Pair)
  qed
qed

section \<open>What an attempt may store\<close>

lemma insert_grows: "set rows \<subseteq> set (insert_or_ignore key n rows)"
  by (simp add: insert_or_ignore_def subset_iff)

lemma insert_all_grow: "set rows \<subseteq> set (fold (insert_or_ignore key) new rows)"
proof (induction new arbitrary: rows)
  case (Cons n new)
  show ?case using subset_trans [OF insert_grows Cons] by simp
qed simp

lemma insert_all_from: "set (fold (insert_or_ignore key) new rows) \<subseteq> set rows \<union> set new"
proof (induction new arbitrary: rows)
  case (Cons n new)
  have "set (insert_or_ignore key n rows) \<subseteq> set rows \<union> {n}" by (auto simp: insert_or_ignore_def)
  then show ?case using Cons [of "insert_or_ignore key n rows"] by auto
qed simp

lemma insert_all_keys: "x \<in> set new \<Longrightarrow> \<exists>y \<in> set (fold (insert_or_ignore key) new rows). key y = key x"
proof (induction new arbitrary: rows)
  case (Cons n new)
  have "\<exists>y. y \<in> set (insert_or_ignore key n rows) \<and> key y = key n"
  proof (cases "list_ex (\<lambda>r. key r = key n) rows")
    case True
    then have "insert_or_ignore key n rows = rows" unfolding insert_or_ignore_def by (rule if_P)
    then show ?thesis using True [unfolded list_ex_iff] by (simp only: Bex_def)
  next
    case False
    then have "insert_or_ignore key n rows = rows @ [n]" unfolding insert_or_ignore_def by (rule if_not_P)
    then show ?thesis by (intro exI [of _ n]) simp_all
  qed
  then obtain y where y: "y \<in> set (insert_or_ignore key n rows)" "key y = key n" by (elim exE conjE)
  have n: "\<exists>y \<in> set (fold (insert_or_ignore key) new (insert_or_ignore key n rows)). key y = key n"
    by (rule bexI [of _ y], rule y(2), rule subsetD [OF insert_all_grow y(1)])
  show ?case
  proof (cases "x = n")
    case False
    then have "x \<in> set new" using Cons.prems by simp
    from Cons.IH [OF this] show ?thesis unfolding fold_simps by this
  next
    case True
    with n show ?thesis unfolding fold_simps by (simp only:)
  qed
qed simp

lemma insert_trace_events_Inr:
  assumes "insert_trace_events X es st = Inr (u, st')"
  shows "list_all (\<lambda>e. list_ex (\<lambda>f. run_id f = run_id e \<and> event_id f = event_id e) (st_events st')) es"
    and "list_all (\<lambda>f. f \<in> set (st_events st) \<or> list_ex (\<lambda>e. event_row X e = Inr f) es) (st_events st')"
proof -
  have *: "list_all (\<lambda>e. list_ex (\<lambda>f. run_id f = run_id e \<and> event_id f = event_id e) (st_events st')) es
      \<and> list_all (\<lambda>f. f \<in> set (st_events st) \<or> list_ex (\<lambda>e. event_row X e = Inr f) es) (st_events st')"
  proof (cases es)
    case (Cons e es')
    define key :: "trace_event \<Rightarrow> string \<times> string" where "key = (\<lambda>r. (run_id r, event_id r))"
    obtain rows where rows: "traverse (event_row X) es = Inr rows"
      and st': "st_events st' = fold (insert_or_ignore key) rows (st_events st)"
      using assms Cons by (auto simp: insert_trace_events_def bind_res_Inr_iff key_def split: if_splits)
    have "\<exists>f \<in> set (st_events st'). run_id f = run_id e \<and> event_id f = event_id e" if e: "e \<in> set es" for e
    proof -
      obtain i where "i < length es" "es ! i = e" using e by (auto simp: in_set_conv_nth)
      then have r: "rows ! i \<in> set rows" "event_row X e = Inr (rows ! i)"
        using rows by (auto simp: traverse_Inr_iff list_all2_conv_all_nth)
      then show ?thesis
        using insert_all_keys [OF r(1), of key "st_events st", folded st'] event_row_identity(1,2) [OF r(2)]
        unfolding key_def by (metis prod.inject)
    qed
    moreover have "f \<in> set (st_events st) \<or> (\<exists>e \<in> set es. event_row X e = Inr f)" if "f \<in> set (st_events st')" for f
      using that insert_all_from [of key rows "st_events st", folded st'] traverse_set [OF rows, of f] by auto
    ultimately show ?thesis by (simp add: list_all_iff list_ex_iff)
  qed (use assms in \<open>simp add: insert_trace_events_def list_all_iff\<close>)
  show "list_all (\<lambda>e. list_ex (\<lambda>f. run_id f = run_id e \<and> event_id f = event_id e) (st_events st')) es"
    and "list_all (\<lambda>f. f \<in> set (st_events st) \<or> list_ex (\<lambda>e. event_row X e = Inr f) es) (st_events st')"
    using * by simp_all
qed


section \<open>The gates in front of a run\<close>

lemma bind_lift: "bind_w (lift m s) f = (case m of Inl e \<Rightarrow> (Inl e, s) | Inr x \<Rightarrow> f x s)"
  by (simp add: lift_def split: sum.split)

lemma bind_reading: "bind_w (reading g s) f = (case g (fst s) of Inl e \<Rightarrow> (Inl e, s) | Inr x \<Rightarrow> f x s)"
  by (simp add: reading_def split: sum.split)

lemma ends_lift:
  assumes "\<And>x. m = Inr x \<Longrightarrow> ends (f x s) Q R" and "R s"
  shows "ends (bind_w (lift m s) f) Q R"
  using assms by (simp add: bind_lift split: sum.split)

lemma ends_reading:
  assumes "\<And>x. g (fst s) = Inr x \<Longrightarrow> ends (f x s) Q R" and "R s"
  shows "ends (bind_w (reading g s) f) Q R"
  using assms by (simp add: bind_reading split: sum.split)

text \<open>An entry point comes from an evaluable project of the workspace, or with the request.\<close>

definition entrypoint_from :: "run_request \<Rightarrow> string \<Rightarrow> store \<Rightarrow> string list \<Rightarrow> bool" where
  "entrypoint_from q ws st entry =
     (entry \<noteq> []
      \<and> (case rq_project q of
           None \<Rightarrow> entry = rq_entrypoint q
         | Some pid \<Rightarrow>
             (case get_project st pid ws of
                None \<Rightarrow> False
              | Some p \<Rightarrow> pj_state p = Smoke_EVALUABLE \<and> entry = pj_entrypoint p)))"

lemma resolve_entrypoint_Inr: "resolve_entrypoint q ws st = Inr entry \<Longrightarrow> entrypoint_from q ws st entry"
  by (auto simp: resolve_entrypoint_def entrypoint_from_def bind_res_Inr_iff ensure_Inr_iff split: option.splits)

lemma insert_cases_rows:
  assumes "insert_cases key rid ws cs n st = Inr (u, st')"
  shows "list_all (\<lambda>c. list_ex (\<lambda>r. cr_run r = rid \<and> cr_case r = tc_case_id c) (st_cases st')) cs"
    and "st_runs st' = st_runs st"
proof -
  define new where "new = map (\<lambda>c. \<lparr>cr_run = rid, cr_case = tc_case_id c, cr_key = key (tc_input c), cr_workspace = ws,
        cr_status = Case_QUEUED, cr_repeats = n, cr_class = None, cr_error = None, cr_started = None, cr_completed = None\<rparr>) cs"
  have st': "st_cases st' = fold (insert_or_ignore (\<lambda>r. (cr_run r, cr_case r))) new (st_cases st)"
    using assms by (auto simp: insert_cases_def new_def fold_map comp_def)
  show "list_all (\<lambda>c. list_ex (\<lambda>r. cr_run r = rid \<and> cr_case r = tc_case_id c) (st_cases st')) cs"
    unfolding list_all_iff list_ex_iff
  proof
    fix c assume "c \<in> set cs"
    then have "\<exists>x \<in> set new. cr_run x = rid \<and> cr_case x = tc_case_id c" unfolding new_def by force
    then obtain x where "x \<in> set new" "cr_run x = rid" "cr_case x = tc_case_id c" by blast
    then show "\<exists>r \<in> set (st_cases st'). cr_run r = rid \<and> cr_case r = tc_case_id c"
      using insert_all_keys [of x new "\<lambda>r. (cr_run r, cr_case r)" "st_cases st", folded st'] by auto
  qed
  show "st_runs st' = st_runs st" using assms by (auto simp: insert_cases_def)
qed


section \<open>The smoke test\<close>

text \<open>The agent exited with 0, reported completion and left a non-empty, readable trace.\<close>

definition traced_success :: "(string \<Rightarrow> captured option) \<Rightarrow> process \<Rightarrow> bool" where
  "traced_success parse p =
     (pr_ending p = Exited 0
      \<and> (case read_result_json (pr_result p) of
           None \<Rightarrow> False
         | Some d \<Rightarrow>
             dict_get d ''status'' = VStr ''completed''
             \<and> (case read_trace parse (pr_trace p) of Inr (Some es) \<Rightarrow> es \<noteq> [] | _ \<Rightarrow> False)))"

lemma invoke_agent_completed:
  assumes "invoke_agent parse command p = Inr r" and "command \<noteq> []"
  shows "iv_status r \<noteq> INV_cancelled \<and> (iv_status r = INV_completed) = traced_success parse p"
proof (cases "pr_ending p = Exited 0")
  case False
  then show ?thesis
    using assms by (cases "pr_ending p") (auto simp: invoke_agent_def failed_invocation_def traced_success_def)
next
  case True
  show ?thesis
  proof (cases "read_result_json (pr_result p)")
    case None
    then show ?thesis
      using assms True by (auto simp: invoke_agent_def failed_invocation_def traced_success_def)
  next
    case (Some d)
    consider "dict_get d ''status'' = VStr ''error''"
      | "dict_get d ''status'' \<noteq> VStr ''error''" "dict_get d ''status'' \<noteq> VStr ''completed''"
      | "dict_get d ''status'' = VStr ''completed''"
      by blast
    then show ?thesis
    proof cases
      case 1
      then show ?thesis
        using assms True Some
        by (auto simp: invoke_agent_def reported_error_def failed_invocation_def traced_success_def bind_res_Inr_iff
            split: if_splits)
    next
      case 2
      then show ?thesis
        using assms True Some by (auto simp: invoke_agent_def failed_invocation_def traced_success_def)
    next
      case 3
      then have "traced parse 0 d (pr_trace p) = Inr r"
        using assms True Some by (simp add: invoke_agent_def)
      then obtain es where es: "read_trace parse (pr_trace p) = Inr es"
        and r: "r = (case es of
              None \<Rightarrow> failed_invocation (Some 0) None
            | Some events \<Rightarrow>
                \<lparr>iv_status = (if events = [] then INV_no_trace else INV_completed), iv_exit = Some 0,
                 iv_events = events, iv_payload = Some d\<rparr>)"
        unfolding traced_def bind_res_Inr_iff by auto
      have "traced_success parse p = (case es of None \<Rightarrow> False | Some es \<Rightarrow> es \<noteq> [])"
        unfolding traced_success_def True Some option.case 3 es by (simp split: option.split)
      then show ?thesis
        by (cases es) (simp_all add: r failed_invocation_def)
    qed
  qed
qed

lemma smoke_outcome_passed: "smoke_outcome x = Smoke_SMOKE_PASSED \<longleftrightarrow> x = INV_completed \<or> x = INV_cancelled"
  by (cases x) simp_all

lemma set_project_smoke_state_Inr:
  assumes "set_project_smoke_state pid ws t now st = Inr (u, st')"
  shows "map_option pj_state (get_project st' pid ws) = Some t" "st_smokes st' = st_smokes st"
proof -
  obtain p where p: "find (\<lambda>p. pj_id p = pid \<and> pj_workspace p = ws) (st_projects st) = Some p"
    using assms by (cases "get_project st pid ws") (auto simp: set_project_smoke_state_def get_project_def)
  with assms show "map_option pj_state (get_project st' pid ws) = Some t" "st_smokes st' = st_smokes st"
    by (auto simp: set_project_smoke_state_def get_project_def SMOKE_TABLE_eq bind_res_Inr_iff smoke.transition_iff
        find_update_found [OF p])
qed

lemma smoke_records:
  assumes "\<And>n. sm_state (x n) = outcome"
  shows "ends (bind_w (tx (\<lambda>n. append_smoke_attempt (x n) (en_now E n)) t) (\<lambda>row t.
      bind_w (smoke_to E pid ws outcome t) (\<lambda>_ t. (Inr row, t))))
    (\<lambda>row u. st_smokes (fst u) = st_smokes (fst t) @ [row] \<and> sm_state row = outcome
      \<and> map_option pj_state (get_project (fst u) pid ws) = Some outcome) (\<lambda>_. True)"
proof (rule ends_bind [of _ "\<lambda>row u. st_smokes (fst u) = st_smokes (fst t) @ [row] \<and> sm_state row = outcome"])
  show "ends (tx (\<lambda>n. append_smoke_attempt (x n) (en_now E n)) t)
      (\<lambda>row u. st_smokes (fst u) = st_smokes (fst t) @ [row] \<and> sm_state row = outcome) (\<lambda>_. True)"
    by (rule ends_tx) (auto simp: append_smoke_attempt_def assms split: if_splits)
  fix row and v :: estate
  assume row: "st_smokes (fst v) = st_smokes (fst t) @ [row] \<and> sm_state row = outcome"
  show "ends (bind_w (smoke_to E pid ws outcome v) (\<lambda>_ t. (Inr row, t)))
      (\<lambda>row u. st_smokes (fst u) = st_smokes (fst t) @ [row] \<and> sm_state row = outcome
        \<and> map_option pj_state (get_project (fst u) pid ws) = Some outcome) (\<lambda>_. True)"
    unfolding smoke_to_def
    by (rule ends_bind [OF ends_tx [where Q = "\<lambda>_ u. map_option pj_state (get_project (fst u) pid ws) = Some outcome
          \<and> st_smokes (fst u) = st_smokes (fst v)" and R = "\<lambda>_. True"]])
      (use row in \<open>simp_all add: set_project_smoke_state_Inr\<close>)
qed

text \<open>A smoke test that returns has recorded itself and moved its project to the state it records, and that
  state is \<open>SMOKE_PASSED\<close> exactly when the agent exited with 0, reported completion and left a
  non-empty readable trace.\<close>

theorem smoke_pass_needs_trace:
  "case smoke E pid ws s of
      (Inr row, t) \<Rightarrow>
        st_smokes (fst t) = st_smokes (fst s) @ [row]
        \<and> map_option pj_state (get_project (fst t) pid ws) = Some (sm_state row)
        \<and> (sm_state row = Smoke_SMOKE_PASSED) = traced_success (en_parse E) (en_process E (snd s))
    | (Inl e, t) \<Rightarrow> True"
  (is "case _ of (Inr row, t) \<Rightarrow> ?smoked row t | (Inl e, t) \<Rightarrow> _")
proof -
  have "ends (smoke E pid ws s) ?smoked (\<lambda>_. True)"
    unfolding smoke_def require_project_def
    apply (intro ends_reading ends_lift TrueI)
    apply (rule ends_bind [of _ "\<lambda>r t. fst t = fst s \<and> iv_status r \<noteq> INV_cancelled
          \<and> (iv_status r = INV_completed) = traced_success (en_parse E) (en_process E (snd s))"])
     apply (auto simp: invoke_local_def ends_def ensure_Inr_iff dest: invoke_agent_completed split: sum.split)[1]
    apply (rule ends_mono [OF smoke_records], rule smoke_row.select_convs, simp add: smoke_outcome_passed)
    apply simp
    done
  then show ?thesis by (simp only: ends_def)
qed

section \<open>Outcomes that escape the error handling\<close>

text \<open>An agent that reports an error as a text, and one whose trace is not UTF-8, make \<open>invoke_agent\<close> raise.\<close>

lemma text_error_escapes:
  "invoke_agent parse (c # command)
     \<lparr>pr_ending = Exited 0, pr_result = Result (VDict [(''status'', VStr ''error''), (''error'', VStr ''boom'')]),
      pr_trace = f\<rparr> = Inl AttributeError"
  by (simp add: invoke_agent_def read_result_json_def reported_error_def error_block_of_def dict_get_def)

lemma undecodable_trace_escapes:
  "invoke_agent parse (c # command)
     \<lparr>pr_ending = Exited 0, pr_result = Result (VDict [(''status'', VStr ''completed'')]),
      pr_trace = Trace_file 1 [] True\<rparr> = Inl ValueError"
  by (simp add: invoke_agent_def read_result_json_def traced_def read_trace_def dict_get_def MAX_TRACE_FILE_BYTES_def)

text \<open>A NaN in the output of an attempt raises after the attempt is completed.\<close>

lemma nan_output_escapes:
  "save_attempt_output aid rid cid ws (Some (VDict [(''score'', VFloat NaN)])) st = Inl ValueError"
  by (simp add: save_attempt_output_def)

text \<open>Ingestion does not look at the workspace an event claims.\<close>

lemma foreign_workspace_admitted: "admissible r cid aid (e\<lparr>workspace_id := w\<rparr>, b) = admissible r cid aid (e, b)"
  by (simp add: admissible_def)

text \<open>A run that was resumed while aggregating cannot be cancelled.\<close>

lemma aggregating_not_cancelled:
  assumes "run_state (fst s) rid ws = Some Run_AGGREGATING"
  shows "fst (run_to E rid ws Run_CANCELLED s) = Inl IllegalTransition"
proof -
  obtain r where "get_run (fst s) rid ws = Some r" "rr_status r = Run_AGGREGATING"
    using assms by (auto simp: run_state_def)
  then show ?thesis
    by (simp add: run_to_def tx_def set_run_status_def transition_def coerce_def RUN_TRANSITIONS_def)
qed

text \<open>A retry overwrites the metric row of the first attempt, which no longer counts as authoritative.\<close>

lemma upsert_row:
  assumes "r \<in> set (upsert key f new rows)" and "key r = key new"
  shows "r = new \<or> (\<exists>old. r = f old new)"
proof (cases "list_ex (\<lambda>r. key r = key new) rows")
  case True
  then have "r \<in> (\<lambda>r. if key r = key new then f r new else r) ` set rows"
    using assms(1) by (simp add: upsert_def update_where_def)
  then obtain r0 where "r = (if key r0 = key new then f r0 new else r0)" by (elim imageE)
  then show ?thesis using assms(2) by (metis (full_types))
next
  case False
  then have "r \<in> set rows \<or> r = new" using assms(1) by (auto simp: upsert_def)
  then show ?thesis using False assms(2) by (auto simp: list_ex_iff)
qed

lemma retry_overwrites_row:
  assumes "upsert_case_metric_results rid cid ws [y] mb revision now st = Inr (u, st')" and "cs_attempt y \<noteq> 0"
    and "r \<in> set (st_case_metrics st')" and "case_metric_key r = (rid, cid, cs_metric_id y, revision)"
  shows "cm_status r = cs_status y \<and> \<not> cm_authoritative r"
proof -
  obtain new where new: "score_row rid cid ws mb revision now y = Inr new"
    and st': "st_case_metrics st' = upsert case_metric_key
        (\<lambda>old new. new\<lparr>cm_workspace := cm_workspace old, cm_overridden := cm_overridden old\<rparr>) new (st_case_metrics st)"
    using assms(1) by (auto simp: upsert_case_metric_results_def bind_res_Inr_iff)
  have n: "case_metric_key new = (rid, cid, cs_metric_id y, revision)" "cm_status new = cs_status y" "\<not> cm_authoritative new"
    using new assms(2) by (auto simp: score_row_def bind_res_Inr_iff case_metric_key_def)
  have "r = new \<or> (\<exists>old :: case_metric_row. r = new\<lparr>cm_workspace := cm_workspace old, cm_overridden := cm_overridden old\<rparr>)"
    using upsert_row [OF assms(3) [unfolded st']] by (simp add: assms(4) n(1))
  then show ?thesis using n(2,3) by (elim disjE exE) simp_all
qed

end
