(* ===== verification/RedactionProps.thy ===== *)
theory RedactionProps
  imports CaseProps
begin

text \<open>
  What redaction guarantees: in a redacted value no sensitive key keeps its value and no text contains the
  canary secret, and so no execution stores a trace event whose payload or error does. The proof follows
  a partial match of the canary through the replacements of the four detectors: none of them can complete
  a match that the text did not have.
\<close>

section \<open>The canary in a text\<close>

text \<open>The rest of a match: what is left of the prefix, then a token character.\<close>

fun goes_on :: "string \<Rightarrow> string \<Rightarrow> bool" where
  "goes_on ps [] = False"
| "goes_on [] (c # cs) = is_token_char c"
| "goes_on (p # ps) (c # cs) = (c = p \<and> goes_on ps cs)"

fun has_canary :: "string \<Rightarrow> bool" where
  "has_canary [] = False"
| "has_canary (c # cs) = (goes_on CANARY_PREFIX (c # cs) \<or> has_canary cs)"

lemma goes_on_iff:
  "goes_on ps s \<longleftrightarrow> take (length ps) s = ps \<and> takeWhile is_token_char (drop (length ps) s) \<noteq> []"
  by (induction ps s rule: goes_on.induct) auto

lemma canary_iff: "canary p s \<noteq> None \<longleftrightarrow> goes_on CANARY_PREFIX s"
  by (simp add: canary_def starts_def goes_on_iff Let_def)

lemma search_canary: "search_text canary p s = has_canary s"
proof (induction s arbitrary: p)
  case (Cons c cs)
  then show ?case using canary_iff [of p "c # cs"] by simp
qed simp

text \<open>The prefix starts with an \<open>s\<close> and has no capital letter, bracket or equals sign.\<close>

lemma prefix_chars:
  "CANARY_PREFIX \<noteq> []" "hd CANARY_PREFIX = CHR ''s''" "CHR ''['' \<notin> set CANARY_PREFIX"
  "CHR ''B'' \<notin> set CANARY_PREFIX" "CHR ''='' \<notin> set CANARY_PREFIX"
  by (simp_all add: CANARY_PREFIX_def)

lemma goes_on_s: "goes_on CANARY_PREFIX (c # cs) \<Longrightarrow> c = CHR ''s''"
  by (simp add: CANARY_PREFIX_def)

section \<open>Replacements\<close>

text \<open>A replacement of \<open>a\<close> by \<open>r\<close> that cannot complete a match: after a common beginning, the new text goes on
  with a character outside the prefix, which may end a match only where the old text did, and starts none.\<close>

definition harmless :: "string \<Rightarrow> string \<Rightarrow> bool" where
  "harmless a r =
     (\<exists>w z z'. r = w @ z \<and> a = w @ z' \<and> z \<noteq> [] \<and> hd z \<notin> set CANARY_PREFIX \<and> CHR ''s'' \<notin> set z
        \<and> (is_token_char (hd z) \<longrightarrow> z' \<noteq> [] \<and> is_token_char (hd z')))"

lemma harmless_goes_on:
  assumes "harmless a r" and "set ps \<subseteq> set CANARY_PREFIX" and "goes_on ps (r @ out)"
  shows "goes_on ps (a @ s)"
proof -
  obtain w z z' where r: "r = w @ z" "a = w @ z'" "z \<noteq> []" "hd z \<notin> set CANARY_PREFIX"
      "is_token_char (hd z) \<longrightarrow> z' \<noteq> [] \<and> is_token_char (hd z')"
    using assms(1) by (auto simp: harmless_def)
  have "goes_on ps (w @ z @ out) \<Longrightarrow> set ps \<subseteq> set CANARY_PREFIX \<Longrightarrow> goes_on ps (w @ z' @ s)"
  proof (induction w arbitrary: ps)
    case Nil
    then show ?case using r(3,4,5) by (cases ps; cases z; cases z') auto
  next
    case (Cons c w)
    then show ?case by (cases ps) auto
  qed
  then show ?thesis using assms(2,3) r(1,2) by simp
qed

lemma no_start: "CHR ''s'' \<notin> set z \<Longrightarrow> has_canary (z @ out) \<Longrightarrow> has_canary out"
  by (induction z) (auto dest: goes_on_s)

lemma has_canary_append: "has_canary s \<Longrightarrow> has_canary (z @ s)"
  by (induction z) auto

lemma harmless_occurs:
  assumes "harmless a r" and "has_canary (r @ out)" and "has_canary out \<Longrightarrow> has_canary s"
  shows "has_canary (a @ s)"
proof -
  obtain w z z' where r: "r = w @ z" "a = w @ z'" "z \<noteq> []" "hd z \<notin> set CANARY_PREFIX" "CHR ''s'' \<notin> set z"
      "is_token_char (hd z) \<longrightarrow> z' \<noteq> [] \<and> is_token_char (hd z')"
    using assms(1) by (auto simp: harmless_def)
  have "has_canary (w @ z @ out) \<Longrightarrow> has_canary (w @ z' @ s)"
  proof (induction w)
    case Nil
    then have "has_canary out" using no_start [OF r(5), of out] by simp
    then show ?case using has_canary_append [OF assms(3), of z'] by simp
  next
    case (Cons c w)
    have "harmless (c # w @ z') (c # w @ z)"
      unfolding harmless_def using r(3-6) by (intro exI [of _ "c # w"] exI [of _ z] exI [of _ z']) simp
    from harmless_goes_on [OF this subset_refl, of out s]
    have "goes_on CANARY_PREFIX (c # w @ z @ out) \<Longrightarrow> goes_on CANARY_PREFIX (c # w @ z' @ s)"
      by simp
    moreover have "goes_on CANARY_PREFIX (c # w @ z @ out) \<or> has_canary (w @ z @ out)"
      using Cons.prems by simp
    ultimately have "goes_on CANARY_PREFIX (c # w @ z' @ s) \<or> has_canary (w @ z' @ s)"
      using Cons.IH by blast
    then show ?case by simp
  qed
  then show ?thesis using assms(2) r(1,2) by simp
qed

text \<open>A scanner whose replacements are harmless.\<close>

definition harmless_scanner :: "scanner \<Rightarrow> bool" where
  "harmless_scanner m = (\<forall>p s r n. m p s = Some (r, n) \<longrightarrow> harmless (take (Suc n) s) r)"

lemma harmlessD: "harmless_scanner m \<Longrightarrow> m p s = Some (r, n) \<Longrightarrow> harmless (take (Suc n) s) r"
  by (simp add: harmless_scanner_def)

lemma sub_goes_on:
  "harmless_scanner m \<Longrightarrow> set ps \<subseteq> set CANARY_PREFIX \<Longrightarrow> goes_on ps (sub_text m p s) \<Longrightarrow> goes_on ps s"
proof (induction m p s arbitrary: ps rule: sub_text.induct)
  case (2 m p c cs)
  show ?case
  proof (cases "m p (c # cs)")
    case None
    then show ?thesis using 2 by (cases ps) (auto simp: sub_text.simps)
  next
    case (Some rn)
    obtain r n where rn: "rn = (r, n)" by (cases rn)
    have "goes_on ps (take (Suc n) (c # cs) @ drop n cs)"
    proof (rule harmless_goes_on)
      show "harmless (take (Suc n) (c # cs)) r"
        using harmlessD [OF 2(3) Some [unfolded rn]] .
      show "goes_on ps (r @ sub_text m (Some (last (c # take n cs))) (drop n cs))"
        using 2(5) Some rn by (simp add: sub_text.simps)
    qed (rule 2(4))
    then show ?thesis by simp
  qed
qed (simp add: sub_text.simps)

lemma sub_occurs:
  "harmless_scanner m \<Longrightarrow> has_canary (sub_text m p s) \<Longrightarrow> has_canary s"
proof (induction m p s rule: sub_text.induct)
  case (2 m p c cs)
  show ?case
  proof (cases "m p (c # cs)")
    case None
    then have "goes_on CANARY_PREFIX (sub_text m p (c # cs)) \<Longrightarrow> goes_on CANARY_PREFIX (c # cs)"
      using sub_goes_on [OF 2(3), of CANARY_PREFIX p "c # cs"] by simp
    then show ?thesis using 2 None by (auto simp: sub_text.simps)
  next
    case (Some rn)
    obtain r n where rn: "rn = (r, n)" by (cases rn)
    have "has_canary (take (Suc n) (c # cs) @ drop n cs)"
    proof (rule harmless_occurs)
      show "harmless (take (Suc n) (c # cs)) r"
        using harmlessD [OF 2(3) Some [unfolded rn]] .
      show "has_canary (r @ sub_text m (Some (last (c # take n cs))) (drop n cs))"
        using 2(4) Some rn by (simp add: sub_text.simps)
    qed (use 2(2) [OF Some rn [symmetric] 2(3)] in simp)
    then show ?thesis by simp
  qed
qed (simp add: sub_text.simps)

text \<open>The first detector leaves no canary: a match would start at a character that the scanner passed over.\<close>

lemma REDACTED_chars: "REDACTED \<noteq> []" "hd REDACTED = CHR ''[''" "CHR ''s'' \<notin> set REDACTED" "\<not> has_canary REDACTED"
  by (simp_all add: REDACTED_def CANARY_PREFIX_def)

lemma harmless_REDACTED: "harmless a REDACTED"
  unfolding harmless_def using REDACTED_chars prefix_chars
  by (intro exI [of _ "[]"] exI [of _ REDACTED] exI [of _ a]) (simp add: is_token_char_def is_ascii_alnum_def code_def)

lemma canary_harmless: "harmless_scanner canary"
  by (auto simp: harmless_scanner_def canary_def Let_def harmless_REDACTED split: if_splits)

lemma provider_token_harmless: "harmless_scanner provider_token"
  by (auto simp: harmless_scanner_def provider_token_def harmless_REDACTED split: if_splits option.splits)

lemma canary_gone: "\<not> has_canary (sub_text canary p s)"
proof (induction canary p s rule: sub_text.induct)
  case (2 p c cs)
  show ?case
  proof (cases "canary p (c # cs)")
    case None
    then have "\<not> goes_on CANARY_PREFIX (sub_text canary p (c # cs))"
      using canary_iff [of p "c # cs"] sub_goes_on [OF canary_harmless, of CANARY_PREFIX p "c # cs"] by auto
    then show ?thesis using 2 None by (simp add: sub_text.simps)
  next
    case (Some rn)
    then obtain n where rn: "rn = (REDACTED, n)" by (auto simp: canary_def Let_def split: if_splits)
    then show ?thesis
      using 2(2) [OF Some] no_start [OF REDACTED_chars(3)] REDACTED_chars(4) Some by (auto simp: sub_text.simps)
  qed
qed (simp add: sub_text.simps)

text \<open>The other detectors keep the beginning of what they replace, up to the case of \<open>Bearer\<close>.\<close>

lemma bearer_harmless: "harmless_scanner bearer"
  unfolding harmless_scanner_def
proof (intro allI impI)
  fix p s r n
  assume m: "bearer p s = Some (r, n)"
  then have r: "r = ''Bearer '' @ REDACTED" and b: "starts_ci ''bearer'' s"
    by (auto simp: bearer_def Let_def split: if_splits)
  from b obtain c cs where s: "s = c # cs" and "lower_char c = CHR ''b''"
    by (cases s) (auto simp: starts_ci_def)
  then have "is_token_char c"
    by (auto simp: lower_char_def is_token_char_def is_ascii_alnum_def code_def Let_def split: if_splits)
  then show "harmless (take (Suc n) s) r"
    unfolding harmless_def r s using prefix_chars(4) REDACTED_chars(3)
    by (intro exI [of _ "[]"] exI [of _ "''Bearer '' @ REDACTED"] exI [of _ "c # take n cs"]) simp
qed

lemma assigned_secret_harmless: "harmless_scanner assigned_secret"
  unfolding harmless_scanner_def
proof (intro allI impI)
  fix p s r n
  assume m: "assigned_secret p s = Some (r, n)"
  then obtain k where r: "r = take k s @ ''='' @ REDACTED" and n: "k \<le> Suc n"
    by (auto simp: assigned_secret_def Let_def split: if_splits option.splits)
  have "take (Suc n) s = take k s @ take (Suc n - k) (drop k s)"
    using n by (metis le_add_diff_inverse take_add)
  then show "harmless (take (Suc n) s) r"
    unfolding harmless_def r using prefix_chars(5) REDACTED_chars(3)
    by (intro exI [of _ "take k s"] exI [of _ "''='' @ REDACTED"] exI [of _ "take (Suc n - k) (drop k s)"])
      (simp add: is_token_char_def is_ascii_alnum_def code_def)
qed

lemma scrub_clean: "\<not> has_canary (fst (scrub s))"
proof -
  have keep: "\<not> has_canary (fst (detect m flag t))" if "harmless_scanner m" "\<not> has_canary (fst t)" for m flag t
    using that sub_occurs by (auto simp: detect_def)
  have "\<not> has_canary (fst (detect canary ''canary'' t))" for t
    using canary_gone search_canary by (auto simp: detect_def)
  then show ?thesis
    by (simp add: scrub_def detectors_def keep provider_token_harmless bearer_harmless assigned_secret_harmless)
qed

section \<open>Redacted values\<close>

text \<open>No sensitive key keeps its value, and no text has the canary. Keys themselves are not redacted.\<close>

fun redacted_value :: "pyval \<Rightarrow> bool"
  and redacted_list :: "pyval list \<Rightarrow> bool"
  and redacted_items :: "pydict \<Rightarrow> bool" where
  "redacted_value (VStr s) = (\<not> search_text canary None s)"
| "redacted_value (VList xs) = redacted_list xs"
| "redacted_value (VDict d) = redacted_items d"
| "redacted_value _ = True"
| "redacted_list [] = True"
| "redacted_list (v # vs) = (redacted_value v \<and> redacted_list vs)"
| "redacted_items [] = True"
| "redacted_items ((k, v) # d) =
     ((if sensitive_key k then v = VStr REDACTED else True) \<and> redacted_value v \<and> redacted_items d)"

lemma clean_text_redacted: "clean_text s = Inr (t, fl) \<Longrightarrow> \<not> search_text canary None t"
  using scrub_clean [of s] by (auto simp: clean_text_def search_canary split: if_splits)

lemma clean_as_redacted: "clean_as s = Inr (v, fl) \<Longrightarrow> redacted_value v"
  by (auto simp: clean_as_def bind_res_Inr_iff clean_text_redacted)

lemma walk_redacted:
  "walk X v = Inr (w, fl) \<Longrightarrow> redacted_value w"
  "walk_list X vs = Inr (ws, fl') \<Longrightarrow> redacted_list ws"
  "walk_items X d = Inr (d', fl'') \<Longrightarrow> redacted_items d'"
proof (induction X v and X vs and X d arbitrary: w fl and ws fl' and d' fl'' rule: walk_walk_list_walk_items.induct)
  case (15 X k v d)
  then show ?case
    by (auto simp: bind_res_Inr_iff search_canary REDACTED_chars(4) split: if_splits)
qed (auto simp: bind_res_Inr_iff clean_as_redacted)


section \<open>Stored events\<close>

definition event_redacted :: "trace_event \<Rightarrow> bool" where
  "event_redacted e =
     ((case payload e of None \<Rightarrow> True | Some d \<Rightarrow> redacted_items d)
      \<and> (case ev_error e of
           None \<Rightarrow> True
         | Some b \<Rightarrow> \<not> search_text canary None (er_type b) \<and> \<not> search_text canary None (er_message b)))"

lemma event_row_redacted:
  assumes "event_row X e = Inr e'"
  shows "event_redacted e'"
proof -
  obtain p fl er fl' where p: "(case payload e of None \<Rightarrow> Inr (None, [])
        | Some d \<Rightarrow> bind_res (walk_items X d) (\<lambda>(d', fl). Inr (Some d', fl))) = Inr (p, fl)"
    and er: "(case ev_error e of None \<Rightarrow> Inr (None, [])
        | Some b \<Rightarrow> bind_res (redact_error b) (\<lambda>(b', fl'). Inr (Some b', fl'))) = Inr (er, fl')"
    and e': "payload e' = p" "ev_error e' = er"
    using assms by (auto simp: event_row_def bind_res_Inr_iff Let_def)
  have "case p of None \<Rightarrow> True | Some d \<Rightarrow> redacted_items d"
    using p by (cases "payload e") (auto simp: bind_res_Inr_iff walk_redacted(3))
  moreover have "case er of None \<Rightarrow> True
      | Some b \<Rightarrow> \<not> search_text canary None (er_type b) \<and> \<not> search_text canary None (er_message b)"
    using er by (cases "ev_error e") (auto simp: bind_res_Inr_iff redact_error_def clean_text_redacted)
  ultimately show ?thesis by (simp add: event_redacted_def e')
qed

text \<open>The events that are not redacted are among those of before.\<close>

definition no_new_leaks :: "store \<Rightarrow> store \<Rightarrow> bool" where
  "no_new_leaks st st' = list_all (\<lambda>e. event_redacted e \<or> e \<in> set (st_events st)) (st_events st')"

lemma no_new_leaks_refl: "no_new_leaks st st"
  by (simp add: no_new_leaks_def list_all_iff)

lemma no_new_leaks_trans: "no_new_leaks st st' \<Longrightarrow> no_new_leaks st' st'' \<Longrightarrow> no_new_leaks st st''"
  by (auto simp: no_new_leaks_def list_all_iff)

lemma no_new_leaks_same: "st_events st' = st_events st \<Longrightarrow> no_new_leaks st st'"
  by (simp add: no_new_leaks_def list_all_iff)

lemma no_new_leaks_ops:
  "set_run_status rid ws t0 now st = Inr (u, st') \<Longrightarrow> no_new_leaks st st'"
  "set_case_status rid cid ws t' now st = Inr (u, st') \<Longrightarrow> no_new_leaks st st'"
  "set_case_classification rid cid ws cl ec st = Inr (u, st') \<Longrightarrow> no_new_leaks st st'"
  "create_attempt aid rid cid ws rep att st = Inr (a, st') \<Longrightarrow> no_new_leaks st st'"
  "set_attempt_status aid ws t facts now st = Inr (u, st') \<Longrightarrow> no_new_leaks st st'"
  "save_attempt_output aid rid cid ws out st = Inr (u, st') \<Longrightarrow> no_new_leaks st st'"
  "upsert_case_metric_results rid cid ws scores mb revision now st = Inr (u, st') \<Longrightarrow> no_new_leaks st st'"
  "upsert_run_metric_result rid ws m agg revision g c now st = Inr (u, st') \<Longrightarrow> no_new_leaks st st'"
  "add_cost_summaries rid ws rows st = Inr (u, st') \<Longrightarrow> no_new_leaks st st'"
  "save_remote_job aid rid cid ws job state now st = Inr (u, st') \<Longrightarrow> no_new_leaks st st'"
  "set_remote_job_state aid ws state now st = Inr (u, st') \<Longrightarrow> no_new_leaks st st'"
  subgoal by (rule no_new_leaks_same, cases "get_run st rid ws") (auto simp: set_run_status_def Let_def bind_res_Inr_iff)
  subgoal by (rule no_new_leaks_same, cases "get_case st rid cid ws") (auto simp: set_case_status_def Let_def bind_res_Inr_iff)
  subgoal by (rule no_new_leaks_same) (auto simp: set_case_classification_def)
  subgoal by (rule no_new_leaks_same) (auto simp: create_attempt_def Let_def split: if_splits)
  subgoal by (rule no_new_leaks_same, cases "get_attempt_by_id st aid ws") (auto simp: set_attempt_status_def Let_def bind_res_Inr_iff)
  subgoal by (rule no_new_leaks_same) (auto simp: save_attempt_output_def bind_res_Inr_iff)
  subgoal by (rule no_new_leaks_same) (auto simp: upsert_case_metric_results_def bind_res_Inr_iff)
  subgoal by (rule no_new_leaks_same) (auto simp: upsert_run_metric_result_def)
  subgoal by (rule no_new_leaks_same) (auto simp: add_cost_summaries_def bind_res_Inr_iff)
  subgoal by (rule no_new_leaks_same) (auto simp: save_remote_job_def)
  subgoal by (rule no_new_leaks_same) (auto simp: set_remote_job_state_def)
  done

lemma events_no_new_leaks:
  assumes "insert_trace_events X es st = Inr (u, st')"
  shows "no_new_leaks st st'"
proof -
  have "f \<in> set (st_events st) \<or> (\<exists>e. event_row X e = Inr f)" if "f \<in> set (st_events st')" for f
    using insert_trace_events_Inr(2) [OF assms] that by (auto simp: list_all_iff list_ex_iff)
  then show ?thesis
    using event_row_redacted by (auto simp: no_new_leaks_def list_all_iff)
qed

interpretation leaks: run_work no_new_leaks rid ws "\<lambda>_. True" for rid ws
  by unfold_locales
    (fact no_new_leaks_refl, erule (1) no_new_leaks_trans, erule no_new_leaks_ops, erule no_new_leaks_ops,
      erule no_new_leaks_ops, erule no_new_leaks_ops, erule events_no_new_leaks, (erule no_new_leaks_ops)+, simp,
      erule no_new_leaks_ops)


end
