(* ===== verification/Calibration.thy ===== *)
theory Calibration
  imports RunStore JobQueue
begin

text \<open>
  Durable calibration of judge bindings (\<open>calibration.py\<close>) with its two tables in \<open>storage.py\<close>: the labels
  people give, Cohen's kappa of the labels of a generation, and the readiness state derived from it.

  An operation is several transactions; what other users of the tables commit before the \<open>n\<close>-th of
  them, the clock then and a fresh identifier then are parameters, and so are the digest of a binding and
  the iteration order of a set of strings. Operations return their outcome with the tables they leave.
\<close>

section \<open>Tables\<close>

record calibration_row =
  cb_workspace :: string
  cb_key :: string
  cb_binding :: judge_binding
  cb_generation :: int
  cb_state :: readiness_state
  cb_count :: int
  cb_kappa :: "flt option"
  cb_min_labels :: int
  cb_ready :: flt
  cb_reset :: flt
  cb_updated :: int

record label_row =
  lb_workspace :: string
  lb_key :: string
  lb_generation :: int
  lb_id :: string
  lb_case :: string
  lb_human :: pyval
  lb_judge :: pyval
  lb_author :: string
  lb_created :: int

record calibration_tables =
  ca_rows :: "calibration_row list"
  ca_labels :: "label_row list"

text \<open>\<open>ORDER BY\<close>, stable.\<close>

fun insert_by :: "('a \<Rightarrow> 'a \<Rightarrow> bool) \<Rightarrow> 'a \<Rightarrow> 'a list \<Rightarrow> 'a list" where
  "insert_by lt x [] = [x]"
| "insert_by lt x (y # ys) = (if lt y x then y # insert_by lt x ys else x # y # ys)"

definition order_by :: "('a \<Rightarrow> 'a \<Rightarrow> bool) \<Rightarrow> 'a list \<Rightarrow> 'a list" where
  "order_by lt xs = foldr (insert_by lt) xs []"

definition get_judge_calibration :: "calibration_tables \<Rightarrow> string \<Rightarrow> string \<Rightarrow> calibration_row option" where
  "get_judge_calibration t ws key = find (\<lambda>r. cb_workspace r = ws \<and> cb_key r = key) (ca_rows t)"

definition calibration_key :: "calibration_row \<Rightarrow> string \<times> string" where
  "calibration_key r = (cb_workspace r, cb_key r)"

text \<open>The row holds the values of the statement; a NaN is stored as NULL.\<close>

definition upsert_judge_calibration :: "calibration_row \<Rightarrow> int \<Rightarrow> calibration_tables \<Rightarrow> (unit \<times> calibration_tables) res" where
  "upsert_judge_calibration row now t =
     Inr ((), t\<lparr>ca_rows := upsert calibration_key (\<lambda>old new. new)
       (row\<lparr>cb_kappa := sql_real (cb_kappa row), cb_updated := now\<rparr>) (ca_rows t)\<rparr>)"

definition label_key_of :: "label_row \<Rightarrow> string \<times> string \<times> int \<times> string" where
  "label_key_of l = (lb_workspace l, lb_key l, lb_generation l, lb_id l)"

definition append_judge_calibration_label ::
  "label_row \<Rightarrow> int \<Rightarrow> calibration_tables \<Rightarrow> (label_row \<times> calibration_tables) res" where
  "append_judge_calibration_label l now t =
     bind_res (json_finite (lb_human l)) (\<lambda>_.
     bind_res (json_finite (lb_judge l)) (\<lambda>_.
       let labels = insert_or_ignore label_key_of (l\<lparr>lb_created := now\<rparr>) (ca_labels t) in
       case find (\<lambda>r. label_key_of r = label_key_of l) labels of
         None \<Rightarrow> Inl KeyError
       | Some r \<Rightarrow> Inr (r, t\<lparr>ca_labels := labels\<rparr>)))"

definition label_before :: "label_row \<Rightarrow> label_row \<Rightarrow> bool" where
  "label_before a b = (lb_created a < lb_created b \<or> lb_created a = lb_created b \<and> str_less (lb_id a) (lb_id b))"

definition list_judge_calibration_labels ::
  "calibration_tables \<Rightarrow> string \<Rightarrow> string \<Rightarrow> int option \<Rightarrow> label_row list" where
  "list_judge_calibration_labels t ws key gen =
     order_by label_before
       (filter (\<lambda>l. lb_workspace l = ws \<and> lb_key l = key \<and> (gen = None \<or> gen = Some (lb_generation l))) (ca_labels t))"

section \<open>Labels and agreement\<close>

definition label_value :: "pyval \<Rightarrow> pyval res" where
  "label_value v =
     (case v of
        VNull \<Rightarrow> Inr v
      | VStr s \<Rightarrow> if blank s \<or> 255 < length s then Inl (WorkflowError ''validation_error'') else Inr v
      | VInt i \<Rightarrow> Inr v
      | VBool b \<Rightarrow> Inr v
      | VFloat f \<Rightarrow> if is_finite f then Inr v else Inl (WorkflowError ''validation_error'')
      | _ \<Rightarrow> Inl (WorkflowError ''validation_error''))"

text \<open>The JSON text of a label; that of a float is its \<open>repr\<close>.\<close>

definition hex_digit :: "nat \<Rightarrow> char" where
  "hex_digit n = char_of (if n < 10 then 48 + n else 87 + n)"

definition json_char :: "char \<Rightarrow> string" where
  "json_char c =
     (if c = CHR 0x22 then [CHR 0x5C, CHR 0x22]
      else if c = CHR 0x5C then [CHR 0x5C, CHR 0x5C]
      else if c = CHR 0x08 then [CHR 0x5C, CHR ''b'']
      else if c = CHR 0x0A then [CHR 0x5C, CHR ''n'']
      else if c = CHR 0x0D then [CHR 0x5C, CHR ''r'']
      else if c = CHR 0x09 then [CHR 0x5C, CHR ''t'']
      else if c = CHR 0x0C then [CHR 0x5C, CHR ''f'']
      else if 32 \<le> code c \<and> code c < 127 then [c]
      else [CHR 0x5C, CHR ''u'', CHR ''0'', CHR ''0'', hex_digit (code c div 16), hex_digit (code c mod 16)])"

definition label_key :: "externals \<Rightarrow> pyval \<Rightarrow> string" where
  "label_key X v =
     (case v of
        VNull \<Rightarrow> ''null''
      | VBool b \<Rightarrow> (if b then ''true'' else ''false'')
      | VStr s \<Rightarrow> CHR 0x22 # concat (map json_char s) @ [CHR 0x22]
      | _ \<Rightarrow> py_str X v)"

text \<open>The loop over the categories, from the partial sum \<open>acc\<close>.\<close>

fun expected_agreement :: "externals \<Rightarrow> (pyval \<times> pyval) list \<Rightarrow> string list \<Rightarrow> flt \<Rightarrow> flt res" where
  "expected_agreement X pairs [] acc = Inr acc"
| "expected_agreement X pairs (k # ks) acc =
     bind_res (int_div (int (length (filter (\<lambda>p. label_key X (fst p) = k) pairs))) (int (length pairs))) (\<lambda>h.
     bind_res (int_div (int (length (filter (\<lambda>p. label_key X (snd p) = k) pairs))) (int (length pairs))) (\<lambda>j.
       expected_agreement X pairs ks (flt_add acc (flt_mul h j))))"

definition categories :: "externals \<Rightarrow> (pyval \<times> pyval) list \<Rightarrow> string list" where
  "categories X pairs = remdups (map (label_key X \<circ> fst) pairs @ map (label_key X \<circ> snd) pairs)"

definition cohen_kappa :: "externals \<Rightarrow> (string list \<Rightarrow> string list) \<Rightarrow> (pyval \<times> pyval) list \<Rightarrow> flt option res" where
  "cohen_kappa X set_order pairs =
     (if pairs = [] then Inr None
      else
        bind_res (int_div (int (length (filter (\<lambda>p. py_eq (fst p) (snd p)) pairs))) (int (length pairs))) (\<lambda>observed.
        bind_res (expected_agreement X pairs (set_order (categories X pairs)) (Fin 0)) (\<lambda>expected.
          if expected = Fin 1 then Inr (Some (if observed = Fin 1 then Fin 1 else Fin 0))
          else if flt_sub (Fin 1) expected = Fin 0 then Inl ZeroDivisionError
          else Inr (Some (flt_div (flt_sub observed expected) (flt_sub (Fin 1) expected))))))"

section \<open>The service\<close>

record calibration_env =
  ce_ext :: externals
  ce_key :: "judge_binding \<Rightarrow> string"
  ce_set_order :: "string list \<Rightarrow> string list"
  ce_now :: "nat \<Rightarrow> int"
  ce_fresh :: "nat \<Rightarrow> string"
  ce_others :: "nat \<Rightarrow> calibration_tables \<Rightarrow> calibration_tables"

type_synonym calibration_state = "calibration_tables \<times> nat"
type_synonym 'a calibrating = "calibration_state \<Rightarrow> 'a res \<times> calibration_state"

text \<open>One transaction: first what the others have committed; a raised exception rolls back.\<close>

definition commit ::
  "calibration_env \<Rightarrow> (int \<Rightarrow> calibration_tables \<Rightarrow> ('a \<times> calibration_tables) res) \<Rightarrow> 'a calibrating" where
  "commit E op s =
     (let n = snd s; t = ce_others E n (fst s) in
      case op (ce_now E n) t of
        Inl e \<Rightarrow> (Inl e, (t, Suc n))
      | Inr (x, t') \<Rightarrow> (Inr x, (t', Suc n)))"

definition look :: "calibration_env \<Rightarrow> (calibration_tables \<Rightarrow> 'a) \<Rightarrow> 'a calibrating" where
  "look E f = commit E (\<lambda>_ t. Inr (f t, t))"

definition check :: "'a res \<Rightarrow> 'a calibrating" where
  "check r s = (r, s)"

definition readiness_of :: "judge_binding \<Rightarrow> calibration_row \<Rightarrow> readiness" where
  "readiness_of b r =
     \<lparr>rn_binding = b, rn_state = cb_state r, rn_label_count = cb_count r, rn_kappa = cb_kappa r,
      rn_min_labels = cb_min_labels r, rn_kappa_ready = cb_ready r, rn_kappa_reset = cb_reset r,
      rn_generation = cb_generation r\<rparr>"

definition row_of :: "string \<Rightarrow> string \<Rightarrow> readiness \<Rightarrow> calibration_row" where
  "row_of ws key r =
     \<lparr>cb_workspace = ws, cb_key = key, cb_binding = rn_binding r, cb_generation = rn_generation r,
      cb_state = rn_state r, cb_count = rn_label_count r, cb_kappa = rn_kappa r,
      cb_min_labels = rn_min_labels r, cb_ready = rn_kappa_ready r, cb_reset = rn_kappa_reset r, cb_updated = 0\<rparr>"

definition find_row :: "calibration_env \<Rightarrow> actor \<Rightarrow> judge_binding \<Rightarrow> calibration_row option calibrating" where
  "find_row E a b = look E (\<lambda>t. get_judge_calibration t (ac_workspace_id a) (ce_key E b))"

text \<open>A row the code asserts to be there.\<close>

definition the_row :: "calibration_env \<Rightarrow> actor \<Rightarrow> judge_binding \<Rightarrow> calibration_row calibrating" where
  "the_row E a b s =
     bind_w (find_row E a b s) (\<lambda>r s. case r of None \<Rightarrow> (Inl AssertionError, s) | Some r \<Rightarrow> (Inr r, s))"

definition save_row :: "calibration_env \<Rightarrow> actor \<Rightarrow> readiness \<Rightarrow> unit calibrating" where
  "save_row E a r = commit E (upsert_judge_calibration (row_of (ac_workspace_id a) (ce_key E (rn_binding r)) r))"

definition calibration_get :: "calibration_env \<Rightarrow> actor \<Rightarrow> judge_binding \<Rightarrow> readiness calibrating" where
  "calibration_get E a b s =
     bind_w (check (require_actor a False (Some (ac_workspace_id a))) s) (\<lambda>_ s.
     bind_w (find_row E a b s) (\<lambda>r s. case r of
        Some r \<Rightarrow> (Inr (readiness_of b r), s)
      | None \<Rightarrow>
          bind_w (save_row E a (new_readiness b) s) (\<lambda>_ s.
          bind_w (the_row E a b s) (\<lambda>r s. (Inr (readiness_of b r), s)))))"

definition generation_of :: "calibration_env \<Rightarrow> actor \<Rightarrow> judge_binding \<Rightarrow> int calibrating" where
  "generation_of E a b s = bind_w (the_row E a b s) (\<lambda>r s. (Inr (cb_generation r), s))"

definition recompute :: "calibration_env \<Rightarrow> actor \<Rightarrow> judge_binding \<Rightarrow> readiness \<Rightarrow> readiness calibrating" where
  "recompute E a b current s =
     bind_w (generation_of E a b s) (\<lambda>g s.
     bind_w (look E (\<lambda>t. list_judge_calibration_labels t (ac_workspace_id a) (ce_key E b) (Some g)) s) (\<lambda>labels s.
     bind_w (check (cohen_kappa (ce_ext E) (ce_set_order E) (map (\<lambda>l. (lb_human l, lb_judge l)) labels)) s) (\<lambda>kappa s.
     bind_w (generation_of E a b s) (\<lambda>g' s.
       let r = derive (current\<lparr>rn_binding := b, rn_state := UNCALIBRATED, rn_label_count := int (length labels),
                               rn_kappa := kappa, rn_generation := g'\<rparr>) in
       bind_w (generation_of E a b s) (\<lambda>g'' s.
       bind_w (save_row E a (r\<lparr>rn_generation := g''\<rparr>) s) (\<lambda>_ s. (Inr r, s)))))))"

definition given_or_fresh :: "calibration_env \<Rightarrow> string option \<Rightarrow> nat \<Rightarrow> string" where
  "given_or_fresh E i n = (case i of None \<Rightarrow> ce_fresh E n | Some s \<Rightarrow> if s = [] then ce_fresh E n else s)"

definition calibration_record_label ::
  "calibration_env \<Rightarrow> actor \<Rightarrow> judge_binding \<Rightarrow> string \<Rightarrow> pyval \<Rightarrow> pyval \<Rightarrow> string option \<Rightarrow> readiness calibrating" where
  "calibration_record_label E a b case_id human judge label_id s =
     bind_w (check (require_actor a True (Some (ac_workspace_id a))) s) (\<lambda>_ s.
     bind_w (check (ensure (\<not> blank case_id) (WorkflowError ''calibration_label_invalid'')) s) (\<lambda>_ s.
     bind_w (check (label_value human) s) (\<lambda>human s.
     bind_w (check (label_value judge) s) (\<lambda>judge s.
     bind_w (calibration_get E a b s) (\<lambda>current s.
     bind_w (generation_of E a b s) (\<lambda>g s.
     bind_w (commit E (append_judge_calibration_label
               \<lparr>lb_workspace = ac_workspace_id a, lb_key = ce_key E b, lb_generation = g,
                lb_id = given_or_fresh E label_id (snd s), lb_case = case_id, lb_human = human, lb_judge = judge,
                lb_author = ac_actor_id a, lb_created = 0\<rparr>) s) (\<lambda>_ s.
       recompute E a b current s)))))))"

definition calibration_reset :: "calibration_env \<Rightarrow> actor \<Rightarrow> judge_binding \<Rightarrow> readiness calibrating" where
  "calibration_reset E a b s =
     bind_w (check (require_actor a True (Some (ac_workspace_id a))) s) (\<lambda>_ s.
     bind_w (calibration_get E a b s) (\<lambda>current s.
     bind_w (the_row E a b s) (\<lambda>r s.
     bind_w (save_row E a (current\<lparr>rn_state := UNCALIBRATED, rn_label_count := 0, rn_kappa := None,
                                   rn_generation := cb_generation r + 1\<rparr>) s) (\<lambda>_ s.
       calibration_get E a b s))))"

end
