(* ===== verification/Comparisons.thy ===== *)
theory Comparisons
  imports Calibration
begin

text \<open>
  Paired comparison of two runs on one metric (\<open>comparisons.py\<close>): the reasons why runs cannot be
  compared, the paired differences of their authoritative scores, the confounders, and the bootstrap
  interval. A comparison only reads the tables; one snapshot of them is its argument. The order in which
  SQLite returns rows that \<open>ORDER BY\<close> does not tell apart, the digest of a metric, pydantic's dump of an
  expected value and the draws of \<open>random.Random\<close> are parameters.
\<close>

record comparison_env =
  co_ext :: externals
  co_row_order :: "case_metric_row list \<Rightarrow> case_metric_row list"
  co_metric_key :: "metric \<Rightarrow> string"
  co_dump :: "expected_value \<Rightarrow> pyval"
  co_random :: "pyval \<Rightarrow> nat \<Rightarrow> nat \<Rightarrow> nat"

text \<open>\<open>get_case_scores\<close> of \<open>storage.py\<close>.\<close>

definition case_score_before :: "case_metric_row \<Rightarrow> case_metric_row \<Rightarrow> bool" where
  "case_score_before a b =
     (str_less (cm_case a) (cm_case b) \<or> cm_case a = cm_case b \<and> str_less (cm_metric a) (cm_metric b))"

definition get_case_scores ::
  "(case_metric_row list \<Rightarrow> case_metric_row list) \<Rightarrow> store \<Rightarrow> string \<Rightarrow> string \<Rightarrow> string option \<Rightarrow> string option \<Rightarrow> int option \<Rightarrow>
   case_metric_row list" where
  "get_case_scores row_order st rid ws cid mid revision =
     order_by case_score_before (row_order
       (filter (\<lambda>r. cm_run r = rid \<and> cm_workspace r = ws \<and> (cid = None \<or> cid = Some (cm_case r))
                    \<and> (mid = None \<or> mid = Some (cm_metric r)) \<and> (revision = None \<or> revision = Some (cm_revision r)))
         (st_case_metrics st)))"

section \<open>What is compared\<close>

text \<open>A dict comprehension: the last entry of a key stays.\<close>

definition dict_of :: "('k \<times> 'v) list \<Rightarrow> ('k \<times> 'v) list" where
  "dict_of kvs = fold (\<lambda>(k, v). AList.update k v) kvs []"

definition is_scored :: "case_metric_row \<Rightarrow> bool" where
  "is_scored r = (cm_authoritative r \<and> cm_score r \<noteq> None \<and> cm_status r \<in> {PASS, FAIL})"

definition authoritative_scores :: "comparison_env \<Rightarrow> store \<Rightarrow> string \<Rightarrow> string \<Rightarrow> string \<Rightarrow> (string \<times> flt) list" where
  "authoritative_scores E st rid ws mid =
     dict_of (List.map_filter (\<lambda>r. if is_scored r then map_option (Pair (cm_case r)) (cm_score r) else None)
       (get_case_scores (co_row_order E) st rid ws None (Some mid) None))"

definition version_refs :: "run_row \<Rightarrow> pydict" where
  "version_refs r = (case dict_get (rr_world r) ''version_refs'' of VDict d \<Rightarrow> d | _ \<Rightarrow> [])"

text \<open>\<open>left != right and (left is not None or right is not None)\<close>\<close>

definition ref_changed :: "string \<Rightarrow> pydict \<Rightarrow> pydict \<Rightarrow> bool" where
  "ref_changed k left right =
     (\<not> py_eq (dict_get left k) (dict_get right k) \<and> (dict_get left k \<noteq> VNull \<or> dict_get right k \<noteq> VNull))"

definition CONFOUNDER_KEYS :: "string list" where
  "CONFOUNDER_KEYS = [''source_version_id'', ''target_version_id'', ''connection_version_id'',
     ''model_selection_version_id'', ''dashboard_version_id'']"

definition confounders :: "run_row \<Rightarrow> run_row \<Rightarrow> (string \<times> pyval \<times> pyval) list" where
  "confounders baseline candidate =
     (let left = version_refs baseline; right = version_refs candidate in
      map (\<lambda>k. (k, dict_get left k, dict_get right k)) (filter (\<lambda>k. ref_changed k left right) CONFOUNDER_KEYS)
      @ (if py_eq (dict_get left ''world_version_id'') (dict_get right ''world_version_id'') then []
         else [(''world_version_id'', dict_get left ''world_version_id'', dict_get right ''world_version_id'')])
      @ (if rr_repeats baseline = rr_repeats candidate then []
         else [(''repeat_count'', VInt (rr_repeats baseline), VInt (rr_repeats candidate))]))"

definition expected_dump :: "comparison_env \<Rightarrow> test_case \<Rightarrow> pyval" where
  "expected_dump E c = VDict (map (\<lambda>(k, v). (k, co_dump E v)) (tc_expected c))"

definition cases_by_id :: "run_row \<Rightarrow> (string \<times> test_case) list" where
  "cases_by_id r = dict_of (map (\<lambda>c. (tc_case_id c, c)) (sp_cases (rr_spec r)))"

text \<open>The cases of both runs under one key, with different expected values.\<close>

definition expected_changed ::
  "comparison_env \<Rightarrow> run_row \<Rightarrow> run_row \<Rightarrow> (string \<times> string) list \<Rightarrow> (string \<times> string) list \<Rightarrow> string \<Rightarrow> bool" where
  "expected_changed E baseline candidate base cand key =
     (case (map_of base key, map_of cand key) of
        (Some i, Some j) \<Rightarrow>
          (case (map_of (cases_by_id baseline) i, map_of (cases_by_id candidate) j) of
             (Some left, Some right) \<Rightarrow> \<not> py_eq (expected_dump E left) (expected_dump E right)
           | _ \<Rightarrow> False)
      | _ \<Rightarrow> False)"

definition common_keys :: "(string \<times> string) list \<Rightarrow> (string \<times> string) list \<Rightarrow> string list" where
  "common_keys base cand = sorted_set (filter (\<lambda>k. map_of cand k \<noteq> None) (map fst base))"

definition reference_change ::
  "comparison_env \<Rightarrow> run_row \<Rightarrow> run_row \<Rightarrow> (string \<times> string) list \<Rightarrow> (string \<times> string) list \<Rightarrow> string option" where
  "reference_change E baseline candidate base cand =
     (let left = version_refs baseline; right = version_refs candidate in
      if list_ex (expected_changed E baseline candidate base cand) (common_keys base cand)
      then Some ''reference_version_changed''
      else if ref_changed ''dataset_version_id'' left right then Some ''dataset_version_changed''
      else if ref_changed ''world_version_id'' left right then Some ''world_version_changed''
      else None)"

section \<open>The bootstrap interval\<close>

definition pick :: "'a list \<Rightarrow> nat \<Rightarrow> 'a res" where
  "pick xs i = (case drop i xs of [] \<Rightarrow> Inl IndexError | x # _ \<Rightarrow> Inr x)"

text \<open>\<open>int(p * (n - 1))\<close> for a non-negative float \<open>p\<close>.\<close>

definition quantile_index :: "flt \<Rightarrow> nat \<Rightarrow> nat res" where
  "quantile_index p n =
     (case flt_mul p (len_float (n - 1)) of Fin q \<Rightarrow> Inr (nat \<lfloor>q\<rfloor>) | NaN \<Rightarrow> Inl ValueError | _ \<Rightarrow> Inl OverflowError)"

definition resample :: "comparison_env \<Rightarrow> pyval \<Rightarrow> flt list \<Rightarrow> nat \<Rightarrow> flt res" where
  "resample E seed vs k =
     (let n = length vs in
      bind_res (traverse (\<lambda>i. pick vs (co_random E seed n (k * n + i))) [0..<n]) (\<lambda>ys. Inr (float_mean (co_ext E) ys)))"

definition Q_LOW :: flt where
  "Q_LOW = rat_to_float (25 / 1000)"

definition Q_HIGH :: flt where
  "Q_HIGH = rat_to_float (975 / 1000)"

definition bootstrap :: "comparison_env \<Rightarrow> flt list \<Rightarrow> nat \<Rightarrow> pyval \<Rightarrow> (flt \<times> flt) res" where
  "bootstrap E vs resamples seed =
     bind_res (traverse (resample E seed vs) [0..<resamples]) (\<lambda>ys.
       let samples = sorted_floats (co_ext E) ys in
       bind_res (quantile_index Q_LOW (length samples)) (\<lambda>i.
       bind_res (pick samples i) (\<lambda>low.
       bind_res (quantile_index Q_HIGH (length samples)) (\<lambda>j.
       bind_res (pick samples j) (\<lambda>high. Inr (low, high))))))"

section \<open>The comparison\<close>

record comparison =
  cp_baseline_cases :: nat
  cp_candidate_cases :: nat
  cp_common_cases :: nat
  cp_scored_cases :: nat
  cp_delta :: flt
  cp_interval :: "(flt \<times> flt) option"
  cp_no_ci :: bool
  cp_confounders :: "(string \<times> pyval \<times> pyval) list"

datatype compared = Incomparable string "nat option" | Comparable comparison

definition cases_by_key :: "store \<Rightarrow> string \<Rightarrow> string \<Rightarrow> (string \<times> string) list" where
  "cases_by_key st rid ws = dict_of (map (\<lambda>c. (cr_key c, cr_case c)) (list_cases st rid ws))"

definition paired_delta ::
  "(string \<times> string) list \<Rightarrow> (string \<times> string) list \<Rightarrow> (string \<times> flt) list \<Rightarrow> (string \<times> flt) list \<Rightarrow> string \<Rightarrow> flt option" where
  "paired_delta base cand base_scores cand_scores key =
     (case (map_of base key, map_of cand key) of
        (Some i, Some j) \<Rightarrow>
          (case (map_of base_scores i, map_of cand_scores j) of (Some x, Some y) \<Rightarrow> Some (flt_sub y x) | _ \<Rightarrow> None)
      | _ \<Rightarrow> None)"

definition compare_runs ::
  "comparison_env \<Rightarrow> store \<Rightarrow> string \<Rightarrow> run_row \<Rightarrow> run_row \<Rightarrow> string \<Rightarrow> nat \<Rightarrow> pyval \<Rightarrow> compared res" where
  "compare_runs E st ws baseline candidate mid resamples seed =
     (let base = cases_by_key st (rr_id baseline) ws; cand = cases_by_key st (rr_id candidate) ws;
          common = common_keys base cand in
      case reference_change E baseline candidate base cand of
        Some reason \<Rightarrow> Inr (Incomparable reason (Some (length common)))
      | None \<Rightarrow>
          let deltas = List.map_filter (paired_delta base cand (authoritative_scores E st (rr_id baseline) ws mid)
                         (authoritative_scores E st (rr_id candidate) ws mid)) common;
              no_ci = rr_repeats baseline < 3 \<or> rr_repeats candidate < 3 in
          if deltas = [] then Inr (Incomparable ''no_common_scored_cases'' (Some (length common)))
          else
            bind_res (if no_ci then Inr None
                      else bind_res (bootstrap E deltas resamples seed) (\<lambda>i. Inr (Some i))) (\<lambda>interval.
              Inr (Comparable
                \<lparr>cp_baseline_cases = length base, cp_candidate_cases = length cand, cp_common_cases = length common,
                 cp_scored_cases = length deltas, cp_delta = float_mean (co_ext E) deltas, cp_interval = interval,
                 cp_no_ci = no_ci, cp_confounders = confounders baseline candidate\<rparr>)))"

definition valid_resamples :: "pyval \<Rightarrow> nat res" where
  "valid_resamples v =
     (case v of VInt i \<Rightarrow> if 1 \<le> i \<and> i \<le> 10000 then Inr (nat i) else Inl (WorkflowError ''validation_error'')
      | _ \<Rightarrow> Inl (WorkflowError ''validation_error''))"

definition compare :: "comparison_env \<Rightarrow> store \<Rightarrow> string \<Rightarrow> string \<Rightarrow> string \<Rightarrow> string \<Rightarrow> pyval \<Rightarrow> pyval \<Rightarrow> compared res" where
  "compare E st ws baseline_id candidate_id mid resamples seed =
     bind_res (valid_resamples resamples) (\<lambda>n.
       case (get_run st baseline_id ws, get_run st candidate_id ws) of
         (Some baseline, Some candidate) \<Rightarrow>
           if rr_status baseline \<noteq> Run_COMPLETE \<or> rr_status candidate \<noteq> Run_COMPLETE
           then Inr (Incomparable ''runs_must_be_complete'' None)
           else
             (case (find (\<lambda>m. mt_metric_id m = mid) (sp_metrics (rr_spec baseline)),
                    find (\<lambda>m. mt_metric_id m = mid) (sp_metrics (rr_spec candidate))) of
                (Some m, Some m') \<Rightarrow>
                  if co_metric_key E m \<noteq> co_metric_key E m' then Inr (Incomparable ''metric_definition_changed'' None)
                  else compare_runs E st ws baseline candidate mid n seed
              | _ \<Rightarrow> Inr (Incomparable ''metric_missing'' None))
       | _ \<Rightarrow> Inl NotFound)"

end
