(* ===== verification/CalibrationProps.thy ===== *)
theory CalibrationProps
  imports Calibration StoreOrders
begin

text \<open>
  What calibration keeps true: the agreement of a list of labels is always defined, the row of a binding
  says what the labels of its generation say, and CALIBRATED is earned by them. This holds for operations
  that run one at a time; an operation that runs while another one commits can undo it, and the last
  section shows the interleaving.
\<close>

section \<open>The agreement is always defined\<close>

text \<open>Every float is a multiple of the smallest positive one, so floats that differ have a difference.\<close>

lemma ulp_grid: "\<exists>k. ulp q = of_int k * pow2 (- 1074)"
proof -
  define m where "m = max (log2_floor \<bar>q\<bar> - 52) (- 1074)"
  have "0 \<le> m + 1074" by (simp add: m_def)
  then have "ulp q = pow2 (int (nat (m + 1074))) * pow2 (- 1074)"
    unfolding pow2_add [symmetric] ulp_def m_def [symmetric] by simp
  then show ?thesis unfolding pow2_of_nat by blast
qed

lemma round64_grid: "\<exists>k. round64 q = of_int k * pow2 (- 1074)"
proof (cases "q = 0")
  case True
  then show ?thesis by (intro exI [of _ 0]) (simp add: round64_def)
next
  case False
  obtain k where "ulp q = of_int k * pow2 (- 1074)" using ulp_grid by blast
  then have "round64 q = of_int (round_even (q / ulp q) * k) * pow2 (- 1074)"
    using False by (simp add: round64_def Let_def)
  then show ?thesis by blast
qed

lemma round64_nonzero:
  assumes "pow2 (- 1074) \<le> \<bar>x\<bar>"
  shows "round64 x \<noteq> 0"
proof -
  have x: "x \<noteq> 0" using assms pow2_pos [of "- 1074"] by (auto simp del: pow2_pos)
  have "pow2 (log2_floor \<bar>x\<bar> - 52) \<le> \<bar>x\<bar>"
    using log2_floor_bounds(1) [of "\<bar>x\<bar>"] x order_trans [of "pow2 (log2_floor \<bar>x\<bar> - 52)" "pow2 (log2_floor \<bar>x\<bar>)" "\<bar>x\<bar>"]
    by simp
  then have "ulp x \<le> \<bar>x\<bar>" using assms by (auto simp: ulp_def max_def)
  then have y: "1 \<le> \<bar>x / ulp x\<bar>" using ulp_pos [of x] by (simp add: abs_divide abs_of_pos del: ulp_pos)
  have "round_even (x / ulp x) \<noteq> 0"
  proof
    assume "round_even (x / ulp x) = 0"
    then have "\<bar>x / ulp x\<bar> \<le> 1 / 2" using round_even_error [of "x / ulp x"] by (simp only: of_int_0 diff_0 abs_minus_cancel)
    then show False using y by linarith
  qed
  then show ?thesis using x by (simp add: round64_def Let_def)
qed

definition on_grid :: "flt \<Rightarrow> bool" where
  "on_grid f = (case f of Fin q \<Rightarrow> \<exists>k. q = of_int k * pow2 (- 1074) | _ \<Rightarrow> True)"

lemma on_grid_add: "on_grid (flt_add x y)"
  using round64_grid by (cases x; cases y) (simp_all add: on_grid_def rat_to_float_def)

lemma on_grid_zero: "on_grid (Fin 0)"
  by (auto simp: on_grid_def intro!: exI [of _ 0])

lemma one_minus:
  assumes "on_grid e" and "e \<noteq> Fin 1"
  shows "flt_sub (Fin 1) e \<noteq> Fin 0"
proof (cases e)
  case (Fin q)
  obtain k where k: "q = of_int k * pow2 (- 1074)" using assms(1) Fin by (auto simp: on_grid_def)
  have one: "1 = of_int (2 ^ 1074) * pow2 (- 1074)"
    using pow2_add [of "int 1074" "- 1074"] unfolding pow2_of_nat by (simp add: pow2_def)
  have diff: "1 - q = of_int (2 ^ 1074 - k) * pow2 (- 1074)"
    unfolding k of_int_diff left_diff_distrib one [symmetric] ..
  have "2 ^ 1074 - k \<noteq> 0"
  proof
    assume "2 ^ 1074 - k = 0"
    then have "1 - q = 0" using diff by simp
    then show False using assms(2) Fin by simp
  qed
  then have "1 \<le> \<bar>2 ^ 1074 - k\<bar>" by linarith
  then have "(1 :: rat) \<le> \<bar>of_int (2 ^ 1074 - k)\<bar>" unfolding of_int_abs [symmetric] of_int_1_le_iff .
  then have "pow2 (- 1074) \<le> \<bar>1 - q\<bar>" unfolding diff abs_mult
    using mult_right_mono [of 1 "\<bar>of_int (2 ^ 1074 - k)\<bar>" "pow2 (- 1074)"] pow2_pos [of "- 1074"]
    by (simp del: pow2_pos)
  then have "round64 (1 - q) \<noteq> 0" by (rule round64_nonzero)
  then show ?thesis by (simp add: Fin flt_sub_def rat_to_float_def)
qed (simp_all add: flt_sub_def)

lemma share_defined: "xs \<noteq> [] \<Longrightarrow> \<exists>q. int_div (int (length (filter p xs))) (int (length xs)) = Inr (Fin q)"
  using int_div_unit [of "int (length (filter p xs))" "int (length xs)"] by auto

lemma expected_defined:
  "pairs \<noteq> [] \<Longrightarrow> on_grid acc \<Longrightarrow> \<exists>e. expected_agreement X pairs ks acc = Inr e \<and> on_grid e"
proof (induction ks arbitrary: acc)
  case Nil
  then show ?case by simp
next
  case (Cons k ks)
  obtain h j where "int_div (int (length (filter (\<lambda>p. label_key X (fst p) = k) pairs))) (int (length pairs)) = Inr h"
      "int_div (int (length (filter (\<lambda>p. label_key X (snd p) = k) pairs))) (int (length pairs)) = Inr j"
    using share_defined [OF Cons.prems(1)] by metis
  then show ?case using Cons.IH [OF Cons.prems(1) on_grid_add] by simp
qed

lemma cohen_kappa_defined: "\<exists>k. cohen_kappa X f pairs = Inr k"
proof (cases "pairs = []")
  case True
  then show ?thesis by (simp add: cohen_kappa_def)
next
  case False
  obtain q where q: "int_div (int (length (filter (\<lambda>p. py_eq (fst p) (snd p)) pairs))) (int (length pairs)) = Inr (Fin q)"
    using share_defined [OF False] by blast
  obtain e where e: "expected_agreement X pairs (f (categories X pairs)) (Fin 0) = Inr e" "on_grid e"
    using expected_defined [OF False on_grid_zero] by blast
  show ?thesis using False q e(1) one_minus [OF e(2)] by (simp add: cohen_kappa_def)
qed

section \<open>The invariant of the tables\<close>

text \<open>A row is settled when it says what the labels of its generation say, with the shipped thresholds.\<close>

definition generation_labels :: "calibration_tables \<Rightarrow> calibration_row \<Rightarrow> (pyval \<times> pyval) list" where
  "generation_labels t r =
     map (\<lambda>l. (lb_human l, lb_judge l))
       (list_judge_calibration_labels t (cb_workspace r) (cb_key r) (Some (cb_generation r)))"

definition shipped_thresholds :: "calibration_row \<Rightarrow> bool" where
  "shipped_thresholds r =
     (cb_min_labels r = 30 \<and> cb_ready r = rat_to_float (6 / 10) \<and> cb_reset r = rat_to_float (5 / 10))"

definition row_settled :: "externals \<Rightarrow> calibration_tables \<Rightarrow> calibration_row \<Rightarrow> bool" where
  "row_settled X t r =
     (shipped_thresholds r
      \<and> cb_count r = int (length (generation_labels t r))
      \<and> (\<exists>f k. cohen_kappa X f (generation_labels t r) = Inr k \<and> cb_kappa r = sql_real k)
      \<and> cb_state r = rn_state (derive (readiness_of (cb_binding r) r)))"

definition calibration_ok :: "externals \<Rightarrow> calibration_tables \<Rightarrow> bool" where
  "calibration_ok X t =
     (unique calibration_key (ca_rows t)
      \<and> (\<forall>r \<in> set (ca_rows t). row_settled X t r)
      \<and> (\<forall>l \<in> set (ca_labels t). \<exists>r \<in> set (ca_rows t).
            calibration_key r = (lb_workspace l, lb_key l) \<and> lb_generation l \<le> cb_generation r))"

lemma set_insert_by: "set (insert_by lt x xs) = insert x (set xs)"
  by (induction xs) auto

lemma set_order_by: "set (order_by lt xs) = set xs"
  by (induction xs) (auto simp: order_by_def set_insert_by)

lemma insert_by_not_Nil: "insert_by lt x xs \<noteq> []"
  by (cases xs) simp_all

lemma order_by_Nil: "order_by lt xs = [] \<longleftrightarrow> xs = []"
  by (cases xs) (simp_all add: order_by_def insert_by_not_Nil)

lemma generation_labels_Nil:
  "generation_labels t r = [] \<longleftrightarrow>
   (\<forall>l \<in> set (ca_labels t). \<not> (calibration_key r = (lb_workspace l, lb_key l) \<and> lb_generation l = cb_generation r))"
  by (auto simp: generation_labels_def list_judge_calibration_labels_def order_by_Nil filter_empty_conv calibration_key_def)

lemma generation_labels_cong:
  "calibration_key r' = calibration_key r \<Longrightarrow> cb_generation r' = cb_generation r \<Longrightarrow>
   filter (\<lambda>l. (lb_workspace l, lb_key l) = calibration_key r) (ca_labels t')
     = filter (\<lambda>l. (lb_workspace l, lb_key l) = calibration_key r) (ca_labels t) \<Longrightarrow>
   generation_labels t' r' = generation_labels t r"
proof -
  assume k: "calibration_key r' = calibration_key r" and g: "cb_generation r' = cb_generation r"
    and f: "filter (\<lambda>l. (lb_workspace l, lb_key l) = calibration_key r) (ca_labels t')
      = filter (\<lambda>l. (lb_workspace l, lb_key l) = calibration_key r) (ca_labels t)"
  have split: "filter (\<lambda>l. lb_workspace l = cb_workspace r \<and> lb_key l = cb_key r \<and> cb_generation r = lb_generation l) ls
      = filter (\<lambda>l. cb_generation r = lb_generation l) (filter (\<lambda>l. (lb_workspace l, lb_key l) = calibration_key r) ls)"
    for ls by (simp add: calibration_key_def conj_ac)
  have "cb_workspace r' = cb_workspace r" "cb_key r' = cb_key r" using k by (simp_all add: calibration_key_def)
  then show ?thesis
    by (simp add: generation_labels_def list_judge_calibration_labels_def g split f)
qed

text \<open>The state depends on the count, the agreement and the thresholds, and a NaN counts as no agreement.\<close>

lemma derive_state:
  "rn_state (derive r) =
     (if kappa_below_reset r then (if 0 < rn_label_count r then CALIBRATING else UNCALIBRATED)
      else if sufficient r then CALIBRATED
      else if 0 < rn_label_count r then CALIBRATING else UNCALIBRATED)"
  by (simp add: derive_def)

lemma derive_state_cong:
  "rn_label_count r = rn_label_count r' \<Longrightarrow> rn_kappa r = rn_kappa r' \<Longrightarrow> rn_min_labels r = rn_min_labels r' \<Longrightarrow>
   rn_kappa_ready r = rn_kappa_ready r' \<Longrightarrow> rn_kappa_reset r = rn_kappa_reset r' \<Longrightarrow>
   rn_state (derive r) = rn_state (derive r')"
  by (cases "rn_kappa r'") (simp_all add: derive_state kappa_below_reset_def sufficient_def)

lemma derive_sql_real:
  "rn_state (derive (r\<lparr>rn_kappa := sql_real k\<rparr>)) = rn_state (derive (r\<lparr>rn_kappa := k\<rparr>))"
proof (cases "k = Some NaN")
  case True
  have "flt_lt NaN x = False" "flt_le x NaN = False" for x
    by (cases x; simp add: flt_le_def)+
  then show ?thesis by (simp add: True sql_real_def derive_state kappa_below_reset_def sufficient_def)
qed (simp add: sql_real_def)

text \<open>What saving a row leaves.\<close>

lemma set_upsert:
  "set (upsert key (\<lambda>old new. new) new rows) = insert new {r \<in> set rows. key r \<noteq> key new}"
  by (auto simp: upsert_def update_where_def list_ex_iff)

lemma find_upsert:
  "find (\<lambda>r. key r = key new) (upsert key (\<lambda>old new. new) new rows) = Some new"
proof (cases "list_ex (\<lambda>r. key r = key new) rows")
  case True
  then show ?thesis unfolding upsert_def by (simp add: update_where_def) (induction rows; auto)
next
  case False
  then have "find (\<lambda>r. key r = key new) rows = None" by (auto simp: find_None_iff list_ex_iff)
  then show ?thesis using False by (induction rows) (auto simp: upsert_def split: if_splits)
qed

lemma row_settled_rows [simp]: "row_settled X (t\<lparr>ca_rows := rows\<rparr>) r = row_settled X t r"
  by (simp add: row_settled_def generation_labels_def list_judge_calibration_labels_def)

lemma saved_ok:
  assumes "unique calibration_key (ca_rows t)"
    and "\<And>r. r \<in> set (ca_rows t) \<Longrightarrow> calibration_key r \<noteq> calibration_key row \<Longrightarrow> row_settled X t r"
    and "\<And>r. r \<in> set (ca_rows t) \<Longrightarrow> calibration_key r = calibration_key row \<Longrightarrow> cb_generation r \<le> cb_generation row"
    and "\<And>l. l \<in> set (ca_labels t) \<Longrightarrow> \<exists>r \<in> set (ca_rows t).
           calibration_key r = (lb_workspace l, lb_key l) \<and> lb_generation l \<le> cb_generation r"
    and "row_settled X t row"
  shows "calibration_ok X (t\<lparr>ca_rows := upsert calibration_key (\<lambda>old new. new) row (ca_rows t)\<rparr>)"
  unfolding calibration_ok_def
proof (intro conjI ballI)
  let ?t = "t\<lparr>ca_rows := upsert calibration_key (\<lambda>old new. new) row (ca_rows t)\<rparr>"
  show "unique calibration_key (ca_rows ?t)" using unique_upsert [of calibration_key row] assms(1) by simp
  show "row_settled X ?t r" if "r \<in> set (ca_rows ?t)" for r
    using that assms(2,5) by (auto simp: set_upsert)
  fix l
  assume "l \<in> set (ca_labels ?t)"
  then obtain r where r: "r \<in> set (ca_rows t)" "calibration_key r = (lb_workspace l, lb_key l)"
      "lb_generation l \<le> cb_generation r" using assms(4) by auto
  show "\<exists>r \<in> set (ca_rows ?t). calibration_key r = (lb_workspace l, lb_key l) \<and> lb_generation l \<le> cb_generation r"
  proof (cases "calibration_key r = calibration_key row")
    case True
    then have "lb_generation l \<le> cb_generation row" using assms(3) [OF r(1)] r(3) by simp
    then show ?thesis using True r(2) by (intro bexI [of _ row]) (simp_all add: set_upsert)
  next
    case False
    then show ?thesis using r by (intro bexI [of _ r]) (simp_all add: set_upsert)
  qed
qed

section \<open>Operations that run alone\<close>

definition alone :: "calibration_env \<Rightarrow> bool" where
  "alone E = (ce_others E = (\<lambda>_ t. t))"

lemma commit_alone: "alone E \<Longrightarrow>
   commit E op (t, n) = (case op (ce_now E n) t of Inl e \<Rightarrow> (Inl e, (t, Suc n)) | Inr (x, t') \<Rightarrow> (Inr x, (t', Suc n)))"
  by (simp add: commit_def alone_def)

lemma look_alone: "alone E \<Longrightarrow> look E f (t, n) = (Inr (f t), (t, Suc n))"
  by (simp add: look_def commit_alone)

abbreviation row_at :: "calibration_env \<Rightarrow> actor \<Rightarrow> judge_binding \<Rightarrow> calibration_tables \<Rightarrow> calibration_row option" where
  "row_at E a b t \<equiv> get_judge_calibration t (ac_workspace_id a) (ce_key E b)"

definition stored :: "calibration_env \<Rightarrow> actor \<Rightarrow> readiness \<Rightarrow> nat \<Rightarrow> calibration_row" where
  "stored E a r n =
     (row_of (ac_workspace_id a) (ce_key E (rn_binding r)) r)\<lparr>cb_kappa := sql_real (rn_kappa r), cb_updated := ce_now E n\<rparr>"

lemma find_row_alone: "alone E \<Longrightarrow> find_row E a b (t, n) = (Inr (row_at E a b t), (t, Suc n))"
  by (simp add: find_row_def look_alone)

lemma the_row_alone:
  "alone E \<Longrightarrow> row_at E a b t = Some r \<Longrightarrow> the_row E a b (t, n) = (Inr r, (t, Suc n))"
  by (simp add: the_row_def find_row_alone)

lemma generation_alone:
  "alone E \<Longrightarrow> row_at E a b t = Some r \<Longrightarrow> generation_of E a b (t, n) = (Inr (cb_generation r), (t, Suc n))"
  by (simp add: generation_of_def the_row_alone)

lemma save_row_alone:
  "alone E \<Longrightarrow> save_row E a r (t, n) =
     (Inr (), (t\<lparr>ca_rows := upsert calibration_key (\<lambda>old new. new) (stored E a r n) (ca_rows t)\<rparr>, Suc n))"
  by (simp add: save_row_def commit_alone upsert_judge_calibration_def stored_def row_of_def)

lemma stored_simps [simp]:
  "calibration_key (stored E a r n) = (ac_workspace_id a, ce_key E (rn_binding r))"
  "cb_generation (stored E a r n) = rn_generation r"
  by (simp_all add: stored_def row_of_def calibration_key_def)

lemma row_at_key: "row_at E a b t = find (\<lambda>r. calibration_key r = (ac_workspace_id a, ce_key E b)) (ca_rows t)"
  by (simp add: get_judge_calibration_def calibration_key_def)

lemma row_at_Some:
  "row_at E a b t = Some r \<Longrightarrow> r \<in> set (ca_rows t) \<and> calibration_key r = (ac_workspace_id a, ce_key E b)"
  unfolding row_at_key by (auto simp: find_Some_iff)

lemma row_at_unique:
  "calibration_ok X t \<Longrightarrow> row_at E a b t = Some r \<Longrightarrow> r' \<in> set (ca_rows t) \<Longrightarrow>
   calibration_key r' = (ac_workspace_id a, ce_key E b) \<Longrightarrow> r' = r"
  using row_at_Some [where E = E and a = a and b = b and t = t and r = r] unique_find [of calibration_key "ca_rows t" _ r r']
  by (auto simp: calibration_ok_def row_at_key)

lemma row_at_saved:
  "rn_binding r = b \<Longrightarrow>
   row_at E a b (t\<lparr>ca_rows := upsert calibration_key (\<lambda>old new. new) (stored E a r n) (ca_rows t)\<rparr>) = Some (stored E a r n)"
  unfolding row_at_key using find_upsert [of calibration_key "stored E a r n"] by simp

lemma row_settled_fresh:
  assumes "generation_labels t (stored E a r n) = []" and "rn_state r = UNCALIBRATED" and "rn_label_count r = 0"
    and "rn_kappa r = None" and "shipped_thresholds (stored E a r n)"
  shows "row_settled X t (stored E a r n)"
proof -
  have "cohen_kappa X id (generation_labels t (stored E a r n)) = Inr None" by (simp add: assms(1) cohen_kappa_def)
  moreover have "cb_count (stored E a r n) = 0" "cb_kappa (stored E a r n) = None" "cb_state (stored E a r n) = UNCALIBRATED"
    using assms(2-4) by (simp_all add: stored_def row_of_def sql_real_def)
  moreover have "rn_state (derive (readiness_of (cb_binding (stored E a r n)) (stored E a r n))) = UNCALIBRATED"
    using assms(3-5) by (simp add: stored_def row_of_def readiness_of_def derive_state kappa_below_reset_def sufficient_def
      sql_real_def shipped_thresholds_def)
  ultimately show ?thesis using assms(1,5) by (auto simp: row_settled_def sql_real_def)
qed

lemma calibration_get_alone:
  assumes "alone E" and "calibration_ok X t"
  shows "\<exists>out t' n'. calibration_get E a b (t, n) = (out, (t', n')) \<and> calibration_ok X t' \<and> ca_labels t' = ca_labels t
     \<and> (case out of Inl e \<Rightarrow> True | Inr c \<Rightarrow> \<exists>r. row_at E a b t' = Some r \<and> c = readiness_of b r)"
proof (cases "require_actor a False (Some (ac_workspace_id a))")
  case (Inl e)
  then show ?thesis using assms(2) by (simp add: calibration_get_def check_def)
next
  case (Inr u)
  show ?thesis
  proof (cases "row_at E a b t")
    case (Some r)
    then show ?thesis using Inr assms by (simp add: calibration_get_def check_def find_row_alone)
  next
    case None
    let ?row = "stored E a (new_readiness b) (Suc n)"
    let ?t = "t\<lparr>ca_rows := upsert calibration_key (\<lambda>old new. new) ?row (ca_rows t)\<rparr>"
    have b: "rn_binding (new_readiness b) = b" by (simp add: new_readiness_def)
    have no_row: "calibration_key r \<noteq> calibration_key ?row" if "r \<in> set (ca_rows t)" for r
      using None that b by (auto simp: row_at_key find_None_iff)
    have "generation_labels t ?row = []"
      using assms(2) no_row unfolding generation_labels_Nil calibration_ok_def by metis
    then have "row_settled X t ?row"
      by (rule row_settled_fresh) (simp_all add: new_readiness_def shipped_thresholds_def stored_def row_of_def)
    then have ok: "calibration_ok X ?t"
      using assms(2) no_row by (intro saved_ok) (auto simp: calibration_ok_def)
    have "calibration_get E a b (t, n) = (Inr (readiness_of b ?row), (?t, Suc (Suc (Suc n))))"
      using Inr None assms(1) b
      by (simp add: calibration_get_def check_def find_row_alone save_row_alone the_row_alone row_at_saved)
    then show ?thesis using ok row_at_saved [OF b] by auto
  qed
qed

lemma row_settled_thresholds:
  "calibration_ok X t \<Longrightarrow> row_at E a b t = Some r \<Longrightarrow> shipped_thresholds r"
  using row_at_Some [where E = E and a = a and b = b and t = t and r = r] by (auto simp: calibration_ok_def row_settled_def)

lemma reset_alone:
  assumes "alone E" and "calibration_ok X t"
  shows "calibration_ok X (fst (snd (calibration_reset E a b (t, n))))"
proof (cases "require_actor a True (Some (ac_workspace_id a))")
  case (Inl e)
  then show ?thesis using assms(2) by (simp add: calibration_reset_def check_def)
next
  case (Inr u)
  obtain out t1 n1 where g: "calibration_get E a b (t, n) = (out, (t1, n1))" "calibration_ok X t1" "ca_labels t1 = ca_labels t"
      "case out of Inl e \<Rightarrow> True | Inr c \<Rightarrow> \<exists>r. row_at E a b t1 = Some r \<and> c = readiness_of b r"
    using calibration_get_alone [OF assms, of a b n] by blast
  show ?thesis
  proof (cases out)
    case (Inl e)
    then show ?thesis using Inr g by (simp add: calibration_reset_def check_def)
  next
    case (Inr c)
    then obtain r where r: "row_at E a b t1 = Some r" "c = readiness_of b r" using g(4) by auto
    let ?new = "c\<lparr>rn_state := UNCALIBRATED, rn_label_count := 0, rn_kappa := None, rn_generation := cb_generation r + 1\<rparr>"
    let ?row = "stored E a ?new (Suc n1)"
    let ?t = "t1\<lparr>ca_rows := upsert calibration_key (\<lambda>old new. new) ?row (ca_rows t1)\<rparr>"
    have key: "calibration_key ?row = (ac_workspace_id a, ce_key E b)" by (simp add: r(2) readiness_of_def)
    have old: "r' = r" if "r' \<in> set (ca_rows t1)" "calibration_key r' = calibration_key ?row" for r'
      using row_at_unique [OF g(2) r(1) that(1)] that(2) unfolding key by blast
    have "generation_labels t1 ?row = []"
      using g(2) old unfolding generation_labels_Nil calibration_ok_def by fastforce
    then have "row_settled X t1 ?row"
      using row_settled_thresholds [OF g(2) r(1)]
      by (intro row_settled_fresh) (simp_all add: r(2) readiness_of_def shipped_thresholds_def stored_def row_of_def)
    then have ok: "calibration_ok X ?t"
      using g(2) old by (intro saved_ok) (auto simp: calibration_ok_def)
    have "fst (snd (calibration_reset E a b (t, n))) = fst (snd (calibration_get E a b (?t, Suc (Suc n1))))"
      using \<open>require_actor a True _ = Inr u\<close> g(1) Inr r(1) assms(1)
      by (simp add: calibration_reset_def check_def the_row_alone save_row_alone)
    then show ?thesis using calibration_get_alone [OF assms(1) ok, of a b "Suc (Suc n1)"] by auto
  qed
qed

text \<open>The agreement of a generation is recomputed from all of its labels; \<open>t\<close> may hold a label the row does not count yet.\<close>

lemma recompute_alone:
  assumes E: "alone E" and uniq: "unique calibration_key (ca_rows t)"
    and others: "\<And>r'. r' \<in> set (ca_rows t) \<Longrightarrow> r' \<noteq> r \<Longrightarrow> row_settled (ce_ext E) t r'"
    and labels: "\<And>l. l \<in> set (ca_labels t) \<Longrightarrow> \<exists>r \<in> set (ca_rows t).
           calibration_key r = (lb_workspace l, lb_key l) \<and> lb_generation l \<le> cb_generation r"
    and row: "row_at E a b t = Some r" and thresholds: "shipped_thresholds r"
  shows "\<exists>c t' n'. recompute E a b (readiness_of b r) (t, n) = (Inr c, (t', n')) \<and> calibration_ok (ce_ext E) t'
     \<and> rn_label_count c = int (length (generation_labels t r))"
proof -
  let ?c = "readiness_of b r"
  let ?ls = "list_judge_calibration_labels t (ac_workspace_id a) (ce_key E b) (Some (cb_generation r))"
  have r: "r \<in> set (ca_rows t)" "calibration_key r = (ac_workspace_id a, ce_key E b)"
    using row_at_Some [OF row] by auto
  have same: "r' = r" if "r' \<in> set (ca_rows t)" "calibration_key r' = (ac_workspace_id a, ce_key E b)" for r'
    using uniq that r by (metis distinct_map inj_onD)
  have ls: "generation_labels t r = map (\<lambda>l. (lb_human l, lb_judge l)) ?ls"
    using r(2) by (simp add: generation_labels_def calibration_key_def)
  obtain k where k: "cohen_kappa (ce_ext E) (ce_set_order E) (generation_labels t r) = Inr k"
    using cohen_kappa_defined by blast
  define x where "x = ?c\<lparr>rn_binding := b, rn_state := UNCALIBRATED, rn_label_count := int (length ?ls),
                         rn_kappa := k, rn_generation := cb_generation r\<rparr>"
  define d where "d = derive x"
  have d_simps: "rn_binding d = b" "rn_label_count d = int (length ?ls)" "rn_kappa d = k" "rn_generation d = cb_generation r"
      "rn_min_labels d = cb_min_labels r" "rn_kappa_ready d = cb_ready r" "rn_kappa_reset d = cb_reset r"
    by (simp_all add: d_def x_def derive_def readiness_of_def)
  define row where "row = stored E a d (Suc (Suc (Suc (Suc n))))"
  have row_simps: "cb_workspace row = cb_workspace r" "cb_key row = cb_key r" "cb_generation row = cb_generation r"
      "cb_binding row = b" "cb_state row = rn_state d"
      "cb_count row = int (length ?ls)" "cb_kappa row = sql_real k" "shipped_thresholds row"
    using r(2) thresholds d_simps by (simp_all add: row_def stored_def row_of_def calibration_key_def shipped_thresholds_def)
  have gl: "generation_labels t row = generation_labels t r" by (simp add: generation_labels_def row_simps)
  have "rn_state (derive (readiness_of b row)) = rn_state (derive (d\<lparr>rn_kappa := sql_real k\<rparr>))"
    using d_simps row_simps thresholds
    by (intro derive_state_cong) (simp_all add: readiness_of_def shipped_thresholds_def)
  also have "\<dots> = rn_state (derive (d\<lparr>rn_kappa := k\<rparr>))" by (rule derive_sql_real)
  also have "\<dots> = rn_state d"
    unfolding d_def by (rule derive_state_cong) (simp_all add: derive_def x_def)
  finally have row_settled: "row_settled (ce_ext E) t row"
    using row_simps ls k unfolding row_settled_def gl by auto
  have ok: "calibration_ok (ce_ext E) (t\<lparr>ca_rows := upsert calibration_key (\<lambda>old new. new) row (ca_rows t)\<rparr>)"
  proof (rule saved_ok [OF uniq _ _ labels row_settled])
    have key: "calibration_key row = (ac_workspace_id a, ce_key E b)"
      using row_simps r(2) by (simp add: calibration_key_def)
    fix r' assume r': "r' \<in> set (ca_rows t)"
    { assume "calibration_key r' \<noteq> calibration_key row"
      then have "r' \<noteq> r" using key r(2) by auto
      then show "row_settled (ce_ext E) t r'" by (rule others [OF r']) }
    { assume "calibration_key r' = calibration_key row"
      then have "r' = r" using same [OF r'] key by simp
      then show "cb_generation r' \<le> cb_generation row" by (simp add: row_simps) }
  qed
  have self: "d\<lparr>rn_generation := cb_generation r\<rparr> = d" using d_simps by simp
  have "recompute E a b ?c (t, n) =
      (Inr d, (t\<lparr>ca_rows := upsert calibration_key (\<lambda>old new. new) row (ca_rows t)\<rparr>, Suc (Suc (Suc (Suc (Suc n))))))"
    using k self unfolding ls
    by (simp add: recompute_def generation_alone [OF E assms(5)] look_alone [OF E] check_def save_row_alone [OF E]
        x_def [symmetric] d_def [symmetric] row_def [symmetric] Let_def)
  then show ?thesis using ok d_simps ls by auto
qed

lemma appended:
  assumes "append_judge_calibration_label l now t = Inr (y, t')"
  shows "ca_rows t' = ca_rows t" and "ca_labels t' = insert_or_ignore label_key_of (l\<lparr>lb_created := now\<rparr>) (ca_labels t)"
  using assms by (auto simp: append_judge_calibration_label_def Let_def bind_res_Inr_iff split: option.splits)

lemma set_insert_or_ignore: "set (insert_or_ignore key new rows) \<subseteq> insert new (set rows)"
  by (auto simp: insert_or_ignore_def)

lemma record_label_alone:
  assumes E: "alone E" and ok: "calibration_ok (ce_ext E) t"
  shows "calibration_ok (ce_ext E) (fst (snd (calibration_record_label E a b cid human judge i (t, n))))"
proof (cases "\<exists>human' judge'. require_actor a True (Some (ac_workspace_id a)) = Inr () \<and> \<not> blank cid
      \<and> label_value human = Inr human' \<and> label_value judge = Inr judge'")
  case False
  then show ?thesis using ok
    by (cases "require_actor a True (Some (ac_workspace_id a))"; cases "label_value human"; cases "label_value judge")
      (auto simp: calibration_record_label_def check_def ensure_def)
next
  case True
  then obtain human' judge' where args: "require_actor a True (Some (ac_workspace_id a)) = Inr ()" "\<not> blank cid"
      "label_value human = Inr human'" "label_value judge = Inr judge'" by blast
  obtain out t1 n1 where g: "calibration_get E a b (t, n) = (out, (t1, n1))" "calibration_ok (ce_ext E) t1"
      "case out of Inl e \<Rightarrow> True | Inr c \<Rightarrow> \<exists>r. row_at E a b t1 = Some r \<and> c = readiness_of b r"
    using calibration_get_alone [OF assms, of a b n] by blast
  show ?thesis
  proof (cases out)
    case (Inl e)
    then show ?thesis using args g by (simp add: calibration_record_label_def check_def ensure_def)
  next
    case (Inr c)
    then obtain r where r: "row_at E a b t1 = Some r" "c = readiness_of b r" using g(3) by auto
    define l where "l = \<lparr>lb_workspace = ac_workspace_id a, lb_key = ce_key E b, lb_generation = cb_generation r,
        lb_id = given_or_fresh E i (Suc n1), lb_case = cid, lb_human = human', lb_judge = judge',
        lb_author = ac_actor_id a, lb_created = 0\<rparr>"
    have start: "calibration_record_label E a b cid human judge i (t, n) =
        bind_w (commit E (append_judge_calibration_label l) (t1, Suc n1)) (\<lambda>_. recompute E a b c)"
      using args g(1) Inr r(1)
      by (simp add: calibration_record_label_def check_def ensure_def generation_alone [OF E] l_def)
    show ?thesis
    proof (cases "append_judge_calibration_label l (ce_now E (Suc n1)) t1")
      case (Inl e)
      then show ?thesis using g(2) by (simp add: start commit_alone [OF E])
    next
      case (Inr p)
      obtain y t2 where p: "p = (y, t2)" by (cases p)
      note t2 = appended [OF Inr [unfolded p]]
      have r_in: "r \<in> set (ca_rows t1)" "calibration_key r = (ac_workspace_id a, ce_key E b)"
        using row_at_Some [OF r(1)] by auto
      have row: "row_at E a b t2 = Some r" using r(1) by (simp add: get_judge_calibration_def t2(1))
      have others: "row_settled (ce_ext E) t2 r'" if r': "r' \<in> set (ca_rows t2)" "r' \<noteq> r" for r'
      proof -
        have key: "calibration_key r' \<noteq> (ac_workspace_id a, ce_key E b)"
          using row_at_unique [OF g(2) r(1)] r' t2(1) by auto
        have "generation_labels t2 r' = generation_labels t1 r'"
          using key by (intro generation_labels_cong) (auto simp: t2(2) l_def intro!: filter_insert)
        then show ?thesis using g(2) r'(1) by (simp add: calibration_ok_def row_settled_def t2(1))
      qed
      have labels: "\<exists>r \<in> set (ca_rows t2). calibration_key r = (lb_workspace l', lb_key l') \<and> lb_generation l' \<le> cb_generation r"
        if "l' \<in> set (ca_labels t2)" for l'
      proof -
        have "l' = l\<lparr>lb_created := ce_now E (Suc n1)\<rparr> \<or> l' \<in> set (ca_labels t1)"
          using that set_insert_or_ignore unfolding t2(2) by fastforce
        then show ?thesis using g(2) r_in by (auto simp: calibration_ok_def t2(1) l_def)
      qed
      have "unique calibration_key (ca_rows t2)" using g(2) by (simp add: calibration_ok_def t2(1))
      from recompute_alone [OF E this others labels row row_settled_thresholds [OF g(2) r(1)], of "Suc (Suc n1)"]
      show ?thesis using Inr p r(2) by (auto simp: start commit_alone [OF E])
    qed
  qed
qed

section \<open>Histories\<close>

inductive calibration_step :: "externals \<Rightarrow> calibration_tables \<Rightarrow> calibration_tables \<Rightarrow> bool" for X where
  got: "alone E \<Longrightarrow> ce_ext E = X \<Longrightarrow> calibration_get E a b (t, n) = (out, t', n') \<Longrightarrow> calibration_step X t t'"
| labelled: "alone E \<Longrightarrow> ce_ext E = X \<Longrightarrow> calibration_record_label E a b cid human judge i (t, n) = (out, t', n') \<Longrightarrow>
     calibration_step X t t'"
| restarted: "alone E \<Longrightarrow> ce_ext E = X \<Longrightarrow> calibration_reset E a b (t, n) = (out, t', n') \<Longrightarrow> calibration_step X t t'"

definition no_calibrations :: calibration_tables where
  "no_calibrations = \<lparr>ca_rows = [], ca_labels = []\<rparr>"

lemma calibration_step_ok: "calibration_step X t t' \<Longrightarrow> calibration_ok X t \<Longrightarrow> calibration_ok X t'"
proof (induction rule: calibration_step.induct)
  case (got E a b t n out t' n')
  then show ?case using calibration_get_alone [of E X t a b n] by auto
next
  case (labelled E a b cid human judge i t n out t' n')
  then show ?case using record_label_alone [of E t a b cid human judge i n] by auto
next
  case (restarted E a b t n out t' n')
  then show ?case using reset_alone [of E X t a b n] by auto
qed

lemma calibrations_ok: "(calibration_step X)\<^sup>*\<^sup>* no_calibrations t \<Longrightarrow> calibration_ok X t"
proof (induction rule: rtranclp_induct)
  case base
  show ?case by (simp add: calibration_ok_def no_calibrations_def)
qed (rule calibration_step_ok)


section \<open>An interleaving\<close>

text \<open>An owner, a binding and an environment with nobody else, for examples.\<close>

definition owner :: actor where
  "owner = \<lparr>ac_actor_id = ''o'', ac_workspace_id = ''w'', ac_role = ''owner''\<rparr>"

definition a_binding :: judge_binding where
  "a_binding = \<lparr>jb_provider = ''p'', jb_model = ''m'', jb_schema_version = ''1'', jb_rubric_version = ''1''\<rparr>"

definition quiet :: calibration_env where
  "quiet = \<lparr>ce_ext = no_externals, ce_key = (\<lambda>b. jb_model b), ce_set_order = id, ce_now = int, ce_fresh = (\<lambda>n. [char_of n]),
     ce_others = (\<lambda>_ t. t)\<rparr>"

text \<open>29 agreeing labels of generation 0 and the row they give.\<close>

definition nearly_calibrated :: calibration_tables where
  "nearly_calibrated =
     \<lparr>ca_rows = [(row_of ''w'' ''m'' (derive ((new_readiness a_binding)\<lparr>rn_label_count := 29, rn_kappa := Some (Fin 1)\<rparr>)))],
      ca_labels = map (\<lambda>(c, i). \<lparr>lb_workspace = ''w'', lb_key = ''m'', lb_generation = 0, lb_id = [c],
        lb_case = ''c'', lb_human = VBool True, lb_judge = VBool True, lb_author = ''o'', lb_created = i\<rparr>)
        (zip ''abcdefghijklmnopqrstuvwxyzABC'' [- 29 .. - 1])\<rparr>"

text \<open>Somebody resets the binding just before the \<open>k\<close>-th transaction of another operation.\<close>

definition reset_before :: "nat \<Rightarrow> calibration_env" where
  "reset_before k = quiet\<lparr>ce_others := (\<lambda>n t. if n = k then fst (snd (calibration_reset quiet owner a_binding (t, 0))) else t)\<rparr>"

definition label_during_reset :: "nat \<Rightarrow> calibration_tables" where
  "label_during_reset k =
     fst (snd (calibration_record_label (reset_before k) owner a_binding ''c'' (VBool True) (VBool True) None (nearly_calibrated, 0)))"

text \<open>The generation, state and count of every row, with the labels its generation has.\<close>

definition overview :: "calibration_tables \<Rightarrow> (int \<times> readiness_state \<times> int \<times> (pyval \<times> pyval) list) list" where
  "overview t = map (\<lambda>r. (cb_generation r, cb_state r, cb_count r, generation_labels t r)) (ca_rows t)"


lemma nearly_calibrated_ok: "calibration_ok no_externals nearly_calibrated"
proof -
  define r where "r = hd (ca_rows nearly_calibrated)"
  have rows: "ca_rows nearly_calibrated = [r]" by (simp add: r_def nearly_calibrated_def)
  have gl: "generation_labels nearly_calibrated r = replicate 29 (VBool True, VBool True)" unfolding r_def by code_simp
  have k: "cohen_kappa no_externals id (replicate 29 (VBool True, VBool True)) = Inr (Some (Fin 1))" by code_simp
  have "cb_kappa r = Some (Fin 1) \<and> cb_count r = 29 \<and> cb_state r = rn_state (derive (readiness_of (cb_binding r) r))"
    unfolding r_def by code_simp
  moreover have "shipped_thresholds r" unfolding r_def by code_simp
  ultimately have "row_settled no_externals nearly_calibrated r"
    unfolding row_settled_def gl using k by (auto simp: sql_real_def)
  moreover have "list_all (\<lambda>l. calibration_key r = (lb_workspace l, lb_key l) \<and> lb_generation l \<le> cb_generation r)
      (ca_labels nearly_calibrated)"
    by (simp add: r_def nearly_calibrated_def list_all_iff calibration_key_def row_of_def derive_def new_readiness_def a_binding_def
        split: prod.split)
  ultimately show ?thesis unfolding calibration_ok_def rows by (simp add: list_all_iff)
qed


end
