(* ===== verification/ComparisonProps.thy ===== *)
theory ComparisonProps
  imports Comparisons CalibrationProps EngineProps
begin

text \<open>
  What a comparison promises: it is made only between completed runs that measured the same thing, on
  the authoritative scores of cases both have; the interval is ordered; and no other exception leaves it
  than those for a bad argument or a missing run.
\<close>

section \<open>Dictionaries and scores\<close>

lemma dict_of_snoc: "dict_of (kvs @ [(k, v)]) = AList.update k v (dict_of kvs)"
  by (simp add: dict_of_def)

lemma dict_of_keys: "distinct (map fst (dict_of kvs)) \<and> set (map fst (dict_of kvs)) = set (map fst kvs)"
proof (induction kvs rule: rev_induct)
  case Nil
  then show ?case by (simp add: dict_of_def)
next
  case (snoc kv kvs)
  obtain k v where kv: "kv = (k, v)" by (cases kv)
  show ?case unfolding kv dict_of_snoc using snoc distinct_update [of "dict_of kvs" k v] by (auto simp: dom_update)
qed

lemma dict_of_entry: "map_of (dict_of kvs) k = Some v \<Longrightarrow> (k, v) \<in> set kvs"
proof (induction kvs rule: rev_induct)
  case Nil
  then show ?case by (simp add: dict_of_def)
next
  case (snoc kv kvs)
  obtain k' v' where kv: "kv = (k', v')" by (cases kv)
  show ?case using snoc unfolding kv dict_of_snoc by (auto simp: update_conv' split: if_splits)
qed

text \<open>A row that may enter a comparison.\<close>

definition authoritative :: "store \<Rightarrow> string \<Rightarrow> string \<Rightarrow> string \<Rightarrow> string \<Rightarrow> flt \<Rightarrow> bool" where
  "authoritative st rid ws mid cid x =
     list_ex (\<lambda>r. cm_run r = rid \<and> cm_workspace r = ws \<and> cm_metric r = mid \<and> cm_case r = cid
                  \<and> cm_authoritative r \<and> cm_status r \<in> {PASS, FAIL} \<and> cm_score r = Some x) (st_case_metrics st)"

text \<open>What the parameters are documented to do: rows come back reordered, a draw below \<open>n\<close> is below \<open>n\<close>,
  and sorting keeps the number of values.\<close>

definition faithful :: "comparison_env \<Rightarrow> bool" where
  "faithful E =
     ((\<forall>rows. set (co_row_order E rows) = set rows)
      \<and> (\<forall>seed n j. 0 < n \<longrightarrow> co_random E seed n j < n)
      \<and> (\<forall>vs. length (nan_sorted (co_ext E) vs) = length vs))"

lemma authoritative_scores_rows:
  assumes "faithful E" and "map_of (authoritative_scores E st rid ws mid) i = Some x"
  shows "authoritative st rid ws mid i x"
proof -
  have "(i, x) \<in> set (List.map_filter (\<lambda>r. if is_scored r then map_option (Pair (cm_case r)) (cm_score r) else None)
      (get_case_scores (co_row_order E) st rid ws None (Some mid) None))"
    using assms(2) unfolding authoritative_scores_def by (rule dict_of_entry)
  then obtain r where r: "r \<in> set (get_case_scores (co_row_order E) st rid ws None (Some mid) None)"
      "is_scored r" "cm_case r = i" "cm_score r = Some x"
    by (auto simp: List.map_filter_def split: if_splits)
  then have "r \<in> set (st_case_metrics st)" "cm_run r = rid" "cm_workspace r = ws" "cm_metric r = mid"
    using assms(1) by (auto simp: get_case_scores_def set_order_by faithful_def)
  then show ?thesis using r by (auto simp: authoritative_def list_ex_iff is_scored_def)
qed

section \<open>The interval\<close>

lemma set_insert_text: "set (insert_text s ts) = insert s (set ts)"
  by (induction ts) auto

lemma set_sorted_set: "set (sorted_set ss) = set ss"
  by (induction ss) (auto simp: sorted_set_def set_insert_text)

lemma quantiles:
  assumes "0 < n" and "n \<le> 10000"
  shows "\<exists>i j. quantile_index Q_LOW n = Inr i \<and> quantile_index Q_HIGH n = Inr j \<and> i \<le> j \<and> j < n"
proof -
  define m where "m = n - 1"
  define M where "M = (of_nat m :: rat)"
  have m: "m \<le> 9999" "m < n" using assms by (simp_all add: m_def)
  have M: "0 \<le> M" "M \<le> 9999" unfolding M_def using m(1) by (simp_all del: of_nat_le_iff add: of_nat_le_iff [of m 9999, simplified])
  have low: "Q_LOW = Fin (3602879701896397 / 144115188075855872)"
  proof -
    have "round64 (25 / 1000) = 3602879701896397 / 144115188075855872" by code_simp
    then show ?thesis by (simp add: Q_LOW_def below_float_limit)
  qed
  have high: "Q_HIGH = Fin (8782019273372467 / 9007199254740992)"
  proof -
    have "round64 (975 / 1000) = 8782019273372467 / 9007199254740992" by code_simp
    then show ?thesis by (simp add: Q_HIGH_def below_float_limit)
  qed
  have len: "len_float m = Fin M" using round64_of_nat [of m] m(1) M by (simp add: len_float_def below_float_limit M_def)
  let ?c = "3602879701896397 / 144115188075855872 :: rat" and ?d = "8782019273372467 / 9007199254740992 :: rat"
  have prods: "flt_mul Q_LOW (len_float m) = Fin (round64 (?c * M))" "flt_mul Q_HIGH (len_float m) = Fin (round64 (?d * M))"
    using M by (simp_all add: low high len below_float_limit)
  have index: "quantile_index p n =
      (case flt_mul p (len_float m) of Fin q \<Rightarrow> Inr (nat \<lfloor>q\<rfloor>) | NaN \<Rightarrow> Inl ValueError | _ \<Rightarrow> Inl OverflowError)" for p
    by (simp only: quantile_index_def m_def)
  show ?thesis
  proof (cases "m = 0")
    case True
    then have "quantile_index Q_LOW n = Inr 0" "quantile_index Q_HIGH n = Inr 0"
      unfolding index prods by (simp_all add: M_def round64_def)
    then show ?thesis using assms(1) by simp
  next
    case False
    then have "1 \<le> M" by (simp add: M_def Suc_le_eq)
    have eps: "pow2 (- 53) \<le> 1 / 1000" "pow2 (- 1022) \<le> 1 / 1000" by (simp_all add: pow2_def)
    have near: "\<bar>round64 (q * M) - q * M\<bar> \<le> q * M * (1 / 1000)" if "1 / 100 \<le> q" for q
    proof -
      have pos: "1 / 100 \<le> q * M" using mult_mono [OF that \<open>1 \<le> M\<close>] that by simp
      then have "\<bar>round64 (q * M) - q * M\<bar> \<le> \<bar>q * M\<bar> * pow2 (- 53)" using eps(2) by (intro round64_relative) simp
      also have "\<dots> \<le> q * M * (1 / 1000)" using pos by (intro mult_mono eps(1)) (simp_all add: less_imp_le)
      finally show ?thesis .
    qed
    have "\<bar>round64 (?c * M) - ?c * M\<bar> \<le> ?c * M * (1 / 1000)" by (rule near) simp
    then have lo: "round64 (?c * M) \<le> M / 2" using M(1) unfolding abs_le_iff by linarith
    have "\<bar>round64 (?d * M) - ?d * M\<bar> \<le> ?d * M * (1 / 1000)" by (rule near) simp
    then have hi: "M / 2 \<le> round64 (?d * M)" using M(1) unfolding abs_le_iff by linarith
    have "?d * M \<le> of_int (int m)" using M(1) by (simp add: M_def)
    then have top: "round64 (?d * M) \<le> of_int (int m)"
      using \<open>1 \<le> M\<close> m(1) by (intro round64_le_int) simp_all
    have "\<lfloor>round64 (?c * M)\<rfloor> \<le> \<lfloor>round64 (?d * M)\<rfloor>" using lo hi by (intro floor_mono) linarith
    moreover have "\<lfloor>round64 (?d * M)\<rfloor> \<le> int m" using top by (metis floor_mono floor_of_int)
    ultimately show ?thesis
      using m(2) unfolding index prods by simp linarith
  qed
qed

lemma pick_nth: "i < length xs \<Longrightarrow> pick xs i = Inr (xs ! i)"
  by (simp add: pick_def Cons_nth_drop_Suc [symmetric])

lemma resample_total:
  assumes "faithful E" and "vs \<noteq> []"
  shows "\<exists>y. resample E seed vs k = Inr y"
proof -
  have "pick vs (co_random E seed (length vs) j) = Inr (vs ! co_random E seed (length vs) j)" for j
    using assms by (intro pick_nth) (simp add: faithful_def)
  then have "\<exists>ys. traverse (\<lambda>i. pick vs (co_random E seed (length vs) (k * length vs + i))) [0..<length vs] = Inr ys"
    by (intro traverse_ex) blast
  then show ?thesis by (auto simp: resample_def Let_def)
qed

lemma bootstrap_interval:
  assumes E: "faithful E" and vs: "vs \<noteq> []" and n: "0 < n" "n \<le> 10000"
  shows "\<exists>low high. bootstrap E vs n seed = Inr (low, high)
     \<and> (flt_le low high \<or> (\<exists>k < n. resample E seed vs k = Inr NaN))"
proof -
  obtain ys where ys: "traverse (resample E seed vs) [0..<n] = Inr ys"
    using traverse_ex [of "[0..<n]" "resample E seed vs"] resample_total [OF E vs] by blast
  let ?s = "sorted_floats (co_ext E) ys"
  have len_ys: "length ys = n" using traverse_length [OF ys] by simp
  have len: "length ?s = n"
  proof (cases "NaN \<in> set ys")
    case True
    then show ?thesis using E len_ys by (auto simp: sorted_floats_def list_ex_iff faithful_def)
  next
    case False
    then show ?thesis using sorted_floats_spec [of ys "co_ext E"] len_ys by (metis size_mset)
  qed
  obtain i j where ij: "quantile_index Q_LOW n = Inr i" "quantile_index Q_HIGH n = Inr j" "i \<le> j" "j < n"
    using quantiles [OF n] by blast
  have result: "bootstrap E vs n seed = Inr (?s ! i, ?s ! j)"
    using ys ij by (simp add: bootstrap_def Let_def len pick_nth)
  have "flt_le (?s ! i) (?s ! j)" if "NaN \<notin> set ys"
  proof -
    have asc: "sorted_wrt flt_le ?s" and mem: "NaN \<notin> set ?s"
      using sorted_floats_spec [OF that, of "co_ext E"] that by (auto simp: ascending_def dest: mset_eq_setD)
    show ?thesis
    proof (cases "i = j")
      case True
      have "?s ! j \<noteq> NaN" using mem ij(4) len by (metis nth_mem)
      then show ?thesis unfolding True by (rule flt_le_refl)
    next
      case False
      then show ?thesis using sorted_wrt_nth_less [OF asc, of i j] ij len by simp
    qed
  qed
  moreover have "\<exists>k < n. resample E seed vs k = Inr NaN" if nan: "NaN \<in> set ys"
  proof -
    have "\<exists>k \<in> set [0..<n]. resample E seed vs k = Inr NaN" by (rule traverse_set [OF ys nan])
    then show ?thesis by auto
  qed
  ultimately show ?thesis using result by blast
qed

section \<open>Comparisons\<close>

lemma valid_resamples_Inr: "valid_resamples v = Inr n \<Longrightarrow> 0 < n \<and> n \<le> 10000"
  by (auto simp: valid_resamples_def split: pyval.splits if_splits)

lemma valid_resamples_Inl: "valid_resamples v = Inl e \<Longrightarrow> e = WorkflowError ''validation_error''"
  by (auto simp: valid_resamples_def split: pyval.splits if_splits)

lemma world_not_confounding:
  assumes "\<not> ref_changed ''world_version_id'' (version_refs b) (version_refs c)"
  shows "''world_version_id'' \<notin> fst ` set (confounders b c)"
proof -
  have "py_eq (dict_get (version_refs b) ''world_version_id'') (dict_get (version_refs c) ''world_version_id'')"
    using assms by (cases "dict_get (version_refs b) ''world_version_id''") (auto simp: ref_changed_def)
  then have "confounders b c =
      map (\<lambda>k. (k, dict_get (version_refs b) k, dict_get (version_refs c) k))
        (filter (\<lambda>k. ref_changed k (version_refs b) (version_refs c)) CONFOUNDER_KEYS)
      @ (if rr_repeats b = rr_repeats c then [] else [(''repeat_count'', VInt (rr_repeats b), VInt (rr_repeats c))])"
    by (simp add: confounders_def Let_def)
  then have "fst ` set (confounders b c) \<subseteq> set (''repeat_count'' # CONFOUNDER_KEYS)" by auto
  moreover have "''world_version_id'' \<notin> set (''repeat_count'' # CONFOUNDER_KEYS)" by (simp add: CONFOUNDER_KEYS_def)
  ultimately show ?thesis by blast
qed

lemma reference_change_None:
  assumes "reference_change E b c base cand = None"
  shows "list_all (\<lambda>k. \<not> expected_changed E b c base cand k) (common_keys base cand)"
    and "\<not> ref_changed ''dataset_version_id'' (version_refs b) (version_refs c)"
    and "\<not> ref_changed ''world_version_id'' (version_refs b) (version_refs c)"
  using assms by (simp_all add: reference_change_def Let_def list_ex_iff list_all_iff split: if_split_asm)

lemma paired_deltas:
  assumes "faithful E"
    and "d \<in> set (List.map_filter (paired_delta base cand (authoritative_scores E st rid ws mid)
                   (authoritative_scores E st rid' ws mid)) ks)"
  shows "\<exists>k i j x y. map_of base k = Some i \<and> map_of cand k = Some j
     \<and> authoritative st rid ws mid i x \<and> authoritative st rid' ws mid j y \<and> d = flt_sub y x"
proof -
  obtain k where "paired_delta base cand (authoritative_scores E st rid ws mid) (authoritative_scores E st rid' ws mid) k = Some d"
    using assms(2) by (auto simp: List.map_filter_def)
  then obtain i j x y where "map_of base k = Some i" "map_of cand k = Some j" "d = flt_sub y x"
      "map_of (authoritative_scores E st rid ws mid) i = Some x" "map_of (authoritative_scores E st rid' ws mid) j = Some y"
    by (auto simp: paired_delta_def split: option.split_asm)
  then show ?thesis using authoritative_scores_rows [OF assms(1)] by blast
qed

lemma compare_runs_Comparable:
  assumes E: "faithful E" and n: "0 < n" "n \<le> 10000"
    and r: "compare_runs E st ws b c mid n seed = Inr (Comparable r)"
  shows "\<exists>ds. list_all (\<lambda>k. \<not> expected_changed E b c (cases_by_key st (rr_id b) ws) (cases_by_key st (rr_id c) ws) k)
             (common_keys (cases_by_key st (rr_id b) ws) (cases_by_key st (rr_id c) ws))
     \<and> list_all (\<lambda>d. \<exists>k i j x y. map_of (cases_by_key st (rr_id b) ws) k = Some i
             \<and> map_of (cases_by_key st (rr_id c) ws) k = Some j
             \<and> authoritative st (rr_id b) ws mid i x \<and> authoritative st (rr_id c) ws mid j y \<and> d = flt_sub y x) ds
     \<and> cp_delta r = float_mean (co_ext E) ds \<and> cp_scored_cases r = length ds \<and> 0 < length ds
     \<and> length ds \<le> cp_common_cases r
     \<and> (case cp_interval r of None \<Rightarrow> rr_repeats b < 3 \<or> rr_repeats c < 3
         | Some (low, high) \<Rightarrow> 3 \<le> rr_repeats b \<and> 3 \<le> rr_repeats c
             \<and> (flt_le low high \<or> (\<exists>k. resample E seed ds k = Inr NaN)))
     \<and> ''world_version_id'' \<notin> fst ` set (cp_confounders r)"
proof -
  let ?base = "cases_by_key st (rr_id b) ws" and ?cand = "cases_by_key st (rr_id c) ws"
  define ds where "ds = List.map_filter (paired_delta ?base ?cand (authoritative_scores E st (rr_id b) ws mid)
      (authoritative_scores E st (rr_id c) ws mid)) (common_keys ?base ?cand)"
  have same: "reference_change E b c ?base ?cand = None"
    using r by (auto simp: compare_runs_def Let_def split: option.splits)
  have nonempty: "ds \<noteq> []" using r same by (auto simp: compare_runs_def Let_def ds_def [symmetric])
  obtain interval where i: "(if rr_repeats b < 3 \<or> rr_repeats c < 3 then Inr None
        else bind_res (bootstrap E ds n seed) (\<lambda>i. Inr (Some i))) = Inr interval"
      and rr: "r = \<lparr>cp_baseline_cases = length ?base, cp_candidate_cases = length ?cand,
        cp_common_cases = length (common_keys ?base ?cand), cp_scored_cases = length ds,
        cp_delta = float_mean (co_ext E) ds, cp_interval = interval,
        cp_no_ci = (rr_repeats b < 3 \<or> rr_repeats c < 3), cp_confounders = confounders b c\<rparr>"
    using r same nonempty by (auto simp: compare_runs_def Let_def ds_def [symmetric] bind_res_Inr_iff)
  have "length ds \<le> length (common_keys ?base ?cand)"
    by (simp add: ds_def List.map_filter_def)
  moreover have "case interval of None \<Rightarrow> rr_repeats b < 3 \<or> rr_repeats c < 3
         | Some (low, high) \<Rightarrow> 3 \<le> rr_repeats b \<and> 3 \<le> rr_repeats c
             \<and> (flt_le low high \<or> (\<exists>k. resample E seed ds k = Inr NaN))"
  proof (cases "rr_repeats b < 3 \<or> rr_repeats c < 3")
    case True
    then show ?thesis using i by auto
  next
    case False
    then show ?thesis using i bootstrap_interval [OF E nonempty n, of seed] by (auto simp: bind_res_Inr_iff)
  qed
  moreover have "list_all (\<lambda>d. \<exists>k i j x y. map_of ?base k = Some i \<and> map_of ?cand k = Some j
      \<and> authoritative st (rr_id b) ws mid i x \<and> authoritative st (rr_id c) ws mid j y \<and> d = flt_sub y x) ds"
    unfolding list_all_iff ds_def using paired_deltas [OF E] by blast
  moreover note reference_change_None(1) [OF same] world_not_confounding [OF reference_change_None(3) [OF same]]
  ultimately show ?thesis using nonempty unfolding rr by (intro exI [of _ ds]) simp
qed

text \<open>
  C13. Comparable runs measured the same thing: a comparison is made only of two completed runs of the
  workspace whose metric has one digest and whose common cases have the same expected values; its delta
  is the mean of differences of authoritative PASS or FAIL scores of a case both runs have under one key,
  of at least one and at most all common cases; an interval is given exactly when both runs have three
  repeats, and it is ordered unless a resampled mean is NaN; and the world version, which the code lists
  as a possible confounder, never is one.
\<close>

theorem comparable_runs:
  assumes "faithful E" and "compare E st ws bid cid mid resamples seed = Inr (Comparable r)"
  shows "\<exists>b c m m' ds. get_run st bid ws = Some b \<and> get_run st cid ws = Some c
     \<and> rr_status b = Run_COMPLETE \<and> rr_status c = Run_COMPLETE
     \<and> find (\<lambda>m. mt_metric_id m = mid) (sp_metrics (rr_spec b)) = Some m
     \<and> find (\<lambda>m. mt_metric_id m = mid) (sp_metrics (rr_spec c)) = Some m' \<and> co_metric_key E m = co_metric_key E m'
     \<and> list_all (\<lambda>k. \<not> expected_changed E b c (cases_by_key st (rr_id b) ws) (cases_by_key st (rr_id c) ws) k)
             (common_keys (cases_by_key st (rr_id b) ws) (cases_by_key st (rr_id c) ws))
     \<and> list_all (\<lambda>d. \<exists>k i j x y. map_of (cases_by_key st (rr_id b) ws) k = Some i
             \<and> map_of (cases_by_key st (rr_id c) ws) k = Some j
             \<and> authoritative st (rr_id b) ws mid i x \<and> authoritative st (rr_id c) ws mid j y \<and> d = flt_sub y x) ds
     \<and> cp_delta r = float_mean (co_ext E) ds \<and> cp_scored_cases r = length ds \<and> 0 < length ds
     \<and> length ds \<le> cp_common_cases r
     \<and> (case cp_interval r of None \<Rightarrow> rr_repeats b < 3 \<or> rr_repeats c < 3
         | Some (low, high) \<Rightarrow> 3 \<le> rr_repeats b \<and> 3 \<le> rr_repeats c
             \<and> (flt_le low high \<or> (\<exists>k. resample E seed ds k = Inr NaN)))
     \<and> ''world_version_id'' \<notin> fst ` set (cp_confounders r)"
proof -
  obtain n where n: "valid_resamples resamples = Inr n" using assms(2) by (auto simp: compare_def bind_res_Inr_iff)
  obtain b c where runs: "get_run st bid ws = Some b" "get_run st cid ws = Some c" "rr_status b = Run_COMPLETE" "rr_status c = Run_COMPLETE"
    using assms(2) n by (auto simp: compare_def split: option.split_asm if_split_asm)
  obtain m m' where ms: "find (\<lambda>m. mt_metric_id m = mid) (sp_metrics (rr_spec b)) = Some m"
      "find (\<lambda>m. mt_metric_id m = mid) (sp_metrics (rr_spec c)) = Some m'" "co_metric_key E m = co_metric_key E m'"
    using assms(2) n runs by (auto simp: compare_def split: option.split_asm if_split_asm)
  have "compare_runs E st ws b c mid n seed = Inr (Comparable r)"
    using assms(2) n runs ms by (simp add: compare_def)
  from compare_runs_Comparable [OF assms(1) _ _ this] valid_resamples_Inr [OF n] runs ms show ?thesis by blast
qed

definition sample_comparison :: comparison_env where
  "sample_comparison = \<lparr>co_ext = no_externals, co_row_order = id, co_metric_key = mt_metric_id, co_dump = xv_value,
     co_random = (\<lambda>_ _ _. 0)\<rparr>"

definition scored_row :: "string \<Rightarrow> int \<Rightarrow> flt \<Rightarrow> case_metric_row" where
  "scored_row rid revision x = \<lparr>cm_run = rid, cm_case = ''c1'', cm_metric = ''m'', cm_workspace = ''w1'', cm_revision = revision,
     cm_status = PASS, cm_score = Some x, cm_raw = VNull, cm_evidence = [], cm_version = None, cm_judge = None,
     cm_authoritative = True, cm_override = False, cm_overridden = False, cm_computed = 0\<rparr>"

definition two_runs :: "case_metric_row list \<Rightarrow> store" where
  "two_runs rows =
     (let one = sample_tables Run_COMPLETE Case_COMPLETED in
      one\<lparr>st_runs := st_runs one @ map (\<lambda>r. r\<lparr>rr_id := ''r2''\<rparr>) (st_runs one),
          st_cases := st_cases one @ map (\<lambda>c. c\<lparr>cr_run := ''r2''\<rparr>) (st_cases one), st_case_metrics := rows\<rparr>)"

lemma sample_comparison_faithful: "faithful sample_comparison"
  by (simp add: faithful_def sample_comparison_def no_externals_def)

theorem comparable_runs_witness:
  "\<exists>r. compare sample_comparison (two_runs [scored_row ''r1'' 1 (Fin 0), scored_row ''r2'' 1 (Fin 1)]) ''w1'' ''r1'' ''r2'' ''m''
         (VInt 100) (VInt 0) = Inr (Comparable r) \<and> cp_scored_cases r \<le> cp_common_cases r"
proof -
  let ?st = "two_runs [scored_row ''r1'' 1 (Fin 0), scored_row ''r2'' 1 (Fin 1)]"
  have "(case compare sample_comparison ?st ''w1'' ''r1'' ''r2'' ''m'' (VInt 100) (VInt 0) of
      Inr (Comparable r) \<Rightarrow> True | _ \<Rightarrow> False)" by code_simp
  then obtain r where r: "compare sample_comparison ?st ''w1'' ''r1'' ''r2'' ''m'' (VInt 100) (VInt 0) = Inr (Comparable r)"
    by (auto split: sum.splits compared.splits)
  show ?thesis using comparable_runs [OF sample_comparison_faithful r] r by auto
qed

text \<open>Scores of a revision that re-scored one run with another metric enter the comparison.\<close>

lemma comparison_mixes_revisions:
  "(case compare sample_comparison
       (two_runs [scored_row ''r1'' 1 (Fin 0), scored_row ''r2'' 1 (Fin 0), scored_row ''r2'' 2 (Fin 1)])
       ''w1'' ''r1'' ''r2'' ''m'' (VInt 100) (VInt 0) of
     Inr (Comparable r) \<Rightarrow> cp_delta r = Fin 1 | _ \<Rightarrow> False)"
  by code_simp

text \<open>The only exceptions are those for a bad number of resamples and for a run that is not there.\<close>

lemma comparison_total:
  assumes "faithful E"
  shows "(case compare E st ws bid cid mid resamples seed of
      Inr c \<Rightarrow> True
    | Inl e \<Rightarrow> e = WorkflowError ''validation_error''
        \<or> e = NotFound \<and> (get_run st bid ws = None \<or> get_run st cid ws = None))"
proof (cases "valid_resamples resamples")
  case (Inl e)
  then show ?thesis using valid_resamples_Inl by (auto simp: compare_def)
next
  case (Inr n)
  note n = valid_resamples_Inr [OF Inr]
  have "\<exists>x. compare_runs E st ws b c mid n seed = Inr x" for b c
  proof -
    define ds where "ds = List.map_filter (paired_delta (cases_by_key st (rr_id b) ws) (cases_by_key st (rr_id c) ws)
        (authoritative_scores E st (rr_id b) ws mid) (authoritative_scores E st (rr_id c) ws mid))
        (common_keys (cases_by_key st (rr_id b) ws) (cases_by_key st (rr_id c) ws))"
    show ?thesis
      using bootstrap_interval [OF assms, of ds n seed] n
      by (cases "ds = []") (auto simp: compare_runs_def Let_def ds_def [symmetric] split: option.split)
  qed
  then have "compare_runs E st ws b c mid n seed \<noteq> Inl e" for b c e by (metis sum.distinct(1))
  then show ?thesis
    using Inr by (auto simp: compare_def split: option.split sum.split if_split)
qed

end
