(* ===== verification/Rescoring.thy ===== *)
theory Rescoring
  imports Comparisons Engine
begin

text \<open>
  Evidence-only score revisions (\<open>rescore.py\<close>): a replacement metric is evaluated on the stored trace and
  output of the first attempt of each case, and its scores and aggregate are written as rows of a new
  revision. No target is invoked.

  The service reads in several transactions and writes one row per transaction; it is the only writer
  meanwhile. The gateway with its judges, the custom evaluators and pydantic's reading of the metric are
  parameters; the registry holds what the calibration service answers.
\<close>

record rescore_env =
  rx_ext :: externals
  rx_now :: "nat \<Rightarrow> int"
  rx_row_order :: "case_metric_row list \<Rightarrow> case_metric_row list"
  rx_gateway :: "(judgment_context \<Rightarrow> judge_binding \<Rightarrow> judge res) option"
  rx_readiness :: "registry option"
  rx_custom :: "(pyval \<Rightarrow> custom_evaluator res) option"
  rx_dump :: "trace_event \<Rightarrow> pyval"

text \<open>What the client asks for: the metric as pydantic reads its fields, if it can, and whether it sets
  \<open>provisional\<close>; the revision; the cases, none of them meaning all.\<close>

record rescore_request =
  rq_metric :: "(bool \<times> metric) option"
  rq_revision :: pyval
  rq_cases :: "string list"

abbreviation Unavailable :: exn where
  "Unavailable \<equiv> WorkflowError ''rescore_evidence_unavailable''"

section \<open>Checks\<close>

definition rescored_run :: "store \<Rightarrow> string \<Rightarrow> string \<Rightarrow> run_row res" where
  "rescored_run st rid ws =
     (case get_run st rid ws of
        None \<Rightarrow> Inl NotFound
      | Some r \<Rightarrow> if rr_status r = Run_COMPLETE then Inr r else Inl (WorkflowError ''rescore_run_incomplete''))"

definition new_revision :: "pyval \<Rightarrow> int res" where
  "new_revision v =
     (case v of VInt i \<Rightarrow> if 1 < i then Inr i else Inl (WorkflowError ''validation_error'')
      | _ \<Rightarrow> Inl (WorkflowError ''validation_error''))"

definition replacement_metric :: "externals \<Rightarrow> (bool \<times> metric) option \<Rightarrow> string \<Rightarrow> metric res" where
  "replacement_metric X read mid =
     (case read of
        None \<Rightarrow> Inl (WorkflowError ''validation_error'')
      | Some (set_provisional, m) \<Rightarrow>
          (case validate_metric X set_provisional m of
             Inl e \<Rightarrow> Inl (WorkflowError ''validation_error'')
           | Inr m' \<Rightarrow> if mt_metric_id m' = mid then Inr m' else Inl (WorkflowError ''validation_error'')))"

definition revision_is_new :: "rescore_env \<Rightarrow> store \<Rightarrow> string \<Rightarrow> string \<Rightarrow> string \<Rightarrow> int \<Rightarrow> unit res" where
  "revision_is_new E st rid ws mid revision =
     ensure (\<not> list_ex (\<lambda>r. revision \<le> cm_revision r) (get_case_scores (rx_row_order E) st rid ws None (Some mid) None))
       (WorkflowError ''score_revision_exists'')"

definition selected_cases :: "run_row \<Rightarrow> string list \<Rightarrow> test_case list res" where
  "selected_cases rw cids =
     (if set cids \<subseteq> set (map tc_case_id (sp_cases (rr_spec rw)))
      then Inr (filter (\<lambda>c. cids = [] \<or> tc_case_id c \<in> set cids) (sp_cases (rr_spec rw)))
      else Inl (WorkflowError ''validation_error''))"

text \<open>\<open>(run.world_config.get("evaluator_versions") or {}).get(metric_id)\<close>\<close>

definition evaluator_version_of :: "run_row \<Rightarrow> string \<Rightarrow> pyval res" where
  "evaluator_version_of rw mid =
     (let v = dict_get (rr_world rw) ''evaluator_versions'' in
      if \<not> truthy v then Inr VNull
      else case v of VDict d \<Rightarrow> Inr (dict_get d mid) | _ \<Rightarrow> Inl AttributeError)"

definition custom_of :: "rescore_env \<Rightarrow> run_row \<Rightarrow> string \<Rightarrow> custom_evaluator option res" where
  "custom_of E rw mid =
     bind_res (evaluator_version_of rw mid) (\<lambda>v.
       if \<not> truthy v then Inr None
       else case rx_custom E of
           None \<Rightarrow> Inl (WorkflowError ''rescore_evaluator_unavailable'')
         | Some execution \<Rightarrow> bind_res (execution v) (\<lambda>c. Inr (Some c)))"

section \<open>Scoring stored evidence\<close>

definition first_completed :: "store \<Rightarrow> string \<Rightarrow> string \<Rightarrow> string \<Rightarrow> attempt_row option" where
  "first_completed st rid ws cid =
     find (\<lambda>a. ar_attempt a = 0 \<and> ar_status a = Attempt_COMPLETED) (list_attempts st rid ws (Some cid))"

definition gateway_judge :: "rescore_env \<Rightarrow> metric \<Rightarrow> pyval option \<Rightarrow> trace_event list \<Rightarrow> judge option res" where
  "gateway_judge E m output events =
     (if mt_type m \<noteq> M_judge then Inr None
      else case rx_gateway E of
          None \<Rightarrow> Inl (WorkflowError ''judge_unavailable'')
        | Some g \<Rightarrow>
            (case mt_judge_binding m of
               None \<Rightarrow> Inl AttributeError
             | Some b \<Rightarrow> bind_res (g \<lparr>jc_output = output, jc_events = events\<rparr> b) (\<lambda>j. Inr (Some j))))"

definition rescore_case_evidence ::
  "rescore_env \<Rightarrow> evaluation_spec \<Rightarrow> metric \<Rightarrow> custom_evaluator option \<Rightarrow> string \<Rightarrow> string \<Rightarrow> store \<Rightarrow> test_case \<Rightarrow> case_score res" where
  "rescore_case_evidence E spec m custom rid ws st c =
     (case first_completed st rid ws (tc_case_id c) of
        None \<Rightarrow> Inl Unavailable
      | Some a \<Rightarrow>
          let events = get_trace_events st rid ws None (Some (ar_id a)); output = get_attempt_output st (ar_id a) ws in
          bind_res (gateway_judge E m output events) (\<lambda>j.
            case custom of
              Some ce \<Rightarrow>
                score_custom spec (tc_case_id c) events m (rx_dump E) (ce_evaluate ce) (ce_version ce) (ce_threshold ce) []
                  (or_null output) \<lparr>tg_attempt = 0, tg_override = False, tg_provisional = mt_provisional m\<rparr>
            | None \<Rightarrow>
                if tg_type (mt_target m) \<in> {T_final_response, T_state_change, T_workflow_node, T_external} then
                  (case output of
                     None \<Rightarrow> Inl Unavailable
                   | Some v \<Rightarrow> score_output (rx_ext E) spec (tc_case_id c) v m j 0 False)
                else score_attempt (rx_ext E) spec (tc_case_id c) events m j))"

section \<open>Writing the revision\<close>

definition save_score ::
  "rescore_env \<Rightarrow> string \<Rightarrow> string \<Rightarrow> metric \<Rightarrow> int \<Rightarrow> test_case \<times> case_score \<Rightarrow> unit eng" where
  "save_score E rid ws m revision p =
     tx (\<lambda>n st. bind_res (sql_int revision) (\<lambda>_.
       upsert_case_metric_results rid (tc_case_id (fst p)) ws [snd p] [(mt_metric_id m, m)] revision (rx_now E n) st))"

definition revision_gate :: "rescore_env \<Rightarrow> metric \<Rightarrow> run_aggregate \<Rightarrow> gate_status" where
  "revision_gate E m agg =
     (if m \<in> set (fst (gate_safe [m] (rx_readiness E))) then
        (let g = evaluate_gate m agg in
         if gr_passed g then Gate_PASS else if gr_active g then Gate_FAIL else Gate_NOT_APPLICABLE)
      else Gate_NOT_APPLICABLE)"

definition save_aggregate :: "rescore_env \<Rightarrow> run_row \<Rightarrow> string \<Rightarrow> metric \<Rightarrow> int \<Rightarrow> run_aggregate \<Rightarrow> unit eng" where
  "save_aggregate E rw ws m revision agg =
     tx (\<lambda>n st. bind_res (sql_int revision) (\<lambda>_.
       upsert_run_metric_result (rr_id rw) ws m agg revision (Some (revision_gate E m agg)) (rr_repeats rw < 3) (rx_now E n) st))"

text \<open>What is returned: the number of cases and the aggregate.\<close>

definition rescore ::
  "rescore_env \<Rightarrow> actor \<Rightarrow> string \<Rightarrow> string \<Rightarrow> rescore_request \<Rightarrow> (nat \<times> run_aggregate) eng" where
  "rescore E a rid mid rq s =
     bind_w (lift (require_actor a True None) s) (\<lambda>_ s.
     bind_w (reading (\<lambda>st. rescored_run st rid (ac_workspace_id a)) s) (\<lambda>rw s.
     bind_w (lift (new_revision (rq_revision rq)) s) (\<lambda>revision s.
     bind_w (lift (replacement_metric (rx_ext E) (rq_metric rq) mid) s) (\<lambda>m s.
     bind_w (reading (\<lambda>st. revision_is_new E st rid (ac_workspace_id a) mid revision) s) (\<lambda>_ s.
     bind_w (lift (selected_cases rw (rq_cases rq)) s) (\<lambda>cases s.
     bind_w (lift (custom_of E rw mid) s) (\<lambda>custom s.
     let spec = (rr_spec rw)\<lparr>sp_metrics := [m]\<rparr> in
     bind_w (reading (\<lambda>st. traverse (rescore_case_evidence E spec m custom rid (ac_workspace_id a) st) cases) s) (\<lambda>scores s.
     bind_w (each_w (save_score E rid (ac_workspace_id a) m revision) (zip cases scores) s) (\<lambda>_ s.
     bind_w (lift (aggregate_metric (rx_ext E) spec m scores (Some (int (length cases))) False) s) (\<lambda>agg s.
     bind_w (save_aggregate E rw (ac_workspace_id a) m revision agg s) (\<lambda>_ s.
       (Inr (length scores, agg), s))))))))))))"

end
