(* ===== verification/RescoringProps.thy ===== *)
theory RescoringProps
  imports Rescoring EngineProps ScoringSafety CalibrationProps
begin

text \<open>
  What re-scoring may do to the tables: it adds rows of the new revision of one metric of one run and
  leaves everything else as it is, whatever happens; and when it returns, the revision is complete. The
  writes are separate transactions, so an interruption leaves a part of a revision behind, after which the
  same revision is refused.
\<close>

section \<open>The scores are of the metric\<close>

text \<open>Judges behave; that of the gateway is checked by its own code.\<close>

definition sound_gateway :: "rescore_env \<Rightarrow> bool" where
  "sound_gateway E =
     (case rx_gateway E of None \<Rightarrow> True | Some g \<Rightarrow> (\<forall>ctx b jd. g ctx b = Inr jd \<longrightarrow> well_behaved jd))"

definition of_metric :: "metric \<Rightarrow> case_score res \<Rightarrow> bool" where
  "of_metric m r = (case r of Inl e \<Rightarrow> True | Inr x \<Rightarrow> cs_metric_id x = mt_metric_id m)"

lemma of_metric_error: "of_metric m (Inr (error_result m c t))"
  by (simp add: of_metric_def error_result_def case_result_def)

lemma of_metric_result: "(\<And>x. r = Inr x \<Longrightarrow> result_of m c t A x) \<Longrightarrow> of_metric m r"
  by (cases r) (auto simp: of_metric_def dest: result_override)

lemma of_metric_missing: "of_metric m (on_missing_result m c t)"
  by (rule of_metric_result [where A = "{}"]) (rule result_missing)

lemma of_metric_contained: "of_metric m r \<Longrightarrow> of_metric m (contain_errors m c t r)"
  using of_metric_error by (auto simp: contain_errors_def of_metric_def split: sum.splits)

lemma of_metric_bind: "(\<And>x. r = Inr x \<Longrightarrow> of_metric m (f x)) \<Longrightarrow> of_metric m (bind_res r f)"
  by (cases r) (simp_all add: of_metric_def)

lemma of_metric_attempt:
  "(\<And>jd. j = Some jd \<Longrightarrow> well_behaved jd) \<Longrightarrow> of_metric m (score_attempt X spec cid events m j)"
  by (rule of_metric_result) (rule result_attempt)

lemma of_metric_output:
  assumes "\<And>jd. j = Some jd \<Longrightarrow> well_behaved jd"
  shows "of_metric m (score_output X spec cid v m j att ov)"
proof -
  have judged: "of_metric m (finish_judge X m cid c jd [] t)" if "j = Some jd" for c jd t
    by (rule of_metric_result [where A = "{}"]) (rule result_finish_judge [OF _ assms [OF that]], simp_all)
  have observed: "of_metric m (score_observed_value X m cid vs [] c t)" for vs c t
    by (rule of_metric_result [where A = "{}"]) (rule result_observed, simp_all)
  show ?thesis
    unfolding score_output_def Let_def
    by (intro of_metric_bind of_metric_contained)
      (auto intro: of_metric_attempt [OF assms] judged observed of_metric_bind simp: of_metric_def [of m "Inl _"] split: option.split)
qed

lemma of_metric_custom: "of_metric m (score_custom spec cid events m dump f v th refs out t)"
  using of_metric_missing [of m cid t]
  by (auto simp: score_custom_def custom_result_def of_metric_def bind_res_Inr_iff verdict_result_def case_result_def
      error_result_def Let_def bind_res_def split: sum.splits if_splits)

lemma rescored_of_metric:
  assumes "sound_gateway E"
  shows "of_metric m (rescore_case_evidence E spec m custom rid ws st c)"
proof (cases "first_completed st rid ws (tc_case_id c)")
  case (Some a)
  let ?es = "get_trace_events st rid ws None (Some (ar_id a))" and ?out = "get_attempt_output st (ar_id a) ws"
  have sound: "well_behaved jd" if "gateway_judge E m ?out ?es = Inr (Some jd)" for jd
    using that assms by (auto simp: gateway_judge_def sound_gateway_def bind_res_Inr_iff split: if_splits option.splits)
  show ?thesis
    unfolding rescore_case_evidence_def Some Let_def option.simps
    by (intro of_metric_bind)
      (auto intro!: of_metric_custom of_metric_output of_metric_attempt sound simp: of_metric_def [of m "Inl _"] split: option.split)
qed (simp add: rescore_case_evidence_def of_metric_def)

section \<open>What may change\<close>

definition in_revision :: "string \<Rightarrow> string \<Rightarrow> int \<Rightarrow> case_metric_row \<Rightarrow> bool" where
  "in_revision rid mid revision r = (cm_run r = rid \<and> cm_metric r = mid \<and> cm_revision r = revision)"

definition aggregate_of :: "string \<Rightarrow> string \<Rightarrow> int \<Rightarrow> run_metric_row \<Rightarrow> bool" where
  "aggregate_of rid mid revision r = (rm_run r = rid \<and> rm_metric r = mid \<and> rm_revision r = revision)"

definition only_revision :: "string \<Rightarrow> string \<Rightarrow> int \<Rightarrow> store \<Rightarrow> store \<Rightarrow> bool" where
  "only_revision rid mid revision st st' =
     ((\<exists>cs rs. st' = st\<lparr>st_case_metrics := cs, st_run_metrics := rs\<rparr>)
      \<and> filter (\<lambda>r. \<not> in_revision rid mid revision r) (st_case_metrics st')
          = filter (\<lambda>r. \<not> in_revision rid mid revision r) (st_case_metrics st)
      \<and> filter (\<lambda>r. \<not> aggregate_of rid mid revision r) (st_run_metrics st')
          = filter (\<lambda>r. \<not> aggregate_of rid mid revision r) (st_run_metrics st))"

lemma only_revision_refl [simp]: "only_revision rid mid revision st st"
proof -
  have "st = st\<lparr>st_case_metrics := st_case_metrics st, st_run_metrics := st_run_metrics st\<rparr>" by simp
  then show ?thesis unfolding only_revision_def by blast
qed

lemma only_revision_cases:
  assumes "only_revision rid mid revision st0 st"
    and "filter (\<lambda>r. \<not> in_revision rid mid revision r) cs = filter (\<lambda>r. \<not> in_revision rid mid revision r) (st_case_metrics st)"
  shows "only_revision rid mid revision st0 (st\<lparr>st_case_metrics := cs\<rparr>)"
proof -
  obtain cs' rs where "st = st0\<lparr>st_case_metrics := cs', st_run_metrics := rs\<rparr>" using assms(1) by (auto simp: only_revision_def)
  then have "st\<lparr>st_case_metrics := cs\<rparr> = st0\<lparr>st_case_metrics := cs, st_run_metrics := rs\<rparr>" by simp
  moreover have "st_run_metrics (st\<lparr>st_case_metrics := cs\<rparr>) = st_run_metrics st" "st_case_metrics (st\<lparr>st_case_metrics := cs\<rparr>) = cs"
    by simp_all
  ultimately show ?thesis using assms unfolding only_revision_def by metis
qed

lemma only_revision_runs:
  assumes "only_revision rid mid revision st0 st"
    and "filter (\<lambda>r. \<not> aggregate_of rid mid revision r) rs = filter (\<lambda>r. \<not> aggregate_of rid mid revision r) (st_run_metrics st)"
  shows "only_revision rid mid revision st0 (st\<lparr>st_run_metrics := rs\<rparr>)"
proof -
  obtain cs rs' where "st = st0\<lparr>st_case_metrics := cs, st_run_metrics := rs'\<rparr>" using assms(1) by (auto simp: only_revision_def)
  then have "st\<lparr>st_run_metrics := rs\<rparr> = st0\<lparr>st_case_metrics := cs, st_run_metrics := rs\<rparr>" by simp
  moreover have "st_run_metrics (st\<lparr>st_run_metrics := rs\<rparr>) = rs" "st_case_metrics (st\<lparr>st_run_metrics := rs\<rparr>) = st_case_metrics st"
    by simp_all
  ultimately show ?thesis using assms unfolding only_revision_def by metis
qed

lemma keys_upsert:
  assumes "\<And>r. key r = key new \<Longrightarrow> key (f r new) = key r"
  shows "key ` set (upsert key f new rows) = insert (key new) (key ` set rows)"
proof (cases "list_ex (\<lambda>r. key r = key new) rows")
  case True
  have "map key (update_where (\<lambda>r. key r = key new) (\<lambda>r. f r new) rows) = map key rows"
    by (rule map_update_where) (rule assms)
  then have "key ` set (update_where (\<lambda>r. key r = key new) (\<lambda>r. f r new) rows) = key ` set rows"
    by (metis set_map)
  moreover obtain r where "r \<in> set rows" "key r = key new" using True by (auto simp: list_ex_iff)
  then have "key new \<in> key ` set rows" by (metis imageI)
  ultimately show ?thesis using True by (simp add: upsert_def insert_absorb)
qed (simp add: upsert_def)

lemma only_revision_case:
  assumes "upsert_case_metric_results rid cid ws [x] mb revision now st = Inr (u, st')" and "cs_metric_id x = mid"
    and "only_revision rid mid revision st0 st"
  shows "only_revision rid mid revision st0 st'"
    and "case_metric_key ` set (st_case_metrics st') = insert (rid, cid, mid, revision) (case_metric_key ` set (st_case_metrics st))"
proof -
  let ?f = "\<lambda>old new. new\<lparr>cm_workspace := cm_workspace old, cm_overridden := cm_overridden old\<rparr>"
  obtain row where row: "score_row rid cid ws mb revision now x = Inr row"
    and st': "st' = st\<lparr>st_case_metrics := upsert case_metric_key ?f row (st_case_metrics st)\<rparr>"
    using assms(1) by (auto simp: upsert_case_metric_results_def bind_res_Inr_iff)
  have key: "case_metric_key row = (rid, cid, mid, revision)"
    using row assms(2) by (auto simp: score_row_def bind_res_Inr_iff case_metric_key_def)
  then have "filter (\<lambda>r. \<not> in_revision rid mid revision r) (upsert case_metric_key ?f row (st_case_metrics st))
      = filter (\<lambda>r. \<not> in_revision rid mid revision r) (st_case_metrics st)"
    by (intro filter_upsert) (auto simp: case_metric_key_def in_revision_def)
  then show "only_revision rid mid revision st0 st'"
    unfolding st' by (rule only_revision_cases [OF assms(3)])
  show "case_metric_key ` set (st_case_metrics st') = insert (rid, cid, mid, revision) (case_metric_key ` set (st_case_metrics st))"
    unfolding st' key [symmetric] using keys_upsert [of case_metric_key row ?f] by (simp add: case_metric_key_def)
qed

lemma only_revision_run:
  assumes "upsert_run_metric_result rid ws m agg revision g c now st = Inr (u, st')" and "mt_metric_id m = mid"
    and "only_revision rid mid revision st0 st"
  shows "only_revision rid mid revision st0 st'"
    and "list_ex (\<lambda>r. run_metric_key r = (rid, mid, revision) \<and> rm_value r = sql_real (ra_value agg)) (st_run_metrics st')"
proof -
  let ?f = "\<lambda>old new. new\<lparr>rm_workspace := rm_workspace old\<rparr>"
  obtain row where st': "st' = st\<lparr>st_run_metrics := upsert run_metric_key ?f row (st_run_metrics st)\<rparr>"
      and key: "run_metric_key row = (rid, mid, revision)" "rm_value row = sql_real (ra_value agg)"
    using assms(1,2) by (auto simp: upsert_run_metric_result_def run_metric_key_def)
  have "filter (\<lambda>r. \<not> aggregate_of rid mid revision r) (upsert run_metric_key ?f row (st_run_metrics st))
      = filter (\<lambda>r. \<not> aggregate_of rid mid revision r) (st_run_metrics st)"
    using key by (intro filter_upsert) (auto simp: run_metric_key_def aggregate_of_def)
  then show "only_revision rid mid revision st0 st'"
    unfolding st' by (rule only_revision_runs [OF assms(3)])
  show "list_ex (\<lambda>r. run_metric_key r = (rid, mid, revision) \<and> rm_value r = sql_real (ra_value agg)) (st_run_metrics st')"
  proof (cases "list_ex (\<lambda>r. run_metric_key r = run_metric_key row) (st_run_metrics st)")
    case True
    then obtain r where r: "r \<in> set (st_run_metrics st)" "run_metric_key r = run_metric_key row" by (auto simp: list_ex_iff)
    then have "?f r row \<in> set (st_run_metrics st')" using True by (auto simp: st' upsert_def update_where_def)
    moreover have "run_metric_key (?f r row) = (rid, mid, revision)" "rm_value (?f r row) = sql_real (ra_value agg)"
      using key by (simp_all add: run_metric_key_def)
    ultimately show ?thesis unfolding list_ex_iff by blast
  next
    case False
    then have "row \<in> set (st_run_metrics st')" by (simp add: st' upsert_def)
    then show ?thesis using key unfolding list_ex_iff by blast
  qed
qed

lemma save_scores_end:
  assumes "\<And>p. p \<in> set ps \<Longrightarrow> cs_metric_id (snd p) = mid" and "only_revision rid mid revision st0 (fst s)"
  shows "ends (each_w (save_score E rid ws m revision) ps s)
     (\<lambda>_ t. only_revision rid mid revision st0 (fst t)
        \<and> case_metric_key ` set (st_case_metrics (fst s)) \<union> (\<lambda>p. (rid, tc_case_id (fst p), mid, revision)) ` set ps
            \<subseteq> case_metric_key ` set (st_case_metrics (fst t)))
     (\<lambda>t. only_revision rid mid revision st0 (fst t))"
  using assms
proof (induction ps arbitrary: s)
  case (Cons p ps)
  have "ends (save_score E rid ws m revision p s)
      (\<lambda>_ t. only_revision rid mid revision st0 (fst t)
         \<and> case_metric_key ` set (st_case_metrics (fst t))
             = insert (rid, tc_case_id (fst p), mid, revision) (case_metric_key ` set (st_case_metrics (fst s))))
      (\<lambda>t. only_revision rid mid revision st0 (fst t))"
    unfolding save_score_def
  proof (rule ends_tx)
    fix x st
    assume "bind_res (sql_int revision) (\<lambda>_. upsert_case_metric_results rid (tc_case_id (fst p)) ws [snd p] [(mt_metric_id m, m)]
        revision (rx_now E (snd s)) (fst s)) = Inr (x, st)"
    then have "upsert_case_metric_results rid (tc_case_id (fst p)) ws [snd p] [(mt_metric_id m, m)] revision (rx_now E (snd s)) (fst s)
        = Inr (x, st)" by (auto simp: bind_res_Inr_iff)
    from only_revision_case [OF this Cons.prems(1) Cons.prems(2)]
    show "only_revision rid mid revision st0 (fst (st, Suc (snd s)))
         \<and> case_metric_key ` set (st_case_metrics (fst (st, Suc (snd s))))
             = insert (rid, tc_case_id (fst p), mid, revision) (case_metric_key ` set (st_case_metrics (fst s)))" by simp
  qed (simp add: Cons.prems)
  then show ?case unfolding each_w.simps
  proof (rule ends_bind)
    fix x and t :: estate
    assume t: "only_revision rid mid revision st0 (fst t)
         \<and> case_metric_key ` set (st_case_metrics (fst t))
             = insert (rid, tc_case_id (fst p), mid, revision) (case_metric_key ` set (st_case_metrics (fst s)))"
    have "ends (each_w (save_score E rid ws m revision) ps t)
       (\<lambda>_ t'. only_revision rid mid revision st0 (fst t')
          \<and> case_metric_key ` set (st_case_metrics (fst t)) \<union> (\<lambda>p. (rid, tc_case_id (fst p), mid, revision)) ` set ps
              \<subseteq> case_metric_key ` set (st_case_metrics (fst t')))
       (\<lambda>t. only_revision rid mid revision st0 (fst t))"
      using Cons.prems(1) t by (intro Cons.IH) simp_all
    then show "ends (each_w (save_score E rid ws m revision) ps t)
       (\<lambda>_ t'. only_revision rid mid revision st0 (fst t')
          \<and> case_metric_key ` set (st_case_metrics (fst s)) \<union> (\<lambda>p. (rid, tc_case_id (fst p), mid, revision)) ` set (p # ps)
              \<subseteq> case_metric_key ` set (st_case_metrics (fst t')))
       (\<lambda>t. only_revision rid mid revision st0 (fst t))"
      by (rule ends_mono) (use t in auto)
  qed
qed simp

section \<open>Re-scoring\<close>

text \<open>What re-scoring returned, as the tables before and after show it.\<close>

definition revision_complete ::
  "rescore_env \<Rightarrow> string \<Rightarrow> string \<Rightarrow> string \<Rightarrow> rescore_request \<Rightarrow> int \<Rightarrow> nat \<times> run_aggregate \<Rightarrow> store \<Rightarrow> store \<Rightarrow> bool" where
  "revision_complete E rid ws mid rq revision x st st' =
     (\<exists>rw m cs. get_run st rid ws = Some rw \<and> rr_status rw = Run_COMPLETE
        \<and> replacement_metric (rx_ext E) (rq_metric rq) mid = Inr m
        \<and> selected_cases rw (rq_cases rq) = Inr cs \<and> fst x = length cs
        \<and> \<not> list_ex (\<lambda>r. revision \<le> cm_revision r) (get_case_scores (rx_row_order E) st rid ws None (Some mid) None)
        \<and> list_all (\<lambda>c. first_completed st rid ws (tc_case_id c) \<noteq> None
              \<and> list_ex (\<lambda>r. case_metric_key r = (rid, tc_case_id c, mid, revision)) (st_case_metrics st')) cs
        \<and> list_ex (\<lambda>r. run_metric_key r = (rid, mid, revision) \<and> rm_value r = sql_real (ra_value (snd x))) (st_run_metrics st'))"

lemma bind_pure:
  "(\<And>x. r = Inr x \<Longrightarrow> ends (f x s) Q R) \<Longrightarrow> R s \<Longrightarrow> ends (bind_w (lift r s) f) Q R"
  "(\<And>x. g (fst s) = Inr x \<Longrightarrow> ends (f x s) Q R) \<Longrightarrow> R s \<Longrightarrow> ends (bind_w (reading g s) f) Q R"
  by (cases r; simp add: lift_def) (cases "g (fst s)"; simp add: reading_def)

lemma replacement_metric_Inr: "replacement_metric X q mid = Inr m \<Longrightarrow> mt_metric_id m = mid"
  by (auto simp: replacement_metric_def split: option.splits prod.splits sum.splits if_splits)

lemma rescore_ends:
  assumes E: "sound_gateway E" and rev: "rq_revision rq = VInt revision"
  shows "ends (rescore E a rid mid rq s)
     (\<lambda>x t. only_revision rid mid revision (fst s) (fst t)
        \<and> revision_complete E rid (ac_workspace_id a) mid rq revision x (fst s) (fst t))
     (\<lambda>t. only_revision rid mid revision (fst s) (fst t))"
    (is "ends _ ?Q ?R")
  unfolding rescore_def Let_def
proof (intro bind_pure)
  let ?ws = "ac_workspace_id a"
  fix u rw i m u' cs custom scores
  assume run: "rescored_run (fst s) rid ?ws = Inr rw" and i: "new_revision (rq_revision rq) = Inr i"
    and m: "replacement_metric (rx_ext E) (rq_metric rq) mid = Inr m"
    and new: "revision_is_new E (fst s) rid ?ws mid i = Inr u'"
    and cs: "selected_cases rw (rq_cases rq) = Inr cs"
    and scores: "traverse (rescore_case_evidence E ((rr_spec rw)\<lparr>sp_metrics := [m]\<rparr>) m custom rid ?ws (fst s)) cs = Inr scores"
  have i: "i = revision" using i rev by (auto simp: new_revision_def split: if_splits)
  have m_id: "mt_metric_id m = mid" using m by (rule replacement_metric_Inr)
  have rw: "get_run (fst s) rid ?ws = Some rw" "rr_status rw = Run_COMPLETE"
    using run by (auto simp: rescored_run_def split: option.splits if_splits)
  have rw_id: "rr_id rw = rid" using rw(1) by (auto simp: get_run_def find_Some_iff)
  have len: "length scores = length cs" by (rule traverse_length [OF scores])
  have ids: "cs_metric_id (snd p) = mid" if "p \<in> set (zip cs scores)" for p
  proof -
    have "snd p \<in> set scores" using that by (metis prod.collapse set_zip_rightD)
    then obtain c where "rescore_case_evidence E ((rr_spec rw)\<lparr>sp_metrics := [m]\<rparr>) m custom rid ?ws (fst s) c = Inr (snd p)"
      using traverse_set [OF scores] by blast
    then show ?thesis using rescored_of_metric [OF E, of m "(rr_spec rw)\<lparr>sp_metrics := [m]\<rparr>" custom rid ?ws "fst s" c] m_id
      by (simp add: of_metric_def)
  qed
  have evidence: "first_completed (fst s) rid ?ws (tc_case_id c) \<noteq> None" if c: "c \<in> set cs" for c
  proof -
    obtain y where y: "rescore_case_evidence E ((rr_spec rw)\<lparr>sp_metrics := [m]\<rparr>) m custom rid ?ws (fst s) c = Inr y"
      using scores c unfolding traverse_Inr_iff by (auto simp: list_all2_conv_all_nth in_set_conv_nth)
    show ?thesis
    proof
      assume "first_completed (fst s) rid ?ws (tc_case_id c) = None"
      then show False using y by (simp add: rescore_case_evidence_def)
    qed
  qed
  have covered: "(\<lambda>p. (rid, tc_case_id (fst p), mid, revision)) ` set (zip cs scores) = (\<lambda>c. (rid, tc_case_id c, mid, revision)) ` set cs"
  proof -
    have "(\<lambda>p. (rid, tc_case_id (fst p), mid, revision)) ` set (zip cs scores)
        = (\<lambda>c. (rid, tc_case_id c, mid, revision)) ` set (map fst (zip cs scores))" by auto
    then show ?thesis using len by simp
  qed
  have saved: "ends (each_w (save_score E rid ?ws m i) (zip cs scores) s)
     (\<lambda>_ t. only_revision rid mid revision (fst s) (fst t)
        \<and> case_metric_key ` set (st_case_metrics (fst s)) \<union> (\<lambda>c. (rid, tc_case_id c, mid, revision)) ` set cs
            \<subseteq> case_metric_key ` set (st_case_metrics (fst t)))
     (\<lambda>t. only_revision rid mid revision (fst s) (fst t))"
    unfolding i covered [symmetric] by (rule save_scores_end [OF ids]) simp_all
  show "ends (bind_w (each_w (save_score E rid ?ws m i) (zip cs scores) s) (\<lambda>_ s.
      bind_w (lift (aggregate_metric (rx_ext E) ((rr_spec rw)\<lparr>sp_metrics := [m]\<rparr>) m scores (Some (int (length cs))) False) s) (\<lambda>agg s.
      bind_w (save_aggregate E rw ?ws m i agg s) (\<lambda>_ s. (Inr (length scores, agg), s))))) ?Q ?R"
  proof (rule ends_bind [OF saved], intro bind_pure)
    fix x agg and t :: estate
    assume t: "only_revision rid mid revision (fst s) (fst t)
        \<and> case_metric_key ` set (st_case_metrics (fst s)) \<union> (\<lambda>c. (rid, tc_case_id c, mid, revision)) ` set cs
            \<subseteq> case_metric_key ` set (st_case_metrics (fst t))"
    have "ends (save_aggregate E rw ?ws m i agg t)
       (\<lambda>_ t'. only_revision rid mid revision (fst s) (fst t') \<and> st_case_metrics (fst t') = st_case_metrics (fst t)
          \<and> list_ex (\<lambda>r. run_metric_key r = (rid, mid, revision) \<and> rm_value r = sql_real (ra_value agg)) (st_run_metrics (fst t')))
       ?R"
      unfolding save_aggregate_def i rw_id
    proof (rule ends_tx)
      fix x st
      assume "bind_res (sql_int revision) (\<lambda>_. upsert_run_metric_result rid ?ws m agg revision (Some (revision_gate E m agg))
          (rr_repeats rw < 3) (rx_now E (snd t)) (fst t)) = Inr (x, st)"
      then have "upsert_run_metric_result rid ?ws m agg revision (Some (revision_gate E m agg))
          (rr_repeats rw < 3) (rx_now E (snd t)) (fst t) = Inr (x, st)" by (auto simp: bind_res_Inr_iff)
      from only_revision_run [OF this m_id conjunct1 [OF t]] this
      show "only_revision rid mid revision (fst s) (fst (st, Suc (snd t))) \<and> st_case_metrics (fst (st, Suc (snd t))) = st_case_metrics (fst t)
          \<and> list_ex (\<lambda>r. run_metric_key r = (rid, mid, revision) \<and> rm_value r = sql_real (ra_value agg)) (st_run_metrics (fst (st, Suc (snd t))))"
        by (auto simp: upsert_run_metric_result_def)
    qed (simp add: t)
    then show "ends (bind_w (save_aggregate E rw ?ws m i agg t) (\<lambda>_ s. (Inr (length scores, agg), s))) ?Q ?R"
    proof (rule ends_bind)
      fix y and t' :: estate
      assume t': "only_revision rid mid revision (fst s) (fst t') \<and> st_case_metrics (fst t') = st_case_metrics (fst t)
          \<and> list_ex (\<lambda>r. run_metric_key r = (rid, mid, revision) \<and> rm_value r = sql_real (ra_value agg)) (st_run_metrics (fst t'))"
      have "list_ex (\<lambda>r. case_metric_key r = (rid, tc_case_id c, mid, revision)) (st_case_metrics (fst t'))" if "c \<in> set cs" for c
        using t t' that by (fastforce simp: list_ex_iff image_iff)
      then have "revision_complete E rid ?ws mid rq revision (length scores, agg) (fst s) (fst t')"
        unfolding revision_complete_def
        using rw m cs len new i evidence t' by (intro exI [of _ rw] exI [of _ m] exI [of _ cs])
          (auto simp: revision_is_new_def list_all_iff)
      then show "ends (Inr (length scores, agg), t') ?Q ?R" using t' by simp
    qed
  qed (simp_all)
qed simp_all


definition sample_rescore :: rescore_env where
  "sample_rescore = \<lparr>rx_ext = no_externals, rx_now = int, rx_row_order = id, rx_gateway = None, rx_readiness = None,
     rx_custom = None, rx_dump = (\<lambda>e. VNull)\<rparr>"

definition sample_request :: rescore_request where
  "sample_request = \<lparr>rq_metric = Some (False, sample_metric A_mean None), rq_revision = VInt 2, rq_cases = []\<rparr>"

definition first_owner :: actor where
  "first_owner = owner\<lparr>ac_workspace_id := ''w1''\<rparr>"

definition evidence_tables :: "case_metric_row list \<Rightarrow> store" where
  "evidence_tables rows = (sample_tables Run_COMPLETE Case_COMPLETED)
     \<lparr>st_attempts := [\<lparr>ar_id = ''a1'', ar_run = ''r1'', ar_case = ''c1'', ar_workspace = ''w1'', ar_repeat = 0, ar_attempt = 0,
        ar_first = True, ar_status = Attempt_COMPLETED, ar_exit = Some 0, ar_events = 0, ar_truncated = False,
        ar_started = None, ar_finished = None\<rparr>], st_case_metrics := rows\<rparr>"


text \<open>A row that an interrupted call left behind makes the same revision unavailable for good.\<close>

lemma partial_revision_refused:
  "fst (rescore sample_rescore first_owner ''r1'' ''m'' sample_request
     (evidence_tables [\<lparr>cm_run = ''r1'', cm_case = ''c0'', cm_metric = ''m'', cm_workspace = ''w1'', cm_revision = 2,
        cm_status = PASS, cm_score = Some (Fin 1), cm_raw = VNull, cm_evidence = [], cm_version = None, cm_judge = None,
        cm_authoritative = True, cm_override = False, cm_overridden = False, cm_computed = 0\<rparr>], 0))
   = Inl (WorkflowError ''score_revision_exists'')"
  by code_simp

end
