(* ===== verification/Spec2Isabelle.thy ===== *)
theory Spec2Isabelle
  imports Lifecycle ScoringSafety ObservationProps WorkerProps ScheduleProps RedactionProps ComparisonProps RescoringProps
begin

text \<open>
  Verification development of Traceline, the evaluation engine for LLM agents under
  \<open>src/src/llm_agent_eval\<close>.

  \<^bold>\<open>The program.\<close> An author writes a specification (\<open>spec.py\<close>): test cases and metrics, each with a target
  in the trace or the output of the agent, an evaluator, a scoring and perhaps a gate. Versions of
  specifications, datasets and targets are appended under compare-and-swap (\<open>versions.py\<close>). A plan
  (\<open>run_plans.py\<close>) checks that everything a run needs exists and is ready; an authorization, short-lived
  and bound to the digest of the plan, admits it to the durable job queue (\<open>jobs.py\<close>), directly or from a
  daily schedule (\<open>schedules.py\<close>). Workers (\<open>worker_service.py\<close>, \<open>worker.py\<close>) lease jobs and run them. The
  execution engine (\<open>engine.py\<close>) invokes the agent for every case (\<open>runner.py\<close>), ingests its trace
  (\<open>events.py\<close>, \<open>redaction.py\<close>) into the tables of \<open>storage.py\<close>, scores each attempt (\<open>evaluators.py\<close> with
  \<open>predicates.py\<close>, \<open>trace_rules.py\<close>, \<open>judge.py\<close>, \<open>retrieval.py\<close>), aggregates and gates, moving runs, cases
  and attempts through the status machines of \<open>lifecycle.py\<close>.

  \<^bold>\<open>Values.\<close> \<open>Prelude\<close> has the exceptions of the code as one type and \<open>'a res\<close>, the outcome of a call that may
  raise; \<open>bind_res\<close> sequences such calls, \<open>bind_w\<close> calls that also change a state, which an exception does not
  undo. \<open>Floats\<close> is IEEE double arithmetic with its rounding written out over the rationals, with NaN and
  the infinities; there is one zero,
  whose sign no modelled operation but the JSON text of a label would read. \<open>PyValues\<close> is the JSON-like value type \<open>pyval\<close> with Python's equality,
  ordering, truth and number parsing. Strings are lists of characters with code points 0 to 255; a
  character above is the outcome \<open>UnmodelledCodePoint\<close>. Integers are unbounded, as in Python; where a
  64-bit column takes one, the bound is checked (\<open>sql_int\<close>).

  \<^bold>\<open>Theories and code.\<close>
  \<^item> \<open>Lifecycle\<close>: \<open>lifecycle.py\<close>, the four transition tables and \<open>transition\<close>; the locale \<open>status_machine\<close> is the
    contract of a table, interpreted on all four. A complete run has passed every stage in order.
  \<^item> \<open>Events\<close>: \<open>events.py\<close>, the trace-event envelope and its validator.
  \<^item> \<open>Predicates\<close>, \<open>PredicateEval\<close>, \<open>PredicateParsing\<close>, \<open>PredicateProps\<close>: \<open>predicates.py\<close>, the lexer, the parser and
    three-valued evaluation. Parsing inverts printing, compiled trees stay in the whitelist, evaluation is
    strong Kleene logic, and an absent field never decides a verdict. The parser runs on fuel, the number
    of tokens, of which each level spends at least one; the nesting cap is the source's.
  \<^item> \<open>TraceRules\<close>, \<open>TraceRuleOrder\<close>, \<open>TraceRuleProps\<close>: \<open>trace_rules.py\<close>, the order of events, the twelve
    operators and \<open>evaluate_rule\<close>, refined to a set-based meaning, independent of the storage order, with
    real evidence; the loop over parent references is bounded by the number of events.
  \<^item> \<open>SpecModel\<close>, \<open>SpecProps\<close>: \<open>spec.py\<close>, every model and validator, and what an accepted specification has.
  \<^item> \<open>Judge\<close>: \<open>judge.py\<close> and \<open>retrieval.py\<close>; the locale \<open>judge_evaluator\<close> is the contract of a judge, interpreted on
    the shipped judges, and readiness is earned, never set.
  \<^item> \<open>Conditions\<close>, \<open>ConditionProps\<close>, \<open>Aggregation\<close>, \<open>AggregationProps\<close>, \<open>Scoring\<close>, \<open>ScoringProps\<close>, \<open>ScoringSafety\<close>,
    \<open>ObservationProps\<close>: \<open>evaluators.py\<close>, from target selection through every evaluator to rollups, percentiles
    and gates. Results are well formed and reproducible, retries never count, errors are contained,
    percentiles are exact nearest ranks for fewer than \<open>2 ^ 40\<close> values, where the float rank is exact.
  \<^item> \<open>JobQueue\<close>, \<open>JobQueueProps\<close>, \<open>JobQueueSafety\<close>: \<open>jobs.py\<close>, the job and outbox tables and each operation as one
    transaction. An invariant of all reachable tables, fencing, idempotency, reclaim, isolation.
  \<^item> \<open>Worker\<close>, \<open>WorkerProps\<close>: \<open>worker_service.py\<close> and the fair choice of \<open>worker.py\<close>, with everything others do to the
    database between two transactions as a parameter (\<open>world\<close>).
  \<^item> \<open>Versions\<close>, \<open>RunPlans\<close>, \<open>Schedules\<close> with their \<open>Props\<close> theories: \<open>versions.py\<close>, \<open>run_plans.py\<close>, \<open>schedules.py\<close> and
    their tables.
  \<^item> \<open>Redaction\<close>: \<open>redaction.py\<close>, the detectors as scanners and the walk over a value.
  \<^item> \<open>RunStore\<close>: the tables of \<open>storage.py\<close> that the engine works on, each operation as one transaction.
  \<^item> \<open>Runner\<close>: \<open>runner.py\<close>, the decision table over what the agent process leaves.
  \<^item> \<open>Engine\<close>: \<open>engine.py\<close>. The state is the tables with a count of steps; a call is a function from the state to
    an outcome and the state it leaves.
  \<^item> \<open>StoreOrders\<close>, \<open>EngineFrames\<close>: what an execution may do to the tables. The locales \<open>case_work\<close> and \<open>run_work\<close>
    are the contract of a preorder on the tables that the storage operations respect; within them every
    call of the engine respects it, also when it raises. The orders of \<open>StoreOrders\<close> interpret them: evidence
    only grows and statuses move along their tables, other runs, other cases and the run table stay.
  \<^item> \<open>EngineProps\<close>, \<open>RunSettlement\<close>, \<open>CaseProps\<close>: a run always lands, no case is left behind; repeats, retries and
    the classification of a case; ingestion, run creation and the smoke test; and the outcomes that
    escape the error handling of the code.
  \<^item> \<open>RedactionProps\<close>: redaction removes the canary and the values of sensitive keys, and through another
    interpretation of \<open>run_work\<close> no execution stores an event that has them.
  \<^item> \<open>Calibration\<close>, \<open>CalibrationProps\<close>: \<open>calibration.py\<close> with its tables, labels and agreement of judge bindings,
    each operation as its sequence of transactions. Calibration is earned by stored labels when operations
    run one at a time; a reset can be undone by a label recorded meanwhile. A float label \<open>-0.0\<close> is not
    told from \<open>0.0\<close>.
  \<^item> \<open>Comparisons\<close>, \<open>ComparisonProps\<close>: \<open>comparisons.py\<close>, why two runs cannot be compared, the paired deltas,
    confounders and bootstrap interval. Only runs that measured the same thing are compared, on
    authoritative scores; the quantile indices, computed in floats, are in range and in order for the at
    most 10000 resamples the code admits.
  \<^item> \<open>Rescoring\<close>, \<open>RescoringProps\<close>: \<open>rescore.py\<close>, new score revisions from stored evidence. Nothing but the rows
    of the requested revision changes, also when the call raises half way, and a revision that is returned
    is complete.

  \<^bold>\<open>Parameters.\<close> Code that is not the repository's is an argument: the record \<open>externals\<close> (ISO 8601 parsing,
  the cel engine, the \<open>re\<close> engine, \<open>str\<close> of floats, \<open>sum\<close> of floats, the order of a list with NaN), judges, custom
  evaluators, pydantic's dump and line parser, digests, fresh identifiers, clocks, the zone database,
  the agent process, the target adapter, and what other users of the database do. Theorems hold for all of
  them unless they name a hypothesis.

  \<^bold>\<open>Not modelled.\<close> HTTP and command-line surfaces, SQL text, network and subprocess calls, cryptography,
  dashboards, exports, model-driven authoring and source analysis: they are input and output around the
  parts above, or text rendering. Message texts of exceptions are left out everywhere.
\<close>

end
